(* ===== verification/Prelude.thy ===== *)
theory Prelude
  imports Main "HOL-Library.Word"
begin

text \<open>
  Shared vocabulary of the development: names for the C integer types, the collections of
  simplification rules the component theories fill, the search loop that several C functions
  share (scan an array for the first entry that satisfies a test), and generic lemmas on
  lists, update by index and circular indices.
\<close>

unbundle bit_operations_syntax

type_synonym u8 = "8 word"
type_synonym u16 = "16 word"
type_synonym u32 = "32 word"
type_synonym u64 = "64 word"

named_theorems mw_consts "values of the preprocessor constants of the C headers"
named_theorems sizes "values of the sizeof expressions of the C structures"
named_theorems frame "which parts of the state an operation leaves unchanged"

text \<open>The operator \<open>%\<close> of C: the remainder has the sign of the dividend.\<close>

definition c_rem :: "int \<Rightarrow> int \<Rightarrow> int" where
  "c_rem a b = (if a < 0 then - ((- a) mod b) else a mod b)"

section \<open>Searching an array from its start\<close>

text \<open>
  The loop \<^verbatim>\<open>for ( i = 0; i < n; i++ ) { if ( P( a[i] ) ) { ...; break; } }\<close>: the index of
  the first entry that satisfies \<open>P\<close>, if there is one.
\<close>

fun first_idx :: "('a \<Rightarrow> bool) \<Rightarrow> 'a list \<Rightarrow> nat option" where
  "first_idx P [] = None"
| "first_idx P (x # xs) = (if P x then Some 0 else map_option Suc (first_idx P xs))"

lemma first_idx_None: "first_idx P xs = None \<longleftrightarrow> (\<forall>x \<in> set xs. \<not> P x)"
  by (induction xs) auto

lemma first_idx_SomeD:
  assumes "first_idx P xs = Some i"
  shows "i < length xs" and "P (xs ! i)" and "\<And>j. j < i \<Longrightarrow> \<not> P (xs ! j)"
proof -
  have "i < length xs \<and> P (xs ! i) \<and> (\<forall>j<i. \<not> P (xs ! j))"
    using assms
  proof (induction xs arbitrary: i)
    case Nil
    then show ?case by simp
  next
    case (Cons x xs)
    then show ?case
      by (auto split: if_splits simp: nth_Cons split: nat.splits)
  qed
  then show "i < length xs" and "P (xs ! i)" and "\<And>j. j < i \<Longrightarrow> \<not> P (xs ! j)" by auto
qed

lemma first_idx_Some_ex: "i < length xs \<Longrightarrow> P (xs ! i) \<Longrightarrow> \<exists>j\<le>i. first_idx P xs = Some j"
proof (induction xs arbitrary: i)
  case Nil
  then show ?case by simp
next
  case (Cons x xs)
  show ?case
  proof (cases "P x")
    case True
    then show ?thesis by simp
  next
    case False
    with Cons.prems obtain k where k: "i = Suc k" by (cases i) auto
    with Cons.prems have "k < length xs" and "P (xs ! k)" by auto
    then obtain j where "j \<le> k" "first_idx P xs = Some j" using Cons.IH by blast
    with False k show ?thesis by (intro exI [of _ "Suc j"]) simp
  qed
qed

section \<open>Lists updated by index\<close>

text \<open>How many entries of an array satisfy a test, and what one update does to that number.\<close>

definition count_if :: "('a \<Rightarrow> bool) \<Rightarrow> 'a list \<Rightarrow> nat" where
  "count_if P xs = length (filter P xs)"

lemma count_if_le: "count_if P xs \<le> length xs"
  by (simp add: count_if_def)

lemma count_if_split_at:
  assumes "i < length xs"
  shows "count_if P xs = count_if P (take i xs) + (if P (xs ! i) then 1 else 0)
           + count_if P (drop (Suc i) xs)"
proof -
  have "xs = take i xs @ xs ! i # drop (Suc i) xs" using assms by (rule id_take_nth_drop)
  then have "count_if P xs = count_if P (take i xs @ xs ! i # drop (Suc i) xs)" by simp
  also have "\<dots> = count_if P (take i xs) + (if P (xs ! i) then 1 else 0)
      + count_if P (drop (Suc i) xs)"
    by (simp add: count_if_def)
  finally show ?thesis .
qed

lemma count_if_update:
  assumes "i < length xs"
  shows "count_if P (xs[i := y]) + (if P (xs ! i) then 1 else 0)
           = count_if P xs + (if P y then 1 else 0)"
  using count_if_split_at [OF assms, of P] count_if_split_at [of i "xs[i := y]" P] assms
  by simp

lemma count_if_full: "count_if P xs = length xs \<longleftrightarrow> (\<forall>x \<in> set xs. P x)"
proof (induction xs)
  case Nil
  then show ?case by (simp add: count_if_def)
next
  case (Cons x xs)
  have "length (filter P xs) \<noteq> Suc (length xs)"
    by (metis Suc_n_not_le_n length_filter_le)
  with Cons show ?case
    by (cases "P x") (auto simp: count_if_def)
qed

section \<open>Circular indices\<close>

lemma mod_succ_cases: "(i::nat) < n \<Longrightarrow> Suc i mod n = (if Suc i = n then 0 else Suc i)"
  by simp

lemma add_mod_inj:
  fixes r a b n :: nat
  assumes "a < n" and "b < n" and "(r + a) mod n = (r + b) mod n"
  shows "a = b"
proof -
  have "(int r + int a) mod int n = (int r + int b) mod int n"
    using assms(3) by (metis of_nat_add zmod_int)
  then have "int n dvd (int a - int b)"
    by (metis add_diff_cancel_left mod_eq_dvd_iff)
  moreover have "\<bar>int a - int b\<bar> < int n" using assms(1,2) by linarith
  ultimately have "int a - int b = 0"
    by (metis dvd_imp_le_int abs_of_nat not_le)
  then show ?thesis by simp
qed

section \<open>Word conversions\<close>

text \<open>Counters are read as natural numbers throughout, so \<open>int (unat x)\<close> is kept as it is.\<close>

declare of_nat_unat [simp del]

lemma ucast_32_64_32 [simp]: "(ucast (ucast (x :: u32) :: u64) :: u32) = x"
  by (rule bit_word_eqI) (auto simp: bit_ucast_iff)

lemma unat_word_of_int_u16: "0 \<le> r \<Longrightarrow> r < 2 ^ 16 \<Longrightarrow> unat (word_of_int r :: u16) = nat r"
proof -
  assume r: "0 \<le> r" "r < 2 ^ 16"
  have "uint (word_of_int r :: u16) = take_bit LENGTH(16) r" by (rule uint_word_of_int_eq)
  also have "\<dots> = r" using r by (simp add: take_bit_int_eq_self)
  finally show ?thesis by (simp only: unat_eq_nat_uint)
qed

lemma unat_of_nat_u16: "n < 2 ^ 16 \<Longrightarrow> unat (of_nat n :: u16) = n"
  by (simp add: unat_of_nat)

text \<open>Adding a nonnegative number to a 16-bit counter without overflow.\<close>

lemma unat_add_u16:
  fixes n :: u16 and r M :: int
  assumes "0 \<le> r" and "int (unat n) + r \<le> M" and "M < 2 ^ 16"
  shows "unat (n + word_of_int r) = unat n + nat r"
proof -
  have "r < 2 ^ 16" using assms by linarith
  then have u: "unat (word_of_int r :: u16) = nat r" using assms(1) by (rule unat_word_of_int_u16 [rotated])
  have "int (unat n) + r < 2 ^ 16" using assms by linarith
  then have "int (unat n + nat r) < int (2 ^ 16)" using assms(1) by simp
  then have "unat n + nat r < 2 ^ 16" by (simp only: of_nat_less_iff)
  then have "unat n + unat (word_of_int r :: u16) < 2 ^ LENGTH(16)" by (simp add: u)
  then have "unat (n + word_of_int r) = unat n + unat (word_of_int r :: u16)"
    by (simp only: unat_add_lem)
  with u show ?thesis by simp
qed

end
