(* ===== verification/Format.thy ===== *)
theory Format
  imports Prelude "HOL-Library.Char_ord"
begin

text \<open>
  Numbers as text. The conversions \<open>%x\<close>, \<open>%u\<close> and \<open>%d\<close> of printf, truncation by snprintf, and
  \<open>bmk_strtoul\<close> of lib/libbmk\_core/strtoul.c, the function with which the INS driver reads the
  numbers that the PVM writes into XenStore. The reading inverts the writing.
\<close>

section \<open>Writing numbers\<close>

definition hex_digits :: string where "hex_digits = ''0123456789abcdef''"

function fmt_base :: "nat \<Rightarrow> nat \<Rightarrow> string" where
  "fmt_base b n = (if n < b \<or> b < 2 then [hex_digits ! n]
                   else fmt_base b (n div b) @ [hex_digits ! (n mod b)])"
  by pat_completeness auto

termination by (relation "measure snd") auto

declare fmt_base.simps [simp del]

abbreviation fmt_x :: "nat \<Rightarrow> string" where "fmt_x \<equiv> fmt_base 16"

abbreviation fmt_u :: "nat \<Rightarrow> string" where "fmt_u \<equiv> fmt_base 10"

text \<open>What \<open>snprintf( buf, n, ... )\<close> leaves in a buffer of \<open>n\<close> bytes, the last of them the terminator.\<close>

definition snprintf :: "nat \<Rightarrow> string \<Rightarrow> string" where
  "snprintf n str = take (n - 1) str"

lemma snprintf_fits [simp]: "length str < n \<Longrightarrow> snprintf n str = str"
  by (simp add: snprintf_def)

section \<open>Reading numbers\<close>

text \<open>The value of a character as a digit in the loop of \<open>bmk_strtoul\<close>.\<close>

definition strtoul_digit :: "char \<Rightarrow> nat option" where
  "strtoul_digit c =
    (let c = of_char c :: nat in
     if 48 \<le> c \<and> c \<le> 57 then Some (c - 48)
     else if 97 \<le> c \<and> c \<le> 122 then Some (c - 97 + 10)
     else if 65 \<le> c \<and> c \<le> 90 then Some (c - 65 + 10)
     else None)"

text \<open>
  The loop: the accumulator, whether a digit has been consumed (and no overflow has happened),
  and the text from the character at which it stopped. On overflow the result is the largest
  value and \<open>any\<close> is 0.
\<close>

fun strtoul_loop :: "nat \<Rightarrow> u64 \<Rightarrow> bool \<Rightarrow> string \<Rightarrow> u64 \<times> bool \<times> string" where
  "strtoul_loop base acc any [] = (acc, any, [])"
| "strtoul_loop base acc any (c # s) =
    (case strtoul_digit c of
       None \<Rightarrow> (acc, any, c # s)
     | Some i \<Rightarrow>
         if base \<le> i then (acc, any, c # s)
         else
           let cutoff = (- 1 :: u64) div of_nat base; cutlim = (- 1 :: u64) mod of_nat base in
           if cutoff < acc \<or> (acc = cutoff \<and> cutlim < of_nat i) then (- 1, False, c # s)
           else strtoul_loop base (acc * of_nat base + of_nat i) True s)"

definition strtoul_space :: "char \<Rightarrow> bool" where
  "strtoul_space c \<longleftrightarrow> c = CHR '' '' \<or> (9 \<le> (of_char c :: nat) \<and> (of_char c :: nat) \<le> 13)"

text \<open>
  The result is the number and the text that \<open>endptr\<close> points to; None is \<open>bmk_platform_halt\<close>.
\<close>

definition bmk_strtoul :: "string \<Rightarrow> nat \<Rightarrow> (u64 \<times> string) option" where
  "bmk_strtoul nptr base =
    (if base \<noteq> 0 \<and> (base < 2 \<or> 36 < base) then None
     else
       let s = dropWhile strtoul_space nptr;
           (neg, s) = (case s of c # r \<Rightarrow> if c = CHR ''-'' then (True, r)
                                          else if c = CHR ''+'' then (False, r) else (False, s)
                       | [] \<Rightarrow> (False, s));
           hex = (base = 0 \<or> base = 16) \<and> take 1 s = ''0''
                   \<and> (take 1 (drop 1 s) = ''x'' \<or> take 1 (drop 1 s) = ''X'');
           s = (if hex then drop 2 s else s);
           base = (if hex then 16 else base);
           base = (if base = 0 then if take 1 s = ''0'' then 8 else 10 else base);
           (acc, any, rest) = strtoul_loop base 0 False s;
           acc = (if neg \<and> any then - acc else acc)
       in Some (acc, if any then rest else nptr))"

section \<open>Reading inverts writing\<close>

text \<open>A digit of \<open>hex_digits\<close> below the base, its value, and what it is not.\<close>

lemma less_16: "n < 16 \<Longrightarrow> n \<in> {0, 1, 2, 3, 4, 5, 6, 7, 8, 9, 10, 11, 12, 13, 14, 15 :: nat}"
  by simp presburger

lemma hex_digit_facts:
  assumes "n < 16"
  shows "strtoul_digit (hex_digits ! n) = Some n" and "\<not> strtoul_space (hex_digits ! n)"
    and "hex_digits ! n \<notin> set ''+-xX :''"
  using less_16 [OF assms]
  by (auto simp: strtoul_digit_def strtoul_space_def hex_digits_def)

text \<open>The number that a string of digits denotes, continuing from \<open>a\<close>.\<close>

definition digits_val :: "nat \<Rightarrow> nat \<Rightarrow> string \<Rightarrow> nat" where
  "digits_val b a w = foldl (\<lambda>a c. a * b + the (strtoul_digit c)) a w"

definition digits :: "nat \<Rightarrow> string \<Rightarrow> bool" where
  "digits b w \<longleftrightarrow> (\<forall>c \<in> set w. \<exists>i<b. strtoul_digit c = Some i)"

lemma digits_val_simps [simp]:
  "digits_val b a [] = a"
  "digits_val b a (c # w) = digits_val b (a * b + the (strtoul_digit c)) w"
  "digits_val b a (v @ w) = digits_val b (digits_val b a v) w"
  by (simp_all add: digits_val_def)

lemma digits_simps [simp]:
  "digits b []" "digits b (c # w) \<longleftrightarrow> (\<exists>i<b. strtoul_digit c = Some i) \<and> digits b w"
  "digits b (v @ w) \<longleftrightarrow> digits b v \<and> digits b w"
  by (auto simp: digits_def)

lemma digits_val_ge: "0 < b \<Longrightarrow> a \<le> digits_val b a w"
proof (induction w arbitrary: a)
  case (Cons c w)
  have "a \<le> a * b" using Cons.prems by simp
  also have "\<dots> \<le> digits_val b (a * b + the (strtoul_digit c)) w" using Cons by (meson add_leD1)
  finally show ?case by simp
qed simp

text \<open>The overflow test of the loop is exact.\<close>

lemma strtoul_cutoff:
  fixes acc :: u64 and b i :: nat
  assumes "0 < b" and "b \<le> 36" and "i < b"
  shows "(- 1) div of_nat b < acc \<or> (acc = (- 1) div of_nat b \<and> (- 1) mod of_nat b < (of_nat i :: u64))
           \<longleftrightarrow> 2 ^ 64 \<le> unat acc * b + i"
proof -
  define M :: nat where "M = 2 ^ 64 - 1"
  have u: "unat (of_nat k :: u64) = k" if "k \<le> 36" for k
    using that by (simp add: unat_of_nat)
  have m: "unat (- 1 :: u64) = M" by (simp add: M_def unsigned_minus_1_eq_mask mask_eq_exp_minus_1)
  have q: "unat ((- 1) div of_nat b :: u64) = M div b" and r: "unat ((- 1) mod of_nat b :: u64) = M mod b"
    using m u [OF assms(2)] by (simp_all add: unat_div unat_mod)
  have "(- 1) div of_nat b < acc \<or> (acc = (- 1) div of_nat b \<and> (- 1) mod of_nat b < (of_nat i :: u64))
      \<longleftrightarrow> M div b < unat acc \<or> (unat acc = M div b \<and> M mod b < i)"
    using q r u [of i] assms by (simp add: word_less_nat_alt word_unat_eq_iff)
  also have "\<dots> \<longleftrightarrow> M < unat acc * b + i"
  proof -
    have "M div b * b + M mod b = M" and "M mod b < b" using assms by simp_all
    consider "unat acc < M div b" | "unat acc = M div b" | "M div b < unat acc" by linarith
    then show ?thesis
    proof cases
      case 1
      then have "(unat acc + 1) * b \<le> M div b * b" by (intro mult_le_mono1) simp
      then have "unat acc * b + b \<le> M div b * b" by simp
      then have "unat acc * b + i < M" using assms(3) \<open>M div b * b + M mod b = M\<close> by linarith
      then show ?thesis using 1 by simp
    next
      case 2
      then show ?thesis using \<open>M div b * b + M mod b = M\<close> by (metis add_less_cancel_left less_irrefl)
    next
      case 3
      then have "(M div b + 1) * b \<le> unat acc * b" by (intro mult_le_mono1) simp
      then have "M div b * b + b \<le> unat acc * b" by simp
      then have "M < unat acc * b + i" using \<open>M div b * b + M mod b = M\<close> \<open>M mod b < b\<close> by linarith
      then show ?thesis using 3 by simp
    qed
  qed
  also have "\<dots> \<longleftrightarrow> 2 ^ 64 \<le> unat acc * b + i" by (auto simp: M_def)
  finally show ?thesis .
qed

lemma strtoul_loop_digits:
  assumes "2 \<le> b" and "b \<le> 36" and "digits b w" and "digits_val b (unat acc) w < 2 ^ 64"
  shows "strtoul_loop b acc any (w @ rest)
           = strtoul_loop b (of_nat (digits_val b (unat acc) w)) (any \<or> w \<noteq> []) rest"
  using assms
proof (induction w arbitrary: acc any)
  case Nil
  then show ?case by (simp add: of_nat_unat)
next
  case (Cons c w)
  then obtain i where i: "strtoul_digit c = Some i" "i < b" by auto
  let ?a = "acc * of_nat b + of_nat i"
  have "unat acc * b + i < 2 ^ 64"
    using Cons.prems i digits_val_ge [of b "unat acc * b + i" w] by simp
  moreover have "unat (of_nat b :: u64) = b" "unat (of_nat i :: u64) = i"
    using Cons.prems i by (simp_all add: unat_of_nat)
  ultimately have "unat ?a = unat acc * b + i"
    by (simp add: unat_word_ariths)
  then have "strtoul_loop b ?a True (w @ rest)
      = strtoul_loop b (of_nat (digits_val b (unat acc * b + i) w)) True rest"
    using Cons.IH [of ?a True] Cons.prems i by simp
  moreover have "\<not> ((- 1) div of_nat b < acc
      \<or> (acc = (- 1) div of_nat b \<and> (- 1) mod of_nat b < (of_nat i :: u64)))"
    using strtoul_cutoff [of b i acc] Cons.prems(1,2) i(2) \<open>unat acc * b + i < 2 ^ 64\<close> by linarith
  ultimately show ?case
    by (simp only: strtoul_loop.simps append_Cons i option.case Let_def if_False digits_val_simps) (use i in simp)
qed

lemma fmt_base_chars_ex: "2 \<le> b \<Longrightarrow> b \<le> 16 \<Longrightarrow> c \<in> set (fmt_base b n) \<Longrightarrow> \<exists>d<b. c = hex_digits ! d"
proof (induction b n rule: fmt_base.induct)
  case (1 b n)
  have m: "n mod b < b" using 1 by simp
  show ?case
  proof (cases "n < b")
    case True
    then show ?thesis using 1 by (auto simp: fmt_base.simps [of b n])
  next
    case False
    then have "c \<in> set (fmt_base b (n div b)) \<or> c = hex_digits ! (n mod b)"
      using 1 by (auto simp: fmt_base.simps [of b n])
    then show ?thesis
    proof
      assume "c \<in> set (fmt_base b (n div b))"
      then show ?thesis using 1 False by simp
    next
      assume "c = hex_digits ! (n mod b)"
      then show ?thesis using m by blast
    qed
  qed
qed

lemma fmt_base_digits: "2 \<le> b \<Longrightarrow> b \<le> 16 \<Longrightarrow> digits b (fmt_base b n)"
proof -
  assume b: "2 \<le> b" "b \<le> 16"
  have "\<exists>i<b. strtoul_digit c = Some i" if c: "c \<in> set (fmt_base b n)" for c
  proof -
    obtain d where "d < b" "c = hex_digits ! d" using fmt_base_chars_ex [OF b c] by blast
    then show ?thesis using hex_digit_facts(1) [of d] b by auto
  qed
  then show ?thesis by (simp add: digits_def)
qed

lemma fmt_base_val: "2 \<le> b \<Longrightarrow> b \<le> 16 \<Longrightarrow> digits_val b 0 (fmt_base b n) = n"
proof (induction b n rule: fmt_base.induct)
  case (1 b n)
  have "n mod b < b" using 1 by simp
  then have "n mod b < 16" using 1 by linarith
  then show ?case using 1 hex_digit_facts(1) [of n] hex_digit_facts(1) [of "n mod b"]
    by (simp add: fmt_base.simps [of b n])
qed

lemma fmt_base_nonempty [simp]: "fmt_base b n \<noteq> []"
  by (simp add: fmt_base.simps [of b n])

lemma fmt_base_inj:
  assumes "2 \<le> b" and "b \<le> 16" and "fmt_base b m = fmt_base b n"
  shows "m = n"
  using fmt_base_val [OF assms(1,2)] assms(3) by metis

lemma fmt_base_chars:
  assumes "2 \<le> b" and "b \<le> 16" and "c \<in> set (fmt_base b n)"
  shows "\<not> strtoul_space c" and "c \<notin> set ''+-xX :''"
proof -
  obtain d where "d < b" "c = hex_digits ! d" using fmt_base_chars_ex [OF assms] by blast
  moreover from this have "d < 16" using assms(2) by simp
  ultimately show "\<not> strtoul_space c" and "c \<notin> set ''+-xX :''" using hex_digit_facts [of d] by blast+
qed

lemma fmt_u_chars: "set (fmt_u n) \<subseteq> set ''0123456789''"
proof
  fix c
  assume "c \<in> set (fmt_u n)"
  then obtain d where d: "d < 10" "c = hex_digits ! d" using fmt_base_chars_ex [of 10 c n] by auto
  have digits: "take 10 hex_digits = ''0123456789''" by (simp add: hex_digits_def)
  have "take 10 hex_digits ! d \<in> set (take 10 hex_digits)" using d(1) by (intro nth_mem) (simp add: hex_digits_def)
  then show "c \<in> set ''0123456789''" using d unfolding digits [symmetric] by simp
qed

lemma fmt_length: "2 \<le> b \<Longrightarrow> n < b ^ k \<Longrightarrow> 0 < k \<Longrightarrow> length (fmt_base b n) \<le> k"
proof (induction k arbitrary: n)
  case (Suc k)
  show ?case
  proof (cases "n < b")
    case True
    then show ?thesis by (simp add: fmt_base.simps [of b n])
  next
    case False
    then have "0 < k" using Suc.prems by (cases k) auto
    moreover have "n div b < b ^ k" using Suc.prems by (simp add: less_mult_imp_div_less mult.commute)
    ultimately show ?thesis using Suc.IH [of "n div b"] Suc.prems False by (simp add: fmt_base.simps [of b n])
  qed
qed simp

lemma fmt_length_iff: "2 \<le> b \<Longrightarrow> 0 < k \<Longrightarrow> length (fmt_base b n) \<le> k \<longleftrightarrow> n < b ^ k"
proof (induction b n arbitrary: k rule: fmt_base.induct)
  case (1 b n)
  show ?case
  proof (cases "n < b")
    case True
    have "b ^ 1 \<le> b ^ k" using 1 by (intro power_increasing) simp_all
    then show ?thesis using True 1 by (simp add: fmt_base.simps [of b n])
  next
    case False
    obtain k' where k: "k = Suc k'" using 1 by (cases k) auto
    show ?thesis
    proof (cases k')
      case 0
      then show ?thesis using False k 1 by (simp add: fmt_base.simps [of b n])
    next
      case (Suc j)
      then have "length (fmt_base b (n div b)) \<le> k' \<longleftrightarrow> n div b < b ^ k'" using 1 False by simp
      moreover have "n div b < b ^ k' \<longleftrightarrow> n < b ^ k" using 1 k by (simp add: div_less_iff_less_mult mult.commute)
      ultimately show ?thesis using False k 1 by (simp add: fmt_base.simps [of b n])
    qed
  qed
qed

text \<open>
  Numbers survive the way through text: \<open>bmk_strtoul\<close> in base 10 or 16, given blanks, a 64-bit
  number printed in that base, and then the end of the string, a blank or a colon, returns exactly
  the number and leaves exactly the rest.
\<close>

lemma strtoul_reads_printed:
  assumes "b = 10 \<or> b = 16" and "n < 2 ^ 64"
    and "rest = [] \<or> hd rest = CHR '' '' \<or> hd rest = CHR '':''"
  shows "bmk_strtoul (replicate k CHR '' '' @ fmt_base b n @ rest) b = Some (of_nat n, rest)"
proof -
  have b: "2 \<le> b" "b \<le> 16" using assms(1) by auto
  let ?w = "fmt_base b n"
  obtain c w where w: "?w = c # w" by (cases ?w) auto
  note fmt = fmt_base_digits [OF b, of n] fmt_base_val [OF b, of n] and chars = fmt_base_chars [OF b, of _ n]
  have skip: "dropWhile strtoul_space (replicate k CHR '' '' @ ?w @ rest) = ?w @ rest"
  proof -
    have "dropWhile strtoul_space (replicate k CHR '' '' @ ?w @ rest) = dropWhile strtoul_space (?w @ rest)"
      by (induction k) (simp_all add: strtoul_space_def)
    then show ?thesis using chars(1) w by simp
  qed
  have c: "c \<noteq> CHR ''-''" "c \<noteq> CHR ''+''" using chars(2) [of c] w by auto
  have x: "take 1 (drop 1 (?w @ rest)) \<noteq> ''x''" "take 1 (drop 1 (?w @ rest)) \<noteq> ''X''"
    using w chars(2) [of "hd w"] assms(3) by (cases w; cases rest; auto)+
  have "strtoul_loop b 0 False (?w @ rest) = strtoul_loop b (of_nat n) True rest"
    using strtoul_loop_digits [of b ?w 0 False rest] fmt b assms(2) by simp
  also have "\<dots> = (of_nat n, True, rest)"
    using assms(3) by (cases rest) (auto simp: strtoul_digit_def)
  finally show ?thesis using skip w c x b by (simp add: bmk_strtoul_def)
qed

section \<open>Text in an array\<close>

text \<open>The terminator, and an array of \<open>n\<close> characters that holds a text and null bytes after it.\<close>

definition NUL :: char where "NUL = CHR 0x00"

definition padded :: "nat \<Rightarrow> string \<Rightarrow> string" where
  "padded n str = str @ replicate (n - length str) NUL"

lemma length_padded: "length str \<le> n \<Longrightarrow> length (padded n str) = n"
  by (simp add: padded_def)

lemma takeWhile_nul: "NUL \<notin> set str \<Longrightarrow> takeWhile (\<lambda>c. c \<noteq> NUL) (str @ replicate k NUL) = str"
  by (subst takeWhile_append2) (auto simp: takeWhile_replicate)

end
