(* ===== verification/Native.thy ===== *)
theory Native
  imports Format
begin

text \<open>
  The constants of the NetBSD headers that the INS application is compiled against
  (sys/sys/errno.h, socket.h, poll.h, fcntl.h and netinet/tcp.h of the NetBSD tree vendored
  under ins/ins-rump/src-netbsd). The INS is a Rump unikernel, so its native error numbers and
  flags are NetBSD's, while the protected VM uses Linux's; the MW\_ constants of common/ are
  the values both sides exchange.
\<close>

section \<open>Error numbers\<close>

abbreviation "EPERM \<equiv> (1::int)"
abbreviation "ENOENT \<equiv> (2::int)"
abbreviation "EINTR \<equiv> (4::int)"
abbreviation "EIO \<equiv> (5::int)"
abbreviation "EDEADLK \<equiv> (11::int)"
abbreviation "ENOMEM \<equiv> (12::int)"
abbreviation "EBUSY \<equiv> (16::int)"
abbreviation "EINVAL \<equiv> (22::int)"
abbreviation "ENOSPC \<equiv> (28::int)"
abbreviation "EPIPE \<equiv> (32::int)"
abbreviation "EAGAIN \<equiv> (35::int)"
abbreviation "EWOULDBLOCK \<equiv> EAGAIN"
abbreviation "ENOBUFS \<equiv> (55::int)"
abbreviation "EOVERFLOW \<equiv> (84::int)"

section \<open>Sockets\<close>

abbreviation "SOCK_STREAM \<equiv> (1::int)"
abbreviation "SOCK_DGRAM \<equiv> (2::int)"
abbreviation "AF_INET \<equiv> (2::u8)"
abbreviation "AF_INET6 \<equiv> (24::u8)"
abbreviation "SOL_SOCKET \<equiv> (0xffff::int)"
abbreviation "IPPROTO_TCP \<equiv> (6::int)"
abbreviation "TCP_NODELAY \<equiv> (1::int)"
abbreviation "SO_REUSEADDR \<equiv> (0x0004::int)"
abbreviation "SO_KEEPALIVE \<equiv> (0x0008::int)"
abbreviation "SO_REUSEPORT \<equiv> (0x0200::int)"
abbreviation "SO_ACCEPTFILTER \<equiv> (0x1000::int)"
abbreviation "SO_SNDBUF \<equiv> (0x1001::int)"
abbreviation "SO_RCVBUF \<equiv> (0x1002::int)"
abbreviation "SO_SNDLOWAT \<equiv> (0x1003::int)"
abbreviation "SO_RCVLOWAT \<equiv> (0x1004::int)"
abbreviation "SO_ERROR \<equiv> (0x1007::int)"
abbreviation "SO_SNDTIMEO \<equiv> (0x100b::int)"
abbreviation "SO_RCVTIMEO \<equiv> (0x100c::int)"

abbreviation "MSG_OOB \<equiv> (0x0001::u32)"
abbreviation "MSG_PEEK \<equiv> (0x0002::u32)"
abbreviation "MSG_DONTROUTE \<equiv> (0x0004::u32)"
abbreviation "MSG_EOR \<equiv> (0x0008::u32)"
abbreviation "MSG_TRUNC \<equiv> (0x0010::u32)"
abbreviation "MSG_CTRUNC \<equiv> (0x0020::u32)"
abbreviation "MSG_WAITALL \<equiv> (0x0040::u32)"
abbreviation "MSG_DONTWAIT \<equiv> (0x0080::u32)"
abbreviation "MSG_NOSIGNAL \<equiv> (0x0400::u32)"
abbreviation "MSG_CMSG_CLOEXEC \<equiv> (0x0800::u32)"
abbreviation "MSG_WAITFORONE \<equiv> (0x2000::u32)"

section \<open>Polling and file flags\<close>

abbreviation "POLLIN \<equiv> (0x0001::u32)"
abbreviation "POLLPRI \<equiv> (0x0002::u32)"
abbreviation "POLLOUT \<equiv> (0x0004::u32)"
abbreviation "POLLERR \<equiv> (0x0008::u32)"
abbreviation "POLLHUP \<equiv> (0x0010::u32)"
abbreviation "POLLNVAL \<equiv> (0x0020::u32)"
abbreviation "POLLRDNORM \<equiv> (0x0040::u32)"
abbreviation "POLLWRNORM \<equiv> POLLOUT"
abbreviation "POLLWRBAND \<equiv> (0x0100::u32)"
abbreviation "INFTIM \<equiv> (-1::int)"
abbreviation "O_NONBLOCK \<equiv> (0x0004::u32)"

end
