(* ===== verification/WorkQueue.thy ===== *)
theory WorkQueue
  imports Native
begin

text \<open>
  The per-thread work queue of the INS application (apps/ins-app/workqueue.c): a fixed-size
  circular array of buffer indices. Every operation of the C code runs under the queue's
  mutex, so each is one atomic function of the queue state here. A \<open>size_t\<close> of the
  structure is a \<open>nat\<close>: \<open>wq_inv\<close> bounds all of them by the allocated item count.

  The interface \<open>bounded_fifo\<close> states what a client may rely on; the circular array is an
  instance of it (interpretation \<open>wq\<close>), and runs of operations refine a list.
\<close>

section \<open>State and operations\<close>

text \<open>\<^verbatim>\<open>typedef int16_t work_queue_buffer_idx_t\<close>, and the value of an unassigned slot.\<close>

type_synonym work_queue_buffer_idx = u16

definition WORK_QUEUE_UNASSIGNED_IDX :: work_queue_buffer_idx where
  "WORK_QUEUE_UNASSIGNED_IDX = -1"

record workqueue =
  wq_id :: int
  item_ct :: nat
  available_slots :: nat
  read_idx :: nat
  write_idx :: nat
  items :: "work_queue_buffer_idx list"

text \<open>
  \<open>workqueue_alloc\<close>: \<open>mem\<close> is what malloc returned, the item array as it is after the
  bzero of the header (None: no memory), and \<open>mutex_rc\<close> the result of pthread\_mutex\_init.
  The function keeps its next id in a static variable, passed and returned here.
\<close>

definition workqueue_alloc ::
  "int \<Rightarrow> work_queue_buffer_idx list option \<Rightarrow> int \<Rightarrow> nat \<Rightarrow> workqueue option \<times> int" where
  "workqueue_alloc next_id mem mutex_rc item_count =
     (case mem of
        None \<Rightarrow> (None, next_id)
      | Some m \<Rightarrow>
          if mutex_rc \<noteq> 0 then (None, next_id + 1)
          else (Some \<lparr>wq_id = next_id, item_ct = item_count, available_slots = item_count,
                      read_idx = 0, write_idx = 0, items = m\<rparr>, next_id + 1))"

text \<open>
  \<open>workqueue_free\<close> only checks (in a debug build) that no work is waiting; the check is
  the value of the model.
\<close>

definition workqueue_free :: "workqueue \<Rightarrow> bool" where
  "workqueue_free wq \<longleftrightarrow> item_ct wq = available_slots wq"

definition workqueue_enqueue :: "workqueue \<Rightarrow> work_queue_buffer_idx \<Rightarrow> int \<times> workqueue" where
  "workqueue_enqueue wq item =
     (if available_slots wq = 0 then (EBUSY, wq)
      else (0, wq\<lparr>items := (items wq)[write_idx wq := item],
                  write_idx := (write_idx wq + 1) mod item_ct wq,
                  available_slots := available_slots wq - 1\<rparr>))"

definition workqueue_dequeue :: "workqueue \<Rightarrow> work_queue_buffer_idx \<times> workqueue" where
  "workqueue_dequeue wq =
     (if item_ct wq = available_slots wq then (WORK_QUEUE_UNASSIGNED_IDX, wq)
      else (items wq ! read_idx wq,
            wq\<lparr>read_idx := (read_idx wq + 1) mod item_ct wq,
               available_slots := available_slots wq + 1\<rparr>))"

definition workqueue_is_empty :: "workqueue \<Rightarrow> bool" where
  "workqueue_is_empty wq \<longleftrightarrow> item_ct wq = available_slots wq"

text \<open>
  The copy loop of \<open>workqueue_get_contents\<close>, with the C variables \<open>ct\<close>, \<open>idx\<close>
  and \<open>i\<close>; as in the source, the body changes \<open>ct\<close> and \<open>idx\<close> and not \<open>i\<close>.
\<close>

fun get_contents_loop ::
  "workqueue \<Rightarrow> nat \<Rightarrow> nat \<Rightarrow> nat \<Rightarrow> work_queue_buffer_idx list \<Rightarrow> work_queue_buffer_idx list" where
  "get_contents_loop wq 0 idx i out = out"
| "get_contents_loop wq (Suc ct) idx i out =
     get_contents_loop wq ct ((idx + 1) mod item_ct wq) i (out[i := items wq ! idx])"

definition workqueue_get_contents ::
  "workqueue \<Rightarrow> work_queue_buffer_idx list \<Rightarrow> nat \<Rightarrow> int \<times> work_queue_buffer_idx list" where
  "workqueue_get_contents wq out sz =
     (let out1 = replicate sz WORK_QUEUE_UNASSIGNED_IDX @ drop sz out in
      if sz < item_ct wq then (ENOSPC, out1)
      else (0, get_contents_loop wq (item_ct wq - available_slots wq) (read_idx wq) 0 out1))"

section \<open>Invariant and abstraction\<close>

definition wq_inv :: "workqueue \<Rightarrow> bool" where
  "wq_inv wq \<longleftrightarrow>
     available_slots wq \<le> item_ct wq \<and> item_ct wq \<le> length (items wq) \<and>
     (0 < item_ct wq \<longrightarrow>
        read_idx wq < item_ct wq \<and>
        write_idx wq = (read_idx wq + (item_ct wq - available_slots wq)) mod item_ct wq)"

text \<open>The queued indices, oldest first.\<close>

definition wq_list :: "workqueue \<Rightarrow> work_queue_buffer_idx list" where
  "wq_list wq = map (\<lambda>k. items wq ! ((read_idx wq + k) mod item_ct wq))
                    [0 ..< item_ct wq - available_slots wq]"

lemma wq_list_length [simp]: "length (wq_list wq) = item_ct wq - available_slots wq"
  by (simp add: wq_list_def)

lemma wq_list_nth:
  "k < item_ct wq - available_slots wq \<Longrightarrow>
     wq_list wq ! k = items wq ! ((read_idx wq + k) mod item_ct wq)"
  by (simp add: wq_list_def)

lemma workqueue_alloc_inv:
  assumes "workqueue_alloc n mem rc ct = (Some wq, n')" and "\<And>m. mem = Some m \<Longrightarrow> ct \<le> length m"
  shows "wq_inv wq" and "wq_list wq = []" and "item_ct wq = ct"
  using assms by (auto simp: workqueue_alloc_def wq_inv_def wq_list_def
      split: option.splits if_splits)

lemma wq_write_in_range:
  assumes "wq_inv wq" and "available_slots wq \<noteq> 0"
  shows "write_idx wq < item_ct wq" and "write_idx wq < length (items wq)"
proof -
  have "0 < item_ct wq" using assms by (auto simp: wq_inv_def)
  then show "write_idx wq < item_ct wq" using assms by (simp add: wq_inv_def)
  moreover have "item_ct wq \<le> length (items wq)" using assms(1) by (simp add: wq_inv_def)
  ultimately show "write_idx wq < length (items wq)" by (rule order_less_le_trans)
qed

lemma enqueue_inv: "wq_inv wq \<Longrightarrow> wq_inv (snd (workqueue_enqueue wq x))"
  by (auto simp: wq_inv_def workqueue_enqueue_def mod_simps Suc_diff_le)

lemma enqueue_item_ct [frame]: "item_ct (snd (workqueue_enqueue wq x)) = item_ct wq"
  by (simp add: workqueue_enqueue_def)

lemma dequeue_item_ct [frame]: "item_ct (snd (workqueue_dequeue wq)) = item_ct wq"
  by (simp add: workqueue_dequeue_def)

lemma enqueue_full: "available_slots wq = 0 \<Longrightarrow> workqueue_enqueue wq x = (EBUSY, wq)"
  by (simp add: workqueue_enqueue_def)

lemma enqueue_list:
  assumes inv: "wq_inv wq" and room: "available_slots wq \<noteq> 0"
  shows "wq_list (snd (workqueue_enqueue wq x)) = wq_list wq @ [x]"
proof (rule nth_equalityI)
  let ?n = "item_ct wq" and ?u = "item_ct wq - available_slots wq"
  have ct: "?n \<noteq> 0" "available_slots wq \<le> ?n" using inv room by (auto simp: wq_inv_def)
  have len: "item_ct wq - (available_slots wq - 1) = Suc ?u" using ct room by simp
  show "length (wq_list (snd (workqueue_enqueue wq x))) = length (wq_list wq @ [x])"
    using room len by (simp add: workqueue_enqueue_def)
  fix k assume "k < length (wq_list (snd (workqueue_enqueue wq x)))"
  then have k: "k < Suc ?u" using room len by (simp add: workqueue_enqueue_def)
  have w: "write_idx wq = (read_idx wq + ?u) mod ?n" using inv ct by (simp add: wq_inv_def)
  have wlen: "write_idx wq < length (items wq)" using wq_write_in_range [OF inv room] by simp
  have "(read_idx wq + k) mod ?n = write_idx wq \<longleftrightarrow> k = ?u"
    unfolding w using add_mod_inj [of k ?n ?u "read_idx wq"] k room ct by auto
  then show "wq_list (snd (workqueue_enqueue wq x)) ! k = (wq_list wq @ [x]) ! k"
    using k room len wlen
    by (auto simp: workqueue_enqueue_def wq_list_nth nth_append nth_list_update)
qed

lemma dequeue_inv: "wq_inv wq \<Longrightarrow> wq_inv (snd (workqueue_dequeue wq))"
proof -
  assume inv: "wq_inv wq"
  show ?thesis
  proof (cases "item_ct wq = available_slots wq")
    case True
    with inv show ?thesis by (simp add: workqueue_dequeue_def)
  next
    case False
    with inv have lt: "available_slots wq < item_ct wq" by (simp add: wq_inv_def)
    define u where "u = item_ct wq - Suc (available_slots wq)"
    have u: "item_ct wq - available_slots wq = Suc u" using lt by (simp add: u_def)
    have "(Suc (read_idx wq) mod item_ct wq + u) mod item_ct wq
        = (read_idx wq + Suc u) mod item_ct wq"
      by (simp add: mod_add_left_eq)
    with inv lt u show ?thesis
      by (auto simp: wq_inv_def workqueue_dequeue_def u_def [symmetric] simp del: diff_Suc_Suc)
  qed
qed

lemma dequeue_empty:
  "available_slots wq = item_ct wq \<Longrightarrow> workqueue_dequeue wq = (WORK_QUEUE_UNASSIGNED_IDX, wq)"
  by (simp add: workqueue_dequeue_def)

lemma dequeue_list:
  assumes inv: "wq_inv wq" and ne: "wq_list wq \<noteq> []"
  shows "wq_list wq = fst (workqueue_dequeue wq) # wq_list (snd (workqueue_dequeue wq))"
proof -
  have lt: "available_slots wq < item_ct wq"
    using ne by (metis length_greater_0_conv wq_list_length zero_less_diff)
  then have u: "item_ct wq - available_slots wq = Suc (item_ct wq - Suc (available_slots wq))"
    by simp
  have r: "read_idx wq < item_ct wq" using inv lt by (simp add: wq_inv_def)
  have "wq_list wq = map (\<lambda>k. items wq ! ((read_idx wq + k) mod item_ct wq))
      (0 # map Suc [0 ..< item_ct wq - Suc (available_slots wq)])"
    unfolding wq_list_def u by (simp only: upt_conv_Cons zero_less_Suc map_Suc_upt)
  also have "\<dots> = fst (workqueue_dequeue wq) # wq_list (snd (workqueue_dequeue wq))"
    using lt r by (auto simp: workqueue_dequeue_def wq_list_def mod_simps)
  finally show ?thesis .
qed

lemma is_empty_list: "wq_inv wq \<Longrightarrow> workqueue_is_empty wq \<longleftrightarrow> wq_list wq = []"
proof -
  assume "wq_inv wq"
  moreover have "wq_list wq = [] \<longleftrightarrow> item_ct wq - available_slots wq = 0"
    by (metis length_0_conv wq_list_length)
  ultimately show ?thesis by (auto simp: workqueue_is_empty_def wq_inv_def)
qed


section \<open>The queue interface\<close>

text \<open>
  What the dispatcher relies on: a queue of at most \<open>cap\<close> entries, whose operations
  return a status for a full queue and a reserved value for an empty one.
\<close>

datatype 'a qop = Enq 'a | Deq

datatype 'a qres = EnqRes int | DeqRes 'a

text \<open>A client's sequence of calls, with the results it sees.\<close>

fun q_run ::
  "('q \<Rightarrow> 'a \<Rightarrow> int \<times> 'q) \<Rightarrow> ('q \<Rightarrow> 'a \<times> 'q) \<Rightarrow> 'q \<Rightarrow> 'a qop list \<Rightarrow> 'a qres list \<times> 'q" where
  "q_run enq deq q [] = ([], q)"
| "q_run enq deq q (Enq x # ops) =
     (let (rc, q1) = enq q x; (rs, q2) = q_run enq deq q1 ops in (EnqRes rc # rs, q2))"
| "q_run enq deq q (Deq # ops) =
     (let (x, q1) = deq q; (rs, q2) = q_run enq deq q1 ops in (DeqRes x # rs, q2))"

text \<open>The specification: a list of bounded length.\<close>

definition list_enq :: "nat \<Rightarrow> 'a list \<Rightarrow> 'a \<Rightarrow> int \<times> 'a list" where
  "list_enq cap xs x = (if length xs = cap then (EBUSY, xs) else (0, xs @ [x]))"

definition list_deq :: "'a \<Rightarrow> 'a list \<Rightarrow> 'a \<times> 'a list" where
  "list_deq none xs = (case xs of [] \<Rightarrow> (none, []) | y # ys \<Rightarrow> (y, ys))"

locale bounded_fifo =
  fixes enq :: "'q \<Rightarrow> 'a \<Rightarrow> int \<times> 'q"
    and deq :: "'q \<Rightarrow> 'a \<times> 'q"
    and contents :: "'q \<Rightarrow> 'a list"
    and cap :: "'q \<Rightarrow> nat"
    and invar :: "'q \<Rightarrow> bool"
    and none :: 'a
  assumes enq_spec: "invar q \<Longrightarrow>
      map_prod id contents (enq q x) = list_enq (cap q) (contents q) x"
    and deq_spec: "invar q \<Longrightarrow> map_prod id contents (deq q) = list_deq none (contents q)"
    and enq_invar: "invar q \<Longrightarrow> invar (snd (enq q x))"
    and deq_invar: "invar q \<Longrightarrow> invar (snd (deq q))"
    and enq_cap: "cap (snd (enq q x)) = cap q"
    and deq_cap: "cap (snd (deq q)) = cap q"
begin

lemma run_refines:
  "invar q \<Longrightarrow>
     map_prod id contents (q_run enq deq q ops)
       = q_run (list_enq (cap q)) (list_deq none) (contents q) ops
     \<and> invar (snd (q_run enq deq q ops)) \<and> cap (snd (q_run enq deq q ops)) = cap q"
proof (induction ops arbitrary: q)
  case Nil
  then show ?case by simp
next
  case (Cons opn ops)
  show ?case
  proof (cases opn)
    case (Enq x)
    obtain rc q1 where e: "enq q x = (rc, q1)" by (cases "enq q x")
    have s: "list_enq (cap q) (contents q) x = (rc, contents q1)"
      using enq_spec [OF Cons.prems, of x] e by simp
    have i: "invar q1" "cap q1 = cap q"
      using enq_invar [OF Cons.prems, of x] enq_cap [of q x] e by auto
    show ?thesis using Cons.IH [OF i(1)] i(2) e s Enq
      by (auto simp: case_prod_unfold Let_def prod_eq_iff)
  next
    case Deq
    obtain y q1 where e: "deq q = (y, q1)" by (cases "deq q")
    have s: "list_deq none (contents q) = (y, contents q1)"
      using deq_spec [OF Cons.prems] e by simp
    have i: "invar q1" "cap q1 = cap q"
      using deq_invar [OF Cons.prems] deq_cap [of q] e by auto
    show ?thesis using Cons.IH [OF i(1)] i(2) e s Deq
      by (auto simp: case_prod_unfold Let_def prod_eq_iff)
  qed
qed

end

interpretation wq: bounded_fifo workqueue_enqueue workqueue_dequeue wq_list item_ct wq_inv
    WORK_QUEUE_UNASSIGNED_IDX
proof unfold_locales
  fix q x assume inv: "wq_inv q"
  then have le: "available_slots q \<le> item_ct q" by (simp add: wq_inv_def)
  show "map_prod id wq_list (workqueue_enqueue q x) = list_enq (item_ct q) (wq_list q) x"
  proof (cases "available_slots q = 0")
    case True
    then show ?thesis by (simp add: enqueue_full list_enq_def)
  next
    case False
    with le have "length (wq_list q) \<noteq> item_ct q" by simp
    with enqueue_list [OF inv False, of x] False show ?thesis
      by (auto simp: workqueue_enqueue_def list_enq_def)
  qed
next
  fix q assume inv: "wq_inv q"
  show "map_prod id wq_list (workqueue_dequeue q)
      = list_deq WORK_QUEUE_UNASSIGNED_IDX (wq_list q)"
  proof (cases "wq_list q = []")
    case True
    with inv have "workqueue_is_empty q" by (simp add: is_empty_list)
    with True show ?thesis
      by (simp add: workqueue_is_empty_def dequeue_empty list_deq_def)
  next
    case False
    with dequeue_list [OF inv] show ?thesis
      by (cases "workqueue_dequeue q") (auto simp: list_deq_def split: list.splits)
  qed
qed (auto intro: enqueue_inv dequeue_inv simp: frame)

text \<open>
  C5. Refinement. From a queue that satisfies the invariant, any sequence of enqueue and
  dequeue calls on the circular array returns exactly the results of the same calls on a list
  of bounded length (EBUSY from a full queue, the unassigned index from an empty one, first
  in first out in between), and ends in a queue that holds that list and satisfies the
  invariant again.
\<close>

theorem workqueue_refines_list:
  assumes "wq_inv q"
  shows "map_prod id wq_list (q_run workqueue_enqueue workqueue_dequeue q ops)
           = q_run (list_enq (item_ct q)) (list_deq WORK_QUEUE_UNASSIGNED_IDX) (wq_list q) ops
         \<and> wq_inv (snd (q_run workqueue_enqueue workqueue_dequeue q ops))"
  using wq.run_refines [OF assms] by blast

definition wq_example :: workqueue where
  "wq_example = the (fst (workqueue_alloc 0 (Some [0, 0, 0]) 0 2))"

theorem workqueue_refines_list_witness:
  "map_prod id wq_list (q_run workqueue_enqueue workqueue_dequeue wq_example
       [Enq 7, Enq 8, Enq 9, Deq, Enq 9, Deq])
     = q_run (list_enq (item_ct wq_example)) (list_deq WORK_QUEUE_UNASSIGNED_IDX)
         (wq_list wq_example) [Enq 7, Enq 8, Enq 9, Deq, Enq 9, Deq]
   \<and> wq_inv (snd (q_run workqueue_enqueue workqueue_dequeue wq_example
       [Enq 7, Enq 8, Enq 9, Deq, Enq 9, Deq]))"
  by (rule workqueue_refines_list) (simp add: wq_example_def workqueue_alloc_def wq_inv_def)

section \<open>Reading the contents\<close>

lemma get_contents_loop_0:
  "get_contents_loop wq (Suc ct) idx 0 (x # out)
     = items wq ! ((idx + ct) mod item_ct wq) # out"
  if "idx < item_ct wq" for out
  using that
proof (induction ct arbitrary: idx x)
  case 0
  then show ?case by simp
next
  case (Suc ct)
  have "get_contents_loop wq (Suc (Suc ct)) idx 0 (x # out)
      = get_contents_loop wq (Suc ct) ((idx + 1) mod item_ct wq) 0 (items wq ! idx # out)"
    by simp
  also have "\<dots> = items wq ! (((idx + 1) mod item_ct wq + ct) mod item_ct wq) # out"
    using Suc.IH [of "(idx + 1) mod item_ct wq"] Suc.prems by simp
  also have "((idx + 1) mod item_ct wq + ct) mod item_ct wq = (idx + Suc ct) mod item_ct wq"
    by (simp add: mod_add_left_eq)
  finally show ?case .
qed

text \<open>
  Functional behaviour of \<open>workqueue_get_contents\<close> on a non-empty queue and an array
  that is large enough: it returns success, but the array holds the newest entry in slot 0 and
  the unassigned value everywhere else, since the loop never advances its output index.
\<close>

theorem workqueue_get_contents_only_last:
  assumes "wq_inv wq" and "wq_list wq \<noteq> []" and "item_ct wq \<le> length out"
  shows "workqueue_get_contents wq out (length out)
           = (0, last (wq_list wq) # replicate (length out - 1) WORK_QUEUE_UNASSIGNED_IDX)"
proof -
  have lt: "available_slots wq < item_ct wq"
    using assms(2) by (metis length_greater_0_conv wq_list_length zero_less_diff)
  define u where "u = item_ct wq - Suc (available_slots wq)"
  have u: "item_ct wq - available_slots wq = Suc u" using lt by (simp add: u_def)
  have r: "read_idx wq < item_ct wq" using assms(1) lt by (simp add: wq_inv_def)
  have "last (wq_list wq) = wq_list wq ! u"
    using assms(2) u by (simp add: last_conv_nth)
  also have "\<dots> = items wq ! ((read_idx wq + u) mod item_ct wq)"
    using u by (simp add: wq_list_nth)
  finally have l: "last (wq_list wq) = items wq ! ((read_idx wq + u) mod item_ct wq)" .
  obtain n where n: "length out = Suc n" using assms(3) lt by (cases "length out") auto
  show ?thesis
    using assms(3) u r get_contents_loop_0 [OF r, of u] l n
    by (simp add: workqueue_get_contents_def Let_def)
qed

definition wq_example2 :: workqueue where
  "wq_example2 = snd (workqueue_enqueue (snd (workqueue_enqueue wq_example 7)) 8)"

lemma wq_example2_eq:
  "wq_example2 = \<lparr>wq_id = 0, item_ct = 2, available_slots = 0, read_idx = 0, write_idx = 0,
                  items = [7, 8, 0]\<rparr>"
  by (simp add: wq_example2_def wq_example_def workqueue_alloc_def workqueue_enqueue_def)

theorem workqueue_get_contents_only_last_witness:
  "workqueue_get_contents wq_example2 [0, 0] 2 = (0, [8, WORK_QUEUE_UNASSIGNED_IDX])"
  using workqueue_get_contents_only_last [of wq_example2 "[0, 0]"]
  by (simp add: wq_example2_eq wq_inv_def wq_list_def upt_rec numeral_2_eq_2)

end
