(* ===== verification/MwSocket.thy ===== *)
theory MwSocket
  imports Prelude
begin

text \<open>
  The encoding of MagicWand socket descriptors (common/mwsocket.h): a 64-bit value with the
  prefix 'S' in its top byte, the INS's client (domain) id in bits 40 to 55 and the local
  socket id in the low 32 bits. The macros are functions on 64-bit words; \<open>mw_socket_fd_t\<close>
  is signed, so its sign is read with \<open>sint\<close>.
\<close>

type_synonym mw_socket_fd = u64

definition MW_SOCKET_PREFIX_SHIFT :: nat where [mw_consts]: "MW_SOCKET_PREFIX_SHIFT = 56"
definition MW_SOCKET_PREFIX :: u64 where [mw_consts]: "MW_SOCKET_PREFIX = 0x53"
definition MW_SOCKET_PREFIX_VAL :: u64 where [mw_consts]:
  "MW_SOCKET_PREFIX_VAL = push_bit MW_SOCKET_PREFIX_SHIFT MW_SOCKET_PREFIX"
definition MW_SOCKET_CLIENT_SHIFT :: nat where [mw_consts]: "MW_SOCKET_CLIENT_SHIFT = 40"
definition MW_SOCKET_CLIENT_MASK :: u64 where [mw_consts]:
  "MW_SOCKET_CLIENT_MASK = 0x00ffff0000000000"
definition MW_SOCKET_LOCAL_ID_MASK :: u64 where [mw_consts]:
  "MW_SOCKET_LOCAL_ID_MASK = 0x00000000ffffffff"

definition MW_SOCKET_IS_FD :: "u64 \<Rightarrow> bool" where
  "MW_SOCKET_IS_FD x \<longleftrightarrow> drop_bit MW_SOCKET_PREFIX_SHIFT x = MW_SOCKET_PREFIX"

text \<open>\<open>sockfd\<close> is a C \<open>int\<close>: it is sign-extended to 64 bits before the mask.\<close>

definition MW_SOCKET_CREATE :: "u16 \<Rightarrow> int \<Rightarrow> u64" where
  "MW_SOCKET_CREATE clientid sockfd =
     (MW_SOCKET_PREFIX_VAL OR push_bit MW_SOCKET_CLIENT_SHIFT (ucast clientid))
     OR (word_of_int sockfd AND MW_SOCKET_LOCAL_ID_MASK)"

definition MW_SOCKET_GET_ID :: "u64 \<Rightarrow> u64" where
  "MW_SOCKET_GET_ID x = x AND MW_SOCKET_LOCAL_ID_MASK"

definition MW_SOCKET_CLIENT_ID :: "u64 \<Rightarrow> u16" where
  "MW_SOCKET_CLIENT_ID x = ucast (drop_bit MW_SOCKET_CLIENT_SHIFT (x AND MW_SOCKET_CLIENT_MASK))"

section \<open>Bits of an encoded descriptor\<close>

lemma prefix_bit_int: "bit (0x53 :: int) n \<longleftrightarrow> n \<in> {0, 1, 4, 6}"
proof (cases "n < 7")
  case True
  then have "n \<in> {0, 1, 2, 3, 4, 5, 6}" by auto
  then show ?thesis by auto
next
  case False
  have "take_bit 7 (0x53 :: int) = 0x53" by simp
  then have "bit (0x53 :: int) n \<longleftrightarrow> bit (take_bit 7 (0x53 :: int)) n" by (simp only:)
  also have "\<dots> \<longleftrightarrow> n < 7 \<and> bit (0x53 :: int) n" by (simp only: bit_take_bit_iff)
  finally show ?thesis using False by auto
qed

lemma prefix_bit: "bit (0x53 :: u64) n \<longleftrightarrow> n \<in> {0, 1, 4, 6}"
  by (auto simp: prefix_bit_int)

lemma local_mask_eq: "MW_SOCKET_LOCAL_ID_MASK = mask 32"
  by (simp add: mw_consts mask_eq_exp_minus_1)

lemma client_mask_eq: "MW_SOCKET_CLIENT_MASK = push_bit 40 (mask 16)"
  by (simp add: mw_consts mask_eq_exp_minus_1 push_bit_eq_mult)

lemma prefix_val_bit: "bit MW_SOCKET_PREFIX_VAL n \<longleftrightarrow> n \<in> {56, 57, 60, 62}"
proof -
  have "bit MW_SOCKET_PREFIX_VAL n \<longleftrightarrow> bit (push_bit 56 (0x53 :: u64)) n"
    by (simp only: mw_consts)
  also have "\<dots> \<longleftrightarrow> 56 \<le> n \<and> n < 64 \<and> n - 56 \<in> {0, 1, 4, 6}"
    by (simp only: bit_push_bit_iff prefix_bit) auto
  finally show ?thesis by auto
qed

lemma create_bit:
  "bit (MW_SOCKET_CREATE c s) n \<longleftrightarrow>
     n \<in> {56, 57, 60, 62} \<or> (40 \<le> n \<and> n < 56 \<and> bit c (n - 40)) \<or> (n < 32 \<and> bit s n)"
  unfolding MW_SOCKET_CREATE_def local_mask_eq
  by (auto simp: bit_or_iff bit_and_iff prefix_val_bit bit_push_bit_iff bit_ucast_iff
      bit_mask_iff bit_word_of_int_iff MW_SOCKET_CLIENT_SHIFT_def dest: bit_imp_le_length)

lemma create_is_fd: "MW_SOCKET_IS_FD (MW_SOCKET_CREATE c s)"
  unfolding MW_SOCKET_IS_FD_def
  by (rule bit_word_eqI)
    (auto simp: bit_drop_bit_eq create_bit prefix_bit_int MW_SOCKET_PREFIX_SHIFT_def
      MW_SOCKET_PREFIX_def)

lemma create_client: "MW_SOCKET_CLIENT_ID (MW_SOCKET_CREATE c s) = c"
  unfolding MW_SOCKET_CLIENT_ID_def client_mask_eq
  by (rule bit_word_eqI)
    (auto simp: bit_ucast_iff bit_drop_bit_eq bit_and_iff create_bit bit_push_bit_iff
      bit_mask_iff MW_SOCKET_CLIENT_SHIFT_def)

lemma create_id_word: "MW_SOCKET_GET_ID (MW_SOCKET_CREATE c s) = word_of_int (take_bit 32 s)"
  unfolding MW_SOCKET_GET_ID_def local_mask_eq
  by (rule bit_word_eqI)
    (auto simp: bit_and_iff create_bit bit_mask_iff bit_word_of_int_iff bit_take_bit_iff)

lemma create_id:
  assumes "0 \<le> s" and "s < 2 ^ 32"
  shows "uint (MW_SOCKET_GET_ID (MW_SOCKET_CREATE c s)) = s"
  using assms by (simp add: create_id_word take_bit_int_eq_self uint_word_of_int)

lemma create_positive: "0 \<le> sint (MW_SOCKET_CREATE c s)"
proof -
  have "\<not> bit (MW_SOCKET_CREATE c s) 63" by (simp add: create_bit)
  then show ?thesis by (simp add: sint_uint signed_take_bit_nonnegative_iff bit_uint_iff)
qed

lemma create_not_invalid: "MW_SOCKET_CREATE c s \<noteq> -1"
proof
  assume "MW_SOCKET_CREATE c s = -1"
  then have "0 \<le> sint (-1 :: u64)" using create_positive [of c s] by simp
  then show False by simp
qed

text \<open>The narrowing of a descriptor to a C \<open>int\<close> keeps the local id.\<close>

lemma create_low32:
  assumes "0 \<le> s" and "s < 2 ^ 31"
  shows "sint (ucast (MW_SOCKET_CREATE c s) :: u32) = s"
proof -
  have "(ucast (MW_SOCKET_CREATE c s) :: u32) = word_of_int s"
    by (rule bit_word_eqI)
      (auto simp: bit_ucast_iff create_bit bit_word_of_int_iff)
  with assms show ?thesis by (simp add: sint_sbintrunc' signed_take_bit_int_eq_self)
qed

text \<open>
  C13. Round trip. For every client id and every local id that fits in 32 bits, the encoded
  descriptor is recognised as a MagicWand socket, decodes to exactly that client id and local
  id, and is a positive signed 64-bit value (so it differs from the invalid descriptor -1).
\<close>

theorem mwsocket_roundtrip:
  assumes "0 \<le> s" and "s < 2 ^ 32"
  shows "MW_SOCKET_IS_FD (MW_SOCKET_CREATE c s)
         \<and> MW_SOCKET_CLIENT_ID (MW_SOCKET_CREATE c s) = c
         \<and> uint (MW_SOCKET_GET_ID (MW_SOCKET_CREATE c s)) = s
         \<and> 0 \<le> sint (MW_SOCKET_CREATE c s)"
  using assms create_is_fd create_client create_id create_positive by blast

theorem mwsocket_roundtrip_witness:
  "MW_SOCKET_IS_FD (MW_SOCKET_CREATE 5 49)
   \<and> MW_SOCKET_CLIENT_ID (MW_SOCKET_CREATE 5 49) = 5
   \<and> uint (MW_SOCKET_GET_ID (MW_SOCKET_CREATE 5 49)) = 49
   \<and> 0 \<le> sint (MW_SOCKET_CREATE 5 49)"
  by (rule mwsocket_roundtrip) simp_all

end
