(* ===== verification/Messages.thy ===== *)
theory Messages
  imports MwSocket
begin

text \<open>
  The messages that cross the Xen ring (common/message_types.h, with the sizes of
  common/common\_config.h.template and the attribute names of exports/imports/mw\_netflow\_iface.h).

  A C enum that arrives over the ring is a 32-bit word; \<open>mt_request_type\<close> lists the
  constants of the enum, \<open>mt_request_code\<close> gives their values and \<open>mt_request_of\<close>
  decodes a word (None: a value outside the enum, the \<open>default\<close> branch of a switch).

  The unions \<open>mt_request_generic_t\<close> and \<open>mt_response_generic_t\<close> are records with the
  common header and one field per member field: reading a member reads the field of that name.
  The header is the common prefix of every member, so it is one field. No code modelled here
  writes one member and reads another. \<open>mt_status_t\<close> (int32\_t) and C \<open>int\<close> are
  \<open>int\<close>; narrowing conversions are written out where they occur.
\<close>

section \<open>Constants\<close>

definition MT_SIGNATURE_REQUEST :: u16 where [mw_consts]: "MT_SIGNATURE_REQUEST = 0xff11"
definition MT_SIGNATURE_RESPONSE :: u16 where [mw_consts]: "MT_SIGNATURE_RESPONSE = 0xff33"
definition MT_RESPONSE_MASK :: u32 where [mw_consts]: "MT_RESPONSE_MASK = 0x8000"
definition MT_TYPE_MASK :: u32 where [mw_consts]: "MT_TYPE_MASK = 0x7fff"
definition MT_REQUEST :: "u32 \<Rightarrow> u32" where [mw_consts]: "MT_REQUEST x = x"
definition MT_RESPONSE :: "u32 \<Rightarrow> u32" where "MT_RESPONSE x = MT_RESPONSE_MASK OR x"
definition MT_GET_REQUEST_TYPE :: "u32 \<Rightarrow> u32" where "MT_GET_REQUEST_TYPE t = t AND MT_TYPE_MASK"

definition MT_TYPE_MASK_ALLOC_FD :: u32 where [mw_consts]: "MT_TYPE_MASK_ALLOC_FD = 0x0100"
definition MT_TYPE_MASK_DEALLOC_FD :: u32 where [mw_consts]: "MT_TYPE_MASK_DEALLOC_FD = 0x0200"
definition MT_TYPE_MASK_CLOSE_WAITS :: u32 where [mw_consts]: "MT_TYPE_MASK_CLOSE_WAITS = 0x0400"
definition MT_ALLOCATES_FD :: "u32 \<Rightarrow> bool" where
  "MT_ALLOCATES_FD x \<longleftrightarrow> x AND MT_TYPE_MASK_ALLOC_FD \<noteq> 0"
definition MT_DEALLOCATES_FD :: "u32 \<Rightarrow> bool" where
  "MT_DEALLOCATES_FD x \<longleftrightarrow> x AND MT_TYPE_MASK_DEALLOC_FD \<noteq> 0"
definition MT_CLOSE_WAITS :: "u32 \<Rightarrow> bool" where
  "MT_CLOSE_WAITS x \<longleftrightarrow> x AND MT_TYPE_MASK_CLOSE_WAITS \<noteq> 0"

definition MT_INVALID_SOCKET_FD :: mw_socket_fd where [mw_consts]: "MT_INVALID_SOCKET_FD = -1"

definition MT_FLAGS_REMOTE_CLOSED :: u32 where [mw_consts]: "MT_FLAGS_REMOTE_CLOSED = 0x80000000"
definition MT_FLAGS_PVM_CALLER_AWAITS_RESPONSE :: u32 where [mw_consts]:
  "MT_FLAGS_PVM_CALLER_AWAITS_RESPONSE = 0x00000001"
definition MW_SOCK_NONBLOCK :: u32 where [mw_consts]: "MW_SOCK_NONBLOCK = 0x800"

text \<open>
  The critical error codes. \<open>0xc0 << 24\<close> is computed on a 32-bit int, and the status a
  code is stored in is an int32\_t: \<open>IS_CRITICAL_ERROR\<close> shifts it arithmetically and
  compares with the positive constant 0xc0.
\<close>

definition CRITICAL_ERROR_PREFIX :: int where [mw_consts]: "CRITICAL_ERROR_PREFIX = 0xc0"
definition CRITICAL_ERROR_MASK :: int where [mw_consts]:
  "CRITICAL_ERROR_MASK = signed_take_bit 31 (push_bit 24 CRITICAL_ERROR_PREFIX)"
definition CRITICAL_ERROR :: "int \<Rightarrow> int" where
  "CRITICAL_ERROR x = CRITICAL_ERROR_MASK OR x"
definition IS_CRITICAL_ERROR :: "int \<Rightarrow> bool" where
  "IS_CRITICAL_ERROR x \<longleftrightarrow> drop_bit 24 x = CRITICAL_ERROR_PREFIX"
definition MT_STATUS_INTERNAL_ERROR :: int where
  "MT_STATUS_INTERNAL_ERROR = CRITICAL_ERROR 1"

lemma MT_STATUS_INTERNAL_ERROR_val: "MT_STATUS_INTERNAL_ERROR = - 1073741823"
  by code_simp

lemma internal_error_negative [simp]: "MT_STATUS_INTERNAL_ERROR < 0"
  by (simp add: MT_STATUS_INTERNAL_ERROR_val)

section \<open>Request and response types\<close>

datatype mt_request_type =
    MtRequestInvalid
  | MtRequestSocketCreate
  | MtRequestSocketShutdown
  | MtRequestSocketClose
  | MtRequestSocketConnect
  | MtRequestSocketBind
  | MtRequestSocketListen
  | MtRequestSocketAccept
  | MtRequestSocketSend
  | MtRequestSocketRecv
  | MtRequestSocketRecvFrom
  | MtRequestSocketGetName
  | MtRequestSocketGetPeer
  | MtRequestSocketAttrib
  | MtRequestPollsetQuery
  | MtRequestAddrBlock

primrec mt_request_code :: "mt_request_type \<Rightarrow> u32" where
  "mt_request_code MtRequestInvalid = MT_REQUEST 0x0"
| "mt_request_code MtRequestSocketCreate = MT_REQUEST (0x01 OR MT_TYPE_MASK_ALLOC_FD)"
| "mt_request_code MtRequestSocketShutdown = MT_REQUEST 0x2"
| "mt_request_code MtRequestSocketClose = MT_REQUEST (0x03 OR MT_TYPE_MASK_DEALLOC_FD)"
| "mt_request_code MtRequestSocketConnect = MT_REQUEST 0x10"
| "mt_request_code MtRequestSocketBind = MT_REQUEST 0x11"
| "mt_request_code MtRequestSocketListen = MT_REQUEST 0x12"
| "mt_request_code MtRequestSocketAccept = MT_REQUEST (0x13 OR MT_TYPE_MASK_ALLOC_FD)"
| "mt_request_code MtRequestSocketSend = MT_REQUEST (0x20 OR MT_TYPE_MASK_CLOSE_WAITS)"
| "mt_request_code MtRequestSocketRecv = MT_REQUEST 0x21"
| "mt_request_code MtRequestSocketRecvFrom = MT_REQUEST 0x22"
| "mt_request_code MtRequestSocketGetName = MT_REQUEST (0x30 OR MT_TYPE_MASK_CLOSE_WAITS)"
| "mt_request_code MtRequestSocketGetPeer = MT_REQUEST (0x31 OR MT_TYPE_MASK_CLOSE_WAITS)"
| "mt_request_code MtRequestSocketAttrib = MT_REQUEST 0x32"
| "mt_request_code MtRequestPollsetQuery = MT_REQUEST 0x33"
| "mt_request_code MtRequestAddrBlock = MT_REQUEST 0x34"

definition mt_request_types :: "mt_request_type list" where
  "mt_request_types =
     [MtRequestInvalid, MtRequestSocketCreate, MtRequestSocketShutdown,
      MtRequestSocketClose, MtRequestSocketConnect, MtRequestSocketBind,
      MtRequestSocketListen, MtRequestSocketAccept, MtRequestSocketSend,
      MtRequestSocketRecv, MtRequestSocketRecvFrom, MtRequestSocketGetName,
      MtRequestSocketGetPeer, MtRequestSocketAttrib, MtRequestPollsetQuery,
      MtRequestAddrBlock]"

definition mt_request_of :: "u32 \<Rightarrow> mt_request_type option" where
  "mt_request_of t = List.find (\<lambda>r. mt_request_code r = t) mt_request_types"

text \<open>\<open>mt_response_type_t\<close>: the request's constant with the response bit set.\<close>

definition mt_response_code :: "mt_request_type \<Rightarrow> u32" where
  "mt_response_code r = MT_RESPONSE (mt_request_code r)"

lemma mt_request_code_val:
  shows
    "mt_request_code MtRequestInvalid = 0x0000"
    "mt_request_code MtRequestSocketCreate = 0x0101"
    "mt_request_code MtRequestSocketShutdown = 0x0002"
    "mt_request_code MtRequestSocketClose = 0x0203"
    "mt_request_code MtRequestSocketConnect = 0x0010"
    "mt_request_code MtRequestSocketBind = 0x0011"
    "mt_request_code MtRequestSocketListen = 0x0012"
    "mt_request_code MtRequestSocketAccept = 0x0113"
    "mt_request_code MtRequestSocketSend = 0x0420"
    "mt_request_code MtRequestSocketRecv = 0x0021"
    "mt_request_code MtRequestSocketRecvFrom = 0x0022"
    "mt_request_code MtRequestSocketGetName = 0x0430"
    "mt_request_code MtRequestSocketGetPeer = 0x0431"
    "mt_request_code MtRequestSocketAttrib = 0x0032"
    "mt_request_code MtRequestPollsetQuery = 0x0033"
    "mt_request_code MtRequestAddrBlock = 0x0034"
  by (simp_all add: mw_consts)

lemma mt_request_types_all: "r \<in> set mt_request_types"
  by (cases r) (simp_all add: mt_request_types_def)

lemma mt_request_code_inj: "mt_request_code r = mt_request_code r' \<longleftrightarrow> r = r'"
  by (cases r; cases r') (simp_all add: mt_request_code_val del: mt_request_code.simps)

lemma mt_request_of_code [simp]: "mt_request_of (mt_request_code r) = Some r"
  by (cases r) (simp_all add: mt_request_of_def mt_request_types_def mt_request_code_val
      del: mt_request_code.simps)

lemma mt_request_of_Some: "mt_request_of t = Some r \<longleftrightarrow> t = mt_request_code r"
proof
  assume "mt_request_of t = Some r"
  then show "t = mt_request_code r" by (auto simp: mt_request_of_def find_Some_iff)
qed simp

lemma dealloc_iff: "MT_DEALLOCATES_FD (mt_request_code r) \<longleftrightarrow> r = MtRequestSocketClose"
  by (cases r) (simp_all add: MT_DEALLOCATES_FD_def mt_request_code_val mw_consts
      del: mt_request_code.simps)

section \<open>Message headers\<close>

record mt_request_base =
  rq_sig :: u16
  rq_type :: u32
  rq_size :: u16
  rq_id :: u64
  rq_sockfd :: mw_socket_fd
  rq_flags :: u32

record mt_response_base =
  rs_sig :: u16
  rs_type :: u32
  rs_size :: u16
  rs_id :: u64
  rs_sockfd :: mw_socket_fd
  rs_status :: int
  rs_flags :: u32
  rs_ts_ins :: u64

record mt_sockaddr_in =
  sin_family :: u32
  sin_port :: u16
  sin_addr :: u64
  sin_zero :: "u8 list"

text \<open>
  \<open>mt_sockfeat_arg_t\<close>: the union of a 32-bit value and a pair of 64-bit values (seconds
  and microseconds); on the little-endian target the 32-bit value is the low half of the first.
\<close>

record mt_sockfeat_arg =
  feat_s :: u64
  feat_us :: u64

definition feat_v32 :: "mt_sockfeat_arg \<Rightarrow> u32" where
  "feat_v32 a = ucast (feat_s a)"

definition feat_of_v32 :: "u32 \<Rightarrow> mt_sockfeat_arg" where
  "feat_of_v32 v = \<lparr>feat_s = ucast v, feat_us = 0\<rparr>"

record mt_request_generic =
  rq_base :: mt_request_base
  create_sock_fam :: u32
  create_sock_type :: u32
  create_sock_protocol :: u32
  connect_sockaddr :: mt_sockaddr_in
  bind_sockaddr :: mt_sockaddr_in
  listen_backlog :: int
  accept_rq_flags :: u32
  recv_rq_flags :: u32
  recv_requested :: u16
  shutdown_how :: u32
  send_rq_flags :: u32
  send_rq_bytes :: "u8 list"
  getname_maxlen :: u16
  attrib_modify :: u32
  attrib_rq_name :: u16
  attrib_rq_val :: mt_sockfeat_arg
  block_block :: u32
  block_addr :: string

record mt_response_generic =
  rs_base :: mt_response_base
  accept_rs_flags :: u32
  accept_sockaddr :: mt_sockaddr_in
  recv_count :: u16
  recv_bytes :: "u8 list"
  recvfrom_src_addr :: mt_sockaddr_in
  recvfrom_addrlen :: u32
  recvfrom_count :: u16
  recvfrom_bytes :: "u8 list"
  send_rs_flags :: u32
  send_count :: u16
  getname_reslen :: u16
  getname_sockaddr :: mt_sockaddr_in
  attrib_rs_name :: u16
  attrib_rs_val :: mt_sockfeat_arg
  pollset_count :: u32
  pollset_items :: "(mw_socket_fd \<times> u32) list"

text \<open>Structures filled with zero bytes, as bzero and an initialiser \<open>{0}\<close> leave them.\<close>

definition rq_zero :: mt_request_generic where
  "rq_zero = \<lparr>rq_base = \<lparr>rq_sig = 0, rq_type = 0, rq_size = 0, rq_id = 0, rq_sockfd = 0, rq_flags = 0\<rparr>,
     create_sock_fam = 0, create_sock_type = 0, create_sock_protocol = 0,
     connect_sockaddr = \<lparr>sin_family = 0, sin_port = 0, sin_addr = 0, sin_zero = replicate 8 0\<rparr>,
     bind_sockaddr = \<lparr>sin_family = 0, sin_port = 0, sin_addr = 0, sin_zero = replicate 8 0\<rparr>,
     listen_backlog = 0, accept_rq_flags = 0, recv_rq_flags = 0, recv_requested = 0,
     shutdown_how = 0, send_rq_flags = 0, send_rq_bytes = replicate 1985 0, getname_maxlen = 0,
     attrib_modify = 0, attrib_rq_name = 0, attrib_rq_val = \<lparr>feat_s = 0, feat_us = 0\<rparr>,
     block_block = 0, block_addr = ''''\<rparr>"

definition rs_base_zero :: mt_response_base where
  "rs_base_zero = \<lparr>rs_sig = 0, rs_type = 0, rs_size = 0, rs_id = 0, rs_sockfd = 0, rs_status = 0,
     rs_flags = 0, rs_ts_ins = 0\<rparr>"

definition rs_zero :: mt_response_generic where
  "rs_zero = \<lparr>rs_base = rs_base_zero, accept_rs_flags = 0,
     accept_sockaddr = \<lparr>sin_family = 0, sin_port = 0, sin_addr = 0, sin_zero = replicate 8 0\<rparr>,
     recv_count = 0, recv_bytes = [],
     recvfrom_src_addr = \<lparr>sin_family = 0, sin_port = 0, sin_addr = 0, sin_zero = replicate 8 0\<rparr>,
     recvfrom_addrlen = 0, recvfrom_count = 0, recvfrom_bytes = [], send_rs_flags = 0,
     send_count = 0, getname_reslen = 0,
     getname_sockaddr = \<lparr>sin_family = 0, sin_port = 0, sin_addr = 0, sin_zero = replicate 8 0\<rparr>,
     attrib_rs_name = 0, attrib_rs_val = \<lparr>feat_s = 0, feat_us = 0\<rparr>,
     pollset_count = 0, pollset_items = []\<rparr>"

section \<open>Sizes\<close>

text \<open>
  The message structures are packed, so their size is the sum of their fields' sizes; an enum
  has 4 bytes. \<open>mt_sockaddr_in_t\<close> is not packed: two bytes of padding follow the port.
\<close>

definition MESSAGE_TARGET_MAX_SIZE :: nat where [sizes]: "MESSAGE_TARGET_MAX_SIZE = 0x800"
definition MESSAGE_TYPE_MAX_PAYLOAD_LEN :: nat where [sizes]:
  "MESSAGE_TYPE_MAX_PAYLOAD_LEN = MESSAGE_TARGET_MAX_SIZE - 0x3e - 1"
definition sizeof_mt_sockaddr_in :: nat where [sizes]:
  "sizeof_mt_sockaddr_in = sum_list [4, 2, 2, 8, 8]"
definition MT_REQUEST_BASE_SIZE :: nat where [sizes]:
  "MT_REQUEST_BASE_SIZE = sum_list [2, 4, 2, 8, 8, 4]"
definition MT_RESPONSE_BASE_SIZE :: nat where [sizes]:
  "MT_RESPONSE_BASE_SIZE = sum_list [2, 4, 2, 8, 8, 4, 4, 8]"

definition MT_RESPONSE_SOCKET_CREATE_SIZE :: nat where [sizes]:
  "MT_RESPONSE_SOCKET_CREATE_SIZE = MT_RESPONSE_BASE_SIZE"
definition MT_RESPONSE_SOCKET_BIND_SIZE :: nat where [sizes]:
  "MT_RESPONSE_SOCKET_BIND_SIZE = MT_RESPONSE_BASE_SIZE"
definition MT_RESPONSE_SOCKET_LISTEN_SIZE :: nat where [sizes]:
  "MT_RESPONSE_SOCKET_LISTEN_SIZE = MT_RESPONSE_BASE_SIZE"
definition MT_RESPONSE_SOCKET_CONNECT_SIZE :: nat where [sizes]:
  "MT_RESPONSE_SOCKET_CONNECT_SIZE = MT_RESPONSE_BASE_SIZE"
definition MT_RESPONSE_SOCKET_CLOSE_SIZE :: nat where [sizes]:
  "MT_RESPONSE_SOCKET_CLOSE_SIZE = MT_RESPONSE_BASE_SIZE"
definition MT_RESPONSE_SOCKET_SHUTDOWN_SIZE :: nat where [sizes]:
  "MT_RESPONSE_SOCKET_SHUTDOWN_SIZE = MT_RESPONSE_BASE_SIZE"
definition MT_RESPONSE_ADDR_BLOCK_SIZE :: nat where [sizes]:
  "MT_RESPONSE_ADDR_BLOCK_SIZE = MT_RESPONSE_BASE_SIZE"
definition MT_RESPONSE_SOCKET_ACCEPT_SIZE :: nat where [sizes]:
  "MT_RESPONSE_SOCKET_ACCEPT_SIZE = MT_RESPONSE_BASE_SIZE + 4 + sizeof_mt_sockaddr_in"
definition MT_RESPONSE_SOCKET_RECV_SIZE :: nat where [sizes]:
  "MT_RESPONSE_SOCKET_RECV_SIZE = MT_RESPONSE_BASE_SIZE + 2"
definition MT_RESPONSE_SOCKET_RECVFROM_SIZE :: nat where [sizes]:
  "MT_RESPONSE_SOCKET_RECVFROM_SIZE = MT_RESPONSE_BASE_SIZE + sizeof_mt_sockaddr_in + 2 + 4"
definition MT_RESPONSE_SOCKET_SEND_SIZE :: nat where [sizes]:
  "MT_RESPONSE_SOCKET_SEND_SIZE = MT_RESPONSE_BASE_SIZE + 4 + 2"
definition MT_RESPONSE_SOCKET_GETNAME_SIZE :: nat where [sizes]:
  "MT_RESPONSE_SOCKET_GETNAME_SIZE = MT_RESPONSE_BASE_SIZE + 2 + sizeof_mt_sockaddr_in"
definition MT_RESPONSE_SOCKET_ATTRIB_SIZE :: nat where [sizes]:
  "MT_RESPONSE_SOCKET_ATTRIB_SIZE = MT_RESPONSE_BASE_SIZE + 2 + 16"
definition MT_RESPONSE_POLLSET_QUERY_ITEM_SIZE :: nat where [sizes]:
  "MT_RESPONSE_POLLSET_QUERY_ITEM_SIZE = 8 + 4"
definition MT_RESPONSE_POLLSET_QUERY_SIZE :: nat where [sizes]:
  "MT_RESPONSE_POLLSET_QUERY_SIZE = MT_RESPONSE_BASE_SIZE + 4"
definition MT_POLLSET_QUERY_MAX_ITEMS :: nat where [sizes]:
  "MT_POLLSET_QUERY_MAX_ITEMS = MESSAGE_TYPE_MAX_PAYLOAD_LEN div MT_RESPONSE_POLLSET_QUERY_ITEM_SIZE"
definition MT_REQUEST_SOCKET_SEND_SIZE :: nat where [sizes]:
  "MT_REQUEST_SOCKET_SEND_SIZE = MT_REQUEST_BASE_SIZE + 4"

text \<open>The sizes of the two unions are those of their largest members: send and recvfrom.\<close>

definition sizeof_mt_request_generic :: nat where [sizes]:
  "sizeof_mt_request_generic = Max {
     MT_REQUEST_BASE_SIZE, MT_REQUEST_BASE_SIZE + 4 + 4 + 4,
     MT_REQUEST_BASE_SIZE + sizeof_mt_sockaddr_in, MT_REQUEST_BASE_SIZE + 4,
     MT_REQUEST_SOCKET_SEND_SIZE + MESSAGE_TYPE_MAX_PAYLOAD_LEN, MT_REQUEST_BASE_SIZE + 4 + 2,
     MT_REQUEST_BASE_SIZE + 2, MT_REQUEST_BASE_SIZE + 4 + 16, MT_REQUEST_BASE_SIZE + 4 + 2 + 16}"

definition sizeof_mt_response_generic :: nat where [sizes]:
  "sizeof_mt_response_generic = Max {
     MT_RESPONSE_BASE_SIZE, MT_RESPONSE_SOCKET_ACCEPT_SIZE, MT_RESPONSE_SOCKET_SEND_SIZE,
     MT_RESPONSE_SOCKET_RECV_SIZE + MESSAGE_TYPE_MAX_PAYLOAD_LEN,
     MT_RESPONSE_SOCKET_RECVFROM_SIZE + MESSAGE_TYPE_MAX_PAYLOAD_LEN,
     MT_RESPONSE_SOCKET_GETNAME_SIZE, MT_RESPONSE_SOCKET_ATTRIB_SIZE,
     MT_RESPONSE_POLLSET_QUERY_SIZE + MT_RESPONSE_POLLSET_QUERY_ITEM_SIZE}"

lemma sizeof_request_val: "sizeof_mt_request_generic = 2017"
  by (simp add: sizes)

lemma sizeof_response_val: "sizeof_mt_response_generic = 2055"
  by (simp add: sizes)

section \<open>Recognising messages\<close>

definition MT_IS_REQUEST :: "mt_request_base \<Rightarrow> bool" where
  "MT_IS_REQUEST b \<longleftrightarrow> rq_sig b = MT_SIGNATURE_REQUEST \<and> MT_RESPONSE_MASK AND rq_type b = 0
     \<and> MT_REQUEST_BASE_SIZE \<le> unat (rq_size b)"

definition MT_IS_RESPONSE :: "mt_response_base \<Rightarrow> bool" where
  "MT_IS_RESPONSE b \<longleftrightarrow> rs_sig b = MT_SIGNATURE_RESPONSE
     \<and> MT_RESPONSE_MASK AND rs_type b = MT_RESPONSE_MASK
     \<and> MT_RESPONSE_BASE_SIZE \<le> unat (rs_size b)"

lemma response_mask_absorb [simp]: "MT_RESPONSE_MASK AND MT_RESPONSE t = MT_RESPONSE_MASK"
  unfolding MT_RESPONSE_def by (rule bit_word_eqI) (auto simp: bit_and_iff bit_or_iff)

text \<open>
  Round trip of the message types: every request constant decodes to itself, its response
  constant has the response bit set, and \<open>MT_GET_REQUEST_TYPE\<close> recovers the request
  constant from the response constant; a request constant never has that bit, and among all
  request types only close deallocates a descriptor while create and accept allocate one.
\<close>

theorem message_type_roundtrip:
  "mt_request_of (mt_request_code r) = Some r
   \<and> MT_GET_REQUEST_TYPE (mt_response_code r) = mt_request_code r
   \<and> MT_RESPONSE_MASK AND mt_response_code r = MT_RESPONSE_MASK
   \<and> MT_RESPONSE_MASK AND mt_request_code r = 0
   \<and> (MT_DEALLOCATES_FD (mt_request_code r) \<longleftrightarrow> r = MtRequestSocketClose)
   \<and> (MT_ALLOCATES_FD (mt_request_code r) \<longleftrightarrow> r \<in> {MtRequestSocketCreate, MtRequestSocketAccept})"
proof -
  have "MT_GET_REQUEST_TYPE (mt_response_code r) = mt_request_code r"
    by (cases r) (simp_all add: mt_response_code_def MT_RESPONSE_def MT_GET_REQUEST_TYPE_def
        mt_request_code_val mw_consts del: mt_request_code.simps)
  moreover have "MT_RESPONSE_MASK AND mt_request_code r = 0"
    by (cases r) (simp_all add: mt_request_code_val mw_consts del: mt_request_code.simps)
  moreover have "MT_ALLOCATES_FD (mt_request_code r)
      \<longleftrightarrow> r \<in> {MtRequestSocketCreate, MtRequestSocketAccept}"
    by (cases r) (simp_all add: MT_ALLOCATES_FD_def mt_request_code_val mw_consts
        del: mt_request_code.simps)
  ultimately show ?thesis by (simp add: dealloc_iff mt_response_code_def)
qed

text \<open>
  No value of a status field is recognised as a critical error: an int32\_t shifted
  right by 24 lies between -128 and 127, and the macro compares it with 192. In particular
  the internal error status that the INS sends is not recognised by the check the shim makes.
\<close>

lemma is_critical_error_never:
  assumes "- (2 ^ 31) \<le> st" and "st < 2 ^ 31"
  shows "\<not> IS_CRITICAL_ERROR st"
proof -
  have "drop_bit 24 st \<le> drop_bit 24 (2 ^ 31 - 1 :: int)"
    using assms(2) by (simp add: drop_bit_eq_div zdiv_mono1)
  then show ?thesis by (simp add: IS_CRITICAL_ERROR_def mw_consts)
qed

text \<open>
  The payload limit leaves room for a 0x3e byte header, as the configuration file
  computes it, but the header of a recvfrom response has 0x46 bytes: a full response is longer
  than the target message size, while a full request is not.
\<close>

lemma recvfrom_response_exceeds_target:
  "MT_RESPONSE_SOCKET_RECVFROM_SIZE = 0x46
   \<and> sizeof_mt_response_generic = MESSAGE_TARGET_MAX_SIZE + 7
   \<and> sizeof_mt_request_generic < MESSAGE_TARGET_MAX_SIZE"
  by (simp add: sizes)

end
