(* ===== verification/Translate.thy ===== *)
theory Translate
  imports Native Messages
begin

text \<open>
  Translation of socket constants and addresses between the native (NetBSD) and the shared
  representation (common/translate.h, as compiled for the INS). The C functions start from -1
  and assign the translated value in a switch: the -1 becomes 255 in the 8-bit
  \<open>sa_family_t\<close> and 0xffffffff in the 32-bit enum.
\<close>

definition MT_PF_UNSET :: u32 where [mw_consts]: "MT_PF_UNSET = 0"
definition MT_PF_INET :: u32 where [mw_consts]: "MT_PF_INET = 1"
definition MT_PF_INET6 :: u32 where [mw_consts]: "MT_PF_INET6 = 2"
definition MT_ST_DGRAM :: u32 where [mw_consts]: "MT_ST_DGRAM = 1"
definition MT_ST_STREAM :: u32 where [mw_consts]: "MT_ST_STREAM = 2"

text \<open>The native socket address; \<open>n_sin_len\<close> is NetBSD's length byte.\<close>

record sockaddr_in =
  n_sin_len :: u8
  n_sin_family :: u8
  n_sin_port :: u16
  n_sin_addr :: u32
  n_sin_zero :: "u8 list"

definition xe_net_get_mt_protocol_family :: "u8 \<Rightarrow> u32" where
  "xe_net_get_mt_protocol_family Fam =
     (if Fam = AF_INET then MT_PF_INET else if Fam = AF_INET6 then MT_PF_INET6 else -1)"

definition xe_net_get_native_protocol_family :: "u32 \<Rightarrow> u8" where
  "xe_net_get_native_protocol_family Fam =
     (if Fam = MT_PF_INET then AF_INET else if Fam = MT_PF_INET6 then AF_INET6 else -1)"

definition xe_net_get_native_sock_type :: "u32 \<Rightarrow> int" where
  "xe_net_get_native_sock_type Type =
     (if Type = MT_ST_DGRAM then SOCK_DGRAM else if Type = MT_ST_STREAM then SOCK_STREAM else -1)"

text \<open>Both conversions write into an existing structure; \<open>memcpy\<close> copies 8 bytes.\<close>

definition populate_sockaddr_in :: "sockaddr_in \<Rightarrow> mt_sockaddr_in \<Rightarrow> sockaddr_in" where
  "populate_sockaddr_in sa mt =
     sa\<lparr>n_sin_family := xe_net_get_native_protocol_family (sin_family mt),
        n_sin_port := sin_port mt,
        n_sin_addr := ucast (sin_addr mt),
        n_sin_zero := take 8 (sin_zero mt)\<rparr>"

definition populate_mt_sockaddr_in :: "mt_sockaddr_in \<Rightarrow> sockaddr_in \<Rightarrow> mt_sockaddr_in" where
  "populate_mt_sockaddr_in mt sa =
     mt\<lparr>sin_family := xe_net_get_mt_protocol_family (n_sin_family sa),
        sin_port := n_sin_port sa,
        sin_addr := ucast (n_sin_addr sa),
        sin_zero := take 8 (n_sin_zero sa)\<rparr>"

section \<open>Round trips\<close>

lemma family_roundtrip:
  "f \<in> {AF_INET, AF_INET6} \<Longrightarrow>
     xe_net_get_native_protocol_family (xe_net_get_mt_protocol_family f) = f"
  by (auto simp: xe_net_get_native_protocol_family_def xe_net_get_mt_protocol_family_def mw_consts)

lemma mt_family_roundtrip:
  "f \<in> {MT_PF_INET, MT_PF_INET6} \<Longrightarrow>
     xe_net_get_mt_protocol_family (xe_net_get_native_protocol_family f) = f"
  by (auto simp: xe_net_get_native_protocol_family_def xe_net_get_mt_protocol_family_def mw_consts)

text \<open>
  The fields of a \<open>sockaddr_in\<close> that is sent to the protected VM and back are unchanged, whatever the structures it is
  written into held before, but for NetBSD's length byte, which is not transported. The translation accepts the family of IPv6 as well, but it copies a \<open>sockaddr_in\<close>
  also then: what a \<open>sockaddr_in6\<close> has beyond these 16 bytes does not reach the other side.
\<close>

lemma sockaddr_roundtrip:
  assumes "n_sin_family sa \<in> {AF_INET, AF_INET6}" and "length (n_sin_zero sa) = 8"
  shows "populate_sockaddr_in sa0 (populate_mt_sockaddr_in mt0 sa) = sa\<lparr>n_sin_len := n_sin_len sa0\<rparr>"
  using assms family_roundtrip [of "n_sin_family sa"]
  by (cases sa; cases sa0) (simp add: populate_sockaddr_in_def populate_mt_sockaddr_in_def)

definition sa_zero :: sockaddr_in where
  "sa_zero = \<lparr>n_sin_len = 0, n_sin_family = 0, n_sin_port = 0, n_sin_addr = 0,
              n_sin_zero = replicate 8 0\<rparr>"

definition mt_sa_zero :: mt_sockaddr_in where
  "mt_sa_zero = \<lparr>sin_family = 0, sin_port = 0, sin_addr = 0, sin_zero = replicate 8 0\<rparr>"

lemma sockaddr_roundtrip_example:
  "populate_sockaddr_in sa_zero (populate_mt_sockaddr_in mt_sa_zero
      (sa_zero\<lparr>n_sin_len := 16, n_sin_family := AF_INET, n_sin_port := 0x5000\<rparr>))
   = sa_zero\<lparr>n_sin_family := AF_INET, n_sin_port := 0x5000\<rparr>"
  using sockaddr_roundtrip [of "sa_zero\<lparr>n_sin_len := 16, n_sin_family := AF_INET,
      n_sin_port := 0x5000\<rparr>" sa_zero mt_sa_zero]
  by (simp add: sa_zero_def)

end
