(* ===== verification/Errno.thy ===== *)
theory Errno
  imports Native Messages
begin

text \<open>
  Error numbers (common/mwerrno.h and \<open>xe_get_mwerrno\<close> of apps/ins-app/xenevent.c): the
  INS translates its native NetBSD numbers to the values both sides of the ring agree on.
\<close>

section \<open>The translation table\<close>

text \<open>
  The table \<open>_emap\<close> in the order of the source, each entry a native number and the MW
  number it is sent as. MW\_EWOULDBLOCK is defined as EAGAIN and so expands to the native
  number 35.
\<close>

definition emap :: "(int \<times> int) list" where
  "emap =
     [
      (1, 1), (2, 2), (3, 3), (4, 4), (5, 5),  \<comment> \<open>EPERM, ENOENT, ESRCH, EINTR, EIO\<close>
      (6, 6), (7, 7), (8, 8), (9, 9), (10, 10),  \<comment> \<open>ENXIO, E2BIG, ENOEXEC, EBADF, ECHILD\<close>
      (35, 11), (12, 12), (13, 13), (14, 14), (15, 15),  \<comment> \<open>EAGAIN, ENOMEM, EACCES, EFAULT, ENOTBLK\<close>
      (16, 16), (17, 17), (18, 18), (19, 19), (20, 20),  \<comment> \<open>EBUSY, EEXIST, EXDEV, ENODEV, ENOTDIR\<close>
      (21, 21), (22, 22), (23, 23), (24, 24), (25, 25),  \<comment> \<open>EISDIR, EINVAL, ENFILE, EMFILE, ENOTTY\<close>
      (26, 26), (27, 27), (28, 28), (29, 29), (30, 30),  \<comment> \<open>ETXTBSY, EFBIG, ENOSPC, ESPIPE, EROFS\<close>
      (31, 31), (32, 32), (33, 33), (34, 34), (11, 35),  \<comment> \<open>EMLINK, EPIPE, EDOM, ERANGE, EDEADLK\<close>
      (63, 36), (77, 37), (78, 38), (66, 39), (62, 40),  \<comment> \<open>ENAMETOOLONG, ENOLCK, ENOSYS, ENOTEMPTY, ELOOP\<close>
      (35, 35), (83, 42), (82, 43), (91, 60), (89, 61),  \<comment> \<open>EWOULDBLOCK, ENOMSG, EIDRM, ENOSTR, ENODATA\<close>
      (92, 62), (90, 63), (71, 66), (95, 67), (96, 71),  \<comment> \<open>ETIME, ENOSR, EREMOTE, ENOLINK, EPROTO\<close>
      (94, 72), (88, 74), (84, 75), (68, 87), (38, 88),  \<comment> \<open>EMULTIHOP, EBADMSG, EOVERFLOW, EUSERS, ENOTSOCK\<close>
      (39, 89), (40, 90), (41, 91), (42, 92), (43, 93),  \<comment> \<open>EDESTADDRREQ, EMSGSIZE, EPROTOTYPE, ENOPROTOOPT, EPROTONOSUPPORT\<close>
      (44, 94), (45, 95), (46, 96), (47, 97), (48, 98),  \<comment> \<open>ESOCKTNOSUPPORT, EOPNOTSUPP, EPFNOSUPPORT, EAFNOSUPPORT, EADDRINUSE\<close>
      (49, 99), (50, 100), (51, 101), (52, 102), (53, 103),  \<comment> \<open>EADDRNOTAVAIL, ENETDOWN, ENETUNREACH, ENETRESET, ECONNABORTED\<close>
      (54, 104), (55, 105), (56, 106), (57, 107), (58, 108),  \<comment> \<open>ECONNRESET, ENOBUFS, EISCONN, ENOTCONN, ESHUTDOWN\<close>
      (59, 109), (60, 110), (61, 111), (64, 112), (65, 113),  \<comment> \<open>ETOOMANYREFS, ETIMEDOUT, ECONNREFUSED, EHOSTDOWN, EHOSTUNREACH\<close>
      (37, 114), (36, 115), (70, 116)]  \<comment> \<open>EALREADY, EINPROGRESS, ESTALE\<close>"

definition MW_EPERM :: int where [mw_consts]: "MW_EPERM = 1"
definition MW_EAGAIN :: int where [mw_consts]: "MW_EAGAIN = 11"
definition MW_EPIPE :: int where [mw_consts]: "MW_EPIPE = 32"
definition MW_EHWPOISON :: int where [mw_consts]: "MW_EHWPOISON = 133"

text \<open>
  The loop over the table stops at the first entry for the number; a number the table does not
  list becomes MW\_EPERM.
\<close>

definition xe_get_mwerrno :: "int \<Rightarrow> int" where
  "xe_get_mwerrno NativeErrno =
     (if NativeErrno = 0 then 0
      else (case first_idx (\<lambda>e. fst e = NativeErrno) emap of
              Some i \<Rightarrow> snd (emap ! i)
            | None \<Rightarrow> MW_EPERM))"

definition XE_GET_NEG_ERRNO_VAL :: "int \<Rightarrow> int" where
  "XE_GET_NEG_ERRNO_VAL err = (if err > 0 then - xe_get_mwerrno err else -1)"

section \<open>Properties\<close>

lemma emap_range: "e \<in> set emap \<Longrightarrow> 0 < snd e \<and> snd e \<le> MW_EHWPOISON"
  unfolding emap_def by (auto simp: mw_consts)

lemma xe_get_mwerrno_range: "e \<noteq> 0 \<Longrightarrow> 0 < xe_get_mwerrno e \<and> xe_get_mwerrno e \<le> MW_EHWPOISON"
proof (cases "first_idx (\<lambda>x. fst x = e) emap")
  case None
  assume "e \<noteq> 0"
  with None show ?thesis unfolding xe_get_mwerrno_def by (simp add: mw_consts)
next
  case (Some i)
  assume "e \<noteq> 0"
  moreover have "emap ! i \<in> set emap" using first_idx_SomeD(1) [OF Some] by simp
  ultimately show ?thesis using emap_range Some unfolding xe_get_mwerrno_def by auto
qed

lemma neg_errno_negative [simp]: "XE_GET_NEG_ERRNO_VAL e < 0"
  using xe_get_mwerrno_range [of e] by (auto simp: XE_GET_NEG_ERRNO_VAL_def)

text \<open>
  Bounds and totality. Whatever the native error number, the status the INS derives from it
  is negative and, as a number of the MW set, lies between 1 and 133: an error is never reported
  as success and never outside the shared table.
\<close>

theorem neg_errno_is_mw_error:
  "XE_GET_NEG_ERRNO_VAL e < 0 \<and> - MW_EHWPOISON \<le> XE_GET_NEG_ERRNO_VAL e"
  using xe_get_mwerrno_range [of e] by (auto simp: XE_GET_NEG_ERRNO_VAL_def mw_consts)

lemma xe_get_mwerrno_EAGAIN: "xe_get_mwerrno EAGAIN = MW_EAGAIN"
  by (simp add: xe_get_mwerrno_def emap_def mw_consts)

lemma xe_get_mwerrno_EPIPE: "xe_get_mwerrno EPIPE = MW_EPIPE"
  by (simp add: xe_get_mwerrno_def emap_def mw_consts)

text \<open>
  Only the native EPIPE is reported as MW\_EPIPE, so the check \<open>-MW_EPIPE == status\<close> of
  the send loop is a check for the native error.
\<close>

lemma neg_errno_EPIPE_iff: "XE_GET_NEG_ERRNO_VAL e = - MW_EPIPE \<longleftrightarrow> e = EPIPE"
proof
  assume a: "XE_GET_NEG_ERRNO_VAL e = - MW_EPIPE"
  then have pos: "0 < e" and m: "xe_get_mwerrno e = MW_EPIPE"
    by (auto simp: XE_GET_NEG_ERRNO_VAL_def mw_consts split: if_splits)
  show "e = EPIPE"
  proof (cases "first_idx (\<lambda>x. fst x = e) emap")
    case None
    with m pos show ?thesis unfolding xe_get_mwerrno_def by (simp add: mw_consts)
  next
    case (Some i)
    then have mem: "emap ! i \<in> set emap" and fi: "fst (emap ! i) = e"
      using first_idx_SomeD [OF Some] by auto
    have "snd (emap ! i) = MW_EPIPE" using m pos Some unfolding xe_get_mwerrno_def by simp
    then have "fst (emap ! i) = EPIPE"
      using mem unfolding emap_def by (auto simp: mw_consts)
    with fi show ?thesis by simp
  qed
next
  assume "e = EPIPE"
  then show "XE_GET_NEG_ERRNO_VAL e = - MW_EPIPE"
    by (simp add: XE_GET_NEG_ERRNO_VAL_def xe_get_mwerrno_EPIPE)
qed

end
