(* ===== verification/InsState.thy ===== *)
theory InsState
  imports WorkQueue Messages Translate Errno
begin

text \<open>
  The state of the INS application (apps/ins-app: config.h, threadpool.h, bufferpool.h,
  xenevent\_app\_common.h) and its interface to the operating system.

  The operating system is not part of the application: it is a parameter \<open>os\<close> of every
  operation that makes a system call, a function from the call and the state of the outside
  world \<open>'w\<close> to the call's result and the next world. Nothing is assumed about it here;
  a theorem that relies on documented behaviour of a call states it as a hypothesis. The state
  records the calls made and their results in \<open>trace\<close>, so theorems can speak about what
  the application sent and received.
\<close>

section \<open>Configuration\<close>

definition MAX_THREAD_COUNT :: nat where [mw_consts]: "MAX_THREAD_COUNT = 50"
definition BUFFER_ITEM_COUNT :: nat where [mw_consts]: "BUFFER_ITEM_COUNT = MAX_THREAD_COUNT + 50"
definition ONE_REQUEST_REGION_SIZE :: nat where [sizes]:
  "ONE_REQUEST_REGION_SIZE = sizeof_mt_request_generic"
definition INS_LISTENING_PORTS_MAX_LEN :: nat where [mw_consts]: "INS_LISTENING_PORTS_MAX_LEN = 1024"

section \<open>Threads and buffers\<close>

text \<open>
  \<open>thread_item_t\<close>. A semaphore is its count; \<open>pthread_t self\<close> is left out.
\<close>

record thread_item =
  ti_in_use :: u32
  ti_idx :: nat
  ti_awaiting_work_sem :: nat
  ti_oplock :: nat
  ti_oplock_acquired :: bool
  ti_work_queue :: workqueue
  ti_public_fd :: mw_socket_fd
  ti_poll_events :: u32
  ti_state_flags :: u32
  ti_local_fd :: int
  ti_sock_domain :: int
  ti_sock_type :: int
  ti_sock_protocol :: u32
  ti_bound_port_num :: u16
  ti_remote_host :: "u8 list"

text \<open>
  \<open>buffer_item_t\<close>. The region an item points to belongs to it alone, so its contents,
  the request read into it, are a field; the assigned thread is its index.
\<close>

record buffer_item =
  bi_in_use :: u32
  bi_assigned_thread :: "nat option"
  bi_offset :: nat
  bi_idx :: nat
  bi_request :: mt_request_generic

section \<open>System calls\<close>

datatype sockopt =
    OptInt int
  | OptTime u64 u64 nat
  | OptFilter string

datatype syscall =
    SysSocket int int int
  | SysSetsockopt int int int sockopt
  | SysGetsockopt int int int
  | SysFcntlGetfl int
  | SysFcntlSetfl int u32
  | SysConnect int sockaddr_in
  | SysBind int sockaddr_in
  | SysListen int int
  | SysAccept int
  | SysRecv int nat u32
  | SysRecvfrom int nat u32 nat
  | SysSend int "u8 list" u32
  | SysShutdown int u32
  | SysClose int
  | SysPoll "(int \<times> u32) list" int
  | SysGetpeername int nat
  | SysGetsockname int nat
  | SysNpfctl "string list"
  | SysIoctlListeners int string
  | SysIoctlHeartbeat int string
  | SysIoctlDomid int
  | SysOpen string
  | SysRead int nat
  | SysWrite int mt_response_generic nat

text \<open>
  A result: the return value, the value of \<open>errno\<close> after the call, and what the call
  writes through its pointer arguments (received bytes, an address and its length, the poll
  results, an option's value, the request read from the device, the domain id).
\<close>

record sysres =
  sr_ret :: int
  sr_errno :: int
  sr_bytes :: "u8 list"
  sr_addr :: sockaddr_in
  sr_addrlen :: u32
  sr_revents :: "u32 list"
  sr_tv :: "u64 \<times> u64"
  sr_request :: mt_request_generic
  sr_domid :: u16

text \<open>A result of zeros, to build example operating systems from.\<close>

definition sysres0 :: sysres where
  "sysres0 = \<lparr>sr_ret = 0, sr_errno = 0, sr_bytes = [], sr_addr = sa_zero, sr_addrlen = 0,
     sr_revents = [], sr_tv = (0, 0), sr_request = rq_zero, sr_domid = 0\<rparr>"

type_synonym 'w os = "syscall \<Rightarrow> 'w \<Rightarrow> sysres \<times> 'w"

section \<open>Global state\<close>

text \<open>
  \<open>xenevent_globals_t\<close>, the static variables of \<open>xe_pollset_query\<close>, the outside
  world and the record of system calls. \<open>stack\<close> and \<open>stack_addr\<close> are the
  indeterminate contents of an uninitialised response and address on the stack.
\<close>

record 'w ins_state =
  buffer_items :: "buffer_item list"
  worker_threads :: "thread_item list"
  shutdown_pending :: bool
  input_fd :: int
  output_fd :: int
  client_id :: u16
  network_stats_socket_ct :: int
  network_stats_bytes_recv :: u64
  network_stats_bytes_sent :: u64
  pending_port_change :: bool
  so_sndbuf :: int
  so_rcvbuf :: int
  so_sndtimeo :: "u64 \<times> u64"
  so_rcvtimeo :: "u64 \<times> u64"
  pollset_cur_pos :: nat
  stack :: mt_response_generic
  stack_addr :: sockaddr_in
  world :: 'w
  trace :: "(syscall \<times> sysres) list"

definition do_sys :: "'w os \<Rightarrow> syscall \<Rightarrow> 'w ins_state \<Rightarrow> sysres \<times> 'w ins_state" where
  "do_sys os c s = (let (r, w) = os c (world s) in (r, s\<lparr>world := w, trace := trace s @ [(c, r)]\<rparr>))"

text \<open>Access to one worker thread and one buffer item by index.\<close>

definition thread :: "'w ins_state \<Rightarrow> nat \<Rightarrow> thread_item" where
  "thread s i = worker_threads s ! i"

definition upd_thread :: "nat \<Rightarrow> (thread_item \<Rightarrow> thread_item) \<Rightarrow> 'w ins_state \<Rightarrow> 'w ins_state" where
  "upd_thread i f s = s\<lparr>worker_threads := (worker_threads s)[i := f (worker_threads s ! i)]\<rparr>"

definition buffer :: "'w ins_state \<Rightarrow> nat \<Rightarrow> buffer_item" where
  "buffer s i = buffer_items s ! i"

definition upd_buffer :: "nat \<Rightarrow> (buffer_item \<Rightarrow> buffer_item) \<Rightarrow> 'w ins_state \<Rightarrow> 'w ins_state" where
  "upd_buffer i f s = s\<lparr>buffer_items := (buffer_items s)[i := f (buffer_items s ! i)]\<rparr>"

lemma thread_upd_thread:
  "i < length (worker_threads s) \<Longrightarrow>
     thread (upd_thread i f s) j = (if i = j then f (thread s i) else thread s j)"
  by (simp add: thread_def upd_thread_def nth_list_update)

lemma buffer_upd_buffer:
  "i < length (buffer_items s) \<Longrightarrow>
     buffer (upd_buffer i f s) j = (if i = j then f (buffer s i) else buffer s j)"
  by (simp add: buffer_def upd_buffer_def nth_list_update)

lemma upd_thread_frame [simp]:
  "buffer_items (upd_thread i f s) = buffer_items s"
  "length (worker_threads (upd_thread i f s)) = length (worker_threads s)"
  "trace (upd_thread i f s) = trace s" "world (upd_thread i f s) = world s"
  "client_id (upd_thread i f s) = client_id s" "output_fd (upd_thread i f s) = output_fd s"
  "input_fd (upd_thread i f s) = input_fd s" "stack (upd_thread i f s) = stack s"
  "pending_port_change (upd_thread i f s) = pending_port_change s"
  "network_stats_socket_ct (upd_thread i f s) = network_stats_socket_ct s"
  "network_stats_bytes_recv (upd_thread i f s) = network_stats_bytes_recv s"
  "network_stats_bytes_sent (upd_thread i f s) = network_stats_bytes_sent s"
  "shutdown_pending (upd_thread i f s) = shutdown_pending s"
  "buffer (upd_thread i f s) j = buffer s j"
  by (simp_all add: upd_thread_def buffer_def)

lemma upd_buffer_frame [simp]:
  "worker_threads (upd_buffer i f s) = worker_threads s"
  "length (buffer_items (upd_buffer i f s)) = length (buffer_items s)"
  "trace (upd_buffer i f s) = trace s" "world (upd_buffer i f s) = world s"
  "client_id (upd_buffer i f s) = client_id s" "output_fd (upd_buffer i f s) = output_fd s"
  "input_fd (upd_buffer i f s) = input_fd s" "stack (upd_buffer i f s) = stack s"
  "pending_port_change (upd_buffer i f s) = pending_port_change s"
  "network_stats_socket_ct (upd_buffer i f s) = network_stats_socket_ct s"
  "network_stats_bytes_recv (upd_buffer i f s) = network_stats_bytes_recv s"
  "network_stats_bytes_sent (upd_buffer i f s) = network_stats_bytes_sent s"
  "shutdown_pending (upd_buffer i f s) = shutdown_pending s"
  "thread (upd_buffer i f s) j = thread s j"
  by (simp_all add: upd_buffer_def thread_def)

lemma do_sys_frame:
  assumes "do_sys os c s = (r, t)"
  shows "buffer_items t = buffer_items s" "worker_threads t = worker_threads s"
    "trace t = trace s @ [(c, r)]" "client_id t = client_id s" "output_fd t = output_fd s"
    "input_fd t = input_fd s" "stack t = stack s"
    "pending_port_change t = pending_port_change s"
    "network_stats_socket_ct t = network_stats_socket_ct s"
    "network_stats_bytes_recv t = network_stats_bytes_recv s"
    "network_stats_bytes_sent t = network_stats_bytes_sent s"
    "shutdown_pending t = shutdown_pending s" "thread t j = thread s j" "buffer t j = buffer s j"
  using assms by (auto simp: do_sys_def thread_def buffer_def split: prod.splits)

text \<open>
  The global state as \<open>bzero\<close> leaves it at the start of \<open>init_state\<close>; a work
  queue that has not been allocated has no items.
\<close>

definition thread_zero :: thread_item where
  "thread_zero = \<lparr>ti_in_use = 0, ti_idx = 0, ti_awaiting_work_sem = 0, ti_oplock = 0,
     ti_oplock_acquired = False,
     ti_work_queue = \<lparr>wq_id = 0, item_ct = 0, available_slots = 0, read_idx = 0, write_idx = 0, items = []\<rparr>,
     ti_public_fd = 0, ti_poll_events = 0, ti_state_flags = 0, ti_local_fd = 0, ti_sock_domain = 0,
     ti_sock_type = 0, ti_sock_protocol = 0, ti_bound_port_num = 0,
     ti_remote_host = replicate MESSAGE_TYPE_MAX_PAYLOAD_LEN 0\<rparr>"

definition buffer_zero :: buffer_item where
  "buffer_zero = \<lparr>bi_in_use = 0, bi_assigned_thread = None, bi_offset = 0, bi_idx = 0, bi_request = rq_zero\<rparr>"

definition ins_zero :: "mt_response_generic \<Rightarrow> sockaddr_in \<Rightarrow> 'w \<Rightarrow> 'w ins_state" where
  "ins_zero stk sa w = \<lparr>buffer_items = replicate BUFFER_ITEM_COUNT buffer_zero,
     worker_threads = replicate MAX_THREAD_COUNT thread_zero, shutdown_pending = False,
     input_fd = 0, output_fd = 0, client_id = 0, network_stats_socket_ct = 0,
     network_stats_bytes_recv = 0, network_stats_bytes_sent = 0, pending_port_change = False,
     so_sndbuf = 0, so_rcvbuf = 0, so_sndtimeo = (0, 0), so_rcvtimeo = (0, 0),
     pollset_cur_pos = 0, stack = stk, stack_addr = sa, world = w, trace = []\<rparr>"

section \<open>The pool of buffers\<close>

text \<open>The interlocked compare-and-swap: the old value, and the value it leaves.\<close>

definition atomic_cas_32 :: "u32 \<Rightarrow> u32 \<Rightarrow> u32 \<Rightarrow> u32 \<times> u32" where
  "atomic_cas_32 v expected new = (v, if v = expected then new else v)"

text \<open>
  \<open>reserve_available_buffer_item\<close>: the loop tries to swap 0 for 1 in each item, from the
  first on, and stops at the first where the old value was 0.
\<close>

definition reserve_available_buffer_item ::
  "'w ins_state \<Rightarrow> int \<times> nat option \<times> 'w ins_state" where
  "reserve_available_buffer_item s =
     (case first_idx (\<lambda>b. fst (atomic_cas_32 (bi_in_use b) 0 1) = 0) (buffer_items s) of
        Some i \<Rightarrow> (0, Some i, upd_buffer i (\<lambda>b. b\<lparr>bi_in_use := snd (atomic_cas_32 (bi_in_use b) 0 1)\<rparr>) s)
      | None \<Rightarrow> (EBUSY, None, s))"

definition release_buffer_item :: "nat \<Rightarrow> 'w ins_state \<Rightarrow> 'w ins_state" where
  "release_buffer_item i s =
     (let (prev, new) = atomic_cas_32 (bi_in_use (buffer s i)) 1 0;
          s1 = upd_buffer i (\<lambda>b. b\<lparr>bi_in_use := new\<rparr>) s
      in if prev \<noteq> 0 then upd_buffer i (\<lambda>b. b\<lparr>bi_assigned_thread := None\<rparr>) s1 else s1)"

section \<open>The pool of worker threads\<close>

text \<open>
  \<open>get_worker_thread_for_fd\<close>: for the invalid descriptor, acquire the first unused thread;
  otherwise the descriptor's id is the thread's index, which is checked. The id is converted to
  a C \<open>int\<close> before the range check, so an id of 2\^31 or more would be a negative index:
  that access outside the array is the undefined branch None.
\<close>

definition get_worker_thread_for_fd ::
  "mw_socket_fd \<Rightarrow> 'w ins_state \<Rightarrow> (int \<times> nat option \<times> 'w ins_state) option" where
  "get_worker_thread_for_fd Fd s =
     (if Fd = MT_INVALID_SOCKET_FD then
        (case first_idx (\<lambda>t. fst (atomic_cas_32 (ti_in_use t) 0 1) = 0) (worker_threads s) of
           Some i \<Rightarrow> Some (0, Some i,
             upd_thread i (\<lambda>t. t\<lparr>ti_in_use := snd (atomic_cas_32 (ti_in_use t) 0 1)\<rparr>) s)
         | None \<Rightarrow> Some (EBUSY, None, s))
      else
        (let idx = sint (ucast (MW_SOCKET_GET_ID Fd) :: u32) in
         if idx \<ge> int MAX_THREAD_COUNT then Some (EINVAL, None, s)
         else if idx < 0 then None
         else if ti_in_use (thread s (nat idx)) = 0 then Some (EINVAL, None, s)
         else if Fd \<noteq> ti_public_fd (thread s (nat idx)) then Some (EINVAL, None, s)
         else Some (0, Some (nat idx), s)))"

end
