(* ===== verification/Networking.thy ===== *)
theory Networking
  imports InsState
begin

text \<open>
  The request handlers of the INS (apps/ins-app/networking.c, and the single-socket poll of
  pollset.c): one function per message type, from the request, the response being built, the
  index of the worker thread and the state to the return code, the response and the new state.
  Asserts and log messages are left out: in the default build (Makefile.template defines neither
  MYDEBUG nor MYTRAP) an assert expands to nothing, and MODIFY\_NETWORK\_PARAMETERS is 0.

  A loop that the operating system can keep running is a \<open>partial_function\<close> with
  result None when it does not end.
\<close>

section \<open>Building a response\<close>

definition set_status :: "int \<Rightarrow> mt_response_generic \<Rightarrow> mt_response_generic" where
  "set_status st resp = resp\<lparr>rs_base := (rs_base resp)\<lparr>rs_status := st\<rparr>\<rparr>"

definition set_sockfd :: "mw_socket_fd \<Rightarrow> mt_response_generic \<Rightarrow> mt_response_generic" where
  "set_sockfd fd resp = resp\<lparr>rs_base := (rs_base resp)\<lparr>rs_sockfd := fd\<rparr>\<rparr>"

definition xe_net_set_base_response ::
  "mt_request_generic \<Rightarrow> nat \<Rightarrow> mt_response_generic \<Rightarrow> mt_response_generic" where
  "xe_net_set_base_response Request PayloadLen Response =
     Response\<lparr>rs_base := (rs_base Response)\<lparr>
        rs_sig := MT_SIGNATURE_RESPONSE,
        rs_sockfd := rq_sockfd (rq_base Request),
        rs_id := rq_id (rq_base Request),
        rs_type := MT_RESPONSE (rq_type (rq_base Request)),
        rs_size := of_nat PayloadLen\<rparr>\<rparr>"

section \<open>Flags and options of sockets\<close>

text \<open>Message flags: the nineteen flags of the protocol, of which eleven exist on NetBSD.\<close>

definition msg_flag_map :: "(u32 \<times> u32) list" where
  "msg_flag_map =
     [(0x01, MSG_OOB), (0x02, MSG_PEEK), (0x04, MSG_DONTROUTE), (0x08, MSG_CTRUNC),
      (0x20, MSG_TRUNC), (0x40, MSG_DONTWAIT), (0x80, MSG_EOR), (0x100, MSG_WAITALL),
      (0x4000, MSG_NOSIGNAL), (0x10000, MSG_WAITFORONE), (0x40000000, MSG_CMSG_CLOEXEC)]"

definition xe_net_translate_msg_flags :: "u32 \<Rightarrow> u32" where
  "xe_net_translate_msg_flags MsgFlags =
     fold (\<lambda>(mw, native) flags. if MsgFlags AND mw \<noteq> 0 then flags OR native else flags)
       msg_flag_map 0"

text \<open>
  \<open>xe_net_init_socket\<close> sets the options that the global configuration gives and stops at
  the first that fails; \<open>init_sockopt\<close> is one of its four blocks, run unless an earlier
  one failed.
\<close>

definition init_sockopt ::
  "'w os \<Rightarrow> int \<Rightarrow> bool \<Rightarrow> int \<Rightarrow> sockopt \<Rightarrow> int \<times> 'w ins_state \<Rightarrow> int \<times> 'w ins_state" where
  "init_sockopt os SockFd given name v st =
     (if fst st \<noteq> 0 \<or> \<not> given then st
      else let (r, s) = do_sys os (SysSetsockopt SockFd SOL_SOCKET name v) (snd st) in (sr_ret r, s))"

definition xe_net_init_socket :: "'w os \<Rightarrow> int \<Rightarrow> 'w ins_state \<Rightarrow> int \<times> 'w ins_state" where
  "xe_net_init_socket os SockFd s =
     init_sockopt os SockFd (so_rcvtimeo s \<noteq> (0, 0)) SO_RCVTIMEO
       (OptTime (fst (so_rcvtimeo s)) (snd (so_rcvtimeo s)) 16)
     (init_sockopt os SockFd (so_sndtimeo s \<noteq> (0, 0)) SO_SNDTIMEO
       (OptTime (fst (so_sndtimeo s)) (snd (so_sndtimeo s)) 16)
     (init_sockopt os SockFd (so_rcvbuf s \<noteq> 0) SO_RCVBUF (OptInt (so_rcvbuf s))
     (init_sockopt os SockFd (so_sndbuf s \<noteq> 0) SO_SNDBUF (OptInt (so_sndbuf s)) (0, s))))"

section \<open>Creating a socket\<close>

text \<open>The loop \<^verbatim>\<open>do { sockfd = socket(...); } while ( sockfd < 0 && ENOBUFS == errno )\<close>.\<close>

partial_function (option) socket_loop ::
  "'w os \<Rightarrow> int \<Rightarrow> int \<Rightarrow> int \<Rightarrow> 'w ins_state \<Rightarrow> (sysres \<times> 'w ins_state) option" where
  "socket_loop os fam ty proto s =
     (let p = do_sys os (SysSocket fam ty proto) s in
      if sr_ret (fst p) < 0 \<and> sr_errno (fst p) = ENOBUFS then socket_loop os fam ty proto (snd p)
      else Some p)"

definition xe_net_create_socket ::
  "'w os \<Rightarrow> mt_request_generic \<Rightarrow> mt_response_generic \<Rightarrow> nat \<Rightarrow> 'w ins_state
     \<Rightarrow> (int \<times> mt_response_generic \<times> 'w ins_state) option" where
  "xe_net_create_socket os Request Response Worker s =
    (let native_fam = uint (xe_net_get_native_protocol_family (create_sock_fam Request));
         native_type = xe_net_get_native_sock_type (create_sock_type Request);
         native_proto = sint (create_sock_protocol Request);
         Response = set_status 0 Response
     in case socket_loop os native_fam native_type native_proto s of
       None \<Rightarrow> None
     | Some (r, s) \<Rightarrow>
        let sockfd = sr_ret r;
            (Response, extsock) =
              (if sockfd < 0 then (set_status (XE_GET_NEG_ERRNO_VAL (sr_errno r)) Response, 0)
               else (Response, MW_SOCKET_CREATE (client_id s) (int (ti_idx (thread s Worker)))));
            Response = xe_net_set_base_response Request MT_RESPONSE_SOCKET_CREATE_SIZE Response;
            (rc, s) = xe_net_init_socket os sockfd s
        in if rc \<noteq> 0 then Some (rc, Response, s)
           else Some (0, set_sockfd extsock Response,
             (upd_thread Worker (\<lambda>t. t\<lparr>ti_public_fd := extsock, ti_local_fd := sockfd,
                  ti_sock_domain := native_fam, ti_sock_type := native_type,
                  ti_sock_protocol := create_sock_protocol Request\<rparr>) s)
                \<lparr>network_stats_socket_ct := network_stats_socket_ct s + 1\<rparr>))"

section \<open>Socket attributes\<close>

definition MtSockAttribNonblock :: u16 where [mw_consts]: "MtSockAttribNonblock = 0x0003"
definition MtSockAttribReuseaddr :: u16 where [mw_consts]: "MtSockAttribReuseaddr = 0x0004"
definition MtSockAttribReuseport :: u16 where [mw_consts]: "MtSockAttribReuseport = 0x0005"
definition MtSockAttribKeepalive :: u16 where [mw_consts]: "MtSockAttribKeepalive = 0x0006"
definition MtSockAttribDeferAccept :: u16 where [mw_consts]: "MtSockAttribDeferAccept = 0x0007"
definition MtSockAttribNodelay :: u16 where [mw_consts]: "MtSockAttribNodelay = 0x0008"
definition MtSockAttribSndBuf :: u16 where [mw_consts]: "MtSockAttribSndBuf = 0x0109"
definition MtSockAttribRcvBuf :: u16 where [mw_consts]: "MtSockAttribRcvBuf = 0x010a"
definition MtSockAttribSndTimeo :: u16 where [mw_consts]: "MtSockAttribSndTimeo = 0x010b"
definition MtSockAttribRcvTimeo :: u16 where [mw_consts]: "MtSockAttribRcvTimeo = 0x010c"
definition MtSockAttribSndLoWat :: u16 where [mw_consts]: "MtSockAttribSndLoWat = 0x010d"
definition MtSockAttribRcvLoWat :: u16 where [mw_consts]: "MtSockAttribRcvLoWat = 0x010e"
definition MtSockAttribError :: u16 where [mw_consts]: "MtSockAttribError = 0x010f"
definition MtSockAttribGlobalCongctl :: u16 where [mw_consts]: "MtSockAttribGlobalCongctl = 0x1101"
definition MtSockAttribGlobalDelackTicks :: u16 where [mw_consts]:
  "MtSockAttribGlobalDelackTicks = 0x1102"

text \<open>
  The nonblocking attribute goes through fcntl. The response's 32-bit value is the low half of
  its 64-bit field, the rest of which is left as it was.
\<close>

definition xe_net_sock_fcntl ::
  "'w os \<Rightarrow> mt_request_generic \<Rightarrow> mt_response_generic \<Rightarrow> nat \<Rightarrow> 'w ins_state
     \<Rightarrow> int \<times> mt_response_generic \<times> 'w ins_state" where
  "xe_net_sock_fcntl os Request Response Worker s =
    (let fd = ti_local_fd (thread s Worker);
         (r0, s) = do_sys os (SysFcntlGetfl fd) s;
         flags = word_of_int (sr_ret r0)
     in if attrib_modify Request \<noteq> 0 then
          let flags = (if feat_v32 (attrib_rq_val Request) \<noteq> 0 then flags OR O_NONBLOCK
                       else flags AND NOT O_NONBLOCK);
              (r, s) = do_sys os (SysFcntlSetfl fd flags) s;
              rc = sr_ret r;
              err = (if rc = -1 then sr_errno r else 0)
          in (rc, set_status (if rc \<noteq> 0 then XE_GET_NEG_ERRNO_VAL err else 0) Response, s)
        else
          let v = attrib_rs_val Response;
              v' = v\<lparr>feat_s := push_bit 32 (drop_bit 32 (feat_s v)) OR ucast (flags AND O_NONBLOCK)\<rparr>
          in (0, set_status 0 (Response\<lparr>attrib_rs_val := v'\<rparr>), s))"

text \<open>
  The names that map to a plain integer option: the option's level and name.
\<close>

definition attrib_option :: "u16 \<Rightarrow> (int \<times> int) option" where
  "attrib_option name =
     (if name = MtSockAttribReuseaddr then Some (SOL_SOCKET, SO_REUSEADDR)
      else if name = MtSockAttribReuseport then Some (SOL_SOCKET, SO_REUSEPORT)
      else if name = MtSockAttribKeepalive then Some (SOL_SOCKET, SO_KEEPALIVE)
      else if name = MtSockAttribNodelay then Some (IPPROTO_TCP, TCP_NODELAY)
      else if name = MtSockAttribSndBuf then Some (SOL_SOCKET, SO_SNDBUF)
      else if name = MtSockAttribRcvBuf then Some (SOL_SOCKET, SO_RCVBUF)
      else if name = MtSockAttribSndTimeo then Some (SOL_SOCKET, SO_SNDTIMEO)
      else if name = MtSockAttribRcvTimeo then Some (SOL_SOCKET, SO_RCVTIMEO)
      else if name = MtSockAttribSndLoWat then Some (SOL_SOCKET, SO_SNDLOWAT)
      else if name = MtSockAttribRcvLoWat then Some (SOL_SOCKET, SO_RCVLOWAT)
      else if name = MtSockAttribDeferAccept then Some (SOL_SOCKET, SO_ACCEPTFILTER)
      else if name = MtSockAttribError then Some (SOL_SOCKET, SO_ERROR)
      else None)"

text \<open>
  The call to setsockopt or getsockopt itself: \<open>t\<close> is the option value the request gives,
  in a structure of two 64-bit values of which \<open>len\<close> bytes count. The result is the
  return code, \<open>err\<close> and the response.
\<close>

definition attrib_call ::
  "'w os \<Rightarrow> mt_request_generic \<Rightarrow> mt_response_generic \<Rightarrow> int \<Rightarrow> int \<Rightarrow> int \<Rightarrow> 'w ins_state
     \<Rightarrow> int \<times> int \<times> mt_response_generic \<times> 'w ins_state" where
  "attrib_call os Request Response fd level optname s =
    (let timeval = (attrib_rq_name Request \<in> {MtSockAttribSndTimeo, MtSockAttribRcvTimeo});
         t = (if timeval then OptTime (feat_s (attrib_rq_val Request)) (feat_us (attrib_rq_val Request)) 16
              else OptTime (ucast (feat_v32 (attrib_rq_val Request))) 0 4);
         defer = (attrib_rq_name Request = MtSockAttribDeferAccept)
     in if attrib_modify Request \<noteq> 0 then
          let (r, s) = do_sys os (SysSetsockopt fd level optname
                 (if defer then OptFilter ''dataready'' else t)) s
          in (sr_ret r, if sr_ret r \<noteq> 0 then sr_errno r else 0, Response, s)
        else
          let (r, s) = do_sys os (SysGetsockopt fd level optname) s;
              v = (if timeval then \<lparr>feat_s = fst (sr_tv r), feat_us = snd (sr_tv r)\<rparr>
                   else feat_of_v32 (ucast (fst (sr_tv r))))
          in (sr_ret r, if sr_ret r \<noteq> 0 then sr_errno r else 0, Response\<lparr>attrib_rs_val := v\<rparr>, s))"

text \<open>
  The body of \<open>xe_net_sock_attrib\<close> up to its exit label: the return code, the error
  number \<open>err\<close> and the response so far. To set the accept filter, it first asks whether one
  is set and then does nothing.
\<close>

definition sock_attrib_body ::
  "'w os \<Rightarrow> mt_request_generic \<Rightarrow> mt_response_generic \<Rightarrow> nat \<Rightarrow> 'w ins_state
     \<Rightarrow> int \<times> int \<times> mt_response_generic \<times> 'w ins_state" where
  "sock_attrib_body os Request Response Worker s =
    (let name = attrib_rq_name Request;
         fd = ti_local_fd (thread s Worker)
     in
     if name = MtSockAttribNonblock then
       let (rc, Response, s) = xe_net_sock_fcntl os Request Response Worker s in (rc, 0, Response, s)
     else if name \<in> {MtSockAttribGlobalCongctl, MtSockAttribGlobalDelackTicks} then
       (0, 0, Response, s)
     else (case attrib_option name of
       None \<Rightarrow> (- EINVAL, 0, Response, s)
     | Some (level, optname) \<Rightarrow>
        if name = MtSockAttribDeferAccept \<and> attrib_modify Request \<noteq> 0 then
          let (r, s) = do_sys os (SysGetsockopt fd level optname) s in
          if sr_ret r = 0 then (0, 0, Response, s)
          else attrib_call os Request Response fd level optname s
        else attrib_call os Request Response fd level optname s))"

definition xe_net_sock_attrib ::
  "'w os \<Rightarrow> mt_request_generic \<Rightarrow> mt_response_generic \<Rightarrow> nat \<Rightarrow> 'w ins_state
     \<Rightarrow> int \<times> mt_response_generic \<times> 'w ins_state" where
  "xe_net_sock_attrib os Request Response Worker s =
    (let (rc, err, Response, s) = sock_attrib_body os Request Response Worker s;
         Response = xe_net_set_base_response Request MT_RESPONSE_SOCKET_ATTRIB_SIZE Response
     in (0, set_status (if rc \<noteq> 0 then XE_GET_NEG_ERRNO_VAL err else 0) Response, s))"

section \<open>Blocking an address\<close>

definition xe_net_addr_block ::
  "'w os \<Rightarrow> mt_request_generic \<Rightarrow> mt_response_generic \<Rightarrow> nat \<Rightarrow> 'w ins_state
     \<Rightarrow> int \<times> mt_response_generic \<times> 'w ins_state" where
  "xe_net_addr_block os Request Response Worker s =
    (let buf = take 16 (block_addr Request);
         (rc, s) =
           (if block_block Request = 1 then
              let (r, s) = do_sys os (SysNpfctl [''npfctl'', ''table'', ''blacklist'', ''add'', buf]) s
              in (sr_ret r, s)
            else if block_block Request = 0 then
              let (r, s) = do_sys os (SysNpfctl [''npfctl'', ''table'', ''blacklist'', ''rem'', buf]) s
              in (sr_ret r, s)
            else (-1, s));
         Response = xe_net_set_base_response Request MT_RESPONSE_ADDR_BLOCK_SIZE Response
     in (rc, set_status rc Response, s))"

section \<open>Connect, bind, listen\<close>

definition xe_net_connect_socket ::
  "'w os \<Rightarrow> mt_request_generic \<Rightarrow> mt_response_generic \<Rightarrow> nat \<Rightarrow> 'w ins_state
     \<Rightarrow> int \<times> mt_response_generic \<times> 'w ins_state" where
  "xe_net_connect_socket os Request Response Worker s =
    (let sockaddr = populate_sockaddr_in sa_zero (connect_sockaddr Request);
         (r, s) = do_sys os (SysConnect (ti_local_fd (thread s Worker)) sockaddr) s;
         st = (if sr_ret r < 0 then XE_GET_NEG_ERRNO_VAL (sr_errno r) else 0)
     in (0, xe_net_set_base_response Request MT_RESPONSE_SOCKET_CONNECT_SIZE (set_status st Response), s))"

text \<open>Ports are in network byte order in an address; \<open>ntohs\<close> swaps the two bytes.\<close>

definition ntohs :: "u16 \<Rightarrow> u16" where
  "ntohs x = push_bit 8 x OR drop_bit 8 x"

text \<open>The length byte of the address given to bind is what the stack held.\<close>

definition xe_net_bind_socket ::
  "'w os \<Rightarrow> mt_request_generic \<Rightarrow> mt_response_generic \<Rightarrow> nat \<Rightarrow> 'w ins_state
     \<Rightarrow> int \<times> mt_response_generic \<times> 'w ins_state" where
  "xe_net_bind_socket os Request Response Worker s =
    (let sockaddr = populate_sockaddr_in (stack_addr s) (bind_sockaddr Request);
         (r, s) = do_sys os (SysBind (ti_local_fd (thread s Worker)) sockaddr) s;
         (st, s) =
           (if sr_ret r < 0 then (XE_GET_NEG_ERRNO_VAL (sr_errno r), s)
            else (sr_ret r,
              (upd_thread Worker (\<lambda>t. t\<lparr>ti_bound_port_num := ntohs (n_sin_port sockaddr)\<rparr>) s)
                \<lparr>pending_port_change := True\<rparr>))
     in (0, xe_net_set_base_response Request MT_RESPONSE_SOCKET_BIND_SIZE (set_status st Response), s))"

definition xe_net_listen_socket ::
  "'w os \<Rightarrow> mt_request_generic \<Rightarrow> mt_response_generic \<Rightarrow> nat \<Rightarrow> 'w ins_state
     \<Rightarrow> int \<times> mt_response_generic \<times> 'w ins_state" where
  "xe_net_listen_socket os Request Response Worker s =
    (let (r, s) = do_sys os (SysListen (ti_local_fd (thread s Worker)) (listen_backlog Request)) s;
         st = (if sr_ret r < 0 then XE_GET_NEG_ERRNO_VAL (sr_errno r) else sr_ret r)
     in (0, xe_net_set_base_response Request MT_RESPONSE_SOCKET_LISTEN_SIZE (set_status st Response), s))"

section \<open>Accept\<close>

text \<open>
  \<open>xe_net_set_sock_nonblock\<close>: the return code and the value it leaves in errno.
\<close>

definition xe_net_set_sock_nonblock ::
  "'w os \<Rightarrow> int \<Rightarrow> bool \<Rightarrow> 'w ins_state \<Rightarrow> int \<times> int \<times> 'w ins_state" where
  "xe_net_set_sock_nonblock os SockFd NonBlock s =
    (let (r, s) = do_sys os (SysFcntlGetfl SockFd) s in
     if sr_ret r = -1 then (- EIO, sr_errno r, s)
     else
       let flags = word_of_int (sr_ret r);
           flags = (if NonBlock then flags OR O_NONBLOCK else flags AND NOT O_NONBLOCK);
           (r, s) = do_sys os (SysFcntlSetfl SockFd flags) s
       in if sr_ret r = -1 then (- EIO, sr_errno r, s) else (sr_ret r, 0, s))"

definition xe_net_accept_socket ::
  "'w os \<Rightarrow> mt_request_generic \<Rightarrow> mt_response_generic \<Rightarrow> nat \<Rightarrow> 'w ins_state
     \<Rightarrow> int \<times> mt_response_generic \<times> 'w ins_state" where
  "xe_net_accept_socket os Request Response Worker s =
    (let Response = Response\<lparr>accept_rs_flags := accept_rq_flags Request\<rparr>;
         (r, s) = do_sys os (SysAccept (ti_local_fd (thread s Worker))) s;
         sockfd = sr_ret r
     in if sockfd < 0 then
          (0, xe_net_set_base_response Request MT_RESPONSE_SOCKET_ACCEPT_SIZE
                (set_status (XE_GET_NEG_ERRNO_VAL (sr_errno r)) Response), s)
        else
          let (rc, err, s) = (if accept_rq_flags Request AND MW_SOCK_NONBLOCK \<noteq> 0
                 then xe_net_set_sock_nonblock os sockfd True s else (0, 0, s))
          in if rc \<noteq> 0 then
               (rc, set_sockfd (-1) (set_status (XE_GET_NEG_ERRNO_VAL err) Response),
                snd (do_sys os (SysClose sockfd) s))
             else
               let (rc, s) = xe_net_init_socket os sockfd s
               in if rc \<noteq> 0 then (rc, Response, s)
                  else
                    (0, xe_net_set_base_response Request MT_RESPONSE_SOCKET_ACCEPT_SIZE
                          (set_status sockfd (Response\<lparr>accept_sockaddr :=
                             populate_mt_sockaddr_in (accept_sockaddr Response) (sr_addr r)\<rparr>)),
                     s\<lparr>network_stats_socket_ct := network_stats_socket_ct s + 1\<rparr>))"

section \<open>Receiving\<close>

text \<open>
  \<open>xe_pollset_query_one\<close> (pollset.c): the return code and the events, which keep their
  old value when poll reports none. The timeout passed is INFTIM, so the call waits.
\<close>

definition POLLSET_EVENTS :: u32 where
  "POLLSET_EVENTS = POLLIN OR 0x040 OR POLLOUT OR 0x100"

definition xe_pollset_query_one ::
  "'w os \<Rightarrow> int \<Rightarrow> u32 \<Rightarrow> 'w ins_state \<Rightarrow> int \<times> u32 \<times> 'w ins_state" where
  "xe_pollset_query_one os Fd Events s =
    (let (r, s) = do_sys os (SysPoll [(Fd, POLLSET_EVENTS)] INFTIM) s in
     if sr_ret r < 0 then (XE_GET_NEG_ERRNO_VAL (sr_errno r), Events, s)
     else if sr_ret r = 0 then (0, Events, s)
     else (0, hd (sr_revents r @ [0]), s))"

text \<open>The loop \<^verbatim>\<open>do { callrc = recv(...); } while( callrc < 0 && EINTR == errno )\<close>.\<close>

partial_function (option) intr_loop ::
  "'w os \<Rightarrow> syscall \<Rightarrow> 'w ins_state \<Rightarrow> (sysres \<times> 'w ins_state) option" where
  "intr_loop os c s =
     (let p = do_sys os c s in
      if sr_ret (fst p) < 0 \<and> sr_errno (fst p) = EINTR then intr_loop os c (snd p) else Some p)"

text \<open>
  What the outer loop of the two receive handlers leaves: the return code (nonzero for a failed
  poll), the status, the count and the last result of the receive call.
\<close>

record recv_out =
  ro_rc :: int
  ro_status :: int
  ro_count :: u16
  ro_res :: sysres

text \<open>
  The outer loop \<open>while( true )\<close>, common to recv and recvfrom: receive; on success with no
  bytes, poll once and receive again to tell a remote close from an idle connection. The second
  round always leaves the loop, so the recursion is over the flag \<open>polled\<close>.
\<close>

function recv_loop ::
  "'w os \<Rightarrow> syscall \<Rightarrow> nat \<Rightarrow> u32 \<Rightarrow> bool \<Rightarrow> 'w ins_state \<Rightarrow> (recv_out \<times> 'w ins_state) option" where
  "recv_loop os c Worker events polled s =
     (case intr_loop os c s of
        None \<Rightarrow> None
      | Some (r, s) \<Rightarrow>
          if sr_ret r < 0 then
            Some (\<lparr>ro_rc = 0, ro_status = XE_GET_NEG_ERRNO_VAL (sr_errno r), ro_count = 0,
                   ro_res = r\<rparr>, s)
          else
            let count = (word_of_int (sr_ret r) :: u16);
                out = \<lparr>ro_rc = 0, ro_status = 0, ro_count = count, ro_res = r\<rparr>
            in if count > 0 then Some (out, s)
               else if events AND (POLLIN OR POLLRDNORM) \<noteq> 0 then
                 Some (out, upd_thread Worker
                   (\<lambda>t. t\<lparr>ti_state_flags := ti_state_flags t OR MT_FLAGS_REMOTE_CLOSED\<rparr>) s)
               else if polled then
                 Some (out, upd_thread Worker (\<lambda>t. t\<lparr>ti_state_flags := 0\<rparr>) s)
               else
                 let (rc, events, s) = xe_pollset_query_one os (ti_local_fd (thread s Worker)) events s
                 in if rc \<noteq> 0 then Some (out\<lparr>ro_rc := rc\<rparr>, s)
                    else recv_loop os c Worker events True s)"
  by pat_completeness auto
termination
  by (relation "measure (\<lambda>(os, c, Worker, events, polled, s). if polled then 0 else 1)") auto

declare recv_loop.simps [simp del]

definition xe_net_recvfrom_socket ::
  "'w os \<Rightarrow> mt_request_generic \<Rightarrow> mt_response_generic \<Rightarrow> nat \<Rightarrow> 'w ins_state
     \<Rightarrow> (int \<times> mt_response_generic \<times> 'w ins_state) option" where
  "xe_net_recvfrom_socket os Request Response Worker s =
    (let flags = xe_net_translate_msg_flags (recv_rq_flags Request);
         call = SysRecvfrom (ti_local_fd (thread s Worker)) (unat (recv_requested Request)) flags 0
     in case recv_loop os call Worker 0 False s of
       None \<Rightarrow> None
     | Some (out, s) \<Rightarrow>
        let Response = set_status (ro_status out) (Response\<lparr>recvfrom_count := ro_count out,
                         recvfrom_bytes := sr_bytes (ro_res out)\<rparr>)
        in if ro_rc out \<noteq> 0 then Some (ro_rc out, Response, s)
        else
          let Response = Response\<lparr>recvfrom_src_addr :=
                 populate_mt_sockaddr_in (recvfrom_src_addr Response) (sr_addr (ro_res out)),
                 recvfrom_addrlen := sr_addrlen (ro_res out)\<rparr>
          in Some (0, xe_net_set_base_response Request
                        (MT_RESPONSE_SOCKET_RECVFROM_SIZE + unat (ro_count out)) Response,
                   s\<lparr>network_stats_bytes_recv := network_stats_bytes_recv s + ucast (ro_count out)\<rparr>))"

definition xe_net_recv_socket ::
  "'w os \<Rightarrow> mt_request_generic \<Rightarrow> mt_response_generic \<Rightarrow> nat \<Rightarrow> 'w ins_state
     \<Rightarrow> (int \<times> mt_response_generic \<times> 'w ins_state) option" where
  "xe_net_recv_socket os Request Response Worker s =
    (let flags = xe_net_translate_msg_flags (recv_rq_flags Request);
         call = SysRecv (ti_local_fd (thread s Worker)) (unat (recv_requested Request)) flags
     in case recv_loop os call Worker 0 False s of
       None \<Rightarrow> None
     | Some (out, s) \<Rightarrow>
        let Response = set_status (ro_status out) (Response\<lparr>recv_count := ro_count out,
                         recv_bytes := sr_bytes (ro_res out)\<rparr>)
        in if ro_rc out \<noteq> 0 then Some (ro_rc out, Response, s)
        else Some (0, xe_net_set_base_response Request
                        (unat (ro_count out) + MT_RESPONSE_SOCKET_RECV_SIZE) Response,
                   s\<lparr>network_stats_bytes_recv := network_stats_bytes_recv s + ucast (ro_count out)\<rparr>))"

section \<open>Shutdown and close\<close>

definition xe_net_shutdown_socket ::
  "'w os \<Rightarrow> mt_request_generic \<Rightarrow> mt_response_generic \<Rightarrow> nat \<Rightarrow> 'w ins_state
     \<Rightarrow> int \<times> mt_response_generic \<times> 'w ins_state" where
  "xe_net_shutdown_socket os Request Response Worker s =
    (let (r, s) = do_sys os (SysShutdown (ti_local_fd (thread s Worker)) (shutdown_how Request)) s;
         st = (if sr_ret r = 0 then 0 else XE_GET_NEG_ERRNO_VAL (sr_errno r))
     in (0, xe_net_set_base_response Request MT_RESPONSE_SOCKET_SHUTDOWN_SIZE (set_status st Response), s))"

definition xe_net_internal_close_socket ::
  "'w os \<Rightarrow> nat \<Rightarrow> 'w ins_state \<Rightarrow> int \<times> 'w ins_state" where
  "xe_net_internal_close_socket os Worker s =
    (let t = thread s Worker;
         (rc, s) =
           (if ti_local_fd t \<noteq> -1 then
              let s = s\<lparr>network_stats_socket_ct := network_stats_socket_ct s - 1\<rparr>;
                  (r, s) = do_sys os (SysClose (ti_local_fd t)) s
              in (if sr_ret r \<noteq> 0 then XE_GET_NEG_ERRNO_VAL (sr_errno r) else 0, s)
            else (0, s));
         s = upd_thread Worker (\<lambda>t. t\<lparr>ti_local_fd := -1, ti_public_fd := MT_INVALID_SOCKET_FD\<rparr>) s
     in if ti_bound_port_num t \<noteq> 0 then
          (rc, (upd_thread Worker (\<lambda>t. t\<lparr>ti_bound_port_num := 0\<rparr>) s)\<lparr>pending_port_change := True\<rparr>)
        else (rc, s))"

definition xe_net_close_socket ::
  "'w os \<Rightarrow> mt_request_generic \<Rightarrow> mt_response_generic \<Rightarrow> nat \<Rightarrow> 'w ins_state
     \<Rightarrow> int \<times> mt_response_generic \<times> 'w ins_state" where
  "xe_net_close_socket os Request Response Worker s =
    (let (rc, s) = xe_net_internal_close_socket os Worker s
     in (0, xe_net_set_base_response Request MT_RESPONSE_SOCKET_CLOSE_SIZE (set_status rc Response), s))"

section \<open>Sending\<close>

text \<open>
  The send loop: \<open>count\<close> is \<open>Response->count\<close>. A would-block error polls the socket
  until it is writable and tries again; any other error ends the loop. The result is the count,
  the status and the state.
\<close>

partial_function (option) send_loop ::
  "'w os \<Rightarrow> mt_request_generic \<Rightarrow> u32 \<Rightarrow> int \<Rightarrow> nat \<Rightarrow> u16 \<Rightarrow> 'w ins_state
     \<Rightarrow> (u16 \<times> int \<times> 'w ins_state) option" where
  "send_loop os Request flags maxExpected Worker count s =
     (if int (unat count) < maxExpected then
        let fd = ti_local_fd (thread s Worker);
            p = do_sys os (SysSend fd (take (nat (maxExpected - int (unat count)))
                   (drop (unat count) (send_rq_bytes Request))) flags) s
        in if sr_ret (fst p) < 0 then
             if sr_errno (fst p) = EAGAIN \<or> sr_errno (fst p) = EWOULDBLOCK then
               send_loop os Request flags maxExpected Worker count
                 (snd (do_sys os (SysPoll [(fd, POLLOUT)] (-1)) (snd p)))
             else
               let st = XE_GET_NEG_ERRNO_VAL (sr_errno (fst p)) in
               Some (count, st, upd_thread Worker (\<lambda>t. t\<lparr>ti_state_flags :=
                       (if - MW_EPIPE = st then MT_FLAGS_REMOTE_CLOSED else 0)\<rparr>) (snd p))
           else
             send_loop os Request flags maxExpected Worker
               (count + word_of_int (sr_ret (fst p))) (snd p)
      else Some (count, 0, s))"

definition xe_net_send_socket ::
  "'w os \<Rightarrow> mt_request_generic \<Rightarrow> mt_response_generic \<Rightarrow> nat \<Rightarrow> 'w ins_state
     \<Rightarrow> (int \<times> mt_response_generic \<times> 'w ins_state) option" where
  "xe_net_send_socket os Request Response Worker s =
    (let flags = xe_net_translate_msg_flags (send_rq_flags Request);
         maxExpected = int (unat (rq_size (rq_base Request))) - int MT_REQUEST_SOCKET_SEND_SIZE
     in case send_loop os Request flags maxExpected Worker 0 s of
       None \<Rightarrow> None
     | Some (count, st, s) \<Rightarrow>
         Some (0, xe_net_set_base_response Request MT_RESPONSE_SOCKET_SEND_SIZE
                    (set_status st (Response\<lparr>send_count := count, send_rs_flags := send_rq_flags Request\<rparr>)),
               s\<lparr>network_stats_bytes_sent := network_stats_bytes_sent s + ucast count\<rparr>))"

section \<open>Names of sockets\<close>

definition xe_net_get_name ::
  "'w os \<Rightarrow> mt_request_generic \<Rightarrow> mt_response_generic \<Rightarrow> nat \<Rightarrow> 'w ins_state
     \<Rightarrow> int \<times> mt_response_generic \<times> 'w ins_state" where
  "xe_net_get_name os Request Response Worker s =
    (let fd = ti_local_fd (thread s Worker);
         maxlen = unat (getname_maxlen Request);
         ty = mt_request_of (rq_type (rq_base Request))
     in if ty \<noteq> Some MtRequestSocketGetPeer \<and> ty \<noteq> Some MtRequestSocketGetName then (-1, Response, s)
        else
          let (r, s) = do_sys os (if ty = Some MtRequestSocketGetPeer then SysGetpeername fd maxlen
                                  else SysGetsockname fd maxlen) s;
              Response = set_status (sr_ret r) (Response\<lparr>getname_reslen := ucast (sr_addrlen r),
                 getname_sockaddr := populate_mt_sockaddr_in (getname_sockaddr Response) (sr_addr r)\<rparr>)
          in (sr_ret r, xe_net_set_base_response Request MT_RESPONSE_SOCKET_GETNAME_SIZE Response, s))"

end
