(* ===== verification/Handlers.thy ===== *)
theory Handlers
  imports Networking
begin

text \<open>
  What the dispatcher relies on from every request handler, as the locale \<open>net_handler\<close>:
  a handler works on its own worker thread only, leaves the pools, queues and locks alone,
  writes nothing to the ring, and, when it reports success, has filled in the header of the
  response so that it answers the request. Every handler of networking.c is an interpretation.
\<close>

section \<open>The frame of a handler\<close>

text \<open>The responses written to the ring, in order, with the length of the write.\<close>

fun ring_write :: "syscall \<times> sysres \<Rightarrow> (mt_response_generic \<times> nat) option" where
  "ring_write (SysWrite fd resp n, r) = Some (resp, n)"
| "ring_write _ = None"

definition writes :: "(syscall \<times> sysres) list \<Rightarrow> (mt_response_generic \<times> nat) list" where
  "writes tr = List.map_filter ring_write tr"

lemma writes_append [simp]: "writes (xs @ ys) = writes xs @ writes ys"
  by (simp add: writes_def map_filter_def)

lemma writes_Nil [simp]: "writes [] = []"
  by (simp add: writes_def map_filter_def)

lemma writes_Cons:
  "writes (e # es) = (case ring_write e of None \<Rightarrow> writes es | Some w \<Rightarrow> w # writes es)"
  by (simp add: writes_def map_filter_def split: option.splits)

text \<open>The results of the reads from the ring, in order, and the calls that neither read nor write it.\<close>

fun ring_read :: "syscall \<times> sysres \<Rightarrow> sysres option" where
  "ring_read (SysRead fd n, r) = Some r"
| "ring_read _ = None"

definition reads :: "(syscall \<times> sysres) list \<Rightarrow> sysres list" where
  "reads tr = List.map_filter ring_read tr"

lemma reads_append [simp]: "reads (xs @ ys) = reads xs @ reads ys"
  by (simp add: reads_def map_filter_def)

lemma reads_Nil [simp]: "reads [] = []"
  by (simp add: reads_def map_filter_def)

lemma reads_Cons:
  "reads (e # es) = (case ring_read e of None \<Rightarrow> reads es | Some w \<Rightarrow> w # reads es)"
  by (simp add: reads_def map_filter_def split: option.splits)

fun off_ring :: "syscall \<Rightarrow> bool" where
  "off_ring (SysWrite fd resp n) = False"
| "off_ring (SysRead fd n) = False"
| "off_ring _ = True"

lemma off_ring_trace: "off_ring c \<Longrightarrow> writes [(c, r)] = [] \<and> reads [(c, r)] = []"
  by (cases c) (simp_all add: writes_Cons reads_Cons)

text \<open>The fields of a thread that only the dispatcher and the pools change.\<close>

definition ctl :: "thread_item \<Rightarrow> u32 \<times> nat \<times> nat \<times> nat \<times> bool \<times> workqueue" where
  "ctl t = (ti_in_use t, ti_idx t, ti_awaiting_work_sem t, ti_oplock t, ti_oplock_acquired t,
            ti_work_queue t)"

lemma ctl_eq:
  "ctl t = ctl u \<longleftrightarrow> ti_in_use t = ti_in_use u \<and> ti_idx t = ti_idx u
     \<and> ti_awaiting_work_sem t = ti_awaiting_work_sem u \<and> ti_oplock t = ti_oplock u
     \<and> ti_oplock_acquired t = ti_oplock_acquired u \<and> ti_work_queue t = ti_work_queue u"
  by (simp add: ctl_def)

text \<open>
  A public descriptor that a thread may have: none yet (0), none any more, or the encoding of
  the client and the thread's own index.
\<close>

definition good_fd :: "u16 \<Rightarrow> thread_item \<Rightarrow> bool" where
  "good_fd c t \<longleftrightarrow> ti_public_fd t \<in> {0, MT_INVALID_SOCKET_FD, MW_SOCKET_CREATE c (int (ti_idx t))}"

text \<open>The options that the configuration gives to every new socket.\<close>

definition sock_params :: "'w ins_state \<Rightarrow> int \<times> int \<times> (u64 \<times> u64) \<times> (u64 \<times> u64)" where
  "sock_params s = (so_sndbuf s, so_rcvbuf s, so_sndtimeo s, so_rcvtimeo s)"

text \<open>
  What every handler keeps: the pools, queues, locks, descriptors' encoding and the ring's output;
  and, for a handler that runs for a worker, all of the other threads.
\<close>

definition keeps_ctl :: "'w ins_state \<Rightarrow> 'w ins_state \<Rightarrow> bool" where
  "keeps_ctl s t \<longleftrightarrow>
     buffer_items t = buffer_items s
     \<and> length (worker_threads t) = length (worker_threads s)
     \<and> (\<forall>j. ctl (thread t j) = ctl (thread s j))
     \<and> (\<forall>j. good_fd (client_id s) (thread s j) \<longrightarrow> good_fd (client_id s) (thread t j))
     \<and> sock_params t = sock_params s
     \<and> client_id t = client_id s \<and> output_fd t = output_fd s \<and> input_fd t = input_fd s
     \<and> shutdown_pending t = shutdown_pending s
     \<and> writes (trace t) = writes (trace s) \<and> reads (trace t) = reads (trace s)"

definition keeps :: "nat \<Rightarrow> 'w ins_state \<Rightarrow> 'w ins_state \<Rightarrow> bool" where
  "keeps w s t \<longleftrightarrow> keeps_ctl s t \<and> (\<forall>j. j \<noteq> w \<longrightarrow> thread t j = thread s j)"

lemmas keeps_defs = keeps_def keeps_ctl_def

lemma keeps_refl [simp, intro]: "keeps w s s"
  by (simp add: keeps_defs)

lemma keeps_trans: "keeps w s t \<Longrightarrow> keeps w t u \<Longrightarrow> keeps w s u"
  by (auto simp: keeps_defs)

lemma do_sys_params: "do_sys os c s = (r, t) \<Longrightarrow> sock_params t = sock_params s"
  by (auto simp: do_sys_def sock_params_def split: prod.splits)

lemma upd_thread_params [simp]: "sock_params (upd_thread i f s) = sock_params s"
  by (simp add: upd_thread_def sock_params_def)

lemma good_fd_same:
  "ctl u = ctl t \<and> ti_public_fd u = ti_public_fd t \<Longrightarrow> good_fd c u \<longleftrightarrow> good_fd c t"
  by (simp add: good_fd_def ctl_def)

lemma keeps_do_sys:
  assumes "do_sys os c s = (r, t)" and "off_ring c"
  shows "keeps w s t"
  using do_sys_frame [OF assms(1)] do_sys_params [OF assms(1)] assms(2) by (simp add: keeps_defs off_ring_trace)

lemma keeps_upd_thread:
  assumes "\<And>t. ctl (f t) = ctl t \<and> ti_public_fd (f t) = ti_public_fd t"
  shows "keeps w s (upd_thread w f s)"
proof (cases "w < length (worker_threads s)")
  case True
  with assms good_fd_same [OF assms] show ?thesis by (simp add: keeps_defs thread_upd_thread)
next
  case False
  then have "upd_thread w f s = s" by (simp add: upd_thread_def list_update_beyond)
  then show ?thesis by simp
qed

lemma keeps_counters [simp]:
  "keeps w s (t\<lparr>network_stats_socket_ct := a\<rparr>) = keeps w s t"
  "keeps w s (t\<lparr>network_stats_bytes_recv := b\<rparr>) = keeps w s t"
  "keeps w s (t\<lparr>network_stats_bytes_sent := b\<rparr>) = keeps w s t"
  "keeps w s (t\<lparr>pending_port_change := c\<rparr>) = keeps w s t"
  by (simp_all add: keeps_defs thread_def sock_params_def)

lemma keeps_counters_left [simp]:
  "keeps w (s\<lparr>network_stats_socket_ct := a\<rparr>) t = keeps w s t"
  by (simp add: keeps_defs thread_def sock_params_def)

text \<open>One step of a chain: a call that is not a write, or an update of the worker's own data.\<close>

lemma keeps_sys_step:
  "keeps w s t \<Longrightarrow> do_sys os c t = (r, u) \<Longrightarrow> off_ring c \<Longrightarrow> keeps w s u"
  by (rule keeps_trans [OF _ keeps_do_sys])

lemma keeps_upd_step: "keeps w s t \<Longrightarrow> (\<And>t. ctl (f t) = ctl t \<and> ti_public_fd (f t) = ti_public_fd t) \<Longrightarrow>
     keeps w s (upd_thread w f t)"
  by (rule keeps_trans [OF _ keeps_upd_thread])

text \<open>An update that gives the worker a new descriptor.\<close>

lemma keeps_set_fd:
  assumes "keeps w s t" and "\<And>t. ctl (f t) = ctl t" and "good_fd (client_id s) (f (thread t w))"
  shows "keeps w s (upd_thread w f t)"
proof (cases "w < length (worker_threads t)")
  case True
  with assms show ?thesis by (auto simp: keeps_defs thread_upd_thread)
next
  case False
  then have "upd_thread w f t = t" by (simp add: upd_thread_def list_update_beyond)
  with assms(1) show ?thesis by simp
qed

section \<open>Answering a request\<close>

definition answers :: "mt_request_generic \<Rightarrow> mt_response_generic \<Rightarrow> bool" where
  "answers Request Response \<longleftrightarrow>
     rs_sig (rs_base Response) = MT_SIGNATURE_RESPONSE
     \<and> rs_id (rs_base Response) = rq_id (rq_base Request)
     \<and> rs_type (rs_base Response) = MT_RESPONSE (rq_type (rq_base Request))"

lemma answers_base [simp, intro]: "answers q (xe_net_set_base_response q n p)"
  by (simp add: answers_def xe_net_set_base_response_def)

lemma answers_set [simp]:
  "answers q (set_status st p) = answers q p" "answers q (set_sockfd fd p) = answers q p"
  by (simp_all add: answers_def set_status_def set_sockfd_def)

lemma answers_members [simp]:
  "answers q (p\<lparr>recv_count := a\<rparr>) = answers q p"
  by (simp add: answers_def)

type_synonym 'w handler =
  "'w os \<Rightarrow> mt_request_generic \<Rightarrow> mt_response_generic \<Rightarrow> nat \<Rightarrow> 'w ins_state
     \<Rightarrow> (int \<times> mt_response_generic \<times> 'w ins_state) option"

locale net_handler =
  fixes h :: "'w os \<Rightarrow> mt_request_generic \<Rightarrow> mt_response_generic \<Rightarrow> nat \<Rightarrow> 'w ins_state
     \<Rightarrow> (int \<times> mt_response_generic \<times> 'w ins_state) option"
  assumes h_keeps: "h os q p w s = Some (rc, p', s') \<Longrightarrow> keeps w s s'"
    and h_answers: "h os q p w s = Some (rc, p', s') \<Longrightarrow> rc = 0 \<Longrightarrow> answers q p'"
begin

lemma other_threads:
  "h os q p w s = Some (rc, p', s') \<Longrightarrow> j \<noteq> w \<Longrightarrow> thread s' j = thread s j"
  using h_keeps by (auto simp: keeps_defs)

lemma no_write: "h os q p w s = Some (rc, p', s') \<Longrightarrow> writes (trace s') = writes (trace s)"
  using h_keeps by (auto simp: keeps_defs)

end

section \<open>The loops\<close>

lemma socket_loop_keeps:
  assumes ret: "socket_loop os f t p s = Some y"
  shows "keeps w s (snd y)"
proof (rule socket_loop.raw_induct [where P = "\<lambda>os f t p s y. keeps w s (snd y)", OF _ ret])
  fix loop and os :: "'w os" and f t p s y
  assume IH: "\<And>os f t p s y. loop os f t p s = Some y \<Longrightarrow> keeps w s (snd y)"
    and eq: "(let q = do_sys os (SysSocket f t p) s in
        if sr_ret (fst q) < 0 \<and> sr_errno (fst q) = ENOBUFS then loop os f t p (snd q) else Some q)
        = Some y"
  obtain r u where d: "do_sys os (SysSocket f t p) s = (r, u)" by fastforce
  then have u: "keeps w s u" by (rule keeps_do_sys) simp
  from eq have "(if sr_ret r < 0 \<and> sr_errno r = ENOBUFS then loop os f t p u else Some (r, u)) = Some y"
    by (simp only: d Let_def fst_conv snd_conv)
  with u show "keeps w s (snd y)" by (auto dest: IH intro: keeps_trans split: if_splits)
qed

lemma intr_loop_keeps:
  assumes ret: "intr_loop os c s = Some y" and c: "off_ring c"
  shows "keeps w s (snd y)"
proof -
  have "off_ring c \<longrightarrow> keeps w s (snd y)"
  proof (rule intr_loop.raw_induct [where P = "\<lambda>os c s y. off_ring c
        \<longrightarrow> keeps w s (snd y)", OF _ ret], rule impI)
    fix loop and os :: "'w os" and c s y
    assume IH: "\<And>os c s y. loop os c s = Some y \<Longrightarrow>
          off_ring c \<longrightarrow> keeps w s (snd y)"
      and eq: "(let q = do_sys os c s in
          if sr_ret (fst q) < 0 \<and> sr_errno (fst q) = EINTR then loop os c (snd q) else Some q) = Some y"
      and c: "off_ring c"
    obtain r u where d: "do_sys os c s = (r, u)" by fastforce
    then have u: "keeps w s u" by (rule keeps_do_sys) (simp add: c)
    from eq have "(if sr_ret r < 0 \<and> sr_errno r = EINTR then loop os c u else Some (r, u)) = Some y"
      by (simp only: d Let_def fst_conv snd_conv)
    with u c show "keeps w s (snd y)" by (auto dest: IH intro: keeps_trans split: if_splits)
  qed
  with c show ?thesis by simp
qed

lemma send_loop_keeps:
  assumes ret: "send_loop os q fl m w n s = Some y"
  shows "keeps w s (snd (snd y))"
proof (rule send_loop.raw_induct [where P = "\<lambda>os q fl m w n s y. keeps w s (snd (snd y))", OF _ ret])
  fix loop and os :: "'w os" and q fl m w n s and y :: "u16 \<times> int \<times> 'w ins_state"
  assume IH: "\<And>os q fl m w n s y. loop os q fl m w n s = Some y \<Longrightarrow> keeps w s (snd (snd y))"
    and eq: "(if int (unat n) < m then
        let fd = ti_local_fd (thread s w);
            p = do_sys os (SysSend fd (take (nat (m - int (unat n)))
                   (drop (unat n) (send_rq_bytes q))) fl) s
        in if sr_ret (fst p) < 0 then
             if sr_errno (fst p) = EAGAIN \<or> sr_errno (fst p) = EWOULDBLOCK then
               loop os q fl m w n (snd (do_sys os (SysPoll [(fd, POLLOUT)] (-1)) (snd p)))
             else
               let st = XE_GET_NEG_ERRNO_VAL (sr_errno (fst p)) in
               Some (n, st, upd_thread w (\<lambda>t. t\<lparr>ti_state_flags :=
                       (if - MW_EPIPE = st then MT_FLAGS_REMOTE_CLOSED else 0)\<rparr>) (snd p))
           else loop os q fl m w (n + word_of_int (sr_ret (fst p))) (snd p)
      else Some (n, 0, s)) = Some y"
  obtain r u where d: "do_sys os (SysSend (ti_local_fd (thread s w)) (take (nat (m - int (unat n)))
      (drop (unat n) (send_rq_bytes q))) fl) s = (r, u)" by fastforce
  obtain r' v where d': "do_sys os (SysPoll [(ti_local_fd (thread s w), POLLOUT)] (-1)) u = (r', v)"
    by fastforce
  have u: "keeps w s u" using d by (rule keeps_do_sys) simp
  have v: "keeps w s v" using u d' by (rule keeps_sys_step) simp
  have k: "keeps w s (upd_thread w (\<lambda>t. t\<lparr>ti_state_flags := x\<rparr>) u)" for x
    using u by (rule keeps_upd_step) (simp add: ctl_def)
  show "keeps w s (snd (snd y))"
    using eq d d' u v k by (auto simp: Let_def dest!: IH intro: keeps_trans split: if_splits)
qed

lemma query_one_keeps: "xe_pollset_query_one os fd ev s = (rc, ev', s') \<Longrightarrow> keeps w s s'"
  by (auto simp: xe_pollset_query_one_def split: prod.splits if_splits
      elim!: keeps_do_sys)

lemma recv_loop_keeps:
  assumes "recv_loop os c w ev polled s = Some (out, s')" and "off_ring c"
  shows "keeps w s s'"
  using assms
proof (induction os c w ev polled s rule: recv_loop.induct)
  case (1 os c w ev polled s)
  from "1.prems" obtain r u where l: "intr_loop os c s = Some (r, u)"
    by (subst (asm) recv_loop.simps) (auto split: option.splits)
  have u: "keeps w s u" using intr_loop_keeps [OF l "1.prems"(2)] by simp
  obtain rc ev' v where qo: "xe_pollset_query_one os (ti_local_fd (thread u w)) ev u = (rc, ev', v)"
    by (cases "xe_pollset_query_one os (ti_local_fd (thread u w)) ev u")
  have v: "keeps w s v" using u query_one_keeps [OF qo] by (rule keeps_trans)
  have k: "keeps w s (upd_thread w (\<lambda>t. t\<lparr>ti_state_flags := g t\<rparr>) u)" for g
    using u by (rule keeps_upd_step) (simp add: ctl_def)
  have IH: "recv_loop os c w ev' True v = Some (out, s') \<Longrightarrow> keeps w v s'"
    if "\<not> sr_ret r < 0" "\<not> 0 < (word_of_int (sr_ret r) :: u16)"
      "\<not> ev AND (POLLIN OR POLLRDNORM) \<noteq> 0" "\<not> polled" "\<not> rc \<noteq> 0"
    using "1.IH" [OF l] that qo "1.prems"(2) by auto
  show ?case
    using "1.prems"(1) l u v k qo IH
    by (subst (asm) recv_loop.simps)
      (auto simp: Let_def intro: keeps_trans [OF v] split: if_splits)
qed

section \<open>Every handler meets the contract\<close>

text \<open>
  In the form of simplification rules: a call that is not a write, and an update of the worker's
  own data, can be peeled off the end of a chain of steps.
\<close>

lemma keeps_snd_do_sys [simp]:
  assumes "off_ring c"
  shows "keeps w s (snd (do_sys os c t)) \<longleftrightarrow> keeps w s t"
proof -
  obtain r u where "do_sys os c t = (r, u)" by fastforce
  with do_sys_frame [OF this] do_sys_params [OF this] assms show ?thesis
    by (simp add: keeps_defs off_ring_trace)
qed

lemma keeps_end_upd [simp]:
  assumes "\<And>t. ctl (f t) = ctl t \<and> ti_public_fd (f t) = ti_public_fd t"
  shows "keeps w s (upd_thread w f t) \<longleftrightarrow> keeps w s t"
proof (cases "w < length (worker_threads t)")
  case True
  with assms good_fd_same [OF assms] show ?thesis by (auto simp: keeps_defs thread_upd_thread)
next
  case False
  then have "upd_thread w f t = t" by (simp add: upd_thread_def list_update_beyond)
  then show ?thesis by simp
qed

lemma init_sockopt_keeps [simp]:
  "keeps w s (snd (init_sockopt os fd given name v st)) \<longleftrightarrow> keeps w s (snd st)"
  by (simp add: init_sockopt_def Let_def case_prod_unfold)

lemma init_socket_keeps [simp]: "keeps w s (snd (xe_net_init_socket os fd t)) \<longleftrightarrow> keeps w s t"
  by (simp add: xe_net_init_socket_def)

lemma sock_fcntl_keeps [simp]:
  "keeps w s (snd (snd (xe_net_sock_fcntl os q p w t))) \<longleftrightarrow> keeps w s t"
  unfolding xe_net_sock_fcntl_def by (simp add: Let_def case_prod_unfold)

lemma attrib_call_keeps [simp]:
  "keeps w s (snd (snd (snd (attrib_call os q p fd level name t)))) \<longleftrightarrow> keeps w s t"
  unfolding attrib_call_def by (simp add: Let_def case_prod_unfold)

lemma sock_attrib_body_keeps [simp]:
  "keeps w s (snd (snd (snd (sock_attrib_body os q p w t)))) \<longleftrightarrow> keeps w s t"
  unfolding sock_attrib_body_def by (simp add: Let_def case_prod_unfold split: option.splits)

lemma set_sock_nonblock_keeps [simp]:
  "keeps w s (snd (snd (xe_net_set_sock_nonblock os fd b t))) \<longleftrightarrow> keeps w s t"
  unfolding xe_net_set_sock_nonblock_def by (simp add: Let_def case_prod_unfold)

lemma internal_close_keeps [simp, intro]:
  "keeps w s t \<Longrightarrow> keeps w s (snd (xe_net_internal_close_socket os w t))"
  unfolding xe_net_internal_close_socket_def
  by (simp add: Let_def case_prod_unfold ctl_def) (auto intro!: keeps_set_fd simp: ctl_def good_fd_def)

lemma total_handler:
  assumes "\<And>os q p w s. keeps w s (snd (snd (g os q p w s)))"
    and "\<And>os q p w s. fst (g os q p w s) = 0 \<Longrightarrow> answers q (fst (snd (g os q p w s)))"
  shows "net_handler (\<lambda>os q p w s. Some (g os q p w s))"
proof
  fix os q p w s rc p' s'
  assume "Some (g os q p w s) = Some (rc, p', s')"
  then show "keeps w s s'" using assms(1) [of w s os q p] by simp
next
  fix os q p w s rc p' s'
  assume "Some (g os q p w s) = Some (rc, p', s')" and "rc = 0"
  then show "answers q p'" using assms(2) [of os q p w s] by simp
qed

interpretation h_attrib: net_handler "\<lambda>os q p w s. Some (xe_net_sock_attrib os q p w s)"
  by (rule total_handler) (simp_all add: xe_net_sock_attrib_def Let_def case_prod_unfold)

interpretation h_block: net_handler "\<lambda>os q p w s. Some (xe_net_addr_block os q p w s)"
  by (rule total_handler) (simp_all add: xe_net_addr_block_def Let_def case_prod_unfold)

interpretation h_connect: net_handler "\<lambda>os q p w s. Some (xe_net_connect_socket os q p w s)"
  by (rule total_handler) (simp_all add: xe_net_connect_socket_def Let_def case_prod_unfold)

interpretation h_bind: net_handler "\<lambda>os q p w s. Some (xe_net_bind_socket os q p w s)"
  by (rule total_handler) (simp_all add: xe_net_bind_socket_def Let_def case_prod_unfold ctl_def)

interpretation h_listen: net_handler "\<lambda>os q p w s. Some (xe_net_listen_socket os q p w s)"
  by (rule total_handler) (simp_all add: xe_net_listen_socket_def Let_def case_prod_unfold)

interpretation h_accept: net_handler "\<lambda>os q p w s. Some (xe_net_accept_socket os q p w s)"
  by (rule total_handler) (auto simp: xe_net_accept_socket_def Let_def case_prod_unfold split: if_splits)

interpretation h_shutdown: net_handler "\<lambda>os q p w s. Some (xe_net_shutdown_socket os q p w s)"
  by (rule total_handler) (simp_all add: xe_net_shutdown_socket_def Let_def case_prod_unfold)

interpretation h_close: net_handler "\<lambda>os q p w s. Some (xe_net_close_socket os q p w s)"
  by (rule total_handler) (simp_all add: xe_net_close_socket_def Let_def case_prod_unfold)

interpretation h_name: net_handler "\<lambda>os q p w s. Some (xe_net_get_name os q p w s)"
  by (rule total_handler) (auto simp: xe_net_get_name_def Let_def case_prod_unfold split: if_splits)

interpretation h_create: net_handler xe_net_create_socket
proof
  fix os :: "'a os" and q p w s rc p' s'
  assume a: "xe_net_create_socket os q p w s = Some (rc, p', s')"
  then obtain r u where l: "socket_loop os (uint (xe_net_get_native_protocol_family (create_sock_fam q)))
      (xe_net_get_native_sock_type (create_sock_type q)) (sint (create_sock_protocol q)) s = Some (r, u)"
    unfolding xe_net_create_socket_def by (auto simp: Let_def split: option.splits)
  have u: "keeps w s u" using socket_loop_keeps [OF l] by simp
  let ?v = "snd (xe_net_init_socket os (sr_ret r) u)"
  have v: "keeps w s ?v" using u by simp
  have "ti_idx (thread ?v w) = ti_idx (thread u w)" "client_id u = client_id s"
    using u v by (auto simp: keeps_defs ctl_def)
  then have k: "keeps w s (upd_thread w f ?v)"
    if "\<And>t. ctl (f t) = ctl t"
      "ti_public_fd (f (thread ?v w)) \<in> {0, MW_SOCKET_CREATE (client_id u) (int (ti_idx (thread u w)))}" for f
    using v that by (intro keeps_set_fd) (auto simp: good_fd_def ctl_def)
  show "keeps w s s'"
    using a v l unfolding xe_net_create_socket_def
    by (auto simp: Let_def case_prod_unfold ctl_def intro!: k split: if_splits)
  assume "rc = 0"
  then show "answers q p'"
    using a l unfolding xe_net_create_socket_def
    by (auto simp: Let_def case_prod_unfold split: if_splits)
qed

interpretation h_send: net_handler xe_net_send_socket
proof
  fix os :: "'a os" and q p w s rc p' s'
  assume a: "xe_net_send_socket os q p w s = Some (rc, p', s')"
  show "keeps w s s'"
    using a send_loop_keeps unfolding xe_net_send_socket_def
    by (fastforce simp: Let_def split: option.splits)
  show "answers q p'"
    using a unfolding xe_net_send_socket_def by (auto simp: Let_def split: option.splits)
qed

interpretation h_recv: net_handler xe_net_recv_socket
proof
  fix os :: "'a os" and q p w s rc p' s'
  assume a: "xe_net_recv_socket os q p w s = Some (rc, p', s')"
  then obtain out u where l: "recv_loop os (SysRecv (ti_local_fd (thread s w))
      (unat (recv_requested q)) (xe_net_translate_msg_flags (recv_rq_flags q))) w 0 False s = Some (out, u)"
    unfolding xe_net_recv_socket_def by (auto simp: Let_def split: option.splits)
  have u: "keeps w s u" using l by (rule recv_loop_keeps) simp
  show "keeps w s s'"
    using a l u unfolding xe_net_recv_socket_def by (auto simp: Let_def split: if_splits)
  assume "rc = 0"
  then show "answers q p'"
    using a l unfolding xe_net_recv_socket_def by (auto simp: Let_def split: if_splits)
qed

interpretation h_recvfrom: net_handler xe_net_recvfrom_socket
proof
  fix os :: "'a os" and q p w s rc p' s'
  assume a: "xe_net_recvfrom_socket os q p w s = Some (rc, p', s')"
  then obtain out u where l: "recv_loop os (SysRecvfrom (ti_local_fd (thread s w))
      (unat (recv_requested q)) (xe_net_translate_msg_flags (recv_rq_flags q)) 0) w 0 False s = Some (out, u)"
    unfolding xe_net_recvfrom_socket_def by (auto simp: Let_def split: option.splits)
  have u: "keeps w s u" using l by (rule recv_loop_keeps) simp
  show "keeps w s s'"
    using a l u unfolding xe_net_recvfrom_socket_def by (auto simp: Let_def split: if_splits)
  assume "rc = 0"
  then show "answers q p'"
    using a l unfolding xe_net_recvfrom_socket_def by (auto simp: Let_def split: if_splits)
qed

end
