(* ===== verification/SendRecv.thy ===== *)
theory SendRecv
  imports Handlers
begin

text \<open>
  Correctness of the two data paths of the INS, the send and the receive handlers, against the
  documented behaviour of the system calls they make. The hypotheses on the operating system
  are the predicates \<open>send_contract\<close>, \<open>send_patience\<close>, \<open>recv_contract\<close> and
  \<open>intr_patience\<close>: what POSIX promises about return values, and that a call is not
  interrupted or refused for ever.
\<close>

section \<open>Sending\<close>

text \<open>The bytes that the operating system has accepted, from the record of calls.\<close>

fun accepted :: "syscall \<times> sysres \<Rightarrow> u8 list" where
  "accepted (SysSend fd data fl, r) = take (nat (sr_ret r)) data"
| "accepted _ = []"

definition sent_bytes :: "(syscall \<times> sysres) list \<Rightarrow> u8 list" where
  "sent_bytes tr = concat (map accepted tr)"

lemma sent_bytes_append [simp]: "sent_bytes (xs @ ys) = sent_bytes xs @ sent_bytes ys"
  by (simp add: sent_bytes_def)

lemma sent_bytes_Cons [simp]: "sent_bytes (e # es) = accepted e @ sent_bytes es"
  by (simp add: sent_bytes_def)

lemma sent_bytes_Nil [simp]: "sent_bytes [] = []"
  by (simp add: sent_bytes_def)

text \<open>
  A send call accepts at most the bytes it is given, and at least one when it is given some and
  does not fail.
\<close>

definition send_contract :: "'w os \<Rightarrow> bool" where
  "send_contract os \<longleftrightarrow>
     (\<forall>fd data fl w. sr_ret (fst (os (SysSend fd data fl) w)) \<le> int (length data)
        \<and> (data \<noteq> [] \<longrightarrow> sr_ret (fst (os (SysSend fd data fl) w)) \<noteq> 0))"

text \<open>
  A socket is not congested for ever: some measure of the world decreases each time a send is
  refused with EAGAIN and the poll that follows it returns.
\<close>

definition send_patience :: "'w os \<Rightarrow> ('w \<Rightarrow> nat) \<Rightarrow> bool" where
  "send_patience os m \<longleftrightarrow>
     (\<forall>fd data fl w. let (r, w') = os (SysSend fd data fl) w in
        sr_ret r < 0 \<and> sr_errno r = EAGAIN \<longrightarrow> m (snd (os (SysPoll [(fd, POLLOUT)] (-1)) w')) < m w)"

lemma do_sys_eq:
  "do_sys os c s = (fst (os c (world s)),
     s\<lparr>world := snd (os c (world s)), trace := trace s @ [(c, fst (os c (world s)))]\<rparr>)"
  by (simp add: do_sys_def case_prod_unfold Let_def)

lemma take_accepted:
  fixes bytes :: "u8 list"
  assumes "k + c \<le> M" and "M \<le> length bytes"
  shows "take c (take (M - k) (drop k bytes)) @ take (n - (k + c)) (drop (k + c) bytes)
           = take (c + (n - (k + c))) (drop k bytes)"
proof -
  have "take c (take (M - k) (drop k bytes)) = take c (drop k bytes)"
    using assms(1) by (simp add: min_def)
  moreover have "drop (k + c) bytes = drop c (drop k bytes)" by (simp add: add.commute)
  ultimately show ?thesis by (simp add: take_add)
qed

lemma send_loop_total:
  fixes os :: "'w os"
  assumes con: "send_contract os" and pat: "send_patience os m"
    and max: "M \<le> int (length (send_rq_bytes q))" "M < 2 ^ 16"
  shows "int (unat n) \<le> max 0 M \<Longrightarrow>
    \<exists>n' st s'. send_loop os q fl M w n s = Some (n', st, s')
      \<and> unat n \<le> unat n' \<and> int (unat n') \<le> max 0 M
      \<and> (st = 0 \<longrightarrow> int (unat n') = max 0 M) \<and> st \<le> 0
      \<and> sent_bytes (trace s')
          = sent_bytes (trace s) @ take (unat n' - unat n) (drop (unat n) (send_rq_bytes q))"
proof (induction "(n, s)" arbitrary: n s
    rule: wf_induct_rule [OF wf_measures [of "[\<lambda>(n, s). nat (M - int (unat n)), \<lambda>(n, s). m (world s)]"]])
  case (1 n s)
  show ?case
  proof (cases "int (unat n) < M")
    case False
    with "1.prems" have "send_loop os q fl M w n s = Some (n, 0, s)"
      by (subst send_loop.simps) simp
    moreover have "int (unat n) = max 0 M" using False "1.prems" by linarith
    ultimately show ?thesis by (intro exI [of _ n] exI [of _ 0] exI [of _ s]) simp
  next
    case True
    define fd where "fd = ti_local_fd (thread s w)"
    define d where "d = take (nat (M - int (unat n))) (drop (unat n) (send_rq_bytes q))"
    define r where "r = fst (os (SysSend fd d fl) (world s))"
    define u where "u = snd (do_sys os (SysSend fd d fl) s)"
    have "nat (M - int (unat n)) \<le> length (send_rq_bytes q) - unat n"
      using max(1) True by linarith
    then have dl: "length d = nat (M - int (unat n))" by (simp add: d_def)
    have call: "do_sys os (SysSend fd d fl) s = (r, u)" by (simp add: r_def u_def do_sys_eq)
    have rl: "sr_ret r \<le> M - int (unat n)" "sr_ret r \<noteq> 0"
      using con dl True unfolding send_contract_def r_def
      by (metis int_nat_eq less_imp_le diff_ge_0_iff_ge, metis length_0_conv less_numeral_extra(3)
          zero_less_nat_eq diff_gt_0_iff_gt)
    have tr: "trace u = trace s @ [(SysSend fd d fl, r)]" by (simp add: u_def r_def do_sys_eq)
    have unfold: "send_loop os q fl M w n s =
      (if sr_ret r < 0 then
         if sr_errno r = EAGAIN then
           send_loop os q fl M w n (snd (do_sys os (SysPoll [(fd, POLLOUT)] (-1)) u))
         else Some (n, XE_GET_NEG_ERRNO_VAL (sr_errno r), upd_thread w (\<lambda>t. t\<lparr>ti_state_flags :=
             (if - MW_EPIPE = XE_GET_NEG_ERRNO_VAL (sr_errno r) then MT_FLAGS_REMOTE_CLOSED else 0)\<rparr>) u)
       else send_loop os q fl M w (n + word_of_int (sr_ret r)) u)"
      using True call by (subst send_loop.simps) (simp add: Let_def fd_def d_def)
    consider (again) "sr_ret r < 0" "sr_errno r = EAGAIN"
      | (err) "sr_ret r < 0" "sr_errno r \<noteq> EAGAIN" | (ok) "0 < sr_ret r"
      using rl(2) by linarith
    then show ?thesis
    proof cases
      case again
      let ?v = "snd (do_sys os (SysPoll [(fd, POLLOUT)] (-1)) u)"
      have "m (world ?v) < m (world s)"
        using pat again unfolding send_patience_def r_def
        by (auto simp: Let_def case_prod_unfold u_def do_sys_eq)
      then have "((n, ?v), (n, s)) \<in> measures
          [\<lambda>(n, s). nat (M - int (unat n)), \<lambda>(n, s). m (world s)]" by simp
      from "1.hyps" [OF this "1.prems"] again tr show ?thesis
        unfolding unfold by (simp add: do_sys_eq)
    next
      case err
      have neg: "XE_GET_NEG_ERRNO_VAL (sr_errno r) \<le> 0" "XE_GET_NEG_ERRNO_VAL (sr_errno r) \<noteq> 0"
        using neg_errno_negative [of "sr_errno r"] by linarith+
      from err show ?thesis
        using "1.prems" True tr neg unfolding unfold by (simp add: le_max_iff_disj)
    next
      case ok
      let ?n = "n + word_of_int (sr_ret r)"
      have n': "unat ?n = unat n + nat (sr_ret r)"
        using ok rl max(2) by (intro unat_add_u16 [of _ _ M]) auto
      have "((?n, u), (n, s)) \<in> measures
          [\<lambda>(n, s). nat (M - int (unat n)), \<lambda>(n, s). m (world s)]"
        using ok n' True by (simp add: nat_less_eq_zless)
      moreover have "int (unat ?n) \<le> max 0 M" using n' rl ok by simp
      ultimately obtain n2 st s2 where ih: "send_loop os q fl M w ?n u = Some (n2, st, s2)"
        "unat ?n \<le> unat n2" "int (unat n2) \<le> max 0 M" "st = 0 \<longrightarrow> int (unat n2) = max 0 M" "st \<le> 0"
        "sent_bytes (trace s2)
           = sent_bytes (trace u) @ take (unat n2 - unat ?n) (drop (unat ?n) (send_rq_bytes q))"
        using "1.hyps" by blast
      have "take (nat (sr_ret r)) d @ take (unat n2 - unat ?n) (drop (unat ?n) (send_rq_bytes q))
          = take (unat n2 - unat n) (drop (unat n) (send_rq_bytes q))"
        using take_accepted [of "unat n" "nat (sr_ret r)" "nat M" "send_rq_bytes q" "unat n2"]
          n' ih(2) rl ok max(1) True
        by (simp add: d_def nat_diff_distrib)
      then show ?thesis
        using ih ok tr n' unfolding unfold by simp
    qed
  qed
qed

text \<open>
  C3. Functional correctness and termination of send. If the operating system honours the
  contract of send and does not refuse it for ever, then for a request whose declared size fits
  the request buffer the handler returns, reports success of the handler itself, and its
  response says how many bytes were sent: the bytes the operating system accepted are exactly
  that many first bytes of the payload, in order and without gaps or repetitions, and when the
  status is 0 that is the whole payload.
\<close>

theorem send_delivers_prefix:
  fixes os :: "'w os"
  assumes "send_contract os" and "send_patience os m"
    and "unat (rq_size (rq_base q)) \<le> ONE_REQUEST_REGION_SIZE"
    and "length (send_rq_bytes q) = MESSAGE_TYPE_MAX_PAYLOAD_LEN"
  shows "\<exists>p' s'. xe_net_send_socket os q p w s = Some (0, p', s')
     \<and> sent_bytes (trace s') = sent_bytes (trace s) @ take (unat (send_count p')) (send_rq_bytes q)
     \<and> unat (send_count p') \<le> unat (rq_size (rq_base q)) - MT_REQUEST_SOCKET_SEND_SIZE
     \<and> (rs_status (rs_base p') = 0 \<longrightarrow>
          unat (send_count p') = unat (rq_size (rq_base q)) - MT_REQUEST_SOCKET_SEND_SIZE)
     \<and> answers q p'"
proof -
  let ?M = "int (unat (rq_size (rq_base q))) - int MT_REQUEST_SOCKET_SEND_SIZE"
  have M: "?M \<le> int (length (send_rq_bytes q))" "?M < 2 ^ 16"
    using assms(3,4) by (simp_all add: sizes)
  obtain n st s' where l: "send_loop os q (xe_net_translate_msg_flags (send_rq_flags q)) ?M w 0 s
        = Some (n, st, s')"
    and n: "int (unat n) \<le> max 0 ?M" "st = 0 \<longrightarrow> int (unat n) = max 0 ?M"
    and sent: "sent_bytes (trace s') = sent_bytes (trace s) @ take (unat n) (send_rq_bytes q)"
    using send_loop_total [OF assms(1,2) M, of 0 "xe_net_translate_msg_flags (send_rq_flags q)" w s]
    by auto
  have le: "unat n \<le> unat (rq_size (rq_base q)) - MT_REQUEST_SOCKET_SEND_SIZE" using n(1) by linarith
  have eq: "st = 0 \<longrightarrow> unat n = unat (rq_size (rq_base q)) - MT_REQUEST_SOCKET_SEND_SIZE"
    using n(2) by linarith
  obtain p' s'' where h: "xe_net_send_socket os q p w s = Some (0, p', s'')"
    and p': "send_count p' = n" "rs_status (rs_base p') = st" "trace s'' = trace s'"
    using l by (simp add: xe_net_send_socket_def Let_def xe_net_set_base_response_def set_status_def)
  then show ?thesis using sent le eq h_send.h_answers [OF h] by auto
qed

text \<open>
  An operating system for examples: the world counts how often a send is still refused; after
  that a send accepts at most 1000 bytes per call.
\<close>

fun os_congested :: "nat os" where
  "os_congested (SysSend fd data fl) w =
     (if 0 < w then (sysres0\<lparr>sr_ret := -1, sr_errno := EAGAIN\<rparr>, w)
      else (sysres0\<lparr>sr_ret := int (min 1000 (length data))\<rparr>, w))"
| "os_congested (SysPoll fds timeout) w = (sysres0\<lparr>sr_ret := 1\<rparr>, w - 1)"
| "os_congested _ w = (sysres0, w)"

definition send_example :: mt_request_generic where
  "send_example = rq_zero\<lparr>rq_base := (rq_base rq_zero)\<lparr>rq_type := mt_request_code MtRequestSocketSend,
     rq_size := 2017\<rparr>, send_rq_bytes := replicate 1985 7\<rparr>"

theorem send_delivers_prefix_witness:
  "\<exists>p' s'. xe_net_send_socket os_congested send_example rs_zero 0 (ins_zero rs_zero sa_zero 3)
       = Some (0, p', s')
     \<and> sent_bytes (trace s') = sent_bytes (trace (ins_zero rs_zero sa_zero (3::nat)))
          @ take (unat (send_count p')) (send_rq_bytes send_example)
     \<and> unat (send_count p') \<le> unat (rq_size (rq_base send_example)) - MT_REQUEST_SOCKET_SEND_SIZE
     \<and> (rs_status (rs_base p') = 0 \<longrightarrow> unat (send_count p')
          = unat (rq_size (rq_base send_example)) - MT_REQUEST_SOCKET_SEND_SIZE)
     \<and> answers send_example p'"
proof (rule send_delivers_prefix [where m = id])
  show "send_contract os_congested" by (auto simp: send_contract_def sysres0_def)
  show "send_patience os_congested id" by (auto simp: send_patience_def Let_def sysres0_def)
qed (simp_all add: send_example_def sizes)

section \<open>Receiving\<close>

definition intr_patience :: "'w os \<Rightarrow> syscall \<Rightarrow> ('w \<Rightarrow> nat) \<Rightarrow> bool" where
  "intr_patience os c m \<longleftrightarrow>
     (\<forall>w. sr_ret (fst (os c w)) < 0 \<and> sr_errno (fst (os c w)) = EINTR \<longrightarrow> m (snd (os c w)) < m w)"

text \<open>A receive call returns at most the number of bytes asked for.\<close>

definition recv_contract :: "'w os \<Rightarrow> bool" where
  "recv_contract os \<longleftrightarrow> (\<forall>fd len fl w. sr_ret (fst (os (SysRecv fd len fl) w)) \<le> int len)"

lemma intr_loop_total:
  assumes "intr_patience os c m" and "\<And>w. P (fst (os c w))"
  shows "\<exists>r s'. intr_loop os c s = Some (r, s') \<and> P r"
proof (induction "m (world s)" arbitrary: s rule: less_induct)
  case less
  show ?case
  proof (cases "sr_ret (fst (os c (world s))) < 0 \<and> sr_errno (fst (os c (world s))) = EINTR")
    case True
    then have "m (world (snd (do_sys os c s))) < m (world s)"
      using assms(1) by (simp add: intr_patience_def do_sys_eq)
    from less [OF this] True show ?thesis
      by (subst intr_loop.simps) (simp add: Let_def do_sys_eq)
  next
    case False
    with assms(2) show ?thesis by (subst intr_loop.simps) (auto simp: Let_def do_sys_eq)
  qed
qed

text \<open>What the loop may leave when the call returns at most \<open>L\<close> bytes.\<close>

definition recv_out_ok :: "nat \<Rightarrow> recv_out \<Rightarrow> bool" where
  "recv_out_ok L out \<longleftrightarrow> unat (ro_count out) \<le> L \<and> (ro_status out \<noteq> 0 \<longrightarrow> ro_count out = 0)"

lemma recv_count_bound:
  assumes "0 \<le> r" and "r \<le> int L" and "L < 2 ^ 16"
  shows "unat (word_of_int r :: u16) \<le> L"
proof -
  have "r < int (2 ^ 16)" using assms(2,3) by (metis le_less_trans of_nat_less_iff)
  then have "unat (word_of_int r :: u16) = nat r" using assms(1) by (simp add: unat_word_of_int_u16)
  then show ?thesis using assms(2) by simp
qed

lemma recv_loop_total:
  assumes pat: "intr_patience os c m" and con: "\<And>w. sr_ret (fst (os c w)) \<le> int L"
    and L: "L < 2 ^ 16"
  shows "\<exists>out s'. recv_loop os c w ev polled s = Some (out, s') \<and> recv_out_ok L out"
proof -
  note count = recv_count_bound [OF _ _ L]
  have once: "\<exists>out s'. recv_loop os c w ev True s = Some (out, s') \<and> recv_out_ok L out" for ev s
  proof -
    obtain r u where l: "intr_loop os c s = Some (r, u)" and r: "sr_ret r \<le> int L"
      using intr_loop_total [OF pat, of "\<lambda>r. sr_ret r \<le> int L", OF con] by blast
    show ?thesis using l r count [of "sr_ret r"]
      by (subst recv_loop.simps) (auto simp: recv_out_ok_def Let_def not_less)
  qed
  show ?thesis
  proof (cases polled)
    case True
    then show ?thesis using once by simp
  next
    case False
    obtain r u where l: "intr_loop os c s = Some (r, u)" and r: "sr_ret r \<le> int L"
      using intr_loop_total [OF pat, of "\<lambda>r. sr_ret r \<le> int L", OF con] by blast
    obtain rc ev' v where "xe_pollset_query_one os (ti_local_fd (thread u w)) ev u = (rc, ev', v)"
      by (cases "xe_pollset_query_one os (ti_local_fd (thread u w)) ev u")
    with False l r count [of "sr_ret r"] once [of ev' v] show ?thesis
      by (subst recv_loop.simps) (auto simp: recv_out_ok_def Let_def not_less)
  qed
qed

text \<open>
  C7. Bounds and termination of recv. If the operating system returns no more bytes than asked
  for and does not interrupt the call for ever, then for a request that asks for no more than
  the payload limit the handler returns; unless the poll failed, its response is a well-formed
  response to the request whose size field is the header plus the byte count, within the size
  of a response, and a failed receive reports no bytes.
\<close>

theorem recv_response_fits:
  fixes os :: "'w os"
  assumes "recv_contract os" and "\<And>c. intr_patience os c m"
    and "unat (recv_requested q) \<le> MESSAGE_TYPE_MAX_PAYLOAD_LEN"
  shows "\<exists>rc p' s'. xe_net_recv_socket os q p w s = Some (rc, p', s')
     \<and> (rc = 0 \<longrightarrow> MT_IS_RESPONSE (rs_base p') \<and> answers q p'
         \<and> unat (rs_size (rs_base p')) = MT_RESPONSE_SOCKET_RECV_SIZE + unat (recv_count p')
         \<and> unat (rs_size (rs_base p')) \<le> sizeof_mt_response_generic
         \<and> unat (recv_count p') \<le> unat (recv_requested q)
         \<and> (rs_status (rs_base p') \<noteq> 0 \<longrightarrow> recv_count p' = 0))"
proof -
  let ?L = "unat (recv_requested q)"
  let ?c = "SysRecv (ti_local_fd (thread s w)) ?L (xe_net_translate_msg_flags (recv_rq_flags q))"
  have L: "?L < 2 ^ 16" using assms(3) by (simp add: sizes)
  have con: "sr_ret (fst (os ?c v)) \<le> int ?L" for v using assms(1) by (simp add: recv_contract_def)
  obtain out u where l: "recv_loop os ?c w 0 False s = Some (out, u)" and ok: "recv_out_ok ?L out"
    using recv_loop_total [OF assms(2) con L] by blast
  obtain rc p' s' where h: "xe_net_recv_socket os q p w s = Some (rc, p', s')"
    and p': "rc = ro_rc out" "rc = 0 \<longrightarrow> recv_count p' = ro_count out
       \<and> rs_status (rs_base p') = ro_status out
       \<and> rs_size (rs_base p') = of_nat (unat (ro_count out) + MT_RESPONSE_SOCKET_RECV_SIZE)"
    using l by (cases "ro_rc out = 0")
      (simp_all add: xe_net_recv_socket_def Let_def xe_net_set_base_response_def set_status_def)
  have cnt: "unat (ro_count out) \<le> ?L" using ok by (simp add: recv_out_ok_def)
  have size: "unat (of_nat (unat (ro_count out) + MT_RESPONSE_SOCKET_RECV_SIZE) :: u16)
      = unat (ro_count out) + MT_RESPONSE_SOCKET_RECV_SIZE"
    using cnt assms(3) by (intro unat_of_nat_u16) (simp add: sizes)
  show ?thesis
    using h p' ok cnt assms(3) h_recv.h_answers [OF h] size
    by (auto simp: recv_out_ok_def MT_IS_RESPONSE_def answers_def sizes)
qed

text \<open>A peer that has closed its end: nothing to read, but the socket polls as readable.\<close>

fun os_peer_closed :: "nat os" where
  "os_peer_closed (SysPoll fds timeout) w = (sysres0\<lparr>sr_ret := 1, sr_revents := [POLLIN]\<rparr>, w + 1)"
| "os_peer_closed _ w = (sysres0, w + 1)"

lemma os_peer_closed_ret: "0 \<le> sr_ret (fst (os_peer_closed c w))"
  by (cases c) (simp_all add: sysres0_def)

definition recv_example :: mt_request_generic where
  "recv_example = rq_zero\<lparr>rq_base := (rq_base rq_zero)\<lparr>rq_type := mt_request_code MtRequestSocketRecv\<rparr>,
     recv_requested := 100\<rparr>"

theorem recv_response_fits_witness:
  "\<exists>rc p' s'. xe_net_recv_socket os_peer_closed recv_example rs_zero 0 (ins_zero rs_zero sa_zero 0)
       = Some (rc, p', s')
     \<and> (rc = 0 \<longrightarrow> MT_IS_RESPONSE (rs_base p') \<and> answers recv_example p'
         \<and> unat (rs_size (rs_base p')) = MT_RESPONSE_SOCKET_RECV_SIZE + unat (recv_count p')
         \<and> unat (rs_size (rs_base p')) \<le> sizeof_mt_response_generic
         \<and> unat (recv_count p') \<le> unat (recv_requested recv_example)
         \<and> (rs_status (rs_base p') \<noteq> 0 \<longrightarrow> recv_count p' = 0))"
proof (rule recv_response_fits [where m = id])
  show "recv_contract os_peer_closed" by (simp add: recv_contract_def sysres0_def)
  show "intr_patience os_peer_closed c id" for c
    using os_peer_closed_ret [of c] by (simp add: intr_patience_def not_less [symmetric])
qed (simp add: recv_example_def sizes)

lemma intr_loop_once:
  "os c (world s) = (r, v) \<Longrightarrow> 0 \<le> sr_ret r \<Longrightarrow>
     intr_loop os c s = Some (r, s\<lparr>world := v, trace := trace s @ [(c, r)]\<rparr>)"
  by (subst intr_loop.simps) (simp add: do_sys_eq Let_def)

text \<open>
  C12. Detection of a remote close. When recv returns no bytes, the poll that follows reports
  events, and a second recv returns no bytes again, the handler answers with status 0 and no
  bytes, and the events decide what the worker thread records: readable events mean that the
  remote side has closed, anything else that the connection is idle and open.
\<close>

theorem recv_remote_close:
  assumes "world s = v0" and "w < length (worker_threads s)"
    and c: "c = SysRecv (ti_local_fd (thread s w)) (unat (recv_requested q))
                  (xe_net_translate_msg_flags (recv_rq_flags q))"
    and "os c v0 = (r1, v1)" and "sr_ret r1 = 0"
    and "os (SysPoll [(ti_local_fd (thread s w), POLLSET_EVENTS)] INFTIM) v1 = (r2, v2)"
    and "0 < sr_ret r2" and "sr_revents r2 = [ev]"
    and "os c v2 = (r3, v3)" and "sr_ret r3 = 0"
  shows "\<exists>p' s'. xe_net_recv_socket os q p w s = Some (0, p', s')
     \<and> recv_count p' = 0 \<and> rs_status (rs_base p') = 0
     \<and> ti_state_flags (thread s' w) =
         (if ev AND (POLLIN OR POLLRDNORM) \<noteq> 0 then ti_state_flags (thread s w) OR MT_FLAGS_REMOTE_CLOSED
          else 0)"
proof -
  let ?s1 = "s\<lparr>world := v1, trace := trace s @ [(c, r1)]\<rparr>"
  let ?p = "SysPoll [(ti_local_fd (thread s w), POLLSET_EVENTS)] INFTIM"
  let ?s2 = "?s1\<lparr>world := v2, trace := trace ?s1 @ [(?p, r2)]\<rparr>"
  let ?s3 = "?s2\<lparr>world := v3, trace := trace ?s2 @ [(c, r3)]\<rparr>"
  have th: "thread ?s1 = thread s" "thread ?s2 = thread s" "thread ?s3 = thread s"
    by (simp_all add: thread_def fun_eq_iff)
  have l1: "intr_loop os c s = Some (r1, ?s1)" using assms by (intro intr_loop_once) simp_all
  have l2: "intr_loop os c ?s2 = Some (r3, ?s3)" using assms by (intro intr_loop_once) simp_all
  have po: "xe_pollset_query_one os (ti_local_fd (thread ?s1 w)) 0 ?s1 = (0, ev, ?s2)"
    using assms th by (simp add: xe_pollset_query_one_def do_sys_eq)
  define f where "f = (\<lambda>t :: thread_item. t\<lparr>ti_state_flags :=
     (if ev AND (POLLIN OR POLLRDNORM) \<noteq> 0 then ti_state_flags t OR MT_FLAGS_REMOTE_CLOSED else 0)\<rparr>)"
  have "recv_loop os c w ev True ?s2
      = Some (\<lparr>ro_rc = 0, ro_status = 0, ro_count = 0, ro_res = r3\<rparr>, upd_thread w f ?s3)"
    using l2 assms by (subst recv_loop.simps) (simp add: Let_def f_def)
  then have loop: "recv_loop os c w 0 False s
      = Some (\<lparr>ro_rc = 0, ro_status = 0, ro_count = 0, ro_res = r3\<rparr>, upd_thread w f ?s3)"
    using l1 assms po by (subst recv_loop.simps) (simp add: Let_def)
  have wl: "w < length (worker_threads ?s3)" using assms(2) by simp
  show ?thesis
    using loop c thread_upd_thread [OF wl, of f w] th
    by (simp add: xe_net_recv_socket_def Let_def xe_net_set_base_response_def set_status_def
        f_def thread_def)
qed

theorem recv_remote_close_witness:
  "\<exists>p' s'. xe_net_recv_socket os_peer_closed recv_example rs_zero 0 (ins_zero rs_zero sa_zero 0)
       = Some (0, p', s')
     \<and> recv_count p' = 0 \<and> rs_status (rs_base p') = 0
     \<and> ti_state_flags (thread s' 0) =
         (if POLLIN AND (POLLIN OR POLLRDNORM) \<noteq> 0
          then ti_state_flags (thread (ins_zero rs_zero sa_zero (0::nat)) 0) OR MT_FLAGS_REMOTE_CLOSED
          else 0)"
proof (rule recv_remote_close [OF refl _ refl])
  let ?s = "ins_zero rs_zero sa_zero (0 :: nat)"
  let ?c = "SysRecv (ti_local_fd (thread ?s 0)) (unat (recv_requested recv_example))
    (xe_net_translate_msg_flags (recv_rq_flags recv_example))"
  show "os_peer_closed ?c (world ?s) = (sysres0, world ?s + 1)" by simp
  show "os_peer_closed (SysPoll [(ti_local_fd (thread ?s 0), POLLSET_EVENTS)] INFTIM) (world ?s + 1)
      = (sysres0\<lparr>sr_ret := 1, sr_revents := [POLLIN]\<rparr>, world ?s + 1 + 1)" by simp
  show "os_peer_closed ?c (world ?s + 1 + 1) = (sysres0, world ?s + 1 + 1 + 1)" by simp
qed (simp_all add: ins_zero_def mw_consts sysres0_def)

end
