(* ===== verification/Pollset.thy ===== *)
theory Pollset
  imports SendRecv
begin

text \<open>
  The poll over all open sockets (apps/ins-app/pollset.c, \<open>xe_pollset_query\<close>), which
  answers the request of type pollset query: one nonblocking poll over the descriptors of the
  worker threads in use, and a scan of its results that starts where the last scan stopped.
\<close>

section \<open>Events\<close>

text \<open>The MW\_POLL constants of message\_types.h.\<close>

definition MW_POLLIN :: u32 where [mw_consts]: "MW_POLLIN = 0x001"
definition MW_POLLPRI :: u32 where [mw_consts]: "MW_POLLPRI = 0x002"
definition MW_POLLOUT :: u32 where [mw_consts]: "MW_POLLOUT = 0x004"
definition MW_POLLERR :: u32 where [mw_consts]: "MW_POLLERR = 0x008"
definition MW_POLLHUP :: u32 where [mw_consts]: "MW_POLLHUP = 0x010"
definition MW_POLLNVAL :: u32 where [mw_consts]: "MW_POLLNVAL = 0x020"
definition MW_POLLRDNORM :: u32 where [mw_consts]: "MW_POLLRDNORM = 0x040"
definition MW_POLLWRNORM :: u32 where [mw_consts]: "MW_POLLWRNORM = 0x100"

text \<open>The eight assignments that translate the events of one descriptor, in their order.\<close>

definition poll_event_map :: "(u32 \<times> u32) list" where
  "poll_event_map =
     [(POLLIN, MW_POLLIN), (POLLRDNORM, MW_POLLRDNORM), (POLLHUP, MW_POLLHUP), (POLLOUT, MW_POLLOUT),
      (POLLWRNORM, MW_POLLWRNORM), (POLLERR, MW_POLLERR), (POLLPRI, MW_POLLPRI),
      (POLLNVAL, MW_POLLNVAL)]"

definition mw_poll_events :: "u32 \<Rightarrow> u32" where
  "mw_poll_events revents =
     fold (\<lambda>(native, mw) ev. if revents AND native \<noteq> 0 then ev OR mw else ev) poll_event_map 0"

section \<open>The query\<close>

text \<open>The descriptor array: the socket of every thread in use, \<open>-1\<close> for the others.\<close>

definition pollset_fds :: "'w ins_state \<Rightarrow> (int \<times> u32) list" where
  "pollset_fds s = map (\<lambda>i. (if ti_in_use (thread s i) = 0 then - 1 else ti_local_fd (thread s i),
                             POLLSET_EVENTS)) [0..<MAX_THREAD_COUNT]"

text \<open>
  The scan. The first argument counts the iterations left; \<open>acc\<close> holds the items written so
  far, so its length is \<open>item_idx\<close>. The static variable \<open>cur_pos\<close> is part of the state.
\<close>

fun pollset_scan ::
  "nat \<Rightarrow> int \<Rightarrow> u32 list \<Rightarrow> (mw_socket_fd \<times> u32) list \<Rightarrow> 'w ins_state
     \<Rightarrow> (mw_socket_fd \<times> u32) list \<times> 'w ins_state" where
  "pollset_scan 0 pollct revents acc s = (acc, s)"
| "pollset_scan (Suc n) pollct revents acc s =
     (if int (length acc) < pollct \<and> length acc < MT_POLLSET_QUERY_MAX_ITEMS then
        let cur = pollset_cur_pos s mod MAX_THREAD_COUNT;
            s = upd_thread cur (\<lambda>t. t\<lparr>ti_poll_events := 0\<rparr>) s
        in if revents ! cur = 0 then
             pollset_scan n pollct revents acc (s\<lparr>pollset_cur_pos := cur + 1\<rparr>)
           else
             let ev = mw_poll_events (revents ! cur);
                 item = (ti_public_fd (thread s cur), ev);
                 s = upd_thread cur (\<lambda>t. t\<lparr>ti_poll_events := ev\<rparr>) s
             in pollset_scan n pollct revents (acc @ [item]) (s\<lparr>pollset_cur_pos := cur + 1\<rparr>)
      else (acc, s))"

definition xe_pollset_query ::
  "'w os \<Rightarrow> mt_request_generic \<Rightarrow> mt_response_generic \<Rightarrow> 'w ins_state
     \<Rightarrow> int \<times> mt_response_generic \<times> 'w ins_state" where
  "xe_pollset_query os Request Response s =
    (let (r, s) = do_sys os (SysPoll (pollset_fds s) 0) s;
         pollct = sr_ret r
     in if pollct < 0 then (XE_GET_NEG_ERRNO_VAL (sr_errno r), Response, s)
        else
          let (qitems, s) = pollset_scan MAX_THREAD_COUNT pollct (sr_revents r) [] s;
              Response = Response\<lparr>pollset_items := qitems, pollset_count := of_nat (length qitems)\<rparr>
          in (0, xe_net_set_base_response Request
                   (MT_RESPONSE_POLLSET_QUERY_SIZE
                     + MT_RESPONSE_POLLSET_QUERY_ITEM_SIZE * length qitems) Response, s))"

section \<open>What the scan finds\<close>

text \<open>Positions in the order of the scan: \<open>n\<close> of them from \<open>p\<close>, round the array.\<close>

definition rotation :: "nat \<Rightarrow> nat \<Rightarrow> nat list" where
  "rotation p n = map (\<lambda>k. (p + k) mod MAX_THREAD_COUNT) [0..<n]"

lemma rotation_Suc: "rotation p (Suc n) = p mod MAX_THREAD_COUNT # rotation (p mod MAX_THREAD_COUNT + 1) n"
proof -
  have "[0..<Suc n] = 0 # map Suc [0..<n]" by (simp only: map_Suc_upt upt_conv_Cons zero_less_Suc)
  then have "rotation p (Suc n) = p mod MAX_THREAD_COUNT # map (\<lambda>k. (p + Suc k) mod MAX_THREAD_COUNT) [0..<n]"
    by (simp add: rotation_def comp_def)
  also have "map (\<lambda>k. (p + Suc k) mod MAX_THREAD_COUNT) [0..<n] = rotation (p mod MAX_THREAD_COUNT + 1) n"
    by (simp add: rotation_def) (metis mod_Suc_eq mod_add_left_eq)
  finally show ?thesis .
qed

lemma rotation_distinct: "distinct (rotation p MAX_THREAD_COUNT)"
  by (auto simp: rotation_def distinct_map inj_on_def dest: add_mod_inj)

lemma rotation_set: "set (rotation p MAX_THREAD_COUNT) = {..<MAX_THREAD_COUNT}"
proof (rule card_subset_eq)
  show "set (rotation p MAX_THREAD_COUNT) \<subseteq> {..<MAX_THREAD_COUNT}"
    by (auto simp: rotation_def MAX_THREAD_COUNT_def)
  show "card (set (rotation p MAX_THREAD_COUNT)) = card {..<MAX_THREAD_COUNT}"
    using distinct_card [OF rotation_distinct] by (simp add: rotation_def)
qed simp

text \<open>The ready positions among those of a rotation, and the item that reports one.\<close>

definition ready :: "u32 list \<Rightarrow> nat list \<Rightarrow> nat list" where
  "ready revents ps = filter (\<lambda>i. revents ! i \<noteq> 0) ps"

definition poll_item :: "'w ins_state \<Rightarrow> u32 list \<Rightarrow> nat \<Rightarrow> mw_socket_fd \<times> u32" where
  "poll_item s revents i = (ti_public_fd (thread s i), mw_poll_events (revents ! i))"

lemma poll_item_poll_events [simp]:
  "poll_item (upd_thread i (\<lambda>t. t\<lparr>ti_poll_events := e\<rparr>) s) revents = poll_item s revents"
  "poll_item (s\<lparr>pollset_cur_pos := p\<rparr>) revents = poll_item s revents"
  by (auto simp: poll_item_def fun_eq_iff thread_def upd_thread_def nth_list_update)
    (metis linorder_not_le list_update_beyond nth_list_update_eq nth_list_update_neq
      thread_item.select_convs(7) thread_item.surjective thread_item.update_convs(8))

lemma scan_items:
  assumes "pollct = int (length acc + length (ready revents (rotation (pollset_cur_pos s) n)))"
    and "length acc + n \<le> MT_POLLSET_QUERY_MAX_ITEMS"
  shows "fst (pollset_scan n pollct revents acc s)
           = acc @ map (poll_item s revents) (ready revents (rotation (pollset_cur_pos s) n))"
  using assms
proof (induction n arbitrary: acc s)
  case 0
  then show ?case by (simp add: rotation_def ready_def)
next
  case (Suc n)
  let ?cur = "pollset_cur_pos s mod MAX_THREAD_COUNT"
  note rot = rotation_Suc [of "pollset_cur_pos s" n]
  show ?case
  proof (cases "ready revents (rotation (pollset_cur_pos s) (Suc n)) = []")
    case True
    then show ?thesis using Suc.prems by simp
  next
    case False
    then have go: "int (length acc) < pollct" "length acc < MT_POLLSET_QUERY_MAX_ITEMS"
      using Suc.prems by simp_all
    let ?s0 = "upd_thread ?cur (\<lambda>t. t\<lparr>ti_poll_events := 0\<rparr>) s"
    have pub: "ti_public_fd (thread ?s0 ?cur) = ti_public_fd (thread s ?cur)"
      using fun_cong [OF poll_item_poll_events(1)] by (metis poll_item_def prod.inject)
    show ?thesis
    proof (cases "revents ! ?cur = 0")
      case True
      let ?s1 = "?s0\<lparr>pollset_cur_pos := ?cur + 1\<rparr>"
      have "fst (pollset_scan n pollct revents acc ?s1)
          = acc @ map (poll_item ?s1 revents) (ready revents (rotation (pollset_cur_pos ?s1) n))"
        by (rule Suc.IH) (use Suc.prems rot True in \<open>simp_all add: ready_def\<close>)
      with True go rot show ?thesis by (simp add: Let_def ready_def)
    next
      case ev: False
      let ?e = "mw_poll_events (revents ! ?cur)"
      let ?s1 = "(upd_thread ?cur (\<lambda>t. t\<lparr>ti_poll_events := ?e\<rparr>) ?s0)\<lparr>pollset_cur_pos := ?cur + 1\<rparr>"
      let ?acc = "acc @ [(ti_public_fd (thread ?s0 ?cur), ?e)]"
      have "fst (pollset_scan n pollct revents ?acc ?s1)
          = ?acc @ map (poll_item ?s1 revents) (ready revents (rotation (pollset_cur_pos ?s1) n))"
        by (rule Suc.IH) (use Suc.prems rot ev in \<open>simp_all add: ready_def\<close>)
      with ev go rot pub show ?thesis by (simp add: Let_def ready_def poll_item_def)
    qed
  qed
qed

text \<open>The scan leaves everything but the recorded events and the cursor as it was.\<close>

definition sockets_kept :: "'w ins_state \<Rightarrow> 'w ins_state \<Rightarrow> bool" where
  "sockets_kept s t \<longleftrightarrow>
     (\<exists>ts p. t = s\<lparr>worker_threads := ts, pollset_cur_pos := p\<rparr> \<and> length ts = length (worker_threads s)
        \<and> (\<forall>i. \<exists>e. ts ! i = (worker_threads s ! i)\<lparr>ti_poll_events := e\<rparr>))"

lemma sockets_kept_refl: "sockets_kept s s"
proof -
  have "\<exists>e. t = t\<lparr>ti_poll_events := e\<rparr>" for t :: thread_item
    by (intro exI [of _ "ti_poll_events t"]) simp
  then show ?thesis
    unfolding sockets_kept_def
    by (intro exI [of _ "worker_threads s"] exI [of _ "pollset_cur_pos s"]) simp
qed

lemma sockets_kept_step:
  assumes "sockets_kept s t"
  shows "sockets_kept s ((upd_thread i (\<lambda>u. u\<lparr>ti_poll_events := e\<rparr>) t)\<lparr>pollset_cur_pos := p\<rparr>)"
proof -
  obtain ts p' where t: "t = s\<lparr>worker_threads := ts, pollset_cur_pos := p'\<rparr>"
    and len: "length ts = length (worker_threads s)"
    and ev: "\<And>i. \<exists>e. ts ! i = (worker_threads s ! i)\<lparr>ti_poll_events := e\<rparr>"
    using assms by (auto simp: sockets_kept_def)
  let ?ts = "ts[i := (ts ! i)\<lparr>ti_poll_events := e\<rparr>]"
  have "\<exists>e. ?ts ! j = (worker_threads s ! j)\<lparr>ti_poll_events := e\<rparr>" for j
  proof (cases "i = j \<and> i < length ts")
    case True
    moreover obtain e' where "ts ! i = (worker_threads s ! i)\<lparr>ti_poll_events := e'\<rparr>" using ev by blast
    ultimately have "?ts ! j = (worker_threads s ! j)\<lparr>ti_poll_events := e\<rparr>" by simp
    then show ?thesis by blast
  next
    case False
    then have "?ts ! j = ts ! j" by (cases "i < length ts") (auto simp: list_update_beyond)
    then show ?thesis using ev by simp
  qed
  with t len show ?thesis
    by (auto simp: sockets_kept_def upd_thread_def intro!: exI [of _ ?ts] exI [of _ p])
qed

lemma sockets_kept_step2:
  assumes "sockets_kept s t"
  shows "sockets_kept s ((upd_thread i (\<lambda>u. u\<lparr>ti_poll_events := e\<rparr>)
     (upd_thread i (\<lambda>u. u\<lparr>ti_poll_events := d\<rparr>) t))\<lparr>pollset_cur_pos := p\<rparr>)"
proof -
  have "(upd_thread i (\<lambda>u. u\<lparr>ti_poll_events := d\<rparr>) t)\<lparr>pollset_cur_pos := pollset_cur_pos t\<rparr>
      = upd_thread i (\<lambda>u. u\<lparr>ti_poll_events := d\<rparr>) t"
    by (simp add: upd_thread_def)
  then show ?thesis using sockets_kept_step [OF sockets_kept_step [OF assms]] by metis
qed

lemma scan_keeps: "sockets_kept s t \<Longrightarrow> sockets_kept s (snd (pollset_scan n pollct revents acc t))"
proof (induction n arbitrary: acc t)
  case 0
  then show ?case by simp
next
  case (Suc n)
  show ?case
    by (simp add: Let_def Suc.prems Suc.IH sockets_kept_step sockets_kept_step2)
qed

lemma sockets_kept_thread:
  "sockets_kept s t \<Longrightarrow> \<exists>e. thread t i = (thread s i)\<lparr>ti_poll_events := e\<rparr>"
  by (auto simp: sockets_kept_def thread_def)

section \<open>Correctness of the query\<close>

text \<open>
  The documented behaviour of poll: a nonnegative result is the number of descriptors with
  events, there is one set of events per descriptor, and none for a negative descriptor.
\<close>

definition poll_contract :: "'w os \<Rightarrow> bool" where
  "poll_contract os \<longleftrightarrow>
     (\<forall>fds tmo w r w'. os (SysPoll fds tmo) w = (r, w') \<and> 0 \<le> sr_ret r \<longrightarrow>
        length (sr_revents r) = length fds
        \<and> sr_ret r = int (length (filter (\<lambda>e. e \<noteq> 0) (sr_revents r)))
        \<and> (\<forall>i < length fds. fst (fds ! i) < 0 \<longrightarrow> sr_revents r ! i = 0))"

lemma length_pollset_fds [simp]: "length (pollset_fds s) = MAX_THREAD_COUNT"
  by (simp add: pollset_fds_def)

lemma ready_count:
  assumes "length revents = MAX_THREAD_COUNT"
  shows "length (filter (\<lambda>e. e \<noteq> 0) revents) = length (ready revents (rotation p MAX_THREAD_COUNT))"
proof -
  have "length (filter (\<lambda>e. e \<noteq> 0) revents) = card {i. i < MAX_THREAD_COUNT \<and> revents ! i \<noteq> 0}"
    by (simp add: length_filter_conv_card assms)
  also have "\<dots> = card (set (ready revents (rotation p MAX_THREAD_COUNT)))"
    by (simp add: ready_def rotation_set lessThan_def)
  also have "\<dots> = length (ready revents (rotation p MAX_THREAD_COUNT))"
    by (rule distinct_card) (simp add: ready_def rotation_distinct)
  finally show ?thesis .
qed

text \<open>The ready sockets, and the size of a response that reports \<open>k\<close> of them.\<close>

lemma ready_facts:
  "distinct (ready es (rotation c MAX_THREAD_COUNT))" "set (ready es (rotation c MAX_THREAD_COUNT)) = {i. i < MAX_THREAD_COUNT \<and> es ! i \<noteq> 0}"
  "length (ready es (rotation c MAX_THREAD_COUNT)) \<le> MAX_THREAD_COUNT"
proof -
  show "length (ready es (rotation c MAX_THREAD_COUNT)) \<le> MAX_THREAD_COUNT"
    unfolding ready_def rotation_def by (rule order_trans [OF length_filter_le]) simp
qed (auto simp: ready_def rotation_distinct rotation_set)

lemma pollset_sizes:
  assumes "k \<le> MAX_THREAD_COUNT"
  shows "unat (of_nat (MT_RESPONSE_POLLSET_QUERY_SIZE + MT_RESPONSE_POLLSET_QUERY_ITEM_SIZE * k) :: u16)
      = MT_RESPONSE_POLLSET_QUERY_SIZE + MT_RESPONSE_POLLSET_QUERY_ITEM_SIZE * k"
    and "unat (of_nat k :: u32) = k"
    and "MT_RESPONSE_POLLSET_QUERY_SIZE + MT_RESPONSE_POLLSET_QUERY_ITEM_SIZE * k \<le> sizeof_mt_response_generic"
proof -
  show "unat (of_nat (MT_RESPONSE_POLLSET_QUERY_SIZE + MT_RESPONSE_POLLSET_QUERY_ITEM_SIZE * k) :: u16)
      = MT_RESPONSE_POLLSET_QUERY_SIZE + MT_RESPONSE_POLLSET_QUERY_ITEM_SIZE * k"
    using assms by (intro unat_of_nat_u16) (simp add: sizes mw_consts)
qed (use assms in \<open>simp_all add: unat_of_nat sizes mw_consts\<close>)

text \<open>
  C6. Completeness of the poll query. If poll behaves as documented and succeeds, the response
  lists the sockets that have events, each exactly once, in round-robin order from the cursor
  (the positions \<open>ps\<close> are distinct and are all positions with events), with the events
  translated; every listed socket belongs to a thread in use; the count and the size field
  describe the items and the response fits its buffer; and no state of a thread other than its
  recorded poll events is changed.
\<close>

theorem pollset_query_reports_ready:
  assumes "poll_contract os"
    and "os (SysPoll (pollset_fds s) 0) (world s) = (r, v)" and "0 \<le> sr_ret r"
  shows "\<exists>ps p' s'. xe_pollset_query os q p s = (0, p', s') \<and> answers q p'
     \<and> ps = ready (sr_revents r) (rotation (pollset_cur_pos s) MAX_THREAD_COUNT)
     \<and> distinct ps \<and> set ps = {i. i < MAX_THREAD_COUNT \<and> sr_revents r ! i \<noteq> 0}
     \<and> pollset_items p' = map (poll_item s (sr_revents r)) ps
     \<and> (\<forall>i. i \<in> set ps \<longrightarrow> ti_in_use (thread s i) \<noteq> 0)
     \<and> unat (pollset_count p') = length ps
     \<and> unat (rs_size (rs_base p')) = MT_RESPONSE_POLLSET_QUERY_SIZE
          + MT_RESPONSE_POLLSET_QUERY_ITEM_SIZE * length ps
     \<and> unat (rs_size (rs_base p')) \<le> sizeof_mt_response_generic
     \<and> (\<forall>i. \<exists>e. thread s' i = (thread s i)\<lparr>ti_poll_events := e\<rparr>)"
proof -
  let ?rev = "sr_revents r"
  let ?s1 = "s\<lparr>world := v, trace := trace s @ [(SysPoll (pollset_fds s) 0, r)]\<rparr>"
  let ?ps = "ready ?rev (rotation (pollset_cur_pos s) MAX_THREAD_COUNT)"
  have len: "length ?rev = MAX_THREAD_COUNT" and ct: "sr_ret r = int (length (filter (\<lambda>e. e \<noteq> 0) ?rev))"
    and neg: "\<And>i. i < MAX_THREAD_COUNT \<Longrightarrow> fst (pollset_fds s ! i) < 0 \<Longrightarrow> ?rev ! i = 0"
    using assms(1) [unfolded poll_contract_def, rule_format, of "pollset_fds s" 0 "world s" r v] assms(2,3)
    by simp_all
  obtain qs s' where sc: "pollset_scan MAX_THREAD_COUNT (sr_ret r) ?rev [] ?s1 = (qs, s')" by fastforce
  have item: "poll_item ?s1 ?rev = poll_item s ?rev" by (simp add: poll_item_def fun_eq_iff thread_def)
  have qs: "qs = map (poll_item s ?rev) ?ps"
    using scan_items [of "sr_ret r" "[]" ?rev ?s1 MAX_THREAD_COUNT] ct ready_count [OF len] sc item
    by (simp add: sizes mw_consts)
  note dist = ready_facts(1) [of ?rev "pollset_cur_pos s"] and set = ready_facts(2) [of ?rev "pollset_cur_pos s"]
    and size = pollset_sizes [OF ready_facts(3) [of ?rev "pollset_cur_pos s"]]
  have use: "ti_in_use (thread s i) \<noteq> 0" if "i \<in> set ?ps" for i
    using that neg [of i] by (auto simp: set pollset_fds_def)
  have kept: "\<exists>e. thread s' i = (thread s i)\<lparr>ti_poll_events := e\<rparr>" for i
    using sockets_kept_thread [OF scan_keeps [OF sockets_kept_refl, of ?s1 MAX_THREAD_COUNT "sr_ret r" ?rev "[]"]]
    by (simp add: sc thread_def)
  let ?p = "xe_net_set_base_response q
      (MT_RESPONSE_POLLSET_QUERY_SIZE + MT_RESPONSE_POLLSET_QUERY_ITEM_SIZE * length ?ps)
      (p\<lparr>pollset_items := qs, pollset_count := of_nat (length ?ps)\<rparr>)"
  have run: "xe_pollset_query os q p s = (0, ?p, s')"
    using assms(2,3) sc qs by (simp add: xe_pollset_query_def do_sys_eq Let_def)
  have resp: "pollset_items ?p = map (poll_item s ?rev) ?ps" "unat (pollset_count ?p) = length ?ps"
    "unat (rs_size (rs_base ?p))
       = MT_RESPONSE_POLLSET_QUERY_SIZE + MT_RESPONSE_POLLSET_QUERY_ITEM_SIZE * length ?ps"
    using qs size(1,2) by (simp_all add: xe_net_set_base_response_def)
  show ?thesis
    by (rule exI [of _ ?ps], rule exI [of _ ?p], rule exI [of _ s'])
      (intro conjI allI impI run answers_base refl dist set resp use kept; simp only: resp size(3))
qed

text \<open>An operating system on which every polled descriptor is writable.\<close>

fun os_writable :: "nat os" where
  "os_writable (SysPoll fds tmo) w =
     (let rev = map (\<lambda>(fd, ev). if fd < 0 then 0 else POLLOUT) fds in
      (sysres0\<lparr>sr_ret := int (length (filter (\<lambda>e. e \<noteq> 0) rev)), sr_revents := rev\<rparr>, w + 1))"
| "os_writable _ w = (sysres0, w + 1)"

lemma os_writable_poll: "poll_contract os_writable"
  by (auto simp: poll_contract_def Let_def case_prod_unfold)

definition query_example :: "nat ins_state" where
  "query_example = upd_thread 0 (\<lambda>t. t\<lparr>ti_in_use := 1, ti_local_fd := 5, ti_public_fd := 0x77\<rparr>)
     (ins_zero rs_zero sa_zero 0)"

definition query_revents :: "u32 list" where
  "query_revents = map (\<lambda>(fd, ev). if fd < 0 then 0 else POLLOUT) (pollset_fds query_example)"

theorem pollset_query_reports_ready_witness:
  "\<exists>ps p' s'. xe_pollset_query os_writable rq_zero rs_zero query_example = (0, p', s')
     \<and> answers rq_zero p'
     \<and> ps = ready query_revents (rotation (pollset_cur_pos query_example) MAX_THREAD_COUNT)
     \<and> distinct ps \<and> set ps = {i. i < MAX_THREAD_COUNT \<and> query_revents ! i \<noteq> 0}
     \<and> pollset_items p' = map (poll_item query_example query_revents) ps
     \<and> (\<forall>i. i \<in> set ps \<longrightarrow> ti_in_use (thread query_example i) \<noteq> 0)
     \<and> unat (pollset_count p') = length ps
     \<and> unat (rs_size (rs_base p')) = MT_RESPONSE_POLLSET_QUERY_SIZE
          + MT_RESPONSE_POLLSET_QUERY_ITEM_SIZE * length ps
     \<and> unat (rs_size (rs_base p')) \<le> sizeof_mt_response_generic
     \<and> (\<forall>i. \<exists>e. thread s' i = (thread query_example i)\<lparr>ti_poll_events := e\<rparr>)"
  using pollset_query_reports_ready [OF os_writable_poll, of query_example _ _ rq_zero rs_zero, OF prod.collapse [symmetric]]
  by (simp add: Let_def query_revents_def)

end
