(* ===== verification/Pools.thy ===== *)
theory Pools
  imports Pollset
begin

text \<open>
  The two pools of the INS, buffer items and worker threads (apps/ins-app/xenevent.c). Both are
  arrays whose entries are claimed by a compare-and-swap of their \<open>in_use\<close> word. The locale
  \<open>slot_pool\<close> states what the dispatcher relies on: reserving and releasing act on the set
  of used slots as on an abstract set with a capacity. Both pools are interpretations.

  The lookup of the thread of a public descriptor, the other half of
  \<open>get_worker_thread_for_fd\<close>, is treated at the end.
\<close>

section \<open>Releasing a worker thread\<close>

text \<open>
  \<open>release_worker_thread\<close>. Its test that the work queue is empty only guards an assert.
\<close>

definition release_worker_thread :: "'w os \<Rightarrow> nat \<Rightarrow> 'w ins_state \<Rightarrow> 'w ins_state" where
  "release_worker_thread os ThreadItem s =
    (let (_, s) = xe_net_internal_close_socket os ThreadItem s;
         s = upd_thread ThreadItem (\<lambda>t. t\<lparr>ti_poll_events := 0, ti_state_flags := 0, ti_sock_domain := 0,
               ti_sock_type := 0, ti_sock_protocol := 0, ti_bound_port_num := 0,
               ti_remote_host := replicate MESSAGE_TYPE_MAX_PAYLOAD_LEN 0\<rparr>) s
     in upd_thread ThreadItem (\<lambda>t. t\<lparr>ti_in_use := snd (atomic_cas_32 (ti_in_use t) 1 0)\<rparr>) s)"

section \<open>The abstract pool\<close>

datatype pool_op = Reserve | Release nat

text \<open>The specification: a set of used slots; the free slot with the lowest number is taken.\<close>

definition set_reserve :: "nat \<Rightarrow> nat set \<Rightarrow> nat option \<times> nat set" where
  "set_reserve cap U =
     (case List.find (\<lambda>i. i \<notin> U) [0..<cap] of None \<Rightarrow> (None, U) | Some i \<Rightarrow> (Some i, insert i U))"

definition set_release :: "nat \<Rightarrow> nat set \<Rightarrow> nat set" where
  "set_release i U = U - {i}"

fun pool_run ::
  "('s \<Rightarrow> nat option \<times> 's) \<Rightarrow> (nat \<Rightarrow> 's \<Rightarrow> 's) \<Rightarrow> 's \<Rightarrow> pool_op list \<Rightarrow> nat option list \<times> 's" where
  "pool_run res rel s [] = ([], s)"
| "pool_run res rel s (Reserve # ops) =
     (let (r, s1) = res s; (rs, s2) = pool_run res rel s1 ops in (r # rs, s2))"
| "pool_run res rel s (Release i # ops) = pool_run res rel (rel i s) ops"

locale slot_pool =
  fixes reserve :: "'s \<Rightarrow> nat option \<times> 's"
    and release :: "nat \<Rightarrow> 's \<Rightarrow> 's"
    and used :: "'s \<Rightarrow> nat set"
    and invar :: "'s \<Rightarrow> bool"
    and cap :: nat
  assumes reserve_spec: "invar s \<Longrightarrow> map_prod id used (reserve s) = set_reserve cap (used s)"
    and release_spec: "invar s \<Longrightarrow> used (release i s) = set_release i (used s)"
    and reserve_invar: "invar s \<Longrightarrow> invar (snd (reserve s))"
    and release_invar: "invar s \<Longrightarrow> invar (release i s)"
begin

lemma run_refines:
  "invar s \<Longrightarrow>
     map_prod id used (pool_run reserve release s ops) = pool_run (set_reserve cap) set_release (used s) ops
     \<and> invar (snd (pool_run reserve release s ops))"
proof (induction ops arbitrary: s)
  case Nil
  then show ?case by simp
next
  case (Cons opn ops)
  show ?case
  proof (cases opn)
    case Reserve
    obtain r s1 where e: "reserve s = (r, s1)" by fastforce
    have "set_reserve cap (used s) = (r, used s1)" using reserve_spec [OF Cons.prems] e by simp
    moreover have "invar s1" using reserve_invar [OF Cons.prems] e by simp
    ultimately show ?thesis using Cons.IH [of s1] e Reserve
      by (auto simp: case_prod_unfold Let_def prod_eq_iff)
  next
    case (Release i)
    then show ?thesis
      using Cons.IH [OF release_invar [OF Cons.prems]] release_spec [OF Cons.prems] by simp
  qed
qed

lemma reserve_free:
  assumes "invar s" and "reserve s = (Some i, t)"
  shows "i < cap" "i \<notin> used s" "used t = insert i (used s)" "invar t"
  using reserve_spec [OF assms(1)] assms reserve_invar [OF assms(1)]
  by (auto simp: set_reserve_def find_Some_iff split: option.splits)

lemma reserve_full:
  assumes "invar s" and "reserve s = (None, t)"
  shows "{..<cap} \<subseteq> used s" "used t = used s" "invar t"
  using reserve_spec [OF assms(1)] assms reserve_invar [OF assms(1)]
  by (auto simp: set_reserve_def find_None_iff split: option.splits)

lemma reserve_after_release:
  assumes "invar s" and "i < cap"
  shows "fst (reserve (release i s)) \<noteq> None"
  using reserve_full(1) [OF release_invar [OF assms(1)], of i] release_spec [OF assms(1), of i] assms(2)
  by (cases "reserve (release i s)") (auto simp: set_release_def)

end

section \<open>Scans and sets\<close>

text \<open>The scan for a free entry of an array finds the lowest index outside the used set.\<close>

lemma first_idx_find:
  "first_idx P xs = List.find (\<lambda>i. P (xs ! i)) [0..<length xs]"
proof (cases "first_idx P xs")
  case None
  then have "List.find (\<lambda>i. P (xs ! i)) [0..<length xs] = None"
    by (simp add: first_idx_None find_None_iff all_set_conv_all_nth)
  with None show ?thesis by simp
next
  case (Some i)
  note i = first_idx_SomeD [OF Some]
  have "List.find (\<lambda>i. P (xs ! i)) [0..<length xs] = Some i"
    unfolding find_Some_iff using i by (intro exI [of _ i]) auto
  with Some show ?thesis by simp
qed

lemma first_idx_used:
  "length xs = n \<Longrightarrow> (\<And>i. i < n \<Longrightarrow> P (xs ! i) \<longleftrightarrow> i \<notin> U) \<Longrightarrow>
     first_idx P xs = List.find (\<lambda>i. i \<notin> U) [0..<n]"
  unfolding first_idx_find by (rule find_cong) simp_all

lemma find_free: "List.find (\<lambda>i. i \<notin> U) [0..<n] = Some j \<Longrightarrow> j < n \<and> j \<notin> U"
  by (auto simp: find_Some_iff)

section \<open>The pool of buffers\<close>

definition buffers_used :: "'w ins_state \<Rightarrow> nat set" where
  "buffers_used s = {i. i < length (buffer_items s) \<and> bi_in_use (buffer s i) \<noteq> 0}"

definition buffers_inv :: "'w ins_state \<Rightarrow> bool" where
  "buffers_inv s \<longleftrightarrow> length (buffer_items s) = BUFFER_ITEM_COUNT
     \<and> (\<forall>i < BUFFER_ITEM_COUNT. bi_in_use (buffer s i) \<in> {0, 1})"

lemma upd_buffer_comp: "upd_buffer i g (upd_buffer i f s) = upd_buffer i (\<lambda>b. g (f b)) s"
  by (cases "i < length (buffer_items s)") (simp_all add: upd_buffer_def list_update_beyond)

lemma bi_in_use_same: "bi_in_use b = x \<Longrightarrow> b\<lparr>bi_in_use := x\<rparr> = b"
  by (erule subst) simp

text \<open>A release as one update: a free buffer stays as it is, a used one is freed and unassigned.\<close>

definition free_buffer :: "buffer_item \<Rightarrow> buffer_item" where
  "free_buffer b = (if bi_in_use b = 0 then b
     else b\<lparr>bi_in_use := (if bi_in_use b = 1 then 0 else bi_in_use b), bi_assigned_thread := None\<rparr>)"

lemma release_buffer_item_eq: "release_buffer_item i s = upd_buffer i free_buffer s"
proof (cases "i < length (buffer_items s)")
  case True
  then show ?thesis
    by (simp add: release_buffer_item_def atomic_cas_32_def Let_def upd_buffer_comp free_buffer_def
        upd_buffer_def buffer_def bi_in_use_same)
next
  case False
  then show ?thesis
    by (simp add: release_buffer_item_def atomic_cas_32_def Let_def upd_buffer_def list_update_beyond)
qed

lemma buffer_release:
  "length (buffer_items (release_buffer_item i s)) = length (buffer_items s)"
  "j < length (buffer_items s) \<Longrightarrow>
     bi_in_use (buffer (release_buffer_item i s) j) =
       (if j = i \<and> bi_in_use (buffer s j) = 1 then 0 else bi_in_use (buffer s j))"
  "j \<noteq> i \<Longrightarrow> buffer (release_buffer_item i s) j = buffer s j"
proof -
  show "length (buffer_items (release_buffer_item i s)) = length (buffer_items s)"
    by (simp add: release_buffer_item_eq)
  show "buffer (release_buffer_item i s) j = buffer s j" if "j \<noteq> i"
    using that by (simp add: release_buffer_item_eq upd_buffer_def buffer_def)
  then show "bi_in_use (buffer (release_buffer_item i s) j) =
       (if j = i \<and> bi_in_use (buffer s j) = 1 then 0 else bi_in_use (buffer s j))"
    if "j < length (buffer_items s)"
    using that by (cases "j = i") (simp_all add: release_buffer_item_eq buffer_upd_buffer free_buffer_def)
qed

definition reserve_buffer :: "'w ins_state \<Rightarrow> nat option \<times> 'w ins_state" where
  "reserve_buffer s = snd (reserve_available_buffer_item s)"

interpretation bp: slot_pool reserve_buffer release_buffer_item buffers_used buffers_inv BUFFER_ITEM_COUNT
proof
  fix s :: "'a ins_state" and i
  assume inv: "buffers_inv s"
  have f: "first_idx (\<lambda>b. bi_in_use b = 0) (buffer_items s)
      = List.find (\<lambda>i. i \<notin> buffers_used s) [0..<BUFFER_ITEM_COUNT]"
    using inv by (intro first_idx_used) (simp_all add: buffers_inv_def buffers_used_def buffer_def)
  let ?cas = "\<lambda>b. b\<lparr>bi_in_use := snd (atomic_cas_32 (bi_in_use b) 0 1)\<rparr>"
  have upd: "buffers_used (upd_buffer j ?cas s) = insert j (buffers_used s)" if "j < BUFFER_ITEM_COUNT" "j \<notin> buffers_used s" for j
    using that inv by (auto simp: buffers_used_def buffers_inv_def buffer_upd_buffer atomic_cas_32_def)
  have run: "reserve_buffer s = (case List.find (\<lambda>i. i \<notin> buffers_used s) [0..<BUFFER_ITEM_COUNT] of
      None \<Rightarrow> (None, s) | Some j \<Rightarrow> (Some j, upd_buffer j ?cas s))"
    using f by (simp add: reserve_buffer_def reserve_available_buffer_item_def atomic_cas_32_def split: option.splits)
  show "map_prod id buffers_used (reserve_buffer s) = set_reserve BUFFER_ITEM_COUNT (buffers_used s)"
  proof (cases "List.find (\<lambda>i. i \<notin> buffers_used s) [0..<BUFFER_ITEM_COUNT]")
    case None
    then show ?thesis by (simp add: run set_reserve_def)
  next
    case (Some j)
    with find_free [OF Some] show ?thesis by (simp add: run upd set_reserve_def)
  qed
  show "buffers_inv (snd (reserve_buffer s))"
    using inv find_free [of "buffers_used s" "BUFFER_ITEM_COUNT"] unfolding run
    by (auto simp: buffers_inv_def buffer_upd_buffer atomic_cas_32_def split: option.split)
  show "buffers_inv (release_buffer_item i s)"
    using inv by (auto simp: buffers_inv_def buffer_release)
  show "buffers_used (release_buffer_item i s) = set_release i (buffers_used s)"
    using inv by (auto simp: buffers_inv_def buffers_used_def buffer_release set_release_def split: if_splits)
qed

text \<open>
  C10. Refinement of the buffer pool. Any sequence of reservations and releases returns what the
  abstract pool of 100 slots returns (the free slot with the lowest number, or a failure exactly
  when all slots are used) and leaves the same set of used slots; so a buffer is never given out
  twice without a release between.
\<close>

theorem buffer_pool_refines:
  assumes "buffers_inv s"
  shows "map_prod id buffers_used (pool_run reserve_buffer release_buffer_item s ops)
      = pool_run (set_reserve BUFFER_ITEM_COUNT) set_release (buffers_used s) ops"
  using bp.run_refines [OF assms] by simp

lemma ins_zero_buffers: "buffers_inv (ins_zero stk sa w)" "buffers_used (ins_zero stk sa w) = {}"
  by (simp_all add: buffers_inv_def buffers_used_def ins_zero_def buffer_def buffer_zero_def)

lemma set_reserve_first: "0 < cap \<Longrightarrow> 0 \<notin> U \<Longrightarrow> set_reserve cap U = (Some 0, insert 0 U)"
  by (simp add: set_reserve_def upt_conv_Cons)

lemma set_reserve_second: "1 < cap \<Longrightarrow> 0 \<in> U \<Longrightarrow> 1 \<notin> U \<Longrightarrow> set_reserve cap U = (Some 1, insert 1 U)"
  by (simp add: set_reserve_def upt_conv_Cons)

theorem buffer_pool_refines_witness:
  "map_prod id buffers_used (pool_run reserve_buffer release_buffer_item (ins_zero rs_zero sa_zero ())
       [Reserve, Reserve, Release 0, Reserve])
     = ([Some 0, Some 1, Some 0], {0, 1})"
  using buffer_pool_refines [OF ins_zero_buffers(1), of rs_zero sa_zero "()"
      "[Reserve, Reserve, Release 0, Reserve]"]
  by (simp add: ins_zero_buffers set_reserve_first set_reserve_second set_release_def mw_consts
      del: pool_run.simps(2)) (auto simp: set_reserve_first set_reserve_second set_release_def mw_consts)

section \<open>The pool of worker threads\<close>

definition threads_used :: "'w ins_state \<Rightarrow> nat set" where
  "threads_used s = {i. i < length (worker_threads s) \<and> ti_in_use (thread s i) \<noteq> 0}"

definition threads_inv :: "'w ins_state \<Rightarrow> bool" where
  "threads_inv s \<longleftrightarrow> length (worker_threads s) = MAX_THREAD_COUNT
     \<and> (\<forall>i < MAX_THREAD_COUNT. ti_in_use (thread s i) \<in> {0, 1})"

text \<open>Acquiring an unused thread: the lookup of the invalid descriptor.\<close>

definition acquire_thread :: "'w ins_state \<Rightarrow> nat option \<times> 'w ins_state" where
  "acquire_thread s = (case get_worker_thread_for_fd MT_INVALID_SOCKET_FD s of
     None \<Rightarrow> (None, s) | Some (rc, t, s') \<Rightarrow> (t, s'))"

lemma get_invalid:
  "get_worker_thread_for_fd MT_INVALID_SOCKET_FD s =
     Some (if fst (acquire_thread s) = None then EBUSY else 0, acquire_thread s)"
  by (simp add: get_worker_thread_for_fd_def acquire_thread_def split: option.splits)

lemma internal_close_thread:
  assumes "xe_net_internal_close_socket os i s = (rc, t)"
  shows "length (worker_threads t) = length (worker_threads s)" "ctl (thread t j) = ctl (thread s j)"
    "buffer_items t = buffer_items s" "j \<noteq> i \<Longrightarrow> thread t j = thread s j"
  using internal_close_keeps [OF keeps_refl, of i s os] assms by (simp_all add: keeps_defs)

lemma release_worker_thread_thread:
  assumes t_def: "t = release_worker_thread os i s"
  shows "length (worker_threads t) = length (worker_threads s)"
    and "buffer_items t = buffer_items s"
    and "j \<noteq> i \<Longrightarrow> thread t j = thread s j"
    and "i < length (worker_threads s) \<Longrightarrow>
           ti_in_use (thread t i) = snd (atomic_cas_32 (ti_in_use (thread s i)) 1 0)"
proof -
  obtain rc u where c: "xe_net_internal_close_socket os i s = (rc, u)" by fastforce
  note u = internal_close_thread [OF c]
  show "length (worker_threads t) = length (worker_threads s)" "buffer_items t = buffer_items s"
    using c u by (simp_all add: t_def release_worker_thread_def Let_def)
  show "thread t j = thread s j" if "j \<noteq> i"
  proof (cases "i < length (worker_threads s)")
    case True
    then show ?thesis using c u that
      by (simp add: t_def release_worker_thread_def Let_def thread_upd_thread)
  next
    case False
    then show ?thesis using c u that
      by (simp add: t_def release_worker_thread_def Let_def upd_thread_def list_update_beyond thread_def)
  qed
  show "ti_in_use (thread t i) = snd (atomic_cas_32 (ti_in_use (thread s i)) 1 0)"
    if "i < length (worker_threads s)"
    using c u(1) u(2) [of i] that
    by (simp add: t_def release_worker_thread_def Let_def thread_upd_thread ctl_def)
qed

interpretation tp: slot_pool acquire_thread "release_worker_thread os" threads_used threads_inv MAX_THREAD_COUNT
proof
  fix s :: "'a ins_state" and i
  assume inv: "threads_inv s"
  have f: "first_idx (\<lambda>t. ti_in_use t = 0) (worker_threads s)
      = List.find (\<lambda>i. i \<notin> threads_used s) [0..<MAX_THREAD_COUNT]"
    using inv by (intro first_idx_used) (simp_all add: threads_inv_def threads_used_def thread_def)
  let ?cas = "\<lambda>t. t\<lparr>ti_in_use := snd (atomic_cas_32 (ti_in_use t) 0 1)\<rparr>"
  have upd: "threads_used (upd_thread j ?cas s) = insert j (threads_used s)" if "j < MAX_THREAD_COUNT" "j \<notin> threads_used s" for j
    using that inv by (auto simp: threads_used_def threads_inv_def thread_upd_thread atomic_cas_32_def)
  have run: "acquire_thread s = (case List.find (\<lambda>i. i \<notin> threads_used s) [0..<MAX_THREAD_COUNT] of
      None \<Rightarrow> (None, s) | Some j \<Rightarrow> (Some j, upd_thread j ?cas s))"
    using f by (simp add: acquire_thread_def get_worker_thread_for_fd_def atomic_cas_32_def split: option.splits)
  show "map_prod id threads_used (acquire_thread s) = set_reserve MAX_THREAD_COUNT (threads_used s)"
  proof (cases "List.find (\<lambda>i. i \<notin> threads_used s) [0..<MAX_THREAD_COUNT]")
    case None
    then show ?thesis by (simp add: run set_reserve_def)
  next
    case (Some j)
    with find_free [OF Some] show ?thesis by (simp add: run upd set_reserve_def)
  qed
  show "threads_inv (snd (acquire_thread s))"
    using inv find_free [of "threads_used s" "MAX_THREAD_COUNT"] unfolding run
    by (auto simp: threads_inv_def thread_upd_thread atomic_cas_32_def split: option.split)
  note rel = release_worker_thread_thread [OF refl, where os = os and i = i and s = s]
  show "threads_inv (release_worker_thread os i s)"
    unfolding threads_inv_def
  proof (intro conjI allI impI)
    show "length (worker_threads (release_worker_thread os i s)) = MAX_THREAD_COUNT"
      using inv rel(1) by (simp add: threads_inv_def)
    fix j assume j: "j < MAX_THREAD_COUNT"
    show "ti_in_use (thread (release_worker_thread os i s) j) \<in> {0, 1}"
      using inv j rel(3) [of j] rel(4) by (cases "j = i") (auto simp: threads_inv_def atomic_cas_32_def)
  qed
  show "threads_used (release_worker_thread os i s) = set_release i (threads_used s)"
  proof (rule set_eqI)
    fix j show "j \<in> threads_used (release_worker_thread os i s) \<longleftrightarrow> j \<in> set_release i (threads_used s)"
      using inv rel(1) rel(3) [of j] rel(4)
      by (cases "j = i") (auto simp: threads_inv_def threads_used_def set_release_def atomic_cas_32_def)
  qed
qed

text \<open>
  C9. Refinement of the thread pool. Acquiring a thread for a new socket and releasing it after
  a close or a failed create act on the set of threads in use as on the abstract pool of 50
  slots, whatever the operating system answers to the close of the socket.
\<close>

theorem thread_pool_refines:
  assumes "threads_inv s"
  shows "map_prod id threads_used (pool_run acquire_thread (release_worker_thread os) s ops)
      = pool_run (set_reserve MAX_THREAD_COUNT) set_release (threads_used s) ops"
  using tp.run_refines [OF assms] by simp

lemma ins_zero_threads: "threads_inv (ins_zero stk sa w)" "threads_used (ins_zero stk sa w) = {}"
  by (simp_all add: threads_inv_def threads_used_def ins_zero_def thread_def thread_zero_def)

theorem thread_pool_refines_witness:
  "map_prod id threads_used (pool_run acquire_thread (release_worker_thread os_peer_closed)
       (ins_zero rs_zero sa_zero 0) [Reserve, Reserve, Release 0, Reserve])
     = ([Some 0, Some 1, Some 0], {0, 1})"
  using thread_pool_refines [OF ins_zero_threads(1), of os_peer_closed rs_zero sa_zero 0
      "[Reserve, Reserve, Release 0, Reserve]"]
  by (simp add: ins_zero_threads set_reserve_first set_reserve_second set_release_def mw_consts
      del: pool_run.simps(2)) (auto simp: set_reserve_first set_reserve_second set_release_def mw_consts)

section \<open>Finding the thread of a descriptor\<close>

lemma create_idx:
  assumes "i < 2 ^ 31"
  shows "sint (ucast (MW_SOCKET_GET_ID (MW_SOCKET_CREATE c (int i))) :: u32) = int i"
proof -
  have "(ucast (MW_SOCKET_GET_ID (MW_SOCKET_CREATE c (int i))) :: u32) = ucast (MW_SOCKET_CREATE c (int i))"
    unfolding MW_SOCKET_GET_ID_def local_mask_eq
    by (rule bit_word_eqI) (auto simp: bit_ucast_iff bit_and_iff bit_mask_iff)
  moreover have "int i < 2 ^ 31" using assms by (metis of_nat_less_numeral_power_cancel_iff)
  ultimately show ?thesis using create_low32 [of "int i" c] by simp
qed

lemma lookup_create:
  assumes "i < 2 ^ 31"
  shows "get_worker_thread_for_fd (MW_SOCKET_CREATE c (int i)) s =
     Some (if i < MAX_THREAD_COUNT \<and> ti_in_use (thread s i) \<noteq> 0
              \<and> ti_public_fd (thread s i) = MW_SOCKET_CREATE c (int i)
           then (0, Some i, s) else (EINVAL, None, s))"
  using create_idx [OF assms, of c] create_not_invalid [of c "int i"]
  by (auto simp: get_worker_thread_for_fd_def Let_def mw_consts)

lemma lookup_sound:
  assumes "get_worker_thread_for_fd Fd s = Some (rc, Some w, s')" and "Fd \<noteq> MT_INVALID_SOCKET_FD"
  shows "rc = 0 \<and> s' = s \<and> w < MAX_THREAD_COUNT \<and> ti_in_use (thread s w) \<noteq> 0
     \<and> ti_public_fd (thread s w) = Fd"
  using assms by (auto simp: get_worker_thread_for_fd_def Let_def split: if_splits)

text \<open>
  C8. Lookup of a descriptor. The encoded descriptor of thread \<open>i\<close> finds thread \<open>i\<close>
  exactly when that thread is in use for that descriptor and is refused with EINVAL otherwise
  (a closed or foreign socket, or an index outside the pool); and whatever descriptor is looked
  up, a thread that is returned is in use and owns it.
\<close>

theorem thread_lookup_exact:
  assumes "i < 2 ^ 31"
  shows "get_worker_thread_for_fd (MW_SOCKET_CREATE c (int i)) s =
       Some (if i < MAX_THREAD_COUNT \<and> ti_in_use (thread s i) \<noteq> 0
                \<and> ti_public_fd (thread s i) = MW_SOCKET_CREATE c (int i)
             then (0, Some i, s) else (EINVAL, None, s))
     \<and> (\<forall>Fd rc w s'. get_worker_thread_for_fd Fd s = Some (rc, Some w, s') \<and> Fd \<noteq> MT_INVALID_SOCKET_FD
          \<longrightarrow> rc = 0 \<and> s' = s \<and> w < MAX_THREAD_COUNT \<and> ti_in_use (thread s w) \<noteq> 0
              \<and> ti_public_fd (thread s w) = Fd)"
  using lookup_create [OF assms] lookup_sound by blast

definition lookup_example :: "unit ins_state" where
  "lookup_example = upd_thread 7 (\<lambda>t. t\<lparr>ti_in_use := 1, ti_public_fd := MW_SOCKET_CREATE 3 7\<rparr>)
     (ins_zero rs_zero sa_zero ())"

theorem thread_lookup_exact_witness:
  "get_worker_thread_for_fd (MW_SOCKET_CREATE 3 7) lookup_example = Some (0, Some 7, lookup_example)"
proof -
  have "7 < length (worker_threads (ins_zero rs_zero sa_zero ()))" by (simp add: ins_zero_def mw_consts)
  from thread_upd_thread [OF this] have "ti_in_use (thread lookup_example 7) = 1"
    "ti_public_fd (thread lookup_example 7) = MW_SOCKET_CREATE 3 7"
    by (simp_all add: lookup_example_def)
  then show ?thesis using thread_lookup_exact [of 7 3 lookup_example] by (simp add: mw_consts)
qed

end
