(* ===== verification/Dispatcher.thy ===== *)
theory Dispatcher
  imports Pools
begin

text \<open>
  The dispatcher and the worker threads of the INS (apps/ins-app/xenevent.c): responses for
  internal errors, the publication of listening ports, the processing of one request
  (\<open>process_buffer_item\<close>), the assignment of a request to a thread, the loops of the
  dispatcher and of a worker, start-up and shutdown.

  A result None stands for a call that does not return: a handler whose loop does not end, a
  semaphore that blocks, or a null pointer that would be dereferenced.
\<close>

section \<open>Classes of requests\<close>

definition REQUEST_REQUIRES_OPLOCK :: "mt_request_generic \<Rightarrow> bool" where
  "REQUEST_REQUIRES_OPLOCK req \<longleftrightarrow>
     rq_type (rq_base req) \<in> mt_request_code ` {MtRequestSocketSend, MtRequestSocketShutdown, MtRequestSocketClose}"

section \<open>Responses for internal errors\<close>

definition set_response_to_internal_error ::
  "mt_request_generic \<Rightarrow> mt_response_generic \<Rightarrow> mt_response_generic" where
  "set_response_to_internal_error Request Response =
     Response\<lparr>rs_base := (rs_base Response)\<lparr>
        rs_sig := MT_SIGNATURE_RESPONSE,
        rs_type := MT_RESPONSE (rq_type (rq_base Request)),
        rs_size := of_nat MT_RESPONSE_BASE_SIZE,
        rs_id := rq_id (rq_base Request),
        rs_sockfd := rq_sockfd (rq_base Request),
        rs_status := MT_STATUS_INTERNAL_ERROR\<rparr>\<rparr>"

definition set_type_invalid :: "mt_response_generic \<Rightarrow> mt_response_generic" where
  "set_type_invalid resp = resp\<lparr>rs_base := (rs_base resp)\<lparr>rs_type := mt_response_code MtRequestInvalid\<rparr>\<rparr>"

definition send_dispatch_error_response ::
  "'w os \<Rightarrow> mt_request_generic \<Rightarrow> 'w ins_state \<Rightarrow> int \<times> 'w ins_state" where
  "send_dispatch_error_response os Request s =
    (let response = set_response_to_internal_error Request rs_zero;
         size = unat (rs_size (rs_base response));
         (r, s) = do_sys os (SysWrite (output_fd s) response size) s
     in (if sr_ret r \<noteq> int size then sr_errno r else 0, s))"

section \<open>Listening ports\<close>

text \<open>\<^verbatim>\<open>char port[6]; snprintf( port, sizeof(port), "%x ", curr->bound_port_num );\<close>\<close>

definition port_string :: "u16 \<Rightarrow> string" where
  "port_string p = take 5 (fmt_x (unat p) @ '' '')"

text \<open>The loop over the threads; None is the exit with EOVERFLOW.\<close>

fun listening_ports_loop :: "thread_item list \<Rightarrow> string \<Rightarrow> string option" where
  "listening_ports_loop [] acc = Some acc"
| "listening_ports_loop (t # ts) acc =
     (if ti_in_use t = 0 \<or> ti_bound_port_num t = 0 then listening_ports_loop ts acc
      else
        let port = port_string (ti_bound_port_num t) in
        if length acc > INS_LISTENING_PORTS_MAX_LEN - length port - 1 then None
        else listening_ports_loop ts
               (acc @ take (INS_LISTENING_PORTS_MAX_LEN - length acc - 1) port))"

definition update_listening_ports :: "'w os \<Rightarrow> 'w ins_state \<Rightarrow> int \<times> 'w ins_state" where
  "update_listening_ports os s =
    (if \<not> pending_port_change s then (0, s)
     else
       let s = s\<lparr>pending_port_change := False\<rparr> in
       case listening_ports_loop (worker_threads s) [] of
         None \<Rightarrow> (- EOVERFLOW, s)
       | Some listening_ports \<Rightarrow>
           let (r, s) = do_sys os (SysIoctlListeners (input_fd s) listening_ports) s
           in (sr_ret r, s))"

section \<open>Processing one request\<close>

text \<open>
  \<open>post_process_response\<close>: \<open>status\<close> is a 32-bit integer, so the new socket's
  descriptor is narrowed when it is stored there.
\<close>

definition post_process_response ::
  "'w os \<Rightarrow> mt_request_generic \<Rightarrow> mt_response_generic \<Rightarrow> nat option \<Rightarrow> 'w ins_state
     \<Rightarrow> (int \<times> mt_response_generic \<times> 'w ins_state) option" where
  "post_process_response os Request Response Worker s =
    (let flags = rs_flags (rs_base Response) OR rq_flags (rq_base Request);
         flags = (case Worker of None \<Rightarrow> flags | Some w \<Rightarrow> flags OR ti_state_flags (thread s w));
         Response = Response\<lparr>rs_base := (rs_base Response)\<lparr>rs_flags := flags\<rparr>\<rparr>;
         status = rs_status (rs_base Response);
         accepted =
           (if rq_type (rq_base Request) = mt_request_code MtRequestSocketAccept \<and> status \<ge> 0 then
              (case get_worker_thread_for_fd MT_INVALID_SOCKET_FD s of
                 Some (rc, Some t, s) \<Rightarrow>
                   let fd = MW_SOCKET_CREATE (client_id s) (int (ti_idx (thread s t)));
                       s = upd_thread t (\<lambda>t. t\<lparr>ti_public_fd := fd, ti_local_fd := status\<rparr>) s
                   in Some (set_sockfd fd (set_status (sint (ucast fd :: u32)) Response), s)
               | Some (rc, None, s) \<Rightarrow>
                   Some (set_status MT_STATUS_INTERNAL_ERROR Response,
                         snd (do_sys os (SysClose status) s))
               | None \<Rightarrow> None)
            else Some (Response, s))
     in case accepted of
          None \<Rightarrow> None
        | Some (Response, s) \<Rightarrow>
            let (rc, s) = update_listening_ports os s in Some (rc, Response, s))"

text \<open>The switch of \<open>process_buffer_item\<close>: a handler gets the assigned worker.\<close>

definition handle_request ::
  "'w os \<Rightarrow> mt_request_generic \<Rightarrow> mt_response_generic \<Rightarrow> nat option \<Rightarrow> 'w ins_state
     \<Rightarrow> (int \<times> mt_response_generic \<times> 'w ins_state) option" where
  "handle_request os q p worker s =
    (case mt_request_of (rq_type (rq_base q)) of
       None \<Rightarrow> Some (0, set_type_invalid (set_response_to_internal_error q p), s)
     | Some MtRequestInvalid \<Rightarrow> Some (0, set_type_invalid (set_response_to_internal_error q p), s)
     | Some MtRequestPollsetQuery \<Rightarrow> Some (xe_pollset_query os q p s)
     | Some ty \<Rightarrow>
         (case worker of
            None \<Rightarrow> None
          | Some w \<Rightarrow>
             (case ty of
                MtRequestSocketCreate \<Rightarrow> xe_net_create_socket os q p w s
              | MtRequestSocketShutdown \<Rightarrow> Some (xe_net_shutdown_socket os q p w s)
              | MtRequestSocketClose \<Rightarrow> Some (xe_net_close_socket os q p w s)
              | MtRequestSocketConnect \<Rightarrow> Some (xe_net_connect_socket os q p w s)
              | MtRequestSocketSend \<Rightarrow> xe_net_send_socket os q p w s
              | MtRequestSocketBind \<Rightarrow> Some (xe_net_bind_socket os q p w s)
              | MtRequestSocketListen \<Rightarrow> Some (xe_net_listen_socket os q p w s)
              | MtRequestSocketAccept \<Rightarrow> Some (xe_net_accept_socket os q p w s)
              | MtRequestSocketRecv \<Rightarrow> xe_net_recv_socket os q p w s
              | MtRequestSocketRecvFrom \<Rightarrow> xe_net_recvfrom_socket os q p w s
              | MtRequestSocketAttrib \<Rightarrow> Some (xe_net_sock_attrib os q p w s)
              | MtRequestAddrBlock \<Rightarrow> Some (xe_net_addr_block os q p w s)
              | _ \<Rightarrow> Some (xe_net_get_name os q p w s))))"

text \<open>
  \<open>process_buffer_item\<close>. The response is a local variable of which only the header is
  cleared. The request is read from the buffer's region once: nothing writes the region while
  the buffer is in use.
\<close>

definition release_oplock :: "nat \<Rightarrow> 'w ins_state \<Rightarrow> 'w ins_state" where
  "release_oplock w s =
     (if ti_oplock_acquired (thread s w)
      then upd_thread w (\<lambda>t. t\<lparr>ti_oplock_acquired := False, ti_oplock := ti_oplock t + 1\<rparr>) s
      else s)"

definition process_buffer_item :: "'w os \<Rightarrow> nat \<Rightarrow> 'w ins_state \<Rightarrow> (int \<times> 'w ins_state) option" where
  "process_buffer_item os BufferItem s =
    (let request = bi_request (buffer s BufferItem);
         worker = bi_assigned_thread (buffer s BufferItem);
         reqtype = rq_type (rq_base request);
         response = (stack s)\<lparr>rs_base := rs_base_zero\<rparr>
     in case handle_request os request response worker s of
       None \<Rightarrow> None
     | Some (rc, response, s) \<Rightarrow>
        let s = (case worker of None \<Rightarrow> s | Some w \<Rightarrow> release_oplock w s) in
        case post_process_response os request response worker s of
          None \<Rightarrow> None
        | Some (_, response, s) \<Rightarrow>
           let size = unat (rs_size (rs_base response));
               (r, s) = do_sys os (SysWrite (output_fd s) response size) s;
               rc = (if sr_ret r \<noteq> int size then sr_errno r else rc);
               s = release_buffer_item BufferItem s
           in if MT_DEALLOCATES_FD reqtype
                 \<or> (reqtype = mt_request_code MtRequestSocketCreate \<and> rs_status (rs_base response) < 0)
              then (case worker of
                      None \<Rightarrow> None
                    | Some w \<Rightarrow> Some (rc, release_worker_thread os w s))
              else Some (rc, s))"

section \<open>Assigning work to a thread\<close>

text \<open>Which thread processes a request of each type, and in whose context.\<close>

datatype placement =
    MainNoWorker
  | MainExisting
  | MainNew
  | WorkerExisting
  | Unknown

definition placement_of :: "u32 \<Rightarrow> placement" where
  "placement_of request_type =
    (case mt_request_of request_type of
       Some MtRequestPollsetQuery \<Rightarrow> MainNoWorker
     | Some MtRequestSocketShutdown \<Rightarrow> MainExisting
     | Some MtRequestSocketClose \<Rightarrow> MainExisting
     | Some MtRequestSocketBind \<Rightarrow> MainExisting
     | Some MtRequestSocketListen \<Rightarrow> MainExisting
     | Some MtRequestSocketAttrib \<Rightarrow> MainExisting
     | Some MtRequestSocketCreate \<Rightarrow> MainNew
     | Some MtRequestAddrBlock \<Rightarrow> MainNew
     | Some MtRequestInvalid \<Rightarrow> Unknown
     | None \<Rightarrow> Unknown
     | Some _ \<Rightarrow> WorkerExisting)"

text \<open>The first part, the choice of the thread: the return code, the thread and the state.\<close>

definition choose_thread ::
  "mt_request_generic \<Rightarrow> 'w ins_state \<Rightarrow> (int \<times> nat option \<times> 'w ins_state) option" where
  "choose_thread request s =
    (case placement_of (rq_type (rq_base request)) of
       MainNoWorker \<Rightarrow> Some (0, None, s)
     | MainNew \<Rightarrow> get_worker_thread_for_fd MT_INVALID_SOCKET_FD s
     | Unknown \<Rightarrow> Some (EINVAL, None, s)
     | _ \<Rightarrow> get_worker_thread_for_fd (rq_sockfd (rq_base request)) s)"

text \<open>The wait for the oplock: it blocks when the semaphore is 0.\<close>

definition acquire_oplock :: "nat \<Rightarrow> 'w ins_state \<Rightarrow> 'w ins_state option" where
  "acquire_oplock w s =
     (if ti_oplock (thread s w) = 0 then None
      else Some (upd_thread w (\<lambda>t. t\<lparr>ti_oplock := ti_oplock t - 1, ti_oplock_acquired := True\<rparr>) s))"

text \<open>The exit path: an error response if something failed, and the release of the buffer.\<close>

definition assign_exit ::
  "'w os \<Rightarrow> nat \<Rightarrow> int \<Rightarrow> nat option \<Rightarrow> bool \<Rightarrow> 'w ins_state
     \<Rightarrow> int \<times> nat option \<times> bool \<times> 'w ins_state" where
  "assign_exit os BufferItem rc AssignedThread ProcessFurther s =
    (let ProcessFurther = (ProcessFurther \<and> rc = 0);
         s = (if rc \<noteq> 0
              then snd (send_dispatch_error_response os (bi_request (buffer s BufferItem)) s) else s);
         s = (if \<not> ProcessFurther then release_buffer_item BufferItem s else s)
     in (rc, AssignedThread, ProcessFurther, s))"

definition enqueue_work :: "nat \<Rightarrow> nat \<Rightarrow> 'w ins_state \<Rightarrow> int \<times> 'w ins_state" where
  "enqueue_work w BufferItem s =
    (let (rc, wq) = workqueue_enqueue (ti_work_queue (thread s w)) (of_nat (bi_idx (buffer s BufferItem)));
         s = upd_thread w (\<lambda>t. t\<lparr>ti_work_queue := wq\<rparr>) s
     in (rc, if rc \<noteq> 0 then release_oplock w s else s))"

definition assign_work_to_thread ::
  "'w os \<Rightarrow> nat \<Rightarrow> 'w ins_state \<Rightarrow> (int \<times> nat option \<times> bool \<times> 'w ins_state) option" where
  "assign_work_to_thread os BufferItem s =
    (let request = bi_request (buffer s BufferItem) in
     case choose_thread request s of
       None \<Rightarrow> None
     | Some (rc, AssignedThread, s) \<Rightarrow>
        if rc \<noteq> 0 then Some (assign_exit os BufferItem rc AssignedThread True s)
        else
          let s = upd_buffer BufferItem (\<lambda>b. b\<lparr>bi_assigned_thread := AssignedThread\<rparr>) s in
          case (if REQUEST_REQUIRES_OPLOCK request
                then Option.bind AssignedThread (\<lambda>w. acquire_oplock w s) else Some s) of
            None \<Rightarrow> None
          | Some s \<Rightarrow>
             if placement_of (rq_type (rq_base request)) \<noteq> WorkerExisting then
               (case process_buffer_item os BufferItem s of
                  None \<Rightarrow> None
                | Some (rc, s) \<Rightarrow> Some (assign_exit os BufferItem rc AssignedThread False s))
             else
               (case AssignedThread of
                  None \<Rightarrow> None
                | Some w \<Rightarrow>
                    let (rc, s) = enqueue_work w BufferItem s
                    in Some (assign_exit os BufferItem rc AssignedThread True s)))"

section \<open>The loop of a worker thread\<close>

text \<open>
  One iteration of the loop of \<open>worker_thread_func\<close>: whether the loop goes on, and the
  state. An index outside the array of buffers would be an access out of bounds: None.
\<close>

definition worker_iteration :: "'w os \<Rightarrow> nat \<Rightarrow> 'w ins_state \<Rightarrow> (bool \<times> 'w ins_state) option" where
  "worker_iteration os w s =
    (if ti_awaiting_work_sem (thread s w) = 0 then None
     else
       let s = upd_thread w (\<lambda>t. t\<lparr>ti_awaiting_work_sem := ti_awaiting_work_sem t - 1\<rparr>) s;
           (buf_idx, wq) = workqueue_dequeue (ti_work_queue (thread s w));
           s = upd_thread w (\<lambda>t. t\<lparr>ti_work_queue := wq\<rparr>) s
       in if buf_idx = WORK_QUEUE_UNASSIGNED_IDX then Some (\<not> shutdown_pending s, s)
          else if unat buf_idx \<ge> BUFFER_ITEM_COUNT then None
          else (case process_buffer_item os (unat buf_idx) s of
                  None \<Rightarrow> None
                | Some (rc, s) \<Rightarrow> Some (True, release_buffer_item (unat buf_idx) s)))"

text \<open>The loop, as far as this thread alone runs.\<close>

partial_function (option) worker_thread_func :: "'w os \<Rightarrow> nat \<Rightarrow> 'w ins_state \<Rightarrow> 'w ins_state option" where
  "worker_thread_func os w s =
     (case worker_iteration os w s of
        None \<Rightarrow> None
      | Some (go, s) \<Rightarrow> if go then worker_thread_func os w s else Some s)"

section \<open>The loop of the dispatcher\<close>

datatype 'w dispatched = Stop int "'w ins_state" | Next "'w ins_state"

text \<open>
  One iteration of the loop of \<open>message_dispatcher\<close>. The request a read returns is what the
  region holds after the call.
\<close>

definition dispatch_once :: "'w os \<Rightarrow> 'w ins_state \<Rightarrow> 'w dispatched option" where
  "dispatch_once os s =
    (case reserve_available_buffer_item s of
       (rc, None, s) \<Rightarrow> Some (Next s)
     | (rc, Some i, s) \<Rightarrow>
        let (r, s) = do_sys os (SysRead (input_fd s) ONE_REQUEST_REGION_SIZE) s;
            s = upd_buffer i (\<lambda>b. b\<lparr>bi_request := sr_request r\<rparr>) s;
            size = sr_ret r
        in if size < int MT_REQUEST_BASE_SIZE
              \<or> unat (rq_size (rq_base (bi_request (buffer s i)))) > ONE_REQUEST_REGION_SIZE
           then Some (Stop (if size = 0 then rc else EINVAL) s)
           else (case assign_work_to_thread os i s of
                   None \<Rightarrow> None
                 | Some (rc, assigned_thread, more_processing, s) \<Rightarrow>
                     if rc \<noteq> 0 \<or> \<not> more_processing then Some (Next s)
                     else (case assigned_thread of
                             None \<Rightarrow> None
                           | Some w \<Rightarrow> Some (Next (upd_thread w
                               (\<lambda>t. t\<lparr>ti_awaiting_work_sem := ti_awaiting_work_sem t + 1\<rparr>) s)))))"

text \<open>
  \<open>message_dispatcher\<close>, the loop of the dispatcher by itself; what the other threads do between its
  iterations is in the step relation of the theory \<open>Scheduler\<close>.
\<close>

partial_function (option) message_dispatcher :: "'w os \<Rightarrow> 'w ins_state \<Rightarrow> (int \<times> 'w ins_state) option" where
  "message_dispatcher os s =
    (case dispatch_once os s of
       None \<Rightarrow> None
     | Some d \<Rightarrow> (case d of Stop rc s \<Rightarrow> Some (rc, s) | Next s \<Rightarrow> message_dispatcher os s))"

declare message_dispatcher.simps [code]

section \<open>Statistics\<close>

definition INS_NETWORK_STATS_MAX_LEN :: nat where [mw_consts]: "INS_NETWORK_STATS_MAX_LEN = 64"

text \<open>
  The string of \<open>heartbeat_thread_func\<close>; the socket count is an \<open>int\<close> converted to
  \<open>unsigned long\<close>.
\<close>

definition heartbeat_stats :: "'w ins_state \<Rightarrow> string" where
  "heartbeat_stats s =
     take (INS_NETWORK_STATS_MAX_LEN - 1)
       (fmt_x MAX_THREAD_COUNT @ '':'' @ fmt_x (unat (word_of_int (network_stats_socket_ct s) :: u64))
        @ '':'' @ fmt_x (unat (network_stats_bytes_recv s)) @ '':'' @ fmt_x (unat (network_stats_bytes_sent s)))"

definition heartbeat_iteration :: "'w os \<Rightarrow> 'w ins_state \<Rightarrow> bool \<times> 'w ins_state" where
  "heartbeat_iteration os s =
     (if shutdown_pending s then (False, s)
      else (True, snd (do_sys os (SysIoctlHeartbeat (input_fd s) (heartbeat_stats s)) s)))"

section \<open>Start-up and shutdown\<close>

definition XENEVENT_DEVICE :: string where "XENEVENT_DEVICE = ''/dev/xe''"

definition open_device :: "'w os \<Rightarrow> 'w ins_state \<Rightarrow> int \<times> 'w ins_state" where
  "open_device os s =
    (let (r, s) = do_sys os (SysOpen XENEVENT_DEVICE) s;
         s = s\<lparr>input_fd := sr_ret r\<rparr>
     in if sr_ret r < 0 then (sr_errno r, s) else (0, s\<lparr>output_fd := input_fd s\<rparr>))"

text \<open>\<open>xe_net_init\<close> with MODIFY\_NETWORK\_PARAMETERS 0.\<close>

definition xe_net_init :: int where "xe_net_init = 0"

text \<open>
  The loop that prepares the threads. \<open>mem i\<close> is what malloc and pthread\_mutex\_init return
  for the queue of thread \<open>i\<close>; the two semaphores are set to their initial counts.
\<close>

fun init_threads ::
  "(nat \<Rightarrow> work_queue_buffer_idx list option \<times> int) \<Rightarrow> nat list \<Rightarrow> int \<Rightarrow> 'w ins_state
     \<Rightarrow> int \<times> 'w ins_state" where
  "init_threads mem [] next_id s = (0, s)"
| "init_threads mem (i # is) next_id s =
    (let s = upd_thread i (\<lambda>t. t\<lparr>ti_idx := i\<rparr>) s in
     case workqueue_alloc next_id (fst (mem i)) (snd (mem i)) BUFFER_ITEM_COUNT of
       (None, next_id) \<Rightarrow> (ENOMEM, s)
     | (Some wq, next_id) \<Rightarrow>
         init_threads mem is next_id
           (upd_thread i (\<lambda>t. t\<lparr>ti_work_queue := wq, ti_awaiting_work_sem := 0, ti_oplock := 1,
              ti_oplock_acquired := False\<rparr>) s))"

definition init_buffers :: "'w ins_state \<Rightarrow> 'w ins_state" where
  "init_buffers s = s\<lparr>buffer_items :=
     map (\<lambda>i. (buffer s i)\<lparr>bi_idx := i, bi_offset := ONE_REQUEST_REGION_SIZE * i\<rparr>) [0..<BUFFER_ITEM_COUNT]\<rparr>"

text \<open>
  \<open>init_state\<close>: \<open>pth\<close> gives the results of pthread\_create, for the workers in order and
  then for the heartbeat thread.
\<close>

definition init_state ::
  "'w os \<Rightarrow> (nat \<Rightarrow> work_queue_buffer_idx list option \<times> int) \<Rightarrow> (nat \<Rightarrow> int) \<Rightarrow> 'w ins_state
     \<Rightarrow> int \<times> 'w ins_state" where
  "init_state os mem pth s0 =
    (let s = (ins_zero (stack s0) (stack_addr s0) (world s0))\<lparr>trace := trace s0\<rparr>;
         (rc, s) = init_threads mem [0..<MAX_THREAD_COUNT] 0 (init_buffers s)
     in if rc \<noteq> 0 then (rc, s)
        else
          let (rc, s) = open_device os s in
          if rc \<noteq> 0 then (rc, s)
          else if xe_net_init \<noteq> 0 then (xe_net_init, s)
          else
            let (r, s) = do_sys os (SysIoctlDomid (input_fd s)) s;
                s = s\<lparr>client_id := sr_domid r\<rparr>
            in if sr_ret r \<noteq> 0 then (sr_ret r, s)
               else (case List.find (\<lambda>rc. rc \<noteq> 0) (map pth [0..<MAX_THREAD_COUNT + 1]) of
                       Some rc \<Rightarrow> (rc, s)
                     | None \<Rightarrow> (0, s)))"

text \<open>
  \<open>fini_state\<close>: each worker is woken and joined in turn; a join waits for the worker's loop
  to end, so the model runs the loop there.
\<close>

fun join_workers :: "'w os \<Rightarrow> nat list \<Rightarrow> 'w ins_state \<Rightarrow> 'w ins_state option" where
  "join_workers os [] s = Some s"
| "join_workers os (i # is) s =
     Option.bind (worker_thread_func os i
         (upd_thread i (\<lambda>t. t\<lparr>ti_awaiting_work_sem := ti_awaiting_work_sem t + 1\<rparr>) s))
       (join_workers os is)"

definition fini_state :: "'w os \<Rightarrow> 'w ins_state \<Rightarrow> 'w ins_state option" where
  "fini_state os s =
     map_option (\<lambda>s. if input_fd s > 0 then snd (do_sys os (SysClose (input_fd s)) s) else s)
       (join_workers os [0..<MAX_THREAD_COUNT] (s\<lparr>shutdown_pending := True\<rparr>))"

text \<open>
  \<open>main\<close>, without the resource limits. \<open>log\<close> is what opening the log returns; the results of the packet filter are not looked at.
\<close>

definition ins_main ::
  "'w os \<Rightarrow> (nat \<Rightarrow> work_queue_buffer_idx list option \<times> int) \<Rightarrow> (nat \<Rightarrow> int) \<Rightarrow> int \<Rightarrow> 'w ins_state
     \<Rightarrow> (int \<times> 'w ins_state) option" where
  "ins_main os mem pth log s =
    (let s = snd (do_sys os (SysNpfctl [''npfctl'', ''reload'', ''/data/npf.conf'']) s);
         s = snd (do_sys os (SysNpfctl [''npfctl'', ''start'']) s);
         (rc, s) = (if log \<noteq> 0 then (log, s) else init_state os mem pth s)
     in case (if rc \<noteq> 0 then Some (rc, s) else message_dispatcher os s) of
          None \<Rightarrow> None
        | Some (rc, s) \<Rightarrow> map_option (Pair rc) (fini_state os s))"

end
