(* ===== verification/Processing.thy ===== *)
theory Processing
  imports Dispatcher
begin

text \<open>
  What the processing of one request does (\<open>process_buffer_item\<close> and
  \<open>assign_work_to_thread\<close> of xenevent.c): how many responses it writes and to which request,
  which buffers, threads and locks it changes.
\<close>

declare mt_request_code.simps [simp del]

section \<open>The handlers behind the switch\<close>

lemmas handler_keeps =
  h_attrib.h_keeps h_block.h_keeps h_connect.h_keeps h_bind.h_keeps h_listen.h_keeps
  h_accept.h_keeps h_shutdown.h_keeps h_close.h_keeps h_name.h_keeps h_create.h_keeps
  h_send.h_keeps h_recv.h_keeps h_recvfrom.h_keeps

lemmas handler_answers =
  h_attrib.h_answers h_block.h_answers h_connect.h_answers h_bind.h_answers h_listen.h_answers
  h_accept.h_answers h_shutdown.h_answers h_close.h_answers h_name.h_answers h_create.h_answers
  h_send.h_answers h_recv.h_answers h_recvfrom.h_answers

lemma keeps_ctl_refl [simp]: "keeps_ctl s s"
  by (simp add: keeps_ctl_def)

lemma neg_errno_nonzero [simp]: "XE_GET_NEG_ERRNO_VAL e \<noteq> 0"
  by (metis neg_errno_negative less_irrefl)

lemma pollset_query_keeps:
  assumes "xe_pollset_query os q p s = (rc, p', s')"
  shows "keeps_ctl s s'"
proof -
  obtain r u where d: "do_sys os (SysPoll (pollset_fds s) 0) s = (r, u)" by fastforce
  have u: "keeps_ctl s u" using keeps_do_sys [OF d] by (simp add: keeps_def)
  show ?thesis
  proof (cases "sr_ret r < 0")
    case True
    then show ?thesis using assms d u by (simp add: xe_pollset_query_def)
  next
    case False
    obtain qs v where sc: "pollset_scan MAX_THREAD_COUNT (sr_ret r) (sr_revents r) [] u = (qs, v)" by fastforce
    have s': "s' = v" using assms d sc False by (simp add: xe_pollset_query_def Let_def)
    have k: "sockets_kept u v" using scan_keeps [OF sockets_kept_refl] sc by (metis snd_conv)
    then have th: "\<exists>e. thread v j = (thread u j)\<lparr>ti_poll_events := e\<rparr>" for j by (rule sockets_kept_thread)
    have "ctl (thread v j) = ctl (thread u j)" "good_fd c (thread v j) = good_fd c (thread u j)" for j c
      using th [of j] by (auto simp: ctl_def good_fd_def)
    moreover have "buffer_items v = buffer_items u" "length (worker_threads v) = length (worker_threads u)"
      "sock_params v = sock_params u" "client_id v = client_id u" "output_fd v = output_fd u"
      "input_fd v = input_fd u" "shutdown_pending v = shutdown_pending u" "trace v = trace u"
      using k by (auto simp: sockets_kept_def sock_params_def)
    ultimately show ?thesis using u s' by (simp add: keeps_ctl_def)
  qed
qed

lemma handle_request_worker:
  assumes "handle_request os q p (Some w) s = Some (rc, p', s')"
    and "mt_request_of (rq_type (rq_base q)) \<noteq> Some MtRequestPollsetQuery"
  shows "keeps w s s'"
  using assms unfolding handle_request_def
  by (auto split: option.splits mt_request_type.splits intro: handler_keeps)

lemma handle_request_keeps:
  assumes "handle_request os q p worker s = Some (rc, p', s')"
  shows "keeps_ctl s s'"
proof (cases "mt_request_of (rq_type (rq_base q)) = Some MtRequestPollsetQuery")
  case True
  then show ?thesis using assms by (auto simp: handle_request_def intro: pollset_query_keeps)
next
  case False
  show ?thesis
  proof (cases worker)
    case None
    then show ?thesis using assms False
      by (auto simp: handle_request_def split: option.splits mt_request_type.splits)
  next
    case (Some w)
    then show ?thesis using handle_request_worker [of os q p w s] assms False by (simp add: keeps_def)
  qed
qed

lemma pollset_query_answers:
  "xe_pollset_query os q p s = (0, p', s') \<Longrightarrow> answers q p'"
  by (auto simp: xe_pollset_query_def Let_def case_prod_unfold split: if_splits)

text \<open>A known request type other than the invalid one.\<close>

definition known_type :: "mt_request_generic \<Rightarrow> bool" where
  "known_type q \<longleftrightarrow> mt_request_of (rq_type (rq_base q)) \<notin> {None, Some MtRequestInvalid}"

lemma handle_request_answers:
  assumes "handle_request os q p worker s = Some (0, p', s')" and "known_type q"
  shows "answers q p'"
  using assms unfolding handle_request_def known_type_def
  by (auto split: option.splits mt_request_type.splits intro: handler_answers pollset_query_answers)

section \<open>What processing keeps\<close>

text \<open>
  The fields of a thread that processing a request leaves alone, and the frame around it: as for
  a handler, but threads may be acquired and released, and the ring may be written to.
\<close>

definition sched :: "thread_item \<Rightarrow> nat \<times> nat \<times> workqueue" where
  "sched t = (ti_idx t, ti_awaiting_work_sem t, ti_work_queue t)"

definition lock :: "thread_item \<Rightarrow> nat \<times> bool" where
  "lock t = (ti_oplock t, ti_oplock_acquired t)"

definition keeps_sched :: "'w ins_state \<Rightarrow> 'w ins_state \<Rightarrow> bool" where
  "keeps_sched s t \<longleftrightarrow>
     length (worker_threads t) = length (worker_threads s)
     \<and> (\<forall>j. sched (thread t j) = sched (thread s j))
     \<and> (\<forall>j. good_fd (client_id s) (thread s j) \<longrightarrow> good_fd (client_id s) (thread t j))
     \<and> (threads_inv s \<longrightarrow> threads_inv t)
     \<and> sock_params t = sock_params s
     \<and> client_id t = client_id s \<and> output_fd t = output_fd s \<and> input_fd t = input_fd s
     \<and> shutdown_pending t = shutdown_pending s"

lemma keeps_sched_refl [simp]: "keeps_sched s s"
  by (simp add: keeps_sched_def)

lemma keeps_sched_trans: "keeps_sched s t \<Longrightarrow> keeps_sched t u \<Longrightarrow> keeps_sched s u"
  by (auto simp: keeps_sched_def)

lemma keeps_ctl_sched:
  assumes "keeps_ctl s t"
  shows "keeps_sched s t" "buffer_items t = buffer_items s" "writes (trace t) = writes (trace s)"
    "lock (thread t j) = lock (thread s j)" "threads_used t = threads_used s"
  using assms
  by (auto simp: keeps_ctl_def keeps_sched_def ctl_def sched_def lock_def threads_inv_def threads_used_def)

lemma keeps_sched_upd:
  assumes "\<And>t. sched (f t) = sched t" and "ti_in_use (f (thread s w)) \<in> {ti_in_use (thread s w), 0, 1}"
    and "good_fd (client_id s) (thread s w) \<Longrightarrow> good_fd (client_id s) (f (thread s w))"
  shows "keeps_sched s (upd_thread w f s)"
proof (cases "w < length (worker_threads s)")
  case True
  with assms show ?thesis by (auto simp: keeps_sched_def thread_upd_thread threads_inv_def)
next
  case False
  then have "upd_thread w f s = s" by (simp add: upd_thread_def list_update_beyond)
  then show ?thesis by simp
qed

lemma keeps_sched_do_sys:
  assumes "do_sys os c s = (r, t)"
  shows "keeps_sched s t"
  using do_sys_frame [OF assms] do_sys_params [OF assms] by (simp add: keeps_sched_def threads_inv_def)

lemma keeps_sched_buffer [simp]:
  "keeps_sched s (upd_buffer i f s)"
  by (simp add: keeps_sched_def threads_inv_def sock_params_def upd_buffer_def thread_def)

lemma keeps_sched_release_buffer [simp]: "keeps_sched s (release_buffer_item i s)"
  by (simp add: release_buffer_item_eq)

section \<open>The steps after the handler\<close>

lemma release_oplock_effect:
  assumes "w < length (worker_threads s)"
  shows "keeps_sched s (release_oplock w s)" "buffer_items (release_oplock w s) = buffer_items s"
    "trace (release_oplock w s) = trace s" "threads_used (release_oplock w s) = threads_used s"
    "lock (thread (release_oplock w s) j) =
       (if j = w \<and> ti_oplock_acquired (thread s w) then (ti_oplock (thread s w) + 1, False)
        else lock (thread s j))"
proof -
  show "keeps_sched s (release_oplock w s)"
    by (auto simp: release_oplock_def sched_def good_fd_def intro: keeps_sched_upd)
  show "threads_used (release_oplock w s) = threads_used s"
    using assms by (auto simp: release_oplock_def threads_used_def thread_upd_thread split: if_splits)
  show "lock (thread (release_oplock w s) j) =
       (if j = w \<and> ti_oplock_acquired (thread s w) then (ti_oplock (thread s w) + 1, False)
        else lock (thread s j))"
    using assms by (auto simp: release_oplock_def lock_def thread_upd_thread)
qed (simp_all add: release_oplock_def)

lemma listening_ports_keeps:
  assumes "update_listening_ports os s = (rc, s')"
  shows "keeps_ctl s s'"
proof -
  let ?s = "s\<lparr>pending_port_change := False\<rparr>"
  have k0: "keeps 0 s ?s" by simp
  then have k: "keeps_ctl s ?s" by (simp add: keeps_def)
  have "keeps_ctl s u" if "do_sys os (SysIoctlListeners fd str) ?s = (r, u)" for fd str r u
    using keeps_sys_step [OF k0 that] by (simp add: keeps_def)
  then show ?thesis using assms k
    by (auto simp: update_listening_ports_def Let_def split: if_splits option.splits prod.splits)
qed

lemma listening_ports_used: "update_listening_ports os s = (rc, s') \<Longrightarrow> worker_threads s' = worker_threads s"
  by (auto simp: update_listening_ports_def Let_def dest!: do_sys_frame(2)
      split: if_splits option.splits prod.splits)

text \<open>Acquiring a thread changes its \<open>in_use\<close> word and nothing else.\<close>

lemma acquire_thread_eq:
  "acquire_thread s =
     (case first_idx (\<lambda>t. ti_in_use t = 0) (worker_threads s) of
        None \<Rightarrow> (None, s) | Some i \<Rightarrow> (Some i, upd_thread i (\<lambda>t. t\<lparr>ti_in_use := 1\<rparr>) s))"
proof (cases "first_idx (\<lambda>t. ti_in_use t = 0) (worker_threads s)")
  case None
  then show ?thesis by (simp add: acquire_thread_def get_worker_thread_for_fd_def atomic_cas_32_def)
next
  case (Some i)
  have "ti_in_use (worker_threads s ! i) = 0" using first_idx_SomeD(2) [OF Some] .
  with Some show ?thesis
    by (simp add: acquire_thread_def get_worker_thread_for_fd_def atomic_cas_32_def upd_thread_def)
qed

lemma acquire_thread_effect:
  assumes "acquire_thread s = (th, s')"
  shows "keeps_sched s s'" "buffer_items s' = buffer_items s" "trace s' = trace s"
    "lock (thread s' j) = lock (thread s j)" "client_id s' = client_id s"
    "th = Some t \<Longrightarrow> t < length (worker_threads s)" "th = Some t \<Longrightarrow> t \<notin> threads_used s"
    "th = Some t \<Longrightarrow> threads_used s' = insert t (threads_used s)"
    "th = None \<Longrightarrow> s' = s"
proof -
  have c: "th = None \<and> s' = s \<or>
      (\<exists>i. th = Some i \<and> i < length (worker_threads s) \<and> ti_in_use (thread s i) = 0
         \<and> s' = upd_thread i (\<lambda>t. t\<lparr>ti_in_use := 1\<rparr>) s)"
  proof (cases "first_idx (\<lambda>t. ti_in_use t = 0) (worker_threads s)")
    case None
    with assms show ?thesis by (simp add: acquire_thread_eq)
  next
    case (Some i)
    then have "th = Some i" "s' = upd_thread i (\<lambda>t. t\<lparr>ti_in_use := 1\<rparr>) s"
      using assms by (simp_all add: acquire_thread_eq)
    moreover have "i < length (worker_threads s)" "ti_in_use (thread s i) = 0"
      using first_idx_SomeD(1,2) [OF Some] by (simp_all add: thread_def)
    ultimately show ?thesis by blast
  qed
  show "keeps_sched s s'"
    using c by (auto simp: sched_def good_fd_def intro!: keeps_sched_upd)
  show "lock (thread s' j) = lock (thread s j)"
    using c by (auto simp: thread_upd_thread lock_def split: if_splits)
  show "buffer_items s' = buffer_items s" "trace s' = trace s" "client_id s' = client_id s" using c by auto
  show "t < length (worker_threads s)" "t \<notin> threads_used s" "threads_used s' = insert t (threads_used s)"
    if "th = Some t"
    using c that by (auto simp: threads_used_def thread_upd_thread)
  show "s' = s" if "th = None" using c that by simp
qed

text \<open>
  The response after post-processing: the same message but for flags, and for status and
  descriptor after an accept.
\<close>

lemma post_process_effect:
  obtains rc p' s' where "post_process_response os q p wk s = Some (rc, p', s')"
    and "answers q p' \<longleftrightarrow> answers q p" and "rs_size (rs_base p') = rs_size (rs_base p)"
    and "keeps_sched s s'" and "buffer_items s' = buffer_items s"
    and "writes (trace s') = writes (trace s)" and "\<And>j. lock (thread s' j) = lock (thread s j)"
    and "rq_type (rq_base q) \<noteq> mt_request_code MtRequestSocketAccept \<Longrightarrow>
           threads_used s' = threads_used s \<and> rs_status (rs_base p') = rs_status (rs_base p)"
proof -
  note result = that
  define fl where "fl = (case wk of None \<Rightarrow> rs_flags (rs_base p) OR rq_flags (rq_base q)
     | Some w \<Rightarrow> (rs_flags (rs_base p) OR rq_flags (rq_base q)) OR ti_state_flags (thread s w))"
  define p1 where "p1 = p\<lparr>rs_base := (rs_base p)\<lparr>rs_flags := fl\<rparr>\<rparr>"
  let ?st = "rs_status (rs_base p)"
  have p1: "answers q p1 \<longleftrightarrow> answers q p" "rs_size (rs_base p1) = rs_size (rs_base p)"
    "rs_status (rs_base p1) = rs_status (rs_base p)" by (simp_all add: p1_def answers_def)
  have fin: thesis
    if u: "post_process_response os q p wk s = (let (rc, s') = update_listening_ports os u in Some (rc, p2, s'))"
      "answers q p2 \<longleftrightarrow> answers q p" "rs_size (rs_base p2) = rs_size (rs_base p)" "keeps_sched s u"
      "buffer_items u = buffer_items s" "writes (trace u) = writes (trace s)"
      "\<And>j. lock (thread u j) = lock (thread s j)"
      "rq_type (rq_base q) \<noteq> mt_request_code MtRequestSocketAccept \<Longrightarrow>
           threads_used u = threads_used s \<and> rs_status (rs_base p2) = rs_status (rs_base p)" for u p2
  proof -
    obtain rc s' where l: "update_listening_ports os u = (rc, s')" by fastforce
    note k = keeps_ctl_sched [OF listening_ports_keeps [OF l]]
    show thesis
      using result [of rc p2 s'] u l k keeps_sched_trans [OF u(4) k(1)] by simp
  qed
  show thesis
  proof (cases "rq_type (rq_base q) = mt_request_code MtRequestSocketAccept \<and> ?st \<ge> 0")
    case False
    then have "post_process_response os q p wk s
        = (let (rc, s') = update_listening_ports os s in Some (rc, p1, s'))"
      by (auto simp: post_process_response_def p1_def fl_def Let_def)
    then show thesis by (rule fin) (simp_all add: p1)
  next
    case True
    obtain th v where a: "acquire_thread s = (th, v)" by fastforce
    note e = acquire_thread_effect [OF a]
    show thesis
    proof (cases th)
      case None
      obtain r u where d: "do_sys os (SysClose ?st) s = (r, u)" by fastforce
      have "keeps 0 s u" using d by (rule keeps_do_sys) simp
      then have ku: "keeps_ctl s u" by (simp add: keeps_def)
      have "post_process_response os q p wk s
          = (let (rc, s') = update_listening_ports os u in Some (rc, set_status MT_STATUS_INTERNAL_ERROR p1, s'))"
        using True None a e(9) d by (simp add: post_process_response_def p1_def fl_def Let_def get_invalid)
      then show thesis by (rule fin) (simp_all add: keeps_ctl_sched [OF ku] p1 True, simp add: set_status_def p1)
    next
      case (Some t)
      let ?fd = "MW_SOCKET_CREATE (client_id v) (int (ti_idx (thread v t)))"
      let ?u = "upd_thread t (\<lambda>t. t\<lparr>ti_public_fd := ?fd, ti_local_fd := ?st\<rparr>) v"
      have t: "t < length (worker_threads v)" using e(1) e(6) [OF Some] by (simp add: keeps_sched_def)
      have ku: "keeps_sched v ?u" by (rule keeps_sched_upd) (simp_all add: sched_def good_fd_def)
      have lk: "lock (thread ?u j) = lock (thread s j)" for j
        using e(4) [of j] t by (auto simp: lock_def thread_upd_thread)
      have "post_process_response os q p wk s
          = (let (rc, s') = update_listening_ports os ?u in
             Some (rc, set_sockfd ?fd (set_status (sint (ucast ?fd :: u32)) p1), s'))"
        using True Some a by (simp add: post_process_response_def p1_def fl_def Let_def get_invalid)
      then show thesis
        by (rule fin) (simp_all add: keeps_sched_trans [OF e(1) ku] lk p1 e(2,3) True,
            simp add: set_status_def set_sockfd_def p1)
    qed
  qed
qed

lemma lock_upd:
  assumes "\<And>x. lock (h x) = lock x"
  shows "lock (thread (upd_thread w h v) j) = lock (thread v j)"
proof (cases "w < length (worker_threads v)")
  case True
  with assms show ?thesis by (simp add: thread_upd_thread)
next
  case False
  then show ?thesis by (simp add: upd_thread_def list_update_beyond)
qed

lemma release_worker_thread_effect:
  assumes "t = release_worker_thread os w s"
  shows "keeps_sched s t" "buffer_items t = buffer_items s" "writes (trace t) = writes (trace s)"
    "lock (thread t j) = lock (thread s j)" "threads_inv s \<Longrightarrow> threads_used t = threads_used s - {w}"
proof -
  obtain rc u where c: "xe_net_internal_close_socket os w s = (rc, u)" by fastforce
  have ku: "keeps_ctl s u" using internal_close_keeps [of w s s os] c by (simp add: keeps_def)
  note k = keeps_ctl_sched [OF ku]
  let ?f = "\<lambda>t. t\<lparr>ti_poll_events := 0, ti_state_flags := 0, ti_sock_domain := 0,
     ti_sock_type := 0, ti_sock_protocol := 0, ti_bound_port_num := 0,
     ti_remote_host := replicate MESSAGE_TYPE_MAX_PAYLOAD_LEN 0\<rparr>"
  let ?g = "\<lambda>t. t\<lparr>ti_in_use := snd (atomic_cas_32 (ti_in_use t) 1 0)\<rparr>"
  have t: "t = upd_thread w ?g (upd_thread w ?f u)"
    using assms c by (simp add: release_worker_thread_def Let_def)
  have f: "keeps_sched u (upd_thread w ?f u)" by (rule keeps_sched_upd) (simp_all add: sched_def good_fd_def)
  have "keeps_sched (upd_thread w ?f u) t" unfolding t
    by (rule keeps_sched_upd) (simp_all add: sched_def good_fd_def atomic_cas_32_def)
  then show "keeps_sched s t" using k(1) f by (blast intro: keeps_sched_trans)
  show "buffer_items t = buffer_items s" "writes (trace t) = writes (trace s)" using k by (simp_all add: t)
  have "lock (?f x) = lock x" "lock (?g x) = lock x" for x by (simp_all add: lock_def)
  then show "lock (thread t j) = lock (thread s j)"
    unfolding t k(4) [symmetric] by (simp add: lock_upd)
  show "threads_used t = threads_used s - {w}" if "threads_inv s"
    using tp.release_spec [OF that, of os w] assms by (simp add: set_release_def)
qed

section \<open>One request, one response\<close>

text \<open>The device takes every message whole.\<close>

definition write_ok :: "'w os \<Rightarrow> bool" where
  "write_ok os \<longleftrightarrow> (\<forall>fd p n v. sr_ret (fst (os (SysWrite fd p n) v)) = int n)"

lemma process_effect:
  assumes q: "q = bi_request (buffer s i)" "wk = bi_assigned_thread (buffer s i)"
    and h: "handle_request os q ((stack s)\<lparr>rs_base := rs_base_zero\<rparr>) wk s = Some (rc0, p, s1)"
    and wk: "pred_option (\<lambda>w. w < length (worker_threads s)) wk" and known: "known_type q"
  obtains rc resp s' where "process_buffer_item os i s = Some (rc, s')"
    and "write_ok os \<Longrightarrow> rc = rc0"
    and "writes (trace s') = writes (trace s) @ [(resp, unat (rs_size (rs_base resp)))]"
    and "answers q resp \<longleftrightarrow> answers q p" and "rs_size (rs_base resp) = rs_size (rs_base p)"
    and "buffer_items s' = buffer_items (release_buffer_item i s)" and "keeps_sched s s'"
    and "\<And>j. lock (thread s' j) = (if wk = Some j \<and> ti_oplock_acquired (thread s j)
            then (ti_oplock (thread s j) + 1, False) else lock (thread s j))"
    and "rq_type (rq_base q) \<notin> mt_request_code ` {MtRequestSocketAccept, MtRequestSocketClose, MtRequestSocketCreate}
           \<Longrightarrow> threads_used s' = threads_used s"
    and "\<And>w. \<lbrakk>threads_inv s; rq_type (rq_base q) = mt_request_code MtRequestSocketClose; wk = Some w\<rbrakk>
           \<Longrightarrow> threads_used s' = threads_used s - {w}"
proof -
  let ?ty = "rq_type (rq_base q)"
  note k1 = keeps_ctl_sched [OF handle_request_keeps [OF h]]
  have len1: "length (worker_threads s1) = length (worker_threads s)"
    using k1(1) by (simp add: keeps_sched_def)
  define s2 where "s2 = (case wk of None \<Rightarrow> s1 | Some w \<Rightarrow> release_oplock w s1)"
  have s2: "keeps_sched s1 s2" "buffer_items s2 = buffer_items s1" "trace s2 = trace s1"
    "threads_used s2 = threads_used s1"
    "lock (thread s2 j) = (if wk = Some j \<and> ti_oplock_acquired (thread s1 j)
        then (ti_oplock (thread s1 j) + 1, False) else lock (thread s1 j))" for j
    using release_oplock_effect [of _ s1] wk len1 by (auto simp: s2_def split: option.splits)
  obtain rc2 resp s3 where pp: "post_process_response os q p wk s2 = Some (rc2, resp, s3)"
    and resp: "answers q resp \<longleftrightarrow> answers q p" "rs_size (rs_base resp) = rs_size (rs_base p)"
    and s3: "keeps_sched s2 s3" "buffer_items s3 = buffer_items s2" "writes (trace s3) = writes (trace s2)"
      "\<And>j. lock (thread s3 j) = lock (thread s2 j)"
      "?ty \<noteq> mt_request_code MtRequestSocketAccept \<Longrightarrow>
         threads_used s3 = threads_used s2 \<and> rs_status (rs_base resp) = rs_status (rs_base p)"
    by (rule post_process_effect [of os q p wk s2]) (rule that; simp)
  let ?n = "unat (rs_size (rs_base resp))"
  obtain r s4 where wr: "do_sys os (SysWrite (output_fd s3) resp ?n) s3 = (r, s4)" by fastforce
  note d = do_sys_frame [OF wr]
  have ok: "sr_ret r = int ?n" if "write_ok os"
    using wr that by (auto simp: write_ok_def do_sys_eq)
  define s5 where "s5 = release_buffer_item i s4"
  have s5: "keeps_sched s s5" "buffer_items s5 = buffer_items (release_buffer_item i s)"
    "writes (trace s5) = writes (trace s) @ [(resp, ?n)]" "lock (thread s5 j) = lock (thread s2 j)"
    "threads_used s5 = threads_used s3" for j
  proof -
    have "keeps_sched s s4"
      using k1(1) s2(1) s3(1) keeps_sched_do_sys [OF wr] by (blast intro: keeps_sched_trans)
    then show "keeps_sched s s5"
      unfolding s5_def by (rule keeps_sched_trans) simp
    show "buffer_items s5 = buffer_items (release_buffer_item i s)"
      using d(1) s3(2) s2(2) k1(2) by (simp add: s5_def release_buffer_item_eq upd_buffer_def)
    show "writes (trace s5) = writes (trace s) @ [(resp, ?n)]"
      using d(3) s3(3) s2(3) k1(3) by (simp add: s5_def release_buffer_item_eq writes_Cons)
    show "lock (thread s5 j) = lock (thread s2 j)"
      using d(13) s3(4) by (simp add: s5_def release_buffer_item_eq)
    show "threads_used s5 = threads_used s3"
      using d(2) by (simp add: s5_def release_buffer_item_eq threads_used_def thread_def)
  qed
  have lk: "lock (thread s5 j) = (if wk = Some j \<and> ti_oplock_acquired (thread s j)
        then (ti_oplock (thread s j) + 1, False) else lock (thread s j))" for j
    using s5(4) [of j] s2(5) [of j] k1(4) [of j] by (auto simp: lock_def)
  have used: "?ty \<noteq> mt_request_code MtRequestSocketAccept \<Longrightarrow> threads_used s5 = threads_used s"
    using s5(5) s3(5) s2(4) k1(5) by simp
  let ?rel = "MT_DEALLOCATES_FD ?ty
     \<or> (?ty = mt_request_code MtRequestSocketCreate \<and> rs_status (rs_base resp) < 0)"
  let ?rc = "if sr_ret r \<noteq> int ?n then sr_errno r else rc0"
  have run: "process_buffer_item os i s =
      (if ?rel then (case wk of None \<Rightarrow> None | Some w \<Rightarrow> Some (?rc, release_worker_thread os w s5))
       else Some (?rc, s5))"
    using h pp wr unfolding q process_buffer_item_def s2_def s5_def Let_def
    by (simp split del: if_split option.split)
  from known obtain ty where ty: "?ty = mt_request_code ty"
    by (auto simp: known_type_def mt_request_of_Some)
  show thesis
  proof (cases ?rel)
    case False
    then have "ty \<noteq> MtRequestSocketClose" by (auto simp: ty dealloc_iff)
    then have "?ty \<noteq> mt_request_code MtRequestSocketClose" by (simp add: ty mt_request_code_inj)
    moreover have "process_buffer_item os i s = Some (?rc, s5)"
      using False unfolding run by (simp only: if_False)
    ultimately show thesis using s5(1-3) lk used resp ok
      by (intro that [of ?rc s5 resp]) simp_all
  next
    case True
    then have c: "ty = MtRequestSocketClose \<or> ty = MtRequestSocketCreate"
      by (auto simp: ty dealloc_iff mt_request_code_inj)
    then have "wk \<noteq> None" using h ty by (cases wk) (auto simp: handle_request_def)
    then obtain w where w: "wk = Some w" by blast
    note rel = release_worker_thread_effect [OF refl, where os = os and w = w and s = s5]
    have inv5: "threads_inv s \<Longrightarrow> threads_inv s5" using s5(1) by (simp add: keeps_sched_def)
    have "process_buffer_item os i s = Some (?rc, release_worker_thread os w s5)"
      using True unfolding run w by (simp only: if_True option.case)
    moreover have "?ty \<noteq> mt_request_code MtRequestSocketAccept"
      and "?ty \<in> mt_request_code ` {MtRequestSocketAccept, MtRequestSocketClose, MtRequestSocketCreate}"
      using c by (auto simp: ty mt_request_code_inj)
    ultimately show thesis
      using s5(1-3) lk used resp rel(2-5) keeps_sched_trans [OF s5(1) rel(1)] w inv5 ok
      by (intro that [of ?rc "release_worker_thread os w s5" resp]) simp_all
  qed
qed

text \<open>The request, the worker and the handler's result behind a call that returned.\<close>

lemma process_returned:
  assumes "process_buffer_item os i s = Some (rc, s')"
  obtains rc0 p s1 where "handle_request os (bi_request (buffer s i)) ((stack s)\<lparr>rs_base := rs_base_zero\<rparr>)
      (bi_assigned_thread (buffer s i)) s = Some (rc0, p, s1)"
  using assms unfolding process_buffer_item_def Let_def
  by (auto split: option.splits)

text \<open>
  C2. One response per request. When the handler of a request of a known type returns success,
  processing the buffer item returns and writes exactly one message to the ring, as long as its
  size field says, and that message is the response to the request (signature, id and type);
  the buffer is free afterwards, no other buffer is touched, and no work queue, work semaphore or
  thread index changes.
\<close>

theorem process_one_response:
  assumes "bi_request (buffer s i) = q" and "bi_assigned_thread (buffer s i) = wk"
    and "handle_request os q ((stack s)\<lparr>rs_base := rs_base_zero\<rparr>) wk s = Some (0, p, s1)"
    and "known_type q" and "i < length (buffer_items s)" and "bi_in_use (buffer s i) = 1"
    and "pred_option (\<lambda>w. w < length (worker_threads s)) wk"
  shows "\<exists>rc resp s'. process_buffer_item os i s = Some (rc, s')
     \<and> writes (trace s') = writes (trace s) @ [(resp, unat (rs_size (rs_base resp)))]
     \<and> answers q resp \<and> bi_in_use (buffer s' i) = 0
     \<and> (\<forall>j. j \<noteq> i \<longrightarrow> buffer s' j = buffer s j)
     \<and> (\<forall>j. sched (thread s' j) = sched (thread s j))"
proof -
  obtain rc resp s' where run: "process_buffer_item os i s = Some (rc, s')"
    and w: "writes (trace s') = writes (trace s) @ [(resp, unat (rs_size (rs_base resp)))]"
    and a: "answers q resp \<longleftrightarrow> answers q p"
    and b: "buffer_items s' = buffer_items (release_buffer_item i s)" and k: "keeps_sched s s'"
    by (rule process_effect [OF assms(1) [symmetric] assms(2) [symmetric] assms(3) assms(7) assms(4)]) (rule that)
  have buf: "buffer s' j = buffer (release_buffer_item i s) j" for j using b by (simp add: buffer_def)
  show ?thesis
    using run w a handle_request_answers [OF assms(3,4)] buffer_release(2) [of i s i] buffer_release(3) [of _ i s] assms(5,6) k
    by (intro exI [of _ rc] exI [of _ resp] exI [of _ s']) (simp add: buf keeps_sched_def)
qed

text \<open>A listen request queued for thread 7, on an operating system where all calls return 0.\<close>

definition os_zero :: "nat os" where
  "os_zero c w = (sysres0, w + 1)"

definition listen_rq :: mt_request_generic where
  "listen_rq = rq_zero\<lparr>rq_base := (rq_base rq_zero)\<lparr>rq_type := mt_request_code MtRequestSocketListen,
     rq_id := 99\<rparr>\<rparr>"

definition listen_state :: "nat ins_state" where
  "listen_state = upd_buffer 0 (\<lambda>b. b\<lparr>bi_in_use := 1, bi_assigned_thread := Some 7, bi_request := listen_rq\<rparr>)
     (ins_zero rs_zero sa_zero 0)"

lemma listen_state_buffer:
  "buffer listen_state 0 = buffer_zero\<lparr>bi_in_use := 1, bi_assigned_thread := Some 7, bi_request := listen_rq\<rparr>"
  "length (buffer_items listen_state) = 100" "length (worker_threads listen_state) = 50"
  by (simp_all add: listen_state_def upd_buffer_def ins_zero_def buffer_def mw_consts)

lemma listen_rq_known [simp]: "known_type listen_rq"
  by (simp add: listen_rq_def known_type_def)

theorem process_one_response_witness:
  "\<exists>rc resp s'. process_buffer_item os_zero 0 listen_state = Some (rc, s')
     \<and> writes (trace s') = writes (trace listen_state) @ [(resp, unat (rs_size (rs_base resp)))]
     \<and> answers listen_rq resp \<and> bi_in_use (buffer s' 0) = 0
     \<and> (\<forall>j. j \<noteq> 0 \<longrightarrow> buffer s' j = buffer listen_state j)
     \<and> (\<forall>j. sched (thread s' j) = sched (thread listen_state j))"
proof -
  let ?p = "(stack listen_state)\<lparr>rs_base := rs_base_zero\<rparr>"
  obtain p s1 where "xe_net_listen_socket os_zero listen_rq ?p 7 listen_state = (0, p, s1)"
    by (simp add: xe_net_listen_socket_def case_prod_unfold Let_def)
  then have h: "handle_request os_zero listen_rq ?p (Some 7) listen_state = Some (0, p, s1)"
    by (simp add: handle_request_def listen_rq_def)
  show ?thesis
    by (rule process_one_response [OF _ _ h]) (simp_all add: listen_state_buffer)
qed

end
