(* ===== verification/Assignment.thy ===== *)
theory Assignment
  imports Processing
begin

text \<open>
  The assignment of a request to a thread (\<open>assign_work_to_thread\<close> of xenevent.c): the
  error responses of the dispatcher, the requests it processes itself, and the oplock.
\<close>

section \<open>Requests that cannot be assigned\<close>

lemma choose_failed:
  assumes "choose_thread q s = Some (rc, th, s')" and "rc \<noteq> 0"
  shows "s' = s" "th = None"
proof -
  have "s' = s \<and> th = None" if "get_worker_thread_for_fd fd s = Some (rc, th, s')" for fd
    using that assms(2) by (auto simp: get_worker_thread_for_fd_def Let_def split: if_splits option.splits)
  then have "s' = s \<and> th = None"
    using assms by (auto simp: choose_thread_def split: placement.splits)
  then show "s' = s" "th = None" by simp_all
qed

lemma dispatch_error_effect:
  assumes "send_dispatch_error_response os q s = (rc, s')"
  shows "\<exists>resp. writes (trace s') = writes (trace s) @ [(resp, MT_RESPONSE_BASE_SIZE)] \<and> answers q resp
      \<and> rs_status (rs_base resp) = MT_STATUS_INTERNAL_ERROR
      \<and> rs_sockfd (rs_base resp) = rq_sockfd (rq_base q)"
    and "worker_threads s' = worker_threads s" and "buffer_items s' = buffer_items s"
    and "keeps_sched s s'"
proof -
  let ?p = "set_response_to_internal_error q rs_zero"
  have size: "unat (rs_size (rs_base ?p)) = MT_RESPONSE_BASE_SIZE"
    by (simp add: set_response_to_internal_error_def sizes)
  obtain r u where d: "do_sys os (SysWrite (output_fd s) ?p MT_RESPONSE_BASE_SIZE) s = (r, u)" by fastforce
  have u: "s' = u" using assms d size by (simp add: send_dispatch_error_response_def Let_def)
  note f = do_sys_frame [OF d]
  show "worker_threads s' = worker_threads s" "buffer_items s' = buffer_items s" using f u by simp_all
  show "keeps_sched s s'" using keeps_sched_do_sys [OF d] u by simp
  have "answers q ?p \<and> rs_status (rs_base ?p) = MT_STATUS_INTERNAL_ERROR
      \<and> rs_sockfd (rs_base ?p) = rq_sockfd (rq_base q)"
    by (simp add: set_response_to_internal_error_def answers_def)
  then show "\<exists>resp. writes (trace s') = writes (trace s) @ [(resp, MT_RESPONSE_BASE_SIZE)] \<and> answers q resp
      \<and> rs_status (rs_base resp) = MT_STATUS_INTERNAL_ERROR
      \<and> rs_sockfd (rs_base resp) = rq_sockfd (rq_base q)"
    using f(3) u by (intro exI [of _ ?p]) (simp add: writes_Cons)
qed

text \<open>
  C11. Error responses of the dispatcher. When no thread can be chosen for a request (its type is
  unknown, its descriptor is not that of an open socket, or all threads are in use) exactly one
  message is written: the response to this request with the internal error status. The buffer
  is free afterwards and no thread has changed.
\<close>

theorem assign_failure_answered:
  assumes "choose_thread q s = Some (rc, th, s1)" and "rc \<noteq> 0" and "q = bi_request (buffer s i)"
    and "i < length (buffer_items s)" and "bi_in_use (buffer s i) = 1"
  shows "\<exists>resp s'. assign_work_to_thread os i s = Some (rc, None, False, s')
     \<and> writes (trace s') = writes (trace s) @ [(resp, MT_RESPONSE_BASE_SIZE)]
     \<and> answers q resp \<and> rs_status (rs_base resp) = MT_STATUS_INTERNAL_ERROR
     \<and> rs_sockfd (rs_base resp) = rq_sockfd (rq_base q)
     \<and> worker_threads s' = worker_threads s \<and> bi_in_use (buffer s' i) = 0
     \<and> (\<forall>j. j \<noteq> i \<longrightarrow> buffer s' j = buffer s j)"
proof -
  obtain rc' u where d: "send_dispatch_error_response os q s = (rc', u)" by fastforce
  note e = dispatch_error_effect [OF d]
  have run: "assign_work_to_thread os i s = Some (rc, None, False, release_buffer_item i u)"
    using assms(1-3) choose_failed [OF assms(1,2)] d
    by (simp add: assign_work_to_thread_def Let_def assign_exit_def)
  have b: "buffer u j = buffer s j" for j using e(3) by (simp add: buffer_def)
  have t: "worker_threads (release_buffer_item i u) = worker_threads s"
    "trace (release_buffer_item i u) = trace u"
    using e(2) by (simp_all add: release_buffer_item_eq)
  have "bi_in_use (buffer (release_buffer_item i u) i) = 0"
    using buffer_release(2) [of i u i] assms(4,5) e(3) b by simp
  moreover have "\<forall>j. j \<noteq> i \<longrightarrow> buffer (release_buffer_item i u) j = buffer s j"
    using buffer_release(3) [of _ i u] b by simp
  ultimately show ?thesis using run t e(1) by (metis (no_types, lifting))
qed

definition bad_type_state :: "nat ins_state" where
  "bad_type_state = upd_buffer 0 (\<lambda>b. b\<lparr>bi_in_use := 1, bi_request := rq_zero\<rparr>) (ins_zero rs_zero sa_zero 0)"

lemma bad_type_state_buffer:
  "buffer bad_type_state 0 = buffer_zero\<lparr>bi_in_use := 1, bi_request := rq_zero\<rparr>"
  "length (buffer_items bad_type_state) = 100"
  by (simp_all add: bad_type_state_def upd_buffer_def ins_zero_def buffer_def mw_consts)

lemma rq_zero_type: "mt_request_of (rq_type (rq_base rq_zero)) = Some MtRequestInvalid"
  using mt_request_of_code [of MtRequestInvalid] by (simp add: rq_zero_def mt_request_code_val)

theorem assign_failure_answered_witness:
  "\<exists>resp s'. assign_work_to_thread os_zero 0 bad_type_state = Some (EINVAL, None, False, s')
     \<and> writes (trace s') = writes (trace bad_type_state) @ [(resp, MT_RESPONSE_BASE_SIZE)]
     \<and> answers rq_zero resp \<and> rs_status (rs_base resp) = MT_STATUS_INTERNAL_ERROR
     \<and> rs_sockfd (rs_base resp) = rq_sockfd (rq_base rq_zero)
     \<and> worker_threads s' = worker_threads bad_type_state \<and> bi_in_use (buffer s' 0) = 0
     \<and> (\<forall>j. j \<noteq> 0 \<longrightarrow> buffer s' j = buffer bad_type_state j)"
  by (rule assign_failure_answered [where th = None and ?s1.0 = bad_type_state])
    (simp_all add: bad_type_state_buffer choose_thread_def placement_of_def rq_zero_type)

section \<open>The oplock\<close>

text \<open>
  C14. The oplock is released by whatever request the thread's socket is processed for next. A
  send takes the oplock when it is queued. If a request of another kind for the same thread is
  processed before the send (for example a listen, by the dispatcher), it releases the oplock
  although the send is still in the queue, so that a close no longer has to wait for it.
\<close>

theorem oplock_released_early:
  assumes "process_buffer_item os i s = Some (rc, s')"
    and "bi_assigned_thread (buffer s i) = Some w" and "w < length (worker_threads s)"
    and "known_type (bi_request (buffer s i))"
    and "ti_oplock_acquired (thread s w)" and "ti_oplock (thread s w) = 0"
    and "wq_list (ti_work_queue (thread s w)) \<noteq> []"
  shows "wq_list (ti_work_queue (thread s' w)) = wq_list (ti_work_queue (thread s w))
     \<and> ti_oplock (thread s' w) = 1 \<and> acquire_oplock w s' \<noteq> None"
proof -
  obtain rc0 p s1 where h: "handle_request os (bi_request (buffer s i))
      ((stack s)\<lparr>rs_base := rs_base_zero\<rparr>) (bi_assigned_thread (buffer s i)) s = Some (rc0, p, s1)"
    using assms(1) by (rule process_returned)
  have wk: "pred_option (\<lambda>w. w < length (worker_threads s)) (bi_assigned_thread (buffer s i))"
    using assms(2,3) by simp
  obtain rc' s'' where "process_buffer_item os i s = Some (rc', s'')" and k: "keeps_sched s s''"
    and l: "\<And>j. lock (thread s'' j) = (if bi_assigned_thread (buffer s i) = Some j \<and> ti_oplock_acquired (thread s j)
            then (ti_oplock (thread s j) + 1, False) else lock (thread s j))"
    by (rule process_effect [OF refl refl h wk assms(4)]) (rule that)
  then have "s'' = s'" using assms(1) by simp
  with k l [of w] assms show ?thesis
    by (auto simp: keeps_sched_def sched_def lock_def acquire_oplock_def)
qed

definition send_queue :: workqueue where
  "send_queue = \<lparr>wq_id = 7, item_ct = 100, available_slots = 99, read_idx = 0, write_idx = 1,
     items = 1 # replicate 99 0\<rparr>"

definition lock_state :: "nat ins_state" where
  "lock_state = upd_thread 7 (\<lambda>t. t\<lparr>ti_in_use := 1, ti_oplock := 0, ti_oplock_acquired := True,
     ti_work_queue := send_queue\<rparr>) listen_state"

lemma lock_state_thread:
  "thread lock_state 7 = thread_zero\<lparr>ti_in_use := 1, ti_oplock := 0, ti_oplock_acquired := True,
     ti_work_queue := send_queue\<rparr>"
  "buffer lock_state j = buffer listen_state j" "length (worker_threads lock_state) = 50"
proof -
  have "thread listen_state 7 = thread_zero"
    by (simp add: listen_state_def thread_def ins_zero_def mw_consts)
  then show "thread lock_state 7 = thread_zero\<lparr>ti_in_use := 1, ti_oplock := 0, ti_oplock_acquired := True,
     ti_work_queue := send_queue\<rparr>"
    by (simp add: lock_state_def thread_upd_thread listen_state_buffer)
qed (simp_all add: lock_state_def listen_state_buffer)

theorem oplock_released_early_witness:
  "\<exists>rc s'. process_buffer_item os_zero 0 lock_state = Some (rc, s')
     \<and> wq_list (ti_work_queue (thread s' 7)) = [1] \<and> ti_oplock (thread s' 7) = 1
     \<and> acquire_oplock 7 s' \<noteq> None"
proof -
  have b: "bi_request (buffer lock_state 0) = listen_rq" "bi_assigned_thread (buffer lock_state 0) = Some 7"
    by (simp_all add: lock_state_thread listen_state_buffer)
  let ?p = "(stack lock_state)\<lparr>rs_base := rs_base_zero\<rparr>"
  obtain p s1 where "xe_net_listen_socket os_zero listen_rq ?p 7 lock_state = (0, p, s1)"
    by (simp add: xe_net_listen_socket_def case_prod_unfold Let_def)
  then have h: "handle_request os_zero listen_rq ?p (Some 7) lock_state = Some (0, p, s1)"
    by (simp add: handle_request_def listen_rq_def)
  obtain rc s' where run: "process_buffer_item os_zero 0 lock_state = Some (rc, s')"
    by (rule process_effect [OF b [symmetric] h]) (simp_all add: lock_state_thread)
  have q: "wq_list send_queue = [1]" by (simp add: wq_list_def send_queue_def)
  show ?thesis
    using oplock_released_early [OF run b(2)] b(1) run by (simp add: lock_state_thread q)
qed

section \<open>Blocking an address\<close>

text \<open>The dispatcher processes an address block request with a thread of its own, which stays in use.\<close>

lemma addr_block_processed:
  assumes q: "q = bi_request (buffer s i)" and w: "Some w = bi_assigned_thread (buffer s i)"
    and type: "rq_type (rq_base q) = mt_request_code MtRequestAddrBlock" and wk: "w < length (worker_threads s)" and ok: "write_ok os"
  obtains rc resp t where "process_buffer_item os i s = Some (rc, t)"
    "writes (trace t) = writes (trace s) @ [(resp, unat (rs_size (rs_base resp)))]" "answers q resp"
    "buffer_items t = buffer_items (release_buffer_item i s)" "threads_used t = threads_used s"
    "\<forall>args v. sr_ret (fst (os (SysNpfctl args) v)) \<noteq> 0 \<Longrightarrow> rc \<noteq> 0"
proof -
  have known: "mt_request_of (rq_type (rq_base q)) = Some MtRequestAddrBlock" using type by simp
  let ?p = "(stack s)\<lparr>rs_base := rs_base_zero\<rparr>"
  obtain rc0 p u where b: "xe_net_addr_block os q ?p w s = (rc0, p, u)" by (cases "xe_net_addr_block os q ?p w s")
  then have h: "handle_request os q ?p (Some w) s = Some (rc0, p, u)" by (simp add: handle_request_def known)
  have ans: "answers q p" using b by (auto simp: xe_net_addr_block_def Let_def case_prod_unfold)
  have fails: "rc0 \<noteq> 0" if "\<forall>args v. sr_ret (fst (os (SysNpfctl args) v)) \<noteq> 0"
    using b that by (auto simp: xe_net_addr_block_def Let_def case_prod_unfold do_sys_eq split: if_splits)
  have wk': "pred_option (\<lambda>w. w < length (worker_threads s)) (Some w)" using wk by simp
  show thesis
    by (rule process_effect [OF q w h wk'])
      (use that ok ans fails known type in \<open>auto simp: known_type_def mt_request_code_inj\<close>)
qed

text \<open>
  An address block request uses up a worker thread and, when it fails, is answered twice.
  The dispatcher acquires a thread for the request and no step releases it; and when the handler
  fails, as it does for a value that is neither block nor unblock, the handler's response is followed by an error response to the same request.
\<close>

theorem addr_block_leaks_thread:
  assumes "bi_request (buffer s i) = q" and "rq_type (rq_base q) = mt_request_code MtRequestAddrBlock"
    and "i < length (buffer_items s)" and "acquire_thread s = (Some w, s1)" and "write_ok os"
  shows "\<exists>rc s' ws. assign_work_to_thread os i s = Some (rc, Some w, False, s')
     \<and> w \<notin> threads_used s \<and> threads_used s' = insert w (threads_used s)
     \<and> writes (trace s') = writes (trace s) @ ws \<and> length ws = (if rc = 0 then 1 else 2)
     \<and> (\<forall>m. m \<in> set ws \<longrightarrow> answers q (fst m))
     \<and> ((\<forall>args v. sr_ret (fst (os (SysNpfctl args) v)) \<noteq> 0) \<longrightarrow> rc \<noteq> 0)"
proof -
  note acq = acquire_thread_effect [OF assms(4)]
  define s2 where "s2 = upd_buffer i (\<lambda>b. b\<lparr>bi_assigned_thread := Some w\<rparr>) s1"
  have buf: "q = bi_request (buffer s2 i)" "Some w = bi_assigned_thread (buffer s2 i)"
    using acq(2) assms(1,3) by (simp_all add: s2_def buffer_upd_buffer buffer_def upd_buffer_def)
  have wk: "w < length (worker_threads s2)" using acq(1) acq(6) by (simp add: s2_def keeps_sched_def)
  obtain rc resp s4 where run: "process_buffer_item os i s2 = Some (rc, s4)"
    and wr: "writes (trace s4) = writes (trace s2) @ [(resp, unat (rs_size (rs_base resp)))]" "answers q resp"
    and bi: "buffer_items s4 = buffer_items (release_buffer_item i s2)" "threads_used s4 = threads_used s2"
    and fails: "\<forall>args v. sr_ret (fst (os (SysNpfctl args) v)) \<noteq> 0 \<Longrightarrow> rc \<noteq> 0"
    by (rule addr_block_processed [OF buf assms(2) wk assms(5)]) (rule that)
  have used4: "threads_used s4 = insert w (threads_used s)"
    using bi(2) acq(8) by (simp add: s2_def threads_used_def thread_def)
  have q4: "bi_request (buffer s4 i) = q"
    using bi(1) buf(1) assms(3) acq(2) by (simp add: buffer_def release_buffer_item_eq upd_buffer_def s2_def free_buffer_def)
  obtain e s5 where d: "send_dispatch_error_response os q s4 = (e, s5)" by fastforce
  obtain err where err: "writes (trace s5) = writes (trace s4) @ [(err, MT_RESPONSE_BASE_SIZE)]" "answers q err"
    using dispatch_error_effect(1) [OF d] by blast
  let ?s6 = "release_buffer_item i (if rc = 0 then s4 else s5)"
  have "choose_thread q s = Some (0, Some w, s1)"
    using get_invalid [of s] assms(2,4) by (simp add: choose_thread_def placement_of_def)
  moreover have "\<not> REQUEST_REQUIRES_OPLOCK q"
    using assms(2) by (auto simp: REQUEST_REQUIRES_OPLOCK_def mt_request_code_inj)
  ultimately have fin: "assign_work_to_thread os i s = Some (rc, Some w, False, ?s6)"
    using run assms(1,2) q4 d
    by (simp add: assign_work_to_thread_def placement_of_def Let_def assign_exit_def flip: s2_def)
  let ?ws = "(resp, unat (rs_size (rs_base resp))) # (if rc = 0 then [] else [(err, MT_RESPONSE_BASE_SIZE)])"
  have tr: "writes (trace ?s6) = writes (trace s) @ ?ws"
    using wr(1) err(1) acq(3) by (simp add: release_buffer_item_eq s2_def)
  have "worker_threads s5 = worker_threads s4" using dispatch_error_effect(2) [OF d] .
  then have "threads_used ?s6 = insert w (threads_used s)"
    using used4 by (simp add: release_buffer_item_eq threads_used_def thread_def)
  then show ?thesis
    using fin tr acq(7) wr(2) err(2) fails
    by (intro exI [of _ rc] exI [of _ ?s6] exI [of _ ?ws]) auto
qed

text \<open>A device that takes every write and a packet filter that refuses every command.\<close>

fun os_filter_fails :: "nat os" where
  "os_filter_fails (SysWrite fd p n) w = (sysres0\<lparr>sr_ret := int n\<rparr>, w + 1)"
| "os_filter_fails (SysNpfctl args) w = (sysres0\<lparr>sr_ret := -1\<rparr>, w + 1)"
| "os_filter_fails _ w = (sysres0, w + 1)"

definition block_rq :: mt_request_generic where
  "block_rq = rq_zero\<lparr>rq_base := (rq_base rq_zero)\<lparr>rq_type := mt_request_code MtRequestAddrBlock, rq_id := 5\<rparr>,
     block_block := 1, block_addr := ''10.0.0.1''\<rparr>"

definition block_state :: "nat ins_state" where
  "block_state = upd_buffer 0 (\<lambda>b. b\<lparr>bi_in_use := 1, bi_request := block_rq\<rparr>) (ins_zero rs_zero sa_zero 0)"

lemma block_state_buffer:
  "buffer block_state 0 = buffer_zero\<lparr>bi_in_use := 1, bi_request := block_rq\<rparr>"
  "length (buffer_items block_state) = 100" "threads_used block_state = {}"
  "worker_threads block_state = replicate 50 thread_zero" "trace block_state = []"
  by (simp_all add: block_state_def upd_buffer_def ins_zero_def buffer_def mw_consts threads_used_def
      thread_def thread_zero_def)

theorem addr_block_leaks_thread_witness:
  "\<exists>rc s' ws. assign_work_to_thread os_filter_fails 0 block_state = Some (rc, Some 0, False, s')
     \<and> threads_used s' = {0} \<and> writes (trace s') = ws \<and> length ws = 2
     \<and> (\<forall>m. m \<in> set ws \<longrightarrow> answers block_rq (fst m)) \<and> rc \<noteq> 0"
proof -
  have q: "bi_request (buffer block_state 0) = block_rq"
    "rq_type (rq_base block_rq) = mt_request_code MtRequestAddrBlock"
    "0 < length (buffer_items block_state)" by (simp_all add: block_state_buffer block_rq_def)
  have "first_idx (\<lambda>t. ti_in_use t = 0) (replicate 50 thread_zero) = Some 0"
    by (simp add: numeral_eq_Suc thread_zero_def)
  then obtain s1 where a: "acquire_thread block_state = (Some 0, s1)"
    by (simp add: acquire_thread_eq block_state_buffer)
  have "write_ok os_filter_fails" by (simp add: write_ok_def)
  from addr_block_leaks_thread [OF q a this] obtain rc s' ws where
    "assign_work_to_thread os_filter_fails 0 block_state = Some (rc, Some 0, False, s')"
    "threads_used s' = {0}" "writes (trace s') = ws" "length ws = (if rc = 0 then 1 else 2)"
    "\<forall>m. m \<in> set ws \<longrightarrow> answers block_rq (fst m)" "rc \<noteq> 0"
    by (auto simp: block_state_buffer)
  then show ?thesis by auto
qed

end
