(* ===== verification/Scheduler.thy ===== *)
theory Scheduler
  imports Assignment
begin

text \<open>
  The dispatcher and the fifty workers running together (xenevent.c): a step relation whose steps
  are one iteration of the dispatcher's loop, one iteration of a worker's loop, or one heartbeat,
  in any order. The granularity is that of the loop bodies: each is taken as one step, so the
  relation has every order of requests, and does not show races inside one body.

  The invariant says that no buffer is ever lost: the buffers in use are exactly those in the
  work queues, each in the queue of the thread it is assigned to.
\<close>

section \<open>Buffers and queues\<close>

text \<open>
  \<open>bs\<close> are the buffer items, \<open>q w\<close> the buffer indices in the queue of thread \<open>w\<close>, and
  \<open>H\<close> the buffers that are in use and in no queue: those held by whoever runs at the moment.
\<close>

definition bufs_ok :: "nat set \<Rightarrow> buffer_item list \<Rightarrow> (nat \<Rightarrow> nat list) \<Rightarrow> bool" where
  "bufs_ok H bs q \<longleftrightarrow>
     length bs = BUFFER_ITEM_COUNT \<and> H \<subseteq> {..<BUFFER_ITEM_COUNT}
     \<and> (\<forall>i < BUFFER_ITEM_COUNT. bi_in_use (bs ! i) \<in> {0, 1} \<and> bi_idx (bs ! i) = i
          \<and> (bi_in_use (bs ! i) \<noteq> 0 \<longleftrightarrow> i \<in> H \<or> (\<exists>w < MAX_THREAD_COUNT. i \<in> set (q w))))
     \<and> (\<forall>w < MAX_THREAD_COUNT. distinct (q w) \<and>
          (\<forall>b \<in> set (q w). b < BUFFER_ITEM_COUNT \<and> b \<notin> H \<and> bi_assigned_thread (bs ! b) = Some w
             \<and> known_type (bi_request (bs ! b))))"

lemma bufs_reserve:
  assumes "bufs_ok {} bs q" and "i < BUFFER_ITEM_COUNT" and "bi_in_use (bs ! i) = 0"
  shows "bufs_ok {i} (bs[i := (bs ! i)\<lparr>bi_in_use := 1\<rparr>]) q"
  using assms by (auto simp: bufs_ok_def nth_list_update)

text \<open>The holder of a buffer may change its contents and its assignment.\<close>

lemma bufs_write:
  assumes "bufs_ok {i} bs q" and "bi_in_use x = 1" and "bi_idx x = i"
  shows "bufs_ok {i} (bs[i := x]) q"
  using assms by (auto simp: bufs_ok_def nth_list_update)

lemma bufs_free:
  assumes "bufs_ok {i} bs q"
  shows "bufs_ok {} (bs[i := free_buffer (bs ! i)]) q"
  using assms by (auto simp: bufs_ok_def nth_list_update free_buffer_def)

lemma bufs_enqueue:
  assumes "bufs_ok {i} bs q" and "w < MAX_THREAD_COUNT"
    and "bi_assigned_thread (bs ! i) = Some w" and "known_type (bi_request (bs ! i))"
  shows "bufs_ok {} bs (q(w := q w @ [i]))"
  using assms unfolding bufs_ok_def by (auto split: if_splits)

lemma bufs_dequeue:
  assumes "bufs_ok {} bs q" and "w < MAX_THREAD_COUNT" and "q w = b # r"
  shows "bufs_ok {b} bs (q(w := r))"
proof -
  have d: "distinct (q v)" "\<And>x. x \<in> set (q v) \<Longrightarrow> x < BUFFER_ITEM_COUNT
      \<and> bi_assigned_thread (bs ! x) = Some v \<and> known_type (bi_request (bs ! x))"
    if "v < MAX_THREAD_COUNT" for v
    using assms(1) that by (simp_all add: bufs_ok_def)
  have b: "b < BUFFER_ITEM_COUNT" "bi_assigned_thread (bs ! b) = Some w" "b \<notin> set r"
    using d [OF assms(2)] assms(3) by simp_all
  have other: "b \<notin> set (q v)" if "v < MAX_THREAD_COUNT" "v \<noteq> w" for v
    using d(2) [OF that(1), of b] b(2) that(2) by auto
  have mem: "(\<exists>v < MAX_THREAD_COUNT. i \<in> set (q v)) \<longleftrightarrow>
      i = b \<or> (\<exists>v < MAX_THREAD_COUNT. i \<in> set ((q(w := r)) v))" for i
    using assms(2,3) by (auto split: if_splits) (metis set_ConsD)
  have qs: "distinct ((q(w := r)) v) \<and> (\<forall>x \<in> set ((q(w := r)) v). x < BUFFER_ITEM_COUNT \<and> x \<notin> {b}
      \<and> bi_assigned_thread (bs ! x) = Some v \<and> known_type (bi_request (bs ! x)))"
    if "v < MAX_THREAD_COUNT" for v
    using d [OF that] other [OF that] b(3) assms(3) by auto
  show ?thesis
    using assms(1) b(1) qs unfolding bufs_ok_def mem by simp
qed

text \<open>A held buffer leaves room in every queue.\<close>

lemma bufs_room:
  assumes "bufs_ok H bs q" and "H \<noteq> {}" and "w < MAX_THREAD_COUNT"
  shows "length (q w) < BUFFER_ITEM_COUNT"
proof -
  obtain i where i: "i \<in> H" using assms(2) by blast
  have "i < BUFFER_ITEM_COUNT" "i \<notin> set (q w)" "set (q w) \<subseteq> {..<BUFFER_ITEM_COUNT}"
    using assms(1,3) i by (auto simp: bufs_ok_def)
  then have sub: "set (q w) \<subset> {..<BUFFER_ITEM_COUNT}" by auto
  have "length (q w) = card (set (q w))"
    using assms by (simp add: bufs_ok_def distinct_card)
  also have "\<dots> < card {..<BUFFER_ITEM_COUNT}" using sub by (rule psubset_card_mono [rotated]) simp
  finally show ?thesis by simp
qed

section \<open>Threads\<close>

definition thread_ok :: "u16 \<Rightarrow> nat \<Rightarrow> thread_item \<Rightarrow> bool" where
  "thread_ok c w t \<longleftrightarrow>
     ti_idx t = w \<and> good_fd c t \<and> wq_inv (ti_work_queue t)
     \<and> item_ct (ti_work_queue t) = BUFFER_ITEM_COUNT
     \<and> ti_awaiting_work_sem t = length (wq_list (ti_work_queue t))
     \<and> ti_oplock t + (if ti_oplock_acquired t then 1 else 0) = 1"

definition threads_ok :: "'w ins_state \<Rightarrow> bool" where
  "threads_ok s \<longleftrightarrow> threads_inv s \<and> (\<forall>w < MAX_THREAD_COUNT. thread_ok (client_id s) w (thread s w))"

definition queued :: "'w ins_state \<Rightarrow> nat \<Rightarrow> nat list" where
  "queued s w = map unat (wq_list (ti_work_queue (thread s w)))"

definition sys_inv_held :: "nat set \<Rightarrow> 'w ins_state \<Rightarrow> bool" where
  "sys_inv_held H s \<longleftrightarrow> threads_ok s \<and> bufs_ok H (buffer_items s) (queued s)"

definition sys_inv :: "'w ins_state \<Rightarrow> bool" where
  "sys_inv s \<longleftrightarrow> sys_inv_held {} s"

lemma queued_sched: "keeps_sched s t \<Longrightarrow> queued t = queued s"
  by (simp add: queued_def keeps_sched_def sched_def fun_eq_iff)

text \<open>Steps that leave the schedule alone keep the threads' part if the locks stay balanced.\<close>

definition lock_ok :: "nat \<times> bool \<Rightarrow> bool" where
  "lock_ok l \<longleftrightarrow> fst l + (if snd l then 1 else 0) = 1"

lemma threads_ok_sched:
  assumes "threads_ok s" and "keeps_sched s t"
    and "\<And>w. w < MAX_THREAD_COUNT \<Longrightarrow> lock_ok (lock (thread t w))"
  shows "threads_ok t"
  using assms
  by (auto simp: threads_ok_def thread_ok_def keeps_sched_def sched_def lock_ok_def lock_def)

lemma threads_ok_lock: "threads_ok s \<Longrightarrow> w < MAX_THREAD_COUNT \<Longrightarrow> lock_ok (lock (thread s w))"
  by (simp add: threads_ok_def thread_ok_def lock_ok_def lock_def)

lemma sys_inv_sched:
  assumes "sys_inv_held H s" and "keeps_sched s t"
    and "\<And>w. w < MAX_THREAD_COUNT \<Longrightarrow> lock_ok (lock (thread t w))"
    and "bufs_ok H' (buffer_items t) (queued s)"
  shows "sys_inv_held H' t"
  using assms queued_sched [OF assms(2)] threads_ok_sched [of s t]
  by (simp add: sys_inv_held_def)

section \<open>Processing a held buffer\<close>

lemma buffer_items_release: "buffer_items (release_buffer_item i s) = (buffer_items s)[i := free_buffer (buffer_items s ! i)]"
  by (simp add: release_buffer_item_eq upd_buffer_def)

lemma release_free:
  assumes "bi_in_use (buffer s i) = 0"
  shows "release_buffer_item i s = s"
  using assms by (simp add: release_buffer_item_eq upd_buffer_def free_buffer_def buffer_def)

lemma process_step:
  assumes inv: "sys_inv_held {i} s" and run: "process_buffer_item os i s = Some (rc, s')"
    and known: "known_type (bi_request (buffer s i))"
    and wk: "pred_option (\<lambda>w. w < MAX_THREAD_COUNT) (bi_assigned_thread (buffer s i))"
  shows "sys_inv_held {} s'" "bi_in_use (buffer s' i) = 0"
proof -
  have len: "length (worker_threads s) = MAX_THREAD_COUNT"
    using inv by (simp add: sys_inv_held_def threads_ok_def threads_inv_def)
  with wk have wk': "pred_option (\<lambda>w. w < length (worker_threads s)) (bi_assigned_thread (buffer s i))" by simp
  obtain rc0 p s1 where h: "handle_request os (bi_request (buffer s i))
      ((stack s)\<lparr>rs_base := rs_base_zero\<rparr>) (bi_assigned_thread (buffer s i)) s = Some (rc0, p, s1)"
    using run by (rule process_returned)
  obtain rc' s'' where r: "process_buffer_item os i s = Some (rc', s'')"
    and b: "buffer_items s'' = buffer_items (release_buffer_item i s)" and k: "keeps_sched s s''"
    and l: "\<And>j. lock (thread s'' j) = (if bi_assigned_thread (buffer s i) = Some j \<and> ti_oplock_acquired (thread s j)
            then (ti_oplock (thread s j) + 1, False) else lock (thread s j))"
    by (rule process_effect [OF refl refl h wk' known]) (rule that)
  have s'': "s'' = s'" using run r by simp
  have th: "threads_ok s" and bufs: "bufs_ok {i} (buffer_items s) (queued s)"
    using inv by (simp_all add: sys_inv_held_def)
  have "lock_ok (lock (thread s' w))" if "w < MAX_THREAD_COUNT" for w
    using l [of w] threads_ok_lock [OF th that] s'' by (auto simp: lock_ok_def lock_def)
  then show "sys_inv_held {} s'"
    using sys_inv_sched [OF inv] k s'' b bufs_free [OF bufs] by (simp add: buffer_items_release)
  have "bi_in_use (buffer_items s ! i) = 1" "i < length (buffer_items s)"
    using bufs by (auto simp: bufs_ok_def)
  then show "bi_in_use (buffer s' i) = 0"
    using b s'' by (simp add: buffer_items_release buffer_def free_buffer_def)
qed

section \<open>A step of a worker\<close>

lemma unat_unassigned: "unat (WORK_QUEUE_UNASSIGNED_IDX) = 65535"
  by (simp add: WORK_QUEUE_UNASSIGNED_IDX_def unsigned_minus_1_eq_mask mask_eq_exp_minus_1)

text \<open>Taking the oldest item: the semaphore and the queue go down together.\<close>

lemma take_step:
  assumes inv: "sys_inv s" and w: "w < MAX_THREAD_COUNT" and sem: "ti_awaiting_work_sem (thread s w) \<noteq> 0"
    and t: "t = upd_thread w (\<lambda>t. t\<lparr>ti_awaiting_work_sem := ti_awaiting_work_sem t - 1,
                 ti_work_queue := snd (workqueue_dequeue (ti_work_queue t))\<rparr>) s"
    and b: "b = unat (fst (workqueue_dequeue (ti_work_queue (thread s w))))"
  shows "sys_inv_held {b} t" "b < BUFFER_ITEM_COUNT" "bi_assigned_thread (buffer t b) = Some w"
    "known_type (bi_request (buffer t b))"
proof -
  let ?wq = "ti_work_queue (thread s w)"
  have ok: "threads_ok s" "bufs_ok {} (buffer_items s) (queued s)"
    using inv by (simp_all add: sys_inv_def sys_inv_held_def)
  have tw: "thread_ok (client_id s) w (thread s w)" and len: "w < length (worker_threads s)"
    using ok(1) w by (simp_all add: threads_ok_def threads_inv_def)
  have ne: "wq_list ?wq \<noteq> []" using tw sem by (auto simp: thread_ok_def simp del: wq_list_length)
  have wqi: "wq_inv ?wq" using tw by (simp add: thread_ok_def)
  note dl = dequeue_list [OF wqi ne]
  have q: "queued s w = b # map unat (wq_list (snd (workqueue_dequeue ?wq)))"
    using dl b by (metis list.simps(9) queued_def)
  have th: "thread t j = (if j = w then (thread s w)\<lparr>ti_awaiting_work_sem := ti_awaiting_work_sem (thread s w) - 1,
      ti_work_queue := snd (workqueue_dequeue ?wq)\<rparr> else thread s j)" for j
    using len by (auto simp: t thread_upd_thread)
  have bt: "buffer_items t = buffer_items s" "client_id t = client_id s"
    "length (worker_threads t) = length (worker_threads s)" by (simp_all add: t)
  have qt: "queued t = (queued s)(w := map unat (wq_list (snd (workqueue_dequeue ?wq))))"
    by (auto simp: queued_def th fun_eq_iff)
  have "length (wq_list (snd (workqueue_dequeue ?wq))) = ti_awaiting_work_sem (thread s w) - 1"
    using tw dl by (metis thread_ok_def diff_Suc_1 length_Cons)
  then have "thread_ok (client_id t) w (thread t w)"
    using tw dequeue_inv [OF wqi] dequeue_item_ct [of ?wq] len
    by (auto simp: th thread_ok_def good_fd_def bt(2) simp del: wq_list_length)
  then have "threads_ok t"
    using ok(1) len by (auto simp: threads_ok_def threads_inv_def th bt)
  moreover have "bufs_ok {b} (buffer_items t) (queued t)"
    using bufs_dequeue [OF ok(2) w q] by (simp add: bt qt)
  ultimately show "sys_inv_held {b} t" by (simp add: sys_inv_held_def)
  show "b < BUFFER_ITEM_COUNT" "bi_assigned_thread (buffer t b) = Some w" "known_type (bi_request (buffer t b))"
    using ok(2) w q by (simp_all add: bufs_ok_def buffer_def bt)
qed

lemma upd_thread_comp: "upd_thread i g (upd_thread i f s) = upd_thread i (\<lambda>b. g (f b)) s"
  by (cases "i < length (worker_threads s)") (simp_all add: upd_thread_def list_update_beyond)

lemma worker_step:
  assumes inv: "sys_inv s" and w: "w < MAX_THREAD_COUNT" and run: "worker_iteration os w s = Some (go, s')"
  shows "sys_inv s'"
proof -
  have sem: "ti_awaiting_work_sem (thread s w) \<noteq> 0"
    using run by (auto simp: worker_iteration_def split: if_splits)
  define t where "t = upd_thread w (\<lambda>t. t\<lparr>ti_awaiting_work_sem := ti_awaiting_work_sem t - 1,
                 ti_work_queue := snd (workqueue_dequeue (ti_work_queue t))\<rparr>) s"
  define b where "b = unat (fst (workqueue_dequeue (ti_work_queue (thread s w))))"
  note tk = take_step [OF inv w sem t_def b_def]
  have len: "w < length (worker_threads s)"
    using inv w by (simp add: sys_inv_def sys_inv_held_def threads_ok_def threads_inv_def)
  have nu: "fst (workqueue_dequeue (ti_work_queue (thread s w))) \<noteq> WORK_QUEUE_UNASSIGNED_IDX"
    using tk(2) unat_unassigned by (auto simp: b_def mw_consts)
  let ?s1 = "upd_thread w (\<lambda>t. t\<lparr>ti_awaiting_work_sem := ti_awaiting_work_sem t - 1\<rparr>) s"
  have wq: "ti_work_queue (thread ?s1 w) = ti_work_queue (thread s w)"
    using len by (simp add: thread_upd_thread)
  have "upd_thread w (\<lambda>t. t\<lparr>ti_work_queue := snd (workqueue_dequeue (ti_work_queue (thread s w)))\<rparr>) ?s1 = t"
    unfolding t_def upd_thread_comp by (simp add: upd_thread_def thread_def)
  then have "worker_iteration os w s = (case process_buffer_item os b t of None \<Rightarrow> None
      | Some (rc, s) \<Rightarrow> Some (True, release_buffer_item b s))"
    using sem nu tk(2) wq
    by (simp add: worker_iteration_def Let_def case_prod_unfold b_def split: option.split)
  then obtain rc u where p: "process_buffer_item os b t = Some (rc, u)" "s' = release_buffer_item b u"
    using run by (auto split: option.splits)
  have wk: "pred_option (\<lambda>w. w < MAX_THREAD_COUNT) (bi_assigned_thread (buffer t b))" using tk(3) w by simp
  note ps = process_step [OF tk(1) p(1) tk(4) wk]
  show ?thesis using ps p(2) release_free [OF ps(2)] by (simp add: sys_inv_def)
qed

section \<open>A step of the dispatcher\<close>

lemma placement_known: "placement_of (rq_type (rq_base q)) \<noteq> Unknown \<Longrightarrow> known_type q"
  by (auto simp: placement_of_def known_type_def split: option.splits mt_request_type.splits)

lemma get_thread_effect:
  assumes "get_worker_thread_for_fd fd s = Some (0, th, t)" and "threads_inv s"
  shows "keeps_sched s t \<and> buffer_items t = buffer_items s \<and> (\<forall>j. lock (thread t j) = lock (thread s j))
     \<and> (\<exists>w < MAX_THREAD_COUNT. th = Some w)"
proof (cases "fd = MT_INVALID_SOCKET_FD")
  case True
  then have a: "acquire_thread s = (th, t)" "fst (acquire_thread s) \<noteq> None"
    using assms(1) get_invalid [of s] by (auto split: if_splits)
  then obtain w where w: "th = Some w" by auto
  note e = acquire_thread_effect [OF a(1)]
  show ?thesis using e(1,2,4) e(6) [OF w] w assms(2) by (auto simp: threads_inv_def)
next
  case False
  then show ?thesis using assms(1) lookup_sound [of fd s 0 _ t]
    by (auto simp: get_worker_thread_for_fd_def Let_def split: if_splits)
qed

lemma choose_effect:
  assumes "choose_thread q s = Some (0, th, t)" and "threads_inv s"
  shows "keeps_sched s t" "buffer_items t = buffer_items s" "lock (thread t j) = lock (thread s j)"
    "pred_option (\<lambda>w. w < MAX_THREAD_COUNT) th" "known_type q"
    "placement_of (rq_type (rq_base q)) \<noteq> MainNoWorker \<Longrightarrow> \<exists>w. th = Some w"
proof -
  have pl: "placement_of (rq_type (rq_base q)) \<noteq> Unknown"
    using assms(1) by (auto simp: choose_thread_def)
  then show "known_type q" by (rule placement_known)
  have c: "(placement_of (rq_type (rq_base q)) = MainNoWorker \<and> th = None \<and> t = s)
      \<or> (\<exists>fd. get_worker_thread_for_fd fd s = Some (0, th, t))"
    using assms(1) pl by (auto simp: choose_thread_def split: placement.splits)
  then show "keeps_sched s t" "buffer_items t = buffer_items s" "lock (thread t j) = lock (thread s j)"
    "pred_option (\<lambda>w. w < MAX_THREAD_COUNT) th"
    "placement_of (rq_type (rq_base q)) \<noteq> MainNoWorker \<Longrightarrow> \<exists>w. th = Some w"
    using get_thread_effect [OF _ assms(2)] by fastforce+
qed

lemma acquire_oplock_effect:
  assumes "acquire_oplock w s = Some t" and "w < length (worker_threads s)" and "lock_ok (lock (thread s w))"
  shows "keeps_sched s t" "buffer_items t = buffer_items s"
    "lock (thread t j) = (if j = w then (0, True) else lock (thread s j))"
proof -
  have t: "t = upd_thread w (\<lambda>t. t\<lparr>ti_oplock := ti_oplock t - 1, ti_oplock_acquired := True\<rparr>) s"
    "ti_oplock (thread s w) \<noteq> 0"
    using assms(1) by (auto simp: acquire_oplock_def split: if_splits)
  show "keeps_sched s t" unfolding t by (rule keeps_sched_upd) (simp_all add: sched_def good_fd_def)
  show "buffer_items t = buffer_items s" by (simp add: t)
  show "lock (thread t j) = (if j = w then (0, True) else lock (thread s j))"
    using t(2) assms(2,3) by (auto simp: t(1) thread_upd_thread lock_def lock_ok_def split: if_splits)
qed

text \<open>The exit path, for a buffer still held and for one already released.\<close>

lemma dispatch_error_keeps:
  assumes "send_dispatch_error_response os q s = (rc, t)" and "sys_inv_held H s"
  shows "sys_inv_held H t"
proof (rule sys_inv_sched [OF assms(2) dispatch_error_effect(4) [OF assms(1)]])
  have th: "thread t w = thread s w" for w
    using dispatch_error_effect(2) [OF assms(1)] by (simp add: thread_def)
  show "lock_ok (lock (thread t w))" if "w < MAX_THREAD_COUNT" for w
    using threads_ok_lock [of s, OF _ that] assms(2) th by (simp add: sys_inv_held_def)
  show "bufs_ok H (buffer_items t) (queued s)"
    using dispatch_error_effect(3) [OF assms(1)] assms(2) by (simp add: sys_inv_held_def)
qed

lemma release_step:
  assumes "sys_inv_held {i} s"
  shows "sys_inv (release_buffer_item i s)"
  unfolding sys_inv_def
proof (rule sys_inv_sched [OF assms])
  show "lock_ok (lock (thread (release_buffer_item i s) w))" if "w < MAX_THREAD_COUNT" for w
    using threads_ok_lock [of s, OF _ that] assms by (simp add: sys_inv_held_def release_buffer_item_eq)
  show "bufs_ok {} (buffer_items (release_buffer_item i s)) (queued s)"
    using assms bufs_free [of i "buffer_items s"] by (simp add: sys_inv_held_def buffer_items_release)
qed simp

lemma exit_step:
  assumes "assign_exit os i rc th further s = (rc', th', mor, t)" and "\<not> (further \<and> rc = 0)"
    and "sys_inv_held {i} s \<or> sys_inv s \<and> bi_in_use (buffer s i) = 0"
  shows "sys_inv t" "\<not> mor"
proof -
  obtain e u where d: "send_dispatch_error_response os (bi_request (buffer s i)) s = (e, u)" by fastforce
  have b: "buffer u i = buffer s i" using dispatch_error_effect(3) [OF d] by (simp add: buffer_def)
  let ?v = "if rc \<noteq> 0 then u else s"
  have t: "t = release_buffer_item i ?v" "\<not> mor"
    using assms(1,2) d by (auto simp: assign_exit_def Let_def)
  show "\<not> mor" by (rule t(2))
  have "sys_inv_held {i} ?v \<or> sys_inv ?v \<and> bi_in_use (buffer ?v i) = 0"
    using assms(3) dispatch_error_keeps [OF d] b by (auto simp: sys_inv_def)
  then show "sys_inv t" using t(1) release_step [of i ?v] release_free [of ?v i] by auto
qed

text \<open>Queueing a held buffer and waking the worker: the queue has room, so this never fails.\<close>

lemma enqueue_step:
  assumes inv: "sys_inv_held {i} s" and w: "w < MAX_THREAD_COUNT"
    and as: "bi_assigned_thread (buffer s i) = Some w" "known_type (bi_request (buffer s i))"
    and run: "enqueue_work w i s = (rc, t)"
  shows "rc = 0" "sys_inv (upd_thread w (\<lambda>t. t\<lparr>ti_awaiting_work_sem := ti_awaiting_work_sem t + 1\<rparr>) t)"
proof -
  let ?wq = "ti_work_queue (thread s w)"
  have ok: "threads_ok s" and bufs: "bufs_ok {i} (buffer_items s) (queued s)"
    using inv by (simp_all add: sys_inv_held_def)
  have i: "i < BUFFER_ITEM_COUNT" "bi_idx (buffer s i) = i" using bufs by (auto simp: bufs_ok_def buffer_def)
  have len: "w < length (worker_threads s)" using ok w by (simp add: threads_ok_def threads_inv_def)
  have tw: "thread_ok (client_id s) w (thread s w)" using ok w by (simp add: threads_ok_def)
  then have wqi: "wq_inv ?wq" "item_ct ?wq = BUFFER_ITEM_COUNT" by (simp_all add: thread_ok_def)
  have "length (wq_list ?wq) < BUFFER_ITEM_COUNT" using bufs_room [OF bufs _ w] by (simp add: queued_def)
  then have room: "available_slots ?wq \<noteq> 0" using wqi by auto
  let ?x = "of_nat i :: work_queue_buffer_idx"
  have x: "unat ?x = i" using i(1) by (intro unat_of_nat_u16) (simp add: mw_consts)
  let ?wq' = "snd (workqueue_enqueue ?wq ?x)"
  have e: "fst (workqueue_enqueue ?wq ?x) = 0" using room by (simp add: workqueue_enqueue_def)
  have rt: "rc = 0" "t = upd_thread w (\<lambda>t. t\<lparr>ti_work_queue := ?wq'\<rparr>) s"
    using run e i(2) by (auto simp: enqueue_work_def case_prod_unfold Let_def)
  show "rc = 0" by (rule rt(1))
  define u where "u = upd_thread w (\<lambda>t. t\<lparr>ti_awaiting_work_sem := ti_awaiting_work_sem t + 1\<rparr>) t"
  have th: "thread u j = (if j = w then (thread s w)\<lparr>ti_work_queue := ?wq',
      ti_awaiting_work_sem := ti_awaiting_work_sem (thread s w) + 1\<rparr> else thread s j)" for j
    using len by (auto simp: u_def rt(2) thread_upd_thread)
  have fr: "buffer_items u = buffer_items s" "client_id u = client_id s"
    "length (worker_threads u) = length (worker_threads s)" by (simp_all add: u_def rt(2))
  have wl: "wq_list ?wq' = wq_list ?wq @ [?x]" using enqueue_list [OF wqi(1) room] .
  have q: "queued u = (queued s)(w := queued s w @ [i])" by (auto simp: queued_def th wl x fun_eq_iff)
  have "thread_ok (client_id u) w (thread u w)"
    using tw enqueue_inv [OF wqi(1)] enqueue_item_ct [of ?wq ?x]
    by (auto simp: th thread_ok_def good_fd_def fr(2) wl simp del: wq_list_length)
  then have "threads_ok u"
    using ok len by (auto simp: threads_ok_def threads_inv_def th fr)
  moreover have "bufs_ok {} (buffer_items u) (queued u)"
    using bufs_enqueue [OF bufs w] as by (simp add: fr q buffer_def)
  ultimately have "sys_inv u" by (simp add: sys_inv_def sys_inv_held_def)
  then show "sys_inv (upd_thread w (\<lambda>t. t\<lparr>ti_awaiting_work_sem := ti_awaiting_work_sem t + 1\<rparr>) t)"
    unfolding u_def .
qed

lemma assign_step:
  assumes inv: "sys_inv_held {i} s" and run: "assign_work_to_thread os i s = Some (rc, th, further, s')"
  shows "\<not> further \<Longrightarrow> sys_inv s'"
    and "further \<Longrightarrow> rc = 0 \<and> (\<exists>w < MAX_THREAD_COUNT. th = Some w
           \<and> sys_inv (upd_thread w (\<lambda>t. t\<lparr>ti_awaiting_work_sem := ti_awaiting_work_sem t + 1\<rparr>) s'))"
proof -
  let ?q = "bi_request (buffer s i)"
  obtain crc at s1 where ch: "choose_thread ?q s = Some (crc, at, s1)"
    using run by (auto simp: assign_work_to_thread_def Let_def split: option.splits)
  have ok: "threads_ok s" "threads_inv s" and bufs: "bufs_ok {i} (buffer_items s) (queued s)"
    using inv by (simp_all add: sys_inv_held_def threads_ok_def)
  have goal: "(\<not> further \<longrightarrow> sys_inv s') \<and> (further \<longrightarrow> rc = 0 \<and> (\<exists>w < MAX_THREAD_COUNT. th = Some w
           \<and> sys_inv (upd_thread w (\<lambda>t. t\<lparr>ti_awaiting_work_sem := ti_awaiting_work_sem t + 1\<rparr>) s')))"
  proof (cases "crc = 0")
    case False
    then have "assign_exit os i crc at True s = (rc, th, further, s')"
      using run ch choose_failed [OF ch False] by (simp add: assign_work_to_thread_def Let_def)
    then show ?thesis using exit_step [of os i crc at True s rc th further s'] False inv by simp
  next
    case True
    note c = choose_effect [OF ch [unfolded True] ok(2)]
    define s2 where "s2 = upd_buffer i (\<lambda>b. b\<lparr>bi_assigned_thread := at\<rparr>) s1"
    have i: "i < length (buffer_items s)" "bi_in_use (buffer_items s ! i) = 1" "bi_idx (buffer_items s ! i) = i"
      using bufs by (auto simp: bufs_ok_def)
    have b2: "buffer_items s2 = (buffer_items s)[i := (buffer_items s ! i)\<lparr>bi_assigned_thread := at\<rparr>]"
      using c(2) by (simp add: s2_def upd_buffer_def)
    have inv2: "sys_inv_held {i} s2"
    proof (rule sys_inv_sched [OF inv])
      show "keeps_sched s s2" unfolding s2_def by (rule keeps_sched_trans [OF c(1)]) simp
      show "lock_ok (lock (thread s2 w))" if "w < MAX_THREAD_COUNT" for w
        using threads_ok_lock [OF ok(1) that] c(3) by (simp add: s2_def)
      show "bufs_ok {i} (buffer_items s2) (queued s)"
        unfolding b2 by (rule bufs_write [OF bufs]) (simp_all add: i)
    qed
    have ok2: "threads_ok s2" "length (worker_threads s2) = MAX_THREAD_COUNT"
      using inv2 by (simp_all add: sys_inv_held_def threads_ok_def threads_inv_def)
    have eq: "assign_work_to_thread os i s =
        (case (if REQUEST_REQUIRES_OPLOCK ?q then Option.bind at (\<lambda>w. acquire_oplock w s2) else Some s2) of
           None \<Rightarrow> None
         | Some s3 \<Rightarrow>
             if placement_of (rq_type (rq_base ?q)) \<noteq> WorkerExisting then
               (case process_buffer_item os i s3 of None \<Rightarrow> None
                | Some (rc, s) \<Rightarrow> Some (assign_exit os i rc at False s))
             else (case at of None \<Rightarrow> None
                | Some w \<Rightarrow> let (rc, s) = enqueue_work w i s3 in Some (assign_exit os i rc at True s)))"
      using ch True by (simp add: assign_work_to_thread_def Let_def s2_def)
    obtain s3 where s3: "(if REQUEST_REQUIRES_OPLOCK ?q then Option.bind at (\<lambda>w. acquire_oplock w s2) else Some s2) = Some s3"
      using run unfolding eq by (auto split: option.splits)
    have k3: "keeps_sched s2 s3 \<and> buffer_items s3 = buffer_items s2
        \<and> (\<forall>w < MAX_THREAD_COUNT. lock_ok (lock (thread s3 w)))"
    proof (cases "REQUEST_REQUIRES_OPLOCK ?q")
      case True
      then obtain w where w: "at = Some w" "acquire_oplock w s2 = Some s3"
        using s3 by (auto simp: bind_eq_Some_conv)
      then have wl: "w < MAX_THREAD_COUNT" using c(4) by simp
      note a = acquire_oplock_effect [OF w(2) _ threads_ok_lock [OF ok2(1) wl]]
      have "lock_ok (0, True)" by (simp add: lock_ok_def)
      with a wl ok2 threads_ok_lock [OF ok2(1)] show ?thesis by simp
    next
      case False
      then show ?thesis using s3 threads_ok_lock [OF ok2(1)] by simp
    qed
    have inv3: "sys_inv_held {i} s3"
      by (rule sys_inv_sched [OF inv2]) (use k3 inv2 in \<open>auto simp: sys_inv_held_def\<close>)
    have bi: "buffer s3 i = (buffer s i)\<lparr>bi_assigned_thread := at\<rparr>"
      using k3 b2 i(1) by (simp add: buffer_def)
    show ?thesis
    proof (cases "placement_of (rq_type (rq_base ?q)) = WorkerExisting")
      case False
      then obtain prc s4 where p: "process_buffer_item os i s3 = Some (prc, s4)"
        and e: "assign_exit os i prc at False s4 = (rc, th, further, s')"
        using run unfolding eq s3 by (auto split: option.splits)
      note ps = process_step [OF inv3 p]
      show ?thesis
        using exit_step [OF e] ps bi c(4,5) by (simp add: sys_inv_def)
    next
      case wrk: True
      obtain w where w: "at = Some w" using c(6) wrk by auto
      then have wl: "w < MAX_THREAD_COUNT" using c(4) by simp
      obtain erc s4 where en: "enqueue_work w i s3 = (erc, s4)" by fastforce
      note es = enqueue_step [OF inv3 wl _ _ en]
      have "erc = 0" "sys_inv (upd_thread w (\<lambda>t. t\<lparr>ti_awaiting_work_sem := ti_awaiting_work_sem t + 1\<rparr>) s4)"
        using es bi c(5) w by simp_all
      moreover have "assign_exit os i erc at True s4 = (rc, th, further, s')"
        using run wrk en w unfolding eq s3 by simp
      ultimately show ?thesis using w wl by (auto simp: assign_exit_def Let_def)
    qed
  qed
  show "\<not> further \<Longrightarrow> sys_inv s'"
    and "further \<Longrightarrow> rc = 0 \<and> (\<exists>w < MAX_THREAD_COUNT. th = Some w
           \<and> sys_inv (upd_thread w (\<lambda>t. t\<lparr>ti_awaiting_work_sem := ti_awaiting_work_sem t + 1\<rparr>) s'))"
    using goal by blast+
qed

lemma dispatch_step:
  assumes inv: "sys_inv s" and run: "dispatch_once os s = Some (Next s')"
  shows "sys_inv s'"
proof -
  have ok: "threads_ok s" and bufs: "bufs_ok {} (buffer_items s) (queued s)"
    using inv by (simp_all add: sys_inv_def sys_inv_held_def)
  let ?f = "first_idx (\<lambda>b. bi_in_use b = 0) (buffer_items s)"
  show ?thesis
  proof (cases ?f)
    case None
    then show ?thesis
      using run inv by (simp add: dispatch_once_def reserve_available_buffer_item_def atomic_cas_32_def)
  next
    case (Some i)
    have i: "i < BUFFER_ITEM_COUNT" "bi_in_use (buffer_items s ! i) = 0" "i < length (buffer_items s)"
      using first_idx_SomeD(1,2) [OF Some] bufs by (simp_all add: bufs_ok_def)
    define s1 where "s1 = upd_buffer i (\<lambda>b. b\<lparr>bi_in_use := 1\<rparr>) s"
    have rv: "reserve_available_buffer_item s = (0, Some i, s1)"
      using Some i(2) by (simp add: reserve_available_buffer_item_def atomic_cas_32_def s1_def upd_buffer_def)
    obtain r s2 where d: "do_sys os (SysRead (input_fd s1) ONE_REQUEST_REGION_SIZE) s1 = (r, s2)" by fastforce
    define s3 where "s3 = upd_buffer i (\<lambda>b. b\<lparr>bi_request := sr_request r\<rparr>) s2"
    note fd = do_sys_frame [OF d]
    have k: "keeps_sched s s3"
      using keeps_sched_trans [OF keeps_sched_trans [OF _ keeps_sched_do_sys [OF d]]]
      by (simp add: s1_def s3_def)
    have b3: "buffer_items s3 = ((buffer_items s)[i := (buffer_items s ! i)\<lparr>bi_in_use := 1\<rparr>])
        [i := (buffer_items s ! i)\<lparr>bi_in_use := 1, bi_request := sr_request r\<rparr>]"
      using fd(1) i(3) by (simp add: s3_def s1_def upd_buffer_def)
    have "bufs_ok {i} (buffer_items s3) (queued s)"
      unfolding b3 by (rule bufs_write [OF bufs_reserve [OF bufs i(1,2)]])
        (use bufs i(1) in \<open>simp_all add: bufs_ok_def\<close>)
    moreover have "thread s3 w = thread s w" for w using fd(13) by (simp add: s3_def s1_def)
    ultimately have inv3: "sys_inv_held {i} s3"
      using sys_inv_sched [OF inv [unfolded sys_inv_def] k] threads_ok_lock [OF ok] by simp
    show ?thesis
    proof (cases "sr_ret r < int MT_REQUEST_BASE_SIZE
        \<or> unat (rq_size (rq_base (bi_request (buffer s3 i)))) > ONE_REQUEST_REGION_SIZE")
      case True
      then show ?thesis using run rv d by (simp add: dispatch_once_def Let_def s3_def)
    next
      case False
      then obtain rc th further s4 where a: "assign_work_to_thread os i s3 = Some (rc, th, further, s4)"
        and n: "(if rc \<noteq> 0 \<or> \<not> further then Some (Next s4) else (case th of None \<Rightarrow> None
             | Some w \<Rightarrow> Some (Next (upd_thread w
                 (\<lambda>t. t\<lparr>ti_awaiting_work_sem := ti_awaiting_work_sem t + 1\<rparr>) s4)))) = Some (Next s')"
        using run rv d by (auto simp: dispatch_once_def Let_def s3_def split: option.splits)
      show ?thesis
      proof (cases further)
        case True
        with assign_step(2) [OF inv3 a] n show ?thesis by auto
      next
        case no: False
        with assign_step(1) [OF inv3 a] n show ?thesis by simp
      qed
    qed
  qed
qed

section \<open>The system\<close>

inductive ins_step :: "'w os \<Rightarrow> 'w ins_state \<Rightarrow> 'w ins_state \<Rightarrow> bool" for os where
  Dispatch: "dispatch_once os s = Some (Next s') \<Longrightarrow> ins_step os s s'"
| Work: "w < MAX_THREAD_COUNT \<Longrightarrow> worker_iteration os w s = Some (True, s') \<Longrightarrow> ins_step os s s'"
| Heartbeat: "heartbeat_iteration os s = (True, s') \<Longrightarrow> ins_step os s s'"

inductive_cases ins_stepE: "ins_step os s s'"

lemma heartbeat_step:
  assumes "sys_inv s" and "heartbeat_iteration os s = (go, s')"
  shows "sys_inv s'"
proof -
  obtain r t where d: "do_sys os (SysIoctlHeartbeat (input_fd s) (heartbeat_stats s)) s = (r, t)" by fastforce
  have inv: "sys_inv_held {} s" using assms(1) by (simp add: sys_inv_def)
  have "sys_inv_held {} t"
    by (rule sys_inv_sched [OF inv keeps_sched_do_sys [OF d]])
      (use inv do_sys_frame [OF d] threads_ok_lock in \<open>auto simp: sys_inv_held_def\<close>)
  then show ?thesis using assms d by (auto simp: heartbeat_iteration_def sys_inv_def split: if_splits)
qed

lemma ins_step_inv: "ins_step os s s' \<Longrightarrow> sys_inv s \<Longrightarrow> sys_inv s'"
  by (erule ins_stepE) (blast intro: dispatch_step worker_step heartbeat_step)+

lemma reachable_inv: "(ins_step os)\<^sup>*\<^sup>* s s' \<Longrightarrow> sys_inv s \<Longrightarrow> sys_inv s'"
  by (induction rule: rtranclp_induct) (auto intro: ins_step_inv)

section \<open>The initial state\<close>

lemma init_threads_effect:
  assumes "init_threads mem is n s = (0, t)" and "distinct is" and "\<forall>i \<in> set is. i < length (worker_threads s)"
  shows "buffer_items t = buffer_items s \<and> client_id t = client_id s
     \<and> length (worker_threads t) = length (worker_threads s)
     \<and> (\<forall>j. j \<notin> set is \<longrightarrow> thread t j = thread s j)
     \<and> (\<forall>j. j \<in> set is \<longrightarrow> (\<exists>wq k k'. workqueue_alloc k (fst (mem j)) (snd (mem j)) BUFFER_ITEM_COUNT = (Some wq, k')
          \<and> thread t j = (thread s j)\<lparr>ti_idx := j, ti_work_queue := wq, ti_awaiting_work_sem := 0,
               ti_oplock := 1, ti_oplock_acquired := False\<rparr>))"
  using assms
proof (induction "is" arbitrary: n s)
  case Nil
  then show ?case by simp
next
  case (Cons i js)
  let ?s1 = "upd_thread i (\<lambda>t. t\<lparr>ti_idx := i\<rparr>) s"
  obtain wq n' where al: "workqueue_alloc n (fst (mem i)) (snd (mem i)) BUFFER_ITEM_COUNT = (Some wq, n')"
    using Cons.prems(1) by (auto simp: Let_def split: prod.splits option.splits)
  define s2 where "s2 = upd_thread i (\<lambda>t. t\<lparr>ti_work_queue := wq, ti_awaiting_work_sem := 0, ti_oplock := 1,
              ti_oplock_acquired := False\<rparr>) ?s1"
  have run: "init_threads mem js n' s2 = (0, t)" using Cons.prems(1) al by (simp add: Let_def s2_def)
  have i: "i < length (worker_threads s)" "i \<notin> set js" using Cons.prems by simp_all
  have th: "thread s2 j = (if j = i then (thread s i)\<lparr>ti_idx := i, ti_work_queue := wq, ti_awaiting_work_sem := 0,
               ti_oplock := 1, ti_oplock_acquired := False\<rparr> else thread s j)" for j
    using i(1) by (auto simp: thread_upd_thread s2_def)
  have "distinct js" "\<forall>k \<in> set js. k < length (worker_threads s2)" using Cons.prems by (simp_all add: s2_def)
  note IH = Cons.IH [OF run this]
  have fr: "buffer_items s2 = buffer_items s" "client_id s2 = client_id s"
    "length (worker_threads s2) = length (worker_threads s)" by (simp_all add: s2_def)
  have "\<exists>wq k k'. workqueue_alloc k (fst (mem j)) (snd (mem j)) BUFFER_ITEM_COUNT = (Some wq, k')
      \<and> thread t j = (thread s j)\<lparr>ti_idx := j, ti_work_queue := wq, ti_awaiting_work_sem := 0,
           ti_oplock := 1, ti_oplock_acquired := False\<rparr>" if "j \<in> set (i # js)" for j
  proof (cases "j = i")
    case True
    then show ?thesis using IH th al i(2) by auto
  next
    case False
    then have "j \<in> set js" "thread s2 j = thread s j" using that th by simp_all
    then show ?thesis using IH by fastforce
  qed
  then show ?case using IH fr th by simp
qed

text \<open>Memory that malloc returns for a queue has room for its entries.\<close>

definition malloc_ok :: "(nat \<Rightarrow> work_queue_buffer_idx list option \<times> int) \<Rightarrow> bool" where
  "malloc_ok mem \<longleftrightarrow> (\<forall>i m. fst (mem i) = Some m \<longrightarrow> length m = BUFFER_ITEM_COUNT)"

lemma do_sys_pools:
  "do_sys os c s = (r, t) \<Longrightarrow> worker_threads t = worker_threads s \<and> buffer_items t = buffer_items s"
  using do_sys_frame(1,2) by blast

lemma init_state_inv:
  assumes run: "init_state os mem pth s0 = (0, s)"
    and mem: "malloc_ok mem"
  shows "sys_inv s" and "w < MAX_THREAD_COUNT \<Longrightarrow> queued s w = []"
proof -
  define z where "z = init_buffers ((ins_zero (stack s0) (stack_addr s0) (world s0))\<lparr>trace := trace s0\<rparr>)"
  obtain rc u where it: "init_threads mem [0..<MAX_THREAD_COUNT] 0 z = (rc, u)" by fastforce
  have rc: "rc = 0" using run it by (auto simp: init_state_def z_def Let_def split: if_splits)
  have same: "worker_threads s = worker_threads u \<and> buffer_items s = buffer_items u"
    using run it rc
    by (auto simp: init_state_def z_def open_device_def Let_def dest!: do_sys_pools
        split: if_splits prod.splits option.splits)
  have z: "worker_threads z = replicate MAX_THREAD_COUNT thread_zero"
    "buffer_items z = map (\<lambda>i. buffer_zero\<lparr>bi_idx := i, bi_offset := ONE_REQUEST_REGION_SIZE * i\<rparr>) [0..<BUFFER_ITEM_COUNT]"
    by (simp_all add: z_def init_buffers_def ins_zero_def buffer_def)
  have e: "buffer_items u = buffer_items z" "length (worker_threads u) = MAX_THREAD_COUNT"
    and a: "\<And>j. j < MAX_THREAD_COUNT \<Longrightarrow> \<exists>wq k k'.
        workqueue_alloc k (fst (mem j)) (snd (mem j)) BUFFER_ITEM_COUNT = (Some wq, k')
        \<and> thread u j = (thread z j)\<lparr>ti_idx := j, ti_work_queue := wq, ti_awaiting_work_sem := 0,
             ti_oplock := 1, ti_oplock_acquired := False\<rparr>"
    using init_threads_effect [OF it [unfolded rc]] z(1) by simp_all
  have th: "thread_ok c j (thread s j)" "ti_in_use (thread s j) = 0" "wq_list (ti_work_queue (thread s j)) = []"
    if j: "j < MAX_THREAD_COUNT" for j c
  proof -
    obtain wq k k' where wq: "workqueue_alloc k (fst (mem j)) (snd (mem j)) BUFFER_ITEM_COUNT = (Some wq, k')"
      and t: "thread u j = (thread z j)\<lparr>ti_idx := j, ti_work_queue := wq, ti_awaiting_work_sem := 0,
             ti_oplock := 1, ti_oplock_acquired := False\<rparr>" using a [OF j] by blast
    have zt: "thread z j = thread_zero" using z(1) j by (simp add: thread_def)
    have su: "thread s j = thread u j" using same by (simp add: thread_def)
    note wi = workqueue_alloc_inv [OF wq]
    have m: "BUFFER_ITEM_COUNT \<le> length m" if "fst (mem j) = Some m" for m using mem that by (simp add: malloc_ok_def)
    show "thread_ok c j (thread s j)" "ti_in_use (thread s j) = 0" "wq_list (ti_work_queue (thread s j)) = []"
      using wi [OF m] by (simp_all add: su t zt thread_ok_def good_fd_def thread_zero_def del: wq_list_length)
  qed
  have len: "length (worker_threads s) = MAX_THREAD_COUNT" using same e(2) by simp
  have "threads_ok s" using th len by (simp add: threads_ok_def threads_inv_def)
  moreover have q: "queued s w = []" if "w < MAX_THREAD_COUNT" for w using th(3) [OF that] by (simp add: queued_def)
  then have "bufs_ok {} (buffer_items s) (queued s)"
    using same e(1) z(2) by (simp add: bufs_ok_def buffer_zero_def)
  ultimately show "sys_inv s" by (simp add: sys_inv_def sys_inv_held_def)
  show "queued s w = []" if "w < MAX_THREAD_COUNT" using q that .
qed

text \<open>
  C1. Invariant of the running system. From a successful start, in every state that the
  dispatcher, the fifty workers and the heartbeat reach together, in any order of their steps and
  whatever the operating system returns: every thread has its own index, a descriptor that
  encodes it, a well-formed queue and a semaphore count equal to the length of its queue, and a
  balanced oplock; the buffers in use are exactly the queued ones; and a buffer is queued at most
  once, with the thread it is assigned to. (Memory from malloc has the size asked for.)
\<close>

theorem running_system_inv:
  assumes "init_state os mem pth s0 = (0, s)"
    and "malloc_ok mem"
    and "(ins_step os)\<^sup>*\<^sup>* s t"
  shows "threads_inv t \<and> (\<forall>w. w < MAX_THREAD_COUNT \<longrightarrow> thread_ok (client_id t) w (thread t w))
     \<and> bufs_ok {} (buffer_items t) (queued t)"
proof -
  have "sys_inv s" using assms(1) assms(2) by (rule init_state_inv(1))
  then have "sys_inv t" by (rule reachable_inv [OF assms(3)])
  then show ?thesis by (simp add: sys_inv_def sys_inv_held_def threads_ok_def)
qed

text \<open>A start on which every allocation and every call succeeds.\<close>

definition mem_ok :: "nat \<Rightarrow> work_queue_buffer_idx list option \<times> int" where
  "mem_ok i = (Some (replicate BUFFER_ITEM_COUNT 0), 0)"

definition start_example :: "nat ins_state" where
  "start_example = snd (init_state os_zero mem_ok (\<lambda>i. 0) (ins_zero rs_zero sa_zero 0))"

lemma mem_ok_sized: "malloc_ok mem_ok"
  by (auto simp: malloc_ok_def mem_ok_def)

lemma init_threads_ok: "fst (init_threads mem_ok is n s) = 0"
  by (induction "is" arbitrary: n s) (simp_all add: mem_ok_def workqueue_alloc_def Let_def)

lemma start_example_ok:
  "init_state os_zero mem_ok (\<lambda>i. 0) (ins_zero rs_zero sa_zero 0) = (0, start_example)"
proof -
  have "List.find (\<lambda>rc. rc \<noteq> 0) (map (\<lambda>i. 0 :: int) xs) = None" for xs :: "nat list"
    by (induction xs) simp_all
  then have "fst (init_state os_zero mem_ok (\<lambda>i. 0) (ins_zero rs_zero sa_zero 0)) = 0"
    by (simp add: init_state_def case_prod_unfold Let_def init_threads_ok open_device_def do_sys_eq
        os_zero_def sysres0_def xe_net_init_def del: upt_Suc)
  then show ?thesis by (simp add: start_example_def prod_eq_iff)
qed

theorem running_system_inv_witness:
  "threads_inv start_example \<and> thread_ok (client_id start_example) 7 (thread start_example 7)
     \<and> bufs_ok {} (buffer_items start_example) (queued start_example)"
proof -
  from running_system_inv [OF start_example_ok mem_ok_sized rtranclp.rtrancl_refl] show ?thesis
    by (simp add: mw_consts)
qed

lemma inv_no_error:
  assumes inv: "sys_inv s" and w: "w < MAX_THREAD_COUNT"
  shows "ti_awaiting_work_sem (thread s w) \<noteq> 0 \<Longrightarrow>
      fst (workqueue_dequeue (ti_work_queue (thread s w))) \<noteq> WORK_QUEUE_UNASSIGNED_IDX
      \<and> unat (fst (workqueue_dequeue (ti_work_queue (thread s w)))) < BUFFER_ITEM_COUNT"
    and "i \<notin> buffers_used s \<Longrightarrow> i < BUFFER_ITEM_COUNT \<Longrightarrow>
      fst (workqueue_enqueue (ti_work_queue (thread s w)) x) = 0"
    and "workqueue_is_empty (ti_work_queue (thread s w)) \<longleftrightarrow> ti_awaiting_work_sem (thread s w) = 0"
proof -
  have ok: "threads_ok s" and bufs: "bufs_ok {} (buffer_items s) (queued s)"
    using inv by (simp_all add: sys_inv_def sys_inv_held_def)
  have tw: "thread_ok (client_id s) w (thread s w)" using ok w by (simp add: threads_ok_def)
  show "fst (workqueue_dequeue (ti_work_queue (thread s w))) \<noteq> WORK_QUEUE_UNASSIGNED_IDX
      \<and> unat (fst (workqueue_dequeue (ti_work_queue (thread s w)))) < BUFFER_ITEM_COUNT"
    if "ti_awaiting_work_sem (thread s w) \<noteq> 0"
    using take_step(2) [OF inv w that refl refl] unat_unassigned by (auto simp: mw_consts)
  show "workqueue_is_empty (ti_work_queue (thread s w)) \<longleftrightarrow> ti_awaiting_work_sem (thread s w) = 0"
    using tw is_empty_list [of "ti_work_queue (thread s w)"]
    by (auto simp: thread_ok_def simp del: wq_list_length)
  show "fst (workqueue_enqueue (ti_work_queue (thread s w)) x) = 0"
    if "i \<notin> buffers_used s" "i < BUFFER_ITEM_COUNT"
  proof -
    have "bi_in_use (buffer_items s ! i) = 0" using that bufs by (simp add: buffers_used_def buffer_def bufs_ok_def)
    from bufs_room [OF bufs_reserve [OF bufs that(2) this] _ w]
    have "length (wq_list (ti_work_queue (thread s w))) < BUFFER_ITEM_COUNT" by (simp add: queued_def)
    then show ?thesis using tw by (auto simp: workqueue_enqueue_def thread_ok_def)
  qed
qed

text \<open>
  C4. The internal errors of the scheduler do not happen. In every state the running system
  reaches: a worker that passes its semaphore finds a valid buffer index in its queue (the
  ``programming error'' of \<open>worker_thread_func\<close> is unreachable); while some buffer is free,
  so whenever the dispatcher has obtained one, no work queue is full; and a thread's semaphore is 0
  exactly when its queue is empty.
\<close>

theorem scheduler_no_internal_error:
  assumes "init_state os mem pth s0 = (0, s)"
    and "malloc_ok mem"
    and "(ins_step os)\<^sup>*\<^sup>* s t" and "w < MAX_THREAD_COUNT"
  shows "(ti_awaiting_work_sem (thread t w) \<noteq> 0 \<longrightarrow>
            fst (workqueue_dequeue (ti_work_queue (thread t w))) \<noteq> WORK_QUEUE_UNASSIGNED_IDX
            \<and> unat (fst (workqueue_dequeue (ti_work_queue (thread t w)))) < BUFFER_ITEM_COUNT)
     \<and> ((\<exists>i < BUFFER_ITEM_COUNT. i \<notin> buffers_used t) \<longrightarrow>
          (\<forall>x. fst (workqueue_enqueue (ti_work_queue (thread t w)) x) = 0))
     \<and> (workqueue_is_empty (ti_work_queue (thread t w)) \<longleftrightarrow> ti_awaiting_work_sem (thread t w) = 0)"
proof -
  have "sys_inv s" using assms(1) assms(2) by (rule init_state_inv(1))
  then have "sys_inv t" by (rule reachable_inv [OF assms(3)])
  from inv_no_error [OF this assms(4)] show ?thesis by blast
qed

text \<open>At the start no buffer is in use.\<close>

lemma start_example_buffers: "0 \<notin> buffers_used start_example"
proof -
  have q: "0 \<notin> set (queued start_example w)" if "w < MAX_THREAD_COUNT" for w
    using init_state_inv(2) [OF start_example_ok mem_ok_sized that] by simp
  have "bufs_ok {} (buffer_items start_example) (queued start_example)" "0 < BUFFER_ITEM_COUNT"
    using init_state_inv(1) [OF start_example_ok mem_ok_sized]
    by (simp_all add: sys_inv_def sys_inv_held_def mw_consts)
  then have "bi_in_use (buffer_items start_example ! 0) \<noteq> 0
      \<longleftrightarrow> (\<exists>w < MAX_THREAD_COUNT. 0 \<in> set (queued start_example w))"
    unfolding bufs_ok_def by blast
  with q show ?thesis by (auto simp: buffers_used_def buffer_def)
qed

theorem scheduler_no_internal_error_witness:
  "fst (workqueue_enqueue (ti_work_queue (thread start_example 3)) 0) = 0
     \<and> (workqueue_is_empty (ti_work_queue (thread start_example 3))
          \<longleftrightarrow> ti_awaiting_work_sem (thread start_example 3) = 0)"
proof -
  have "0 < BUFFER_ITEM_COUNT" "3 < MAX_THREAD_COUNT" by (simp_all add: mw_consts)
  with scheduler_no_internal_error [OF start_example_ok mem_ok_sized rtranclp.rtrancl_refl] start_example_buffers
  show ?thesis by blast
qed

end
