(* ===== verification/Ports.thy ===== *)
theory Ports
  imports Scheduler
begin

text \<open>
  The list of listening ports that the INS publishes in XenStore (\<open>update_listening_ports\<close> of
  xenevent.c) and the statistics of the heartbeat: the strings are complete, fit their buffers,
  and can be read back.
\<close>

section \<open>Reading hexadecimal numbers\<close>

definition hex_val :: "string \<Rightarrow> nat" where
  "hex_val str = digits_val 16 0 str"

lemma hex_val_fmt: "hex_val (fmt_x n) = n"
  by (simp add: hex_val_def fmt_base_val)

lemma fmt_no_space: "CHR '' '' \<notin> set (fmt_x n)"
  using fmt_base_chars(2) [of 16 _ n] by fastforce

section \<open>Listening ports\<close>

text \<open>The words of a string in which a space ends each word.\<close>

fun tokens :: "string \<Rightarrow> string \<Rightarrow> string list" where
  "tokens cur [] = []"
| "tokens cur (c # cs) = (if c = CHR '' '' then cur # tokens [] cs else tokens (cur @ [c]) cs)"

lemma tokens_word: "CHR '' '' \<notin> set w \<Longrightarrow> tokens cur (w @ CHR '' '' # rest) = (cur @ w) # tokens [] rest"
  by (induction w arbitrary: cur) auto

lemma port_string_eq: "port_string p = fmt_x (unat p) @ '' ''" "length (port_string p) \<le> 5"
proof -
  have "length (fmt_x (unat p)) \<le> 4" using unsigned_less [of p, where ?'a = nat] by (intro fmt_length) simp_all
  then show "port_string p = fmt_x (unat p) @ '' ''" "length (port_string p) \<le> 5"
    by (simp_all add: port_string_def)
qed

definition bound_ports :: "thread_item list \<Rightarrow> u16 list" where
  "bound_ports ts = map ti_bound_port_num (filter (\<lambda>t. ti_in_use t \<noteq> 0 \<and> ti_bound_port_num t \<noteq> 0) ts)"

lemma ports_loop:
  "length acc + 5 * length ts < INS_LISTENING_PORTS_MAX_LEN \<Longrightarrow>
     listening_ports_loop ts acc = Some (acc @ concat (map port_string (bound_ports ts)))"
proof (induction ts arbitrary: acc)
  case Nil
  then show ?case by (simp add: bound_ports_def)
next
  case (Cons t ts)
  show ?case
  proof (cases "ti_in_use t = 0 \<or> ti_bound_port_num t = 0")
    case True
    then show ?thesis using Cons by (auto simp: bound_ports_def)
  next
    case False
    let ?p = "port_string (ti_bound_port_num t)"
    have len: "length ?p \<le> 5" by (rule port_string_eq)
    then have fits: "\<not> length acc > INS_LISTENING_PORTS_MAX_LEN - length ?p - 1"
      and all: "take (INS_LISTENING_PORTS_MAX_LEN - length acc - 1) ?p = ?p"
      using Cons.prems by auto
    have "listening_ports_loop ts (acc @ ?p) = Some ((acc @ ?p) @ concat (map port_string (bound_ports ts)))"
      using Cons.prems len by (intro Cons.IH) simp
    then show ?thesis using False fits all by (simp add: bound_ports_def Let_def)
  qed
qed

lemma tokens_ports: "map hex_val (tokens [] (concat (map port_string ps))) = map unat ps"
  by (induction ps) (simp_all add: port_string_eq tokens_word fmt_no_space hex_val_fmt)

lemma ports_length: "length (concat (map port_string ps)) \<le> 5 * length ps"
proof (induction ps)
  case (Cons p ps)
  then show ?case using port_string_eq(2) [of p] by simp
qed simp

lemma bound_ports_length: "length (bound_ports ts) \<le> length ts"
  by (simp add: bound_ports_def)

text \<open>
  C15. Publication of the bound ports, under the name of listening ports. After a change, the next response is preceded by exactly one
  call that publishes a string; the string fits its buffer (the overflow exit is never taken) and,
  read back word by word as hexadecimal numbers, it is the list of the ports to which threads in
  use are bound; the change is no longer pending. A port is published from the successful bind on, whether the socket
  listens or not; the comment of the function and the documentation speak of the ports in the state LISTEN.
\<close>

theorem listening_ports_published:
  assumes "pending_port_change s" and "length (worker_threads s) = MAX_THREAD_COUNT"
  shows "\<exists>str r s'. update_listening_ports os s = (sr_ret r, s')
     \<and> trace s' = trace s @ [(SysIoctlListeners (input_fd s) str, r)]
     \<and> length str < INS_LISTENING_PORTS_MAX_LEN
     \<and> map hex_val (tokens [] str) = map unat (bound_ports (worker_threads s))
     \<and> \<not> pending_port_change s' \<and> worker_threads s' = worker_threads s"
proof -
  let ?s = "s\<lparr>pending_port_change := False\<rparr>"
  let ?str = "concat (map port_string (bound_ports (worker_threads s)))"
  have loop: "listening_ports_loop (worker_threads s) [] = Some ?str"
    using ports_loop [of "[]" "worker_threads s"] assms(2) by (simp add: mw_consts)
  have len: "length ?str < INS_LISTENING_PORTS_MAX_LEN"
    using ports_length [of "bound_ports (worker_threads s)"] bound_ports_length [of "worker_threads s"] assms(2)
    by (simp add: mw_consts)
  obtain r s' where d: "do_sys os (SysIoctlListeners (input_fd s) ?str) ?s = (r, s')" by fastforce
  note f = do_sys_frame [OF d]
  have "update_listening_ports os s = (sr_ret r, s')"
    using assms(1) loop d by (simp add: update_listening_ports_def Let_def)
  then show ?thesis
    using f(2,3,8) len tokens_ports by (intro exI [of _ ?str] exI [of _ r] exI [of _ s']) simp
qed

definition ports_example :: "nat ins_state" where
  "ports_example = (upd_thread 4 (\<lambda>t. t\<lparr>ti_in_use := 1, ti_bound_port_num := 8080\<rparr>)
     (ins_zero rs_zero sa_zero 0))\<lparr>pending_port_change := True\<rparr>"

theorem listening_ports_published_witness:
  "\<exists>str r s'. update_listening_ports os_zero ports_example = (sr_ret r, s')
     \<and> trace s' = trace ports_example @ [(SysIoctlListeners (input_fd ports_example) str, r)]
     \<and> length str < INS_LISTENING_PORTS_MAX_LEN
     \<and> map hex_val (tokens [] str) = map unat (bound_ports (worker_threads ports_example))
     \<and> \<not> pending_port_change s' \<and> worker_threads s' = worker_threads ports_example"
  by (rule listening_ports_published) (simp_all add: ports_example_def ins_zero_def)

end
