(* ===== verification/Kernel.thy ===== *)
theory Kernel
  imports Translate
begin

text \<open>
  The environment of the PVM kernel module (protvm/kernel/mwcomms) and the state of its Xen
  interface (mwcomms-xen-iface.c). As for the INS, everything outside the module is a parameter:
  a function \<open>ker\<close> from a call of the Linux kernel or of Xen and a state of the world to a
  result. The Xen ring macros (RING\_FULL and so on) belong to Xen's headers and are calls of this
  kind; a ring is named by the index of its INS. The state records the calls in \<open>ktrace\<close>.
\<close>

section \<open>Constants of Linux and of the configuration\<close>

abbreviation "ENXIO \<equiv> (6::int)"
abbreviation "E2BIG \<equiv> (7::int)"
abbreviation "EBADF \<equiv> (9::int)"
abbreviation "L_EAGAIN \<equiv> (11::int)"
abbreviation "EFAULT \<equiv> (14::int)"
abbreviation "ENODEV \<equiv> (19::int)"
abbreviation "EMFILE \<equiv> (24::int)"
abbreviation "ETIME \<equiv> (62::int)"
abbreviation "EBADFD \<equiv> (77::int)"
abbreviation "ESTALE \<equiv> (116::int)"
abbreviation "DOMID_INVALID \<equiv> (0x7ff4::u16)"

definition MAX_INS_COUNT :: nat where [mw_consts]: "MAX_INS_COUNT = 3"
definition HEARTBEAT_INTERVAL_SEC :: nat where [mw_consts]: "HEARTBEAT_INTERVAL_SEC = 1"
definition HEARTBEAT_MAX_MISSES :: int where [mw_consts]: "HEARTBEAT_MAX_MISSES = 2"
definition XENEVENT_GRANT_REF_ORDER :: nat where [mw_consts]: "XENEVENT_GRANT_REF_ORDER = 8"
definition XENEVENT_GRANT_REF_COUNT :: nat where
  [mw_consts]: "XENEVENT_GRANT_REF_COUNT = 2 ^ XENEVENT_GRANT_REF_ORDER"
definition GNT_REF_CHUNK_SIZE :: nat where [mw_consts]: "GNT_REF_CHUNK_SIZE = 64"
definition XENEVENT_PATH_STR_LEN :: nat where [mw_consts]: "XENEVENT_PATH_STR_LEN = 32"
definition MAX_GNT_REF_WIDTH :: nat where [mw_consts]: "MAX_GNT_REF_WIDTH = 15"
definition XENEVENT_XENSTORE_ROOT :: string where [mw_consts]: "XENEVENT_XENSTORE_ROOT = ''/mw''"
definition XENEVENT_XENSTORE_PVM :: string where [mw_consts]: "XENEVENT_XENSTORE_PVM = ''/mw/pvm''"
definition GNT_REF_KEY :: string where [mw_consts]: "GNT_REF_KEY = ''gnt_ref''"
definition GNT_REF_CHUNKS :: string where [mw_consts]: "GNT_REF_CHUNKS = ''gnt_ref_chunks''"
definition VM_EVT_CHN_PORT_KEY :: string where [mw_consts]: "VM_EVT_CHN_PORT_KEY = ''vm_evt_chn_prt''"
definition VM_EVT_CHN_BOUND_KEY :: string where [mw_consts]: "VM_EVT_CHN_BOUND_KEY = ''vm_evt_chn_is_bound''"
definition INS_ID_KEY :: string where [mw_consts]: "INS_ID_KEY = ''ins_dom_id''"
definition INS_HEARTBEAT_KEY :: string where [mw_consts]: "INS_HEARTBEAT_KEY = ''heartbeat''"
definition SERVER_ID_KEY :: string where [mw_consts]: "SERVER_ID_KEY = ''id''"
definition PRIVATE_ID_PATH :: string where [mw_consts]: "PRIVATE_ID_PATH = ''domid''"
definition KEY_RESET_VAL :: string where [mw_consts]: "KEY_RESET_VAL = ''0''"
definition XENEVENT_XENSTORE_PVM_NODE :: string where [mw_consts]: "XENEVENT_XENSTORE_PVM_NODE = ''pvm''"

section \<open>Calls of the environment\<close>

datatype kcall =
    KXsStart
  | KXsEnd bool
  | KXsExists string string
  | KXsWrite string string string
  | KXsRead string string
  | KXsRm string string
  | KXsMkdir string string
  | KXsWatch
  | KXsUnwatch
  | KAlloc
  | KPages nat
  | KStrtol string
  | KJiffies
  | KEvtchnAllocUnbound u16 u16
  | KEvtchnSend int
  | KEvtchnStatus int
  | KEvtchnClose int
  | KGrant u16 nat
  | KEndGrant u32
  | KBindIrq int
  | KUnbindIrq int
  | KInsReady u16
  | KRingInit nat
  | KRingFull nat
  | KRingSlot nat
  | KRingPush nat mt_request_generic
  | KRingHasResponse nat
  | KRingResponse nat
  | KRingConsume nat
  | KSleep
  | KCacheAlloc "nat list"
  | KGetFd
  | KNewInode
  | KAllocDentry
  | KAllocFile
  | KSignal int
  | KSignalProc nat int
  | KScheduleWork
  | KThread
  | KSymbols
  | KFsInit
  | KCacheCreate
  | KCopyFromUser nat
  | KCopyToUser mt_response_generic
  | KCopyAttribToUser mt_sockfeat_arg
  | KWait
  | KProcDying nat

text \<open>
  A result: the return value (of an allocation: whether it succeeded), the string read from
  XenStore, the allocated event channel, the time, the address of an allocated object,
  the old contents of the next request slot of a ring or the request of a user, the response at the
  head of a ring. \<open>KCacheAlloc\<close> is an allocation from a cache of which the objects with the given
  addresses are in use.
\<close>

record kret =
  kr_ret :: int
  kr_str :: "string option"
  kr_port :: int
  kr_jiffies :: u64
  kr_addr :: nat
  kr_request :: mt_request_generic
  kr_response :: mt_response_generic

definition kret0 :: kret where
  "kret0 = \<lparr>kr_ret = 0, kr_str = None, kr_port = 0, kr_jiffies = 0, kr_addr = 0, kr_request = rq_zero,
     kr_response = rs_zero\<rparr>"

type_synonym 'w ker = "kcall \<Rightarrow> 'w \<Rightarrow> kret \<times> 'w"

section \<open>State of the Xen interface\<close>

text \<open>
  \<open>mwcomms_ins_data_t\<close>. Of the ring memory only whether it was allocated is kept; \<open>id_curr_req\<close> is
  the request written into the reserved slot (None for a null pointer).
\<close>

record mwcomms_ins_data =
  id_in_use :: int
  id_domid :: u16
  id_ring_ptr :: bool
  id_pagect :: nat
  id_is_ring_ready :: bool
  id_grant_refs :: "u32 list"
  id_common_evtchn :: int
  id_irq :: int
  id_last_seen_time :: u64
  id_missed_heartbeats :: int
  id_curr_req :: "mt_request_generic option"
  id_locked :: bool

text \<open>
  \<open>mwcomms_xen_globals_t\<close> with the static variables of \<open>mw_xen_get_next_index_rr\<close> and
  \<open>mw_xen_new_socket_rr\<close>, the world and the record of calls. The second is an \<open>int\<close> that is never reset; it
  wraps around, and is read with its sign.
\<close>

record 'w mw_xen =
  my_domid :: u16
  xenbus_watch_active :: bool
  xen_pending_exit :: bool
  ins_count :: int
  ins :: "mwcomms_ins_data list"
  rr_next :: int
  rr_curr_index :: u32
  kworld :: 'w
  ktrace :: "(kcall \<times> kret) list"

definition kdo :: "'w ker \<Rightarrow> kcall \<Rightarrow> ('w, 'm) mw_xen_scheme \<Rightarrow> kret \<times> ('w, 'm) mw_xen_scheme" where
  "kdo ker c s = (let (r, w) = ker c (kworld s) in (r, s\<lparr>kworld := w, ktrace := ktrace s @ [(c, r)]\<rparr>))"

definition upd_ins ::
  "nat \<Rightarrow> (mwcomms_ins_data \<Rightarrow> mwcomms_ins_data) \<Rightarrow> ('w, 'm) mw_xen_scheme \<Rightarrow> ('w, 'm) mw_xen_scheme" where
  "upd_ins i f s = s\<lparr>ins := (ins s)[i := f (ins s ! i)]\<rparr>"

text \<open>What a call changes: the world and the record of calls.\<close>

lemma kdo_frame [frame]:
  assumes "kdo ker c s = (r, t)"
  shows "ktrace t = ktrace s @ [(c, r)]" and "t = s\<lparr>kworld := kworld t, ktrace := ktrace t\<rparr>"
  using assms by (auto simp: kdo_def split: prod.splits)

section \<open>XenStore keys\<close>

definition mw_xen_write_to_key ::
  "'w ker \<Rightarrow> string \<Rightarrow> string \<Rightarrow> string \<Rightarrow> ('w, 'm) mw_xen_scheme \<Rightarrow> int \<times> ('w, 'm) mw_xen_scheme" where
  "mw_xen_write_to_key ker Dir Node Value s =
    (let (r, s) = kdo ker KXsStart s in
     if kr_ret r \<noteq> 0 then (kr_ret r, s)
     else
       let (r, s) = kdo ker (KXsExists Dir '''') s in
       if kr_ret r = 0 then (- EIO, snd (kdo ker (KXsEnd True) s))
       else
         let (r, s) = kdo ker (KXsWrite Dir Node Value) s
         in (kr_ret r, snd (kdo ker (KXsEnd False) s)))"

definition mw_xen_read_from_key ::
  "'w ker \<Rightarrow> string \<Rightarrow> string \<Rightarrow> ('w, 'm) mw_xen_scheme \<Rightarrow> string option \<times> ('w, 'm) mw_xen_scheme" where
  "mw_xen_read_from_key ker Dir Node s =
    (let (r, s) = kdo ker KXsStart s in
     if kr_ret r \<noteq> 0 then (None, s)
     else
       let (r, s) = kdo ker (KXsRead Dir Node) s in
       if kr_str r = None then (None, snd (kdo ker (KXsEnd True) s))
       else (kr_str r, snd (kdo ker (KXsEnd False) s)))"

definition mw_xen_rm ::
  "'w ker \<Rightarrow> string \<Rightarrow> string \<Rightarrow> ('w, 'm) mw_xen_scheme \<Rightarrow> int \<times> ('w, 'm) mw_xen_scheme" where
  "mw_xen_rm ker Dir Node s =
    (let (r, s) = kdo ker KXsStart s in
     if kr_ret r \<noteq> 0 then (kr_ret r, s)
     else
       let (r, s) = kdo ker (KXsExists Dir Node) s in
       if kr_ret r = 0 then (0, snd (kdo ker (KXsEnd False) s))
       else
         let (r, s) = kdo ker (KXsRm Dir Node) s
         in (kr_ret r, snd (kdo ker (KXsEnd False) s)))"

definition mw_xen_mkdir ::
  "'w ker \<Rightarrow> string \<Rightarrow> string \<Rightarrow> ('w, 'm) mw_xen_scheme \<Rightarrow> int \<times> ('w, 'm) mw_xen_scheme" where
  "mw_xen_mkdir ker Dir Node s =
    (let (r, s) = kdo ker KXsStart s in
     if kr_ret r \<noteq> 0 then (kr_ret r, s)
     else
       let (r, s) = kdo ker (KXsExists Dir Node) s;
           (err, s) = (if kr_ret r = 0 then (0, s)
                       else let (r, s) = kdo ker (KXsRm Dir Node) s in (kr_ret r, s))
       in if err \<noteq> 0 then (err, snd (kdo ker (KXsEnd False) s))
          else
            let (r, s) = kdo ker (KXsMkdir Dir Node) s
            in (kr_ret r, snd (kdo ker (KXsEnd False) s)))"

text \<open>The contents of XenStore that a sequence of calls produces, by path.\<close>

definition xs_path :: "string \<Rightarrow> string \<Rightarrow> string" where
  "xs_path Dir Node = (if Node = '''' then Dir else Dir @ ''/'' @ Node)"

fun xs_effect :: "kcall \<times> kret \<Rightarrow> (string \<rightharpoonup> string) \<Rightarrow> (string \<rightharpoonup> string)" where
  "xs_effect (KXsWrite Dir Node Value, r) m = (if kr_ret r = 0 then m(xs_path Dir Node \<mapsto> Value) else m)"
| "xs_effect _ m = m"

definition xs_store :: "(kcall \<times> kret) list \<Rightarrow> (string \<rightharpoonup> string)" where
  "xs_store tr = fold xs_effect tr Map.empty"

lemma xs_store_append: "xs_store (tr @ es) = fold xs_effect es (xs_store tr)"
  by (simp add: xs_store_def)

text \<open>A write that reports success has put its value under its key, and touched no other key.\<close>

lemma write_to_key_store:
  assumes "mw_xen_write_to_key ker Dir Node Value s = (0, t)"
  shows "xs_store (ktrace t) = (xs_store (ktrace s))(xs_path Dir Node \<mapsto> Value)"
    and "t = s\<lparr>kworld := kworld t, ktrace := ktrace t\<rparr>"
  using assms
  by (auto simp: mw_xen_write_to_key_def kdo_def Let_def xs_store_append split: prod.splits if_splits)

lemma write_to_key_frame [frame]:
  assumes "mw_xen_write_to_key ker Dir Node Value s = (rc, t)"
  shows "t = s\<lparr>kworld := kworld t, ktrace := ktrace t\<rparr>"
  using assms
  by (auto simp: mw_xen_write_to_key_def kdo_def Let_def split: prod.splits if_splits)

end
