(* ===== verification/GrantRefs.thy ===== *)
theory GrantRefs
  imports Kernel
begin

text \<open>
  The hand-over of the grant references of the ring memory. The PVM writes them to XenStore in
  chunks (\<open>mw_xen_write_grant_refs_to_key\<close> of mwcomms-xen-iface.c), the INS driver reads them back
  (\<open>xe_comms_rcv_grant_refs\<close> of libxenevent/xenevent\_comms.c). This theory has the writing, what
  it leaves in XenStore and when it succeeds, and the reading of one chunk.
\<close>

section \<open>The PVM writes\<close>

text \<open>\<^verbatim>\<open>char one_ref[ 8 + 1 ]\<close>\<close>

definition sizeof_one_ref :: nat where [sizes]: "sizeof_one_ref = 9"

definition gnt_refs_sz :: nat where [sizes]: "gnt_refs_sz = XENEVENT_GRANT_REF_COUNT * sizeof_one_ref"

definition ins_dir :: "u16 \<Rightarrow> string" where
  "ins_dir domid = snprintf XENEVENT_PATH_STR_LEN (XENEVENT_XENSTORE_ROOT @ ''/'' @ fmt_u (unat domid))"

definition gnt_key_name :: "nat \<Rightarrow> string" where
  "gnt_key_name chunk = snprintf XENEVENT_PATH_STR_LEN (GNT_REF_KEY @ ''_'' @ fmt_u chunk)"

text \<open>\<^verbatim>\<open>gnt_refs[strlen(gnt_refs) - 1] = XENEVENT_GRANT_REF_END[0];\<close>\<close>

definition end_chunk :: "string \<Rightarrow> string" where
  "end_chunk str = butlast str @ '':''"

text \<open>
  The loop over the references. Its state is the number of references in the current chunk, the
  number of the chunk and the text collected so far; the result is the return code with them.
\<close>

fun grant_refs_loop ::
  "'w ker \<Rightarrow> string \<Rightarrow> u32 list \<Rightarrow> nat \<Rightarrow> nat \<Rightarrow> string \<Rightarrow> ('w, 'm) mw_xen_scheme
     \<Rightarrow> int \<times> nat \<times> nat \<times> string \<times> ('w, 'm) mw_xen_scheme" where
  "grant_refs_loop ker path [] gnt_cnt gnt_chunk gnt_refs s = (0, gnt_cnt, gnt_chunk, gnt_refs, s)"
| "grant_refs_loop ker path (ref # refs) gnt_cnt gnt_chunk gnt_refs s =
    (let one_ref = fmt_x (unat ref) @ '' '' in
     if length one_ref \<ge> sizeof_one_ref then (- E2BIG, gnt_cnt, gnt_chunk, gnt_refs, s)
     else if length gnt_refs \<ge> gnt_refs_sz - sizeof_one_ref then (- E2BIG, gnt_cnt, gnt_chunk, gnt_refs, s)
     else
       let gnt_refs = gnt_refs @ one_ref; gnt_cnt = gnt_cnt + 1 in
       if gnt_cnt = GNT_REF_CHUNK_SIZE then
         let (rc, s) = mw_xen_write_to_key ker path (gnt_key_name gnt_chunk) (end_chunk gnt_refs) s in
         if rc \<noteq> 0 then (rc, gnt_cnt, gnt_chunk, end_chunk gnt_refs, s)
         else grant_refs_loop ker path refs 0 (gnt_chunk + 1) '''' s
       else grant_refs_loop ker path refs gnt_cnt gnt_chunk gnt_refs s)"

definition mw_xen_write_grant_refs_to_key ::
  "'w ker \<Rightarrow> nat \<Rightarrow> ('w, 'm) mw_xen_scheme \<Rightarrow> int \<times> ('w, 'm) mw_xen_scheme" where
  "mw_xen_write_grant_refs_to_key ker i s =
    (let path = ins_dir (id_domid (ins s ! i));
         (r, s) = kdo ker KAlloc s
     in if kr_ret r = 0 then (- ENOMEM, s)
        else
          case grant_refs_loop ker path (id_grant_refs (ins s ! i)) 0 1 '''' s of
            (rc, gnt_cnt, gnt_chunk, gnt_refs, s) \<Rightarrow>
              if rc \<noteq> 0 then (rc, s)
              else
                let (rc, gnt_chunk, s) =
                  (if gnt_cnt > 0 then
                     let (rc, s) = mw_xen_write_to_key ker path (gnt_key_name gnt_chunk) (end_chunk gnt_refs) s
                     in (rc, gnt_chunk + 1, s)
                   else (0, gnt_chunk, s))
                in if rc \<noteq> 0 then (rc, s)
                   else mw_xen_write_to_key ker path GNT_REF_CHUNKS
                          (snprintf XENEVENT_PATH_STR_LEN (fmt_u (gnt_chunk - 1))) s)"

section \<open>The INS reads a chunk\<close>

abbreviation "BMK_ENOMEM \<equiv> (12::int)"
abbreviation "BMK_EINVAL \<equiv> (22::int)"

text \<open>
  The inner loop on one chunk, from the text at \<open>msgptr\<close>. None stands for a write beyond the array of
  references. The result is the return code with the count and the array.
\<close>

function rcv_chunk :: "string \<Rightarrow> nat \<Rightarrow> u32 list \<Rightarrow> (int \<times> nat \<times> u32 list) option" where
  "rcv_chunk msgptr gnt_cnt refs =
    (if length refs \<le> gnt_cnt then None
     else
       case bmk_strtoul msgptr 16 of
         None \<Rightarrow> None
       | Some (v, next) \<Rightarrow>
           let refs' = refs[gnt_cnt := ucast v] in
           if take 1 next = '':'' then Some (0, gnt_cnt + 1, refs')
           else if take 1 next \<noteq> '' '' then Some (BMK_EINVAL, gnt_cnt + 1, refs')
           else rcv_chunk next (gnt_cnt + 1) refs')"
  by pat_completeness auto

termination by (relation "measure (\<lambda>(m, n, refs). length refs - n)") auto

declare rcv_chunk.simps [simp del]

section \<open>What is in XenStore\<close>

text \<open>The text of a chunk of references.\<close>

definition toks :: "u32 list \<Rightarrow> string" where
  "toks rs = concat (map (\<lambda>r. fmt_x (unat r) @ '' '') rs)"

lemma toks_simps [simp]: "toks [] = ''''" "toks (r # rs) = fmt_x (unat r) @ '' '' @ toks rs"
  "toks (ps @ rs) = toks ps @ toks rs"
  by (simp_all add: toks_def)

lemma end_chunk_toks:
  "end_chunk (toks [r]) = fmt_x (unat r) @ '':''"
  "rs \<noteq> [] \<Longrightarrow> end_chunk (toks (r # rs)) = fmt_x (unat r) @ '' '' @ end_chunk (toks rs)"
  by (simp_all add: end_chunk_def butlast_append toks_def)

text \<open>The keys of different chunks differ, and both sides name them alike.\<close>

lemma fmt_u_u16: "length (fmt_u (unat (d :: u16))) \<le> 5"
  using unsigned_less [of d, where ?'a = nat] by (intro fmt_length) simp_all

lemma gnt_key_name_eq: "j < 1000 \<Longrightarrow> gnt_key_name j = ''gnt_ref_'' @ fmt_u j"
  using fmt_length [of 10 j 3] by (simp add: gnt_key_name_def mw_consts)

lemma ins_dir_eq: "ins_dir d = ''/mw/'' @ fmt_u (unat d)"
  using fmt_u_u16 [of d] by (simp add: ins_dir_def mw_consts)

lemma gnt_key_inj:
  assumes "i < 1000" and "j < 1000" and "xs_path p (gnt_key_name i) = xs_path p (gnt_key_name j)"
  shows "i = j"
  using assms fmt_base_inj [of 10 i j] by (simp add: xs_path_def gnt_key_name_eq)

lemma gnt_key_not_chunks: "j < 1000 \<Longrightarrow> xs_path p (gnt_key_name j) \<noteq> xs_path p GNT_REF_CHUNKS"
proof -
  assume "j < 1000"
  have "fmt_u j \<noteq> ''chunks''"
    using fmt_base_digits [of 10 j] by (auto simp: strtoul_digit_def)
  then show ?thesis using \<open>j < 1000\<close> by (simp add: xs_path_def gnt_key_name_eq mw_consts)
qed

text \<open>
  The loop cuts the references into full chunks and a remainder, and stores each full chunk under
  its number.
\<close>

lemma grant_refs_loop_chunks:
  assumes "grant_refs_loop ker path refs (length ps) chunk (toks ps) s = (0, cnt', chunk', acc', s')"
    and "length ps < GNT_REF_CHUNK_SIZE" and "chunk + length refs < 1000"
  shows "\<exists>ks ps'. ps @ refs = concat ks @ ps' \<and> (\<forall>k \<in> set ks. length k = GNT_REF_CHUNK_SIZE)
     \<and> length ps' = cnt' \<and> cnt' < GNT_REF_CHUNK_SIZE \<and> chunk' = chunk + length ks \<and> acc' = toks ps'
     \<and> (\<forall>i<length ks. xs_store (ktrace s') (xs_path path (gnt_key_name (chunk + i))) = Some (end_chunk (toks (ks ! i))))
     \<and> (\<forall>k. (\<forall>j. chunk \<le> j \<and> j < 1000 \<longrightarrow> k \<noteq> xs_path path (gnt_key_name j))
            \<longrightarrow> xs_store (ktrace s') k = xs_store (ktrace s) k)"
  using assms
proof (induction refs arbitrary: ps chunk s)
  case Nil
  then show ?case by (intro exI [of _ "[]"] exI [of _ ps]) simp
next
  case (Cons ref refs)
  note run = Cons.prems(1)
  have ok: "\<not> sizeof_one_ref \<le> length (fmt_x (unat ref) @ '' '')" "\<not> gnt_refs_sz - sizeof_one_ref \<le> length (toks ps)"
    using run by (auto simp: Let_def split: if_splits)
  have acc: "toks ps @ fmt_x (unat ref) @ '' '' = toks (ps @ [ref])" by simp
  show ?case
  proof (cases "length ps + 1 = GNT_REF_CHUNK_SIZE")
    case False
    then have "grant_refs_loop ker path refs (length (ps @ [ref])) chunk (toks (ps @ [ref])) s
        = (0, cnt', chunk', acc', s')"
      using run ok by (simp add: Let_def)
    then show ?thesis using Cons.IH [of "ps @ [ref]" chunk s] Cons.prems False by simp
  next
    case True
    let ?k = "xs_path path (gnt_key_name chunk)" and ?v = "end_chunk (toks (ps @ [ref]))"
    obtain rc s1 where w: "mw_xen_write_to_key ker path (gnt_key_name chunk) ?v s = (rc, s1)" by fastforce
    then have "grant_refs_loop ker path (ref # refs) (length ps) chunk (toks ps) s
        = (if rc \<noteq> 0 then (rc, length ps + 1, chunk, ?v, s1)
           else grant_refs_loop ker path refs 0 (chunk + 1) [] s1)"
      using ok True by (simp add: Let_def)
    with run have "rc = 0" and rest: "grant_refs_loop ker path refs (length ([] :: u32 list)) (chunk + 1) (toks []) s1
        = (0, cnt', chunk', acc', s')"
      by (cases "rc = 0"; simp)+
    from w \<open>rc = 0\<close> have st: "xs_store (ktrace s1) = (xs_store (ktrace s))(?k \<mapsto> ?v)" using write_to_key_store(1) by blast
    obtain ks ps' where IH: "refs = concat ks @ ps'" "\<forall>k \<in> set ks. length k = GNT_REF_CHUNK_SIZE"
      "length ps' = cnt'" "cnt' < GNT_REF_CHUNK_SIZE" "chunk' = chunk + 1 + length ks" "acc' = toks ps'"
      "\<And>i. i < length ks \<Longrightarrow> xs_store (ktrace s') (xs_path path (gnt_key_name (chunk + 1 + i))) = Some (end_chunk (toks (ks ! i)))"
      "\<And>k. (\<forall>j. chunk + 1 \<le> j \<and> j < 1000 \<longrightarrow> k \<noteq> xs_path path (gnt_key_name j))
          \<Longrightarrow> xs_store (ktrace s') k = xs_store (ktrace s1) k"
      using Cons.IH [OF rest] Cons.prems(3) by (auto simp: mw_consts)
    have here: "xs_store (ktrace s') ?k = Some ?v"
      using IH(8) [of ?k] st gnt_key_inj [of chunk _ path] Cons.prems(3) by fastforce
    have "xs_store (ktrace s') (xs_path path (gnt_key_name (chunk + i))) = Some (end_chunk (toks (((ps @ [ref]) # ks) ! i)))"
      if "i < length ((ps @ [ref]) # ks)" for i
      using that here IH(7) by (cases i) simp_all
    moreover have "xs_store (ktrace s') k = xs_store (ktrace s) k"
      if "\<forall>j. chunk \<le> j \<and> j < 1000 \<longrightarrow> k \<noteq> xs_path path (gnt_key_name j)" for k
      using that IH(8) [of k] st Cons.prems(3) by simp
    ultimately show ?thesis
      using IH(1-6) True by (intro exI [of _ "(ps @ [ref]) # ks"] exI [of _ ps']) auto
  qed
qed

section \<open>Reading back\<close>

lemma rcv_chunk_toks:
  assumes "rs \<noteq> []" and "cnt + length rs \<le> length refs"
  shows "rcv_chunk (replicate k CHR '' '' @ end_chunk (toks rs)) cnt refs
           = Some (0, cnt + length rs, take cnt refs @ rs @ drop (cnt + length rs) refs)"
  using assms
proof (induction rs arbitrary: k cnt refs)
  case Nil
  then show ?case by simp
next
  case (Cons r rs)
  have u: "(ucast (of_nat (unat r) :: u64) :: u32) = r" by (simp add: of_nat_unat)
  have n: "unat r < 2 ^ 64" using unsigned_less [of r, where ?'a = nat] by simp
  have upd: "take (Suc cnt) (refs[cnt := r]) = take cnt refs @ [r]"
    using Cons.prems by (simp add: take_Suc_conv_app_nth)
  show ?case
  proof (cases "rs = []")
    case True
    have "bmk_strtoul (replicate k CHR '' '' @ fmt_x (unat r) @ '':'') 16 = Some (of_nat (unat r), '':'')"
      using n by (intro strtoul_reads_printed) simp_all
    then show ?thesis
      using True Cons.prems u by (simp add: rcv_chunk.simps [of _ cnt] end_chunk_toks upd_conv_take_nth_drop del: toks_simps(2))
  next
    case False
    let ?next = "'' '' @ end_chunk (toks rs)"
    have "bmk_strtoul (replicate k CHR '' '' @ fmt_x (unat r) @ ?next) 16 = Some (of_nat (unat r), ?next)"
      using n by (intro strtoul_reads_printed) simp_all
    then have "rcv_chunk (replicate k CHR '' '' @ end_chunk (toks (r # rs))) cnt refs
        = rcv_chunk ?next (Suc cnt) (refs[cnt := r])"
      using False Cons.prems u by (simp add: rcv_chunk.simps [of _ cnt] end_chunk_toks Let_def del: toks_simps(2))
    also have "\<dots> = Some (0, Suc cnt + length rs, take cnt refs @ (r # rs) @ drop (Suc cnt + length rs) refs)"
      using Cons.IH [of "Suc cnt" "refs[cnt := r]" 1] False Cons.prems upd by simp
    finally show ?thesis by simp
  qed
qed

section \<open>The contents of XenStore\<close>

text \<open>What a successful call of \<open>mw_xen_write_grant_refs_to_key\<close> leaves in XenStore: four full chunks.\<close>

lemma write_grant_refs_store:
  assumes "mw_xen_write_grant_refs_to_key ker i s = (0, t)"
    and "length (id_grant_refs (ins s ! i)) = XENEVENT_GRANT_REF_COUNT"
  shows "\<exists>ks. concat ks = id_grant_refs (ins s ! i) \<and> length ks = 4 \<and> (\<forall>k \<in> set ks. k \<noteq> [])
     \<and> (\<forall>j<4. xs_store (ktrace t) (xs_path (ins_dir (id_domid (ins s ! i))) (gnt_key_name (1 + j)))
              = Some (end_chunk (toks (ks ! j))))
     \<and> xs_store (ktrace t) (xs_path (ins_dir (id_domid (ins s ! i))) GNT_REF_CHUNKS) = Some ''4''
     \<and> (\<forall>k. (\<forall>j. j < 1000 \<longrightarrow> k \<noteq> xs_path (ins_dir (id_domid (ins s ! i))) (gnt_key_name j))
            \<longrightarrow> k \<noteq> xs_path (ins_dir (id_domid (ins s ! i))) GNT_REF_CHUNKS
            \<longrightarrow> xs_store (ktrace t) k = xs_store (ktrace s) k)"
proof -
  let ?p = "ins_dir (id_domid (ins s ! i))" and ?refs = "id_grant_refs (ins s ! i)"
  obtain r s0 where k: "kdo ker KAlloc s = (r, s0)" by fastforce
  then have ins: "ins s0 = ins s" by (auto simp: kdo_def split: prod.splits)
  obtain rc cnt chunk acc s1 where loop: "grant_refs_loop ker ?p ?refs 0 1 [] s0 = (rc, cnt, chunk, acc, s1)"
    using prod_cases5 by blast
  note run = assms(1) [unfolded mw_xen_write_grant_refs_to_key_def Let_def k prod.case ins loop]
  have rc: "rc = 0" using run by (auto split: if_splits)
  obtain ks ps where cut: "?refs = concat ks @ ps" "\<forall>k \<in> set ks. length k = GNT_REF_CHUNK_SIZE"
    "length ps = cnt" "cnt < GNT_REF_CHUNK_SIZE" "chunk = 1 + length ks"
    "\<And>j. j < length ks \<Longrightarrow> xs_store (ktrace s1) (xs_path ?p (gnt_key_name (1 + j))) = Some (end_chunk (toks (ks ! j)))"
    "\<And>k. (\<forall>j. j < 1000 \<longrightarrow> k \<noteq> xs_path ?p (gnt_key_name j)) \<Longrightarrow> xs_store (ktrace s1) k = xs_store (ktrace s0) k"
    using grant_refs_loop_chunks [of ker ?p ?refs "[]" 1 s0 cnt chunk acc s1] loop rc assms(2)
    by (auto simp: mw_consts)
  have same: "xs_store (ktrace s0) = xs_store (ktrace s)"
    using k by (auto simp: kdo_def xs_store_append split: prod.splits)
  have "length (concat ks) = 64 * length ks"
    using cut(2) by (induction ks) (simp_all add: mw_consts)
  then have len: "64 * length ks + cnt = 256" "cnt < 64"
    using cut(1,3,4) assms(2) by (simp_all add: mw_consts)
  then have n: "length ks = 4" by linarith
  with len have cnt: "cnt = 0" by linarith
  have "mw_xen_write_to_key ker ?p GNT_REF_CHUNKS (snprintf XENEVENT_PATH_STR_LEN (fmt_u 4)) s1 = (0, t)"
    using run rc cnt cut(5) n by (auto split: if_splits)
  moreover have "snprintf XENEVENT_PATH_STR_LEN (fmt_u 4) = ''4''"
    by (simp add: fmt_base.simps hex_digits_def mw_consts)
  ultimately have st: "xs_store (ktrace t) = (xs_store (ktrace s1))(xs_path ?p GNT_REF_CHUNKS \<mapsto> ''4'')"
    using write_to_key_store(1) by metis
  have "xs_store (ktrace t) (xs_path ?p (gnt_key_name (1 + j))) = Some (end_chunk (toks (ks ! j)))" if "j < 4" for j
    using that cut(6) n st gnt_key_not_chunks [of "1 + j" ?p] by simp
  moreover have "xs_store (ktrace t) k = xs_store (ktrace s) k"
    if "\<forall>j. j < 1000 \<longrightarrow> k \<noteq> xs_path ?p (gnt_key_name j)" "k \<noteq> xs_path ?p GNT_REF_CHUNKS" for k
    using that cut(7) [of k] st same by simp
  ultimately show ?thesis using cut(1,2,3) cnt n st by (intro exI [of _ ks]) (auto simp: mw_consts)
qed

section \<open>When the write succeeds\<close>

text \<open>A kernel in which allocations, XenStore transactions and writes succeed.\<close>

definition xs_cooperates :: "'w ker \<Rightarrow> bool" where
  "xs_cooperates ker \<longleftrightarrow> (\<forall>w. kr_ret (fst (ker KAlloc w)) \<noteq> 0 \<and> kr_ret (fst (ker KXsStart w)) = 0
     \<and> (\<forall>d. kr_ret (fst (ker (KXsExists d '''') w)) \<noteq> 0) \<and> (\<forall>d n v. kr_ret (fst (ker (KXsWrite d n v) w)) = 0))"

lemma write_to_key_ok: "xs_cooperates ker \<Longrightarrow> fst (mw_xen_write_to_key ker d n v s) = 0"
  by (auto simp: xs_cooperates_def mw_xen_write_to_key_def kdo_def Let_def split: prod.splits) (metis fst_conv)+

lemma one_ref_fits: "\<not> sizeof_one_ref \<le> length (fmt_x (unat ref) @ '' '') \<longleftrightarrow> unat ref < 2 ^ 28"
  using fmt_length_iff [of 16 7 "unat ref"] by (simp add: sizes) linarith

lemma toks_length: "\<forall>r \<in> set ps. unat r < 2 ^ 28 \<Longrightarrow> length (toks ps) \<le> 8 * length ps"
proof (induction ps)
  case (Cons r ps)
  then show ?case using one_ref_fits [of r] by (simp add: sizes)
qed simp

lemma grant_refs_loop_ok_iff:
  assumes "xs_cooperates ker" and "length ps < GNT_REF_CHUNK_SIZE" and "\<forall>r \<in> set ps. unat r < 2 ^ 28"
  shows "fst (grant_refs_loop ker path refs (length ps) chunk (toks ps) s) = 0 \<longleftrightarrow> (\<forall>r \<in> set refs. unat r < 2 ^ 28)"
  using assms
proof (induction refs arbitrary: ps chunk s)
  case (Cons ref refs)
  have "\<not> gnt_refs_sz - sizeof_one_ref \<le> length (toks ps)"
    using toks_length [OF Cons.prems(3)] Cons.prems(2) by (simp add: sizes mw_consts)
  moreover obtain s1 where "mw_xen_write_to_key ker path (gnt_key_name chunk) (end_chunk (toks (ps @ [ref]))) s = (0, s1)"
    using write_to_key_ok [OF Cons.prems(1)] by (metis prod.collapse)
  moreover have "fst (grant_refs_loop ker path refs 0 (Suc chunk) [] s1) = 0 \<longleftrightarrow> (\<forall>r \<in> set refs. unat r < 2 ^ 28)"
    using Cons.IH [of "[]" "Suc chunk" s1] Cons.prems(1) by (simp add: mw_consts)
  moreover have "fst (grant_refs_loop ker path refs (length (ps @ [ref])) chunk (toks (ps @ [ref])) s) = 0
      \<longleftrightarrow> (\<forall>r \<in> set refs. unat r < 2 ^ 28)" if "unat ref < 2 ^ 28" "Suc (length ps) \<noteq> GNT_REF_CHUNK_SIZE"
    using Cons.IH [of "ps @ [ref]" chunk s] Cons.prems that by simp
  ultimately show ?case
    using one_ref_fits [of ref] by (cases "unat ref < 2 ^ 28") (auto simp: Let_def)
qed simp

lemma write_grant_refs_ok_iff:
  assumes "xs_cooperates ker"
  shows "fst (mw_xen_write_grant_refs_to_key ker i s) = 0 \<longleftrightarrow> (\<forall>r \<in> set (id_grant_refs (ins s ! i)). unat r < 2 ^ 28)"
proof -
  let ?p = "ins_dir (id_domid (ins s ! i))" and ?refs = "id_grant_refs (ins s ! i)"
  obtain r s0 where k: "kdo ker KAlloc s = (r, s0)" by fastforce
  then have ins: "ins s0 = ins s" and r: "kr_ret r \<noteq> 0"
    using assms by (auto simp: kdo_def xs_cooperates_def split: prod.splits) (metis fst_conv)
  obtain rc cnt chunk acc s1 where loop: "grant_refs_loop ker ?p ?refs 0 1 [] s0 = (rc, cnt, chunk, acc, s1)"
    using prod_cases5 by blast
  then have rc: "rc = 0 \<longleftrightarrow> (\<forall>r \<in> set ?refs. unat r < 2 ^ 28)"
    using grant_refs_loop_ok_iff [OF assms, of "[]" ?p ?refs 1 s0] by (simp add: mw_consts)
  have w: "rc' = 0" if "mw_xen_write_to_key ker d n v u = (rc', u')" for d n v u rc' u'
    using write_to_key_ok [OF assms, of d n v u] that by simp
  have "fst (mw_xen_write_grant_refs_to_key ker i s) = 0 \<longleftrightarrow> rc = 0"
    unfolding mw_xen_write_grant_refs_to_key_def Let_def k prod.case ins loop
    using r write_to_key_ok [OF assms] by (auto split: prod.splits if_splits dest: w)
  then show ?thesis using rc by simp
qed

text \<open>
  C19. The write succeeds exactly when every reference is below \<open>2 ^ 28\<close>, given a kernel that
  cooperates: the buffer for one reference has room for eight digits and the terminator, but the
  text also holds the separator, so a reference with eight digits is refused.
\<close>

theorem grant_refs_written_iff:
  assumes "xs_cooperates ker"
  shows "fst (mw_xen_write_grant_refs_to_key ker i s) = 0
    \<longleftrightarrow> (\<forall>r \<in> set (id_grant_refs (ins s ! i)). unat r < 0x10000000)"
  using write_grant_refs_ok_iff [OF assms] by simp

definition ker_ok :: "unit ker" where
  "ker_ok c w = (case c of KAlloc \<Rightarrow> kret0\<lparr>kr_ret := 1\<rparr> | KXsExists _ _ \<Rightarrow> kret0\<lparr>kr_ret := 1\<rparr> | _ \<Rightarrow> kret0, w)"

lemma ker_ok_cooperates: "xs_cooperates ker_ok"
  by (simp add: xs_cooperates_def ker_ok_def kret0_def)

definition ins_example :: mwcomms_ins_data where
  "ins_example = \<lparr>id_in_use = 1, id_domid = 7, id_ring_ptr = True, id_pagect = 256, id_is_ring_ready = False,
     id_grant_refs = map of_nat [1000..<1256], id_common_evtchn = 0, id_irq = 0, id_last_seen_time = 0,
     id_missed_heartbeats = 0, id_curr_req = None, id_locked = False\<rparr>"

definition xen_example :: "unit mw_xen" where
  "xen_example = \<lparr>my_domid = 1, xenbus_watch_active = True, xen_pending_exit = False, ins_count = 0,
     ins = [ins_example, ins_example, ins_example], rr_next = 0, rr_curr_index = 0, kworld = (), ktrace = []\<rparr>"

lemma example_refs: "\<forall>r \<in> set (id_grant_refs (ins xen_example ! 0)). unat r < 2 ^ 28"
  by (auto simp: xen_example_def ins_example_def unat_of_nat)

theorem grant_refs_written_iff_witness:
  "xs_cooperates ker_ok \<and> fst (mw_xen_write_grant_refs_to_key ker_ok 0 xen_example) = 0"
  using grant_refs_written_iff [OF ker_ok_cooperates, of 0 xen_example] ker_ok_cooperates example_refs by simp

end
