(* ===== verification/XenIface.thy ===== *)
theory XenIface
  imports GrantRefs
begin

text \<open>
  The table of INSs of the PVM (mwcomms-xen-iface.c): discovery of an INS through XenStore, its
  ring and event channel, heartbeats and the release of silent INSs, the choice of an INS for a new
  socket, request slots and responses. An INS is named by its index in the table.
\<close>

section \<open>Event channels and grants\<close>

definition mw_xen_create_unbound_evt_chn ::
  "'w ker \<Rightarrow> nat \<Rightarrow> ('w, 'm) mw_xen_scheme \<Rightarrow> int \<times> ('w, 'm) mw_xen_scheme" where
  "mw_xen_create_unbound_evt_chn ker i s =
    (if id_domid (ins s ! i) = 0 then (0, s)
     else
       let (r, s) = kdo ker (KEvtchnAllocUnbound (my_domid s) (id_domid (ins s ! i))) s in
       if kr_ret r \<noteq> 0 then (kr_ret r, s)
       else
         let s = upd_ins i (\<lambda>d. d\<lparr>id_common_evtchn := kr_port r\<rparr>) s;
             str = snprintf MAX_GNT_REF_WIDTH (fmt_u (unat (word_of_int (kr_port r) :: u32)))
         in mw_xen_write_to_key ker (ins_dir (id_domid (ins s ! i))) VM_EVT_CHN_PORT_KEY str s)"

definition mw_xen_ins_alive ::
  "'w ker \<Rightarrow> nat \<Rightarrow> ('w, 'm) mw_xen_scheme \<Rightarrow> ('w, 'm) mw_xen_scheme" where
  "mw_xen_ins_alive ker i s =
    (let (r, s) = kdo ker KJiffies s
     in upd_ins i (\<lambda>d. d\<lparr>id_last_seen_time := kr_jiffies r, id_missed_heartbeats := 0\<rparr>) s)"

definition mw_xen_send_event ::
  "'w ker \<Rightarrow> nat \<Rightarrow> ('w, 'm) mw_xen_scheme \<Rightarrow> int \<times> ('w, 'm) mw_xen_scheme" where
  "mw_xen_send_event ker i s =
    (let (r, s) = kdo ker (KEvtchnSend (id_common_evtchn (ins s ! i))) s in (kr_ret r, s))"

text \<open>The status is in \<open>kr_port\<close>; EVTCHNSTAT\_closed is 0.\<close>

definition mw_xen_is_evt_chn_closed ::
  "'w ker \<Rightarrow> nat \<Rightarrow> ('w, 'm) mw_xen_scheme \<Rightarrow> bool \<times> ('w, 'm) mw_xen_scheme" where
  "mw_xen_is_evt_chn_closed ker i s =
    (let (r, s) = kdo ker (KEvtchnStatus (id_common_evtchn (ins s ! i))) s
     in (if kr_ret r < 0 then True else if kr_port r \<noteq> 0 then False else True, s))"

definition mw_xen_free_unbound_evt_chn ::
  "'w ker \<Rightarrow> nat \<Rightarrow> ('w, 'm) mw_xen_scheme \<Rightarrow> ('w, 'm) mw_xen_scheme" where
  "mw_xen_free_unbound_evt_chn ker i s =
    (if id_common_evtchn (ins s ! i) = 0 then s
     else snd (kdo ker (KEvtchnClose (id_common_evtchn (ins s ! i))) s))"

text \<open>The loop of \<open>mw_xen_offer_grant\<close> over the pages from \<open>k\<close>, \<open>n\<close> of them.\<close>

fun offer_grant_loop ::
  "'w ker \<Rightarrow> nat \<Rightarrow> nat \<Rightarrow> nat \<Rightarrow> ('w, 'm) mw_xen_scheme \<Rightarrow> int \<times> ('w, 'm) mw_xen_scheme" where
  "offer_grant_loop ker i k 0 s = (0, s)"
| "offer_grant_loop ker i k (Suc n) s =
    (let (r, s) = kdo ker (KGrant (id_domid (ins s ! i)) k) s in
     if kr_ret r < 0 then (kr_ret r, s)
     else offer_grant_loop ker i (Suc k) n
            (upd_ins i (\<lambda>d. d\<lparr>id_grant_refs := (id_grant_refs d)[k := word_of_int (kr_ret r)]\<rparr>) s))"

definition mw_xen_offer_grant ::
  "'w ker \<Rightarrow> nat \<Rightarrow> ('w, 'm) mw_xen_scheme \<Rightarrow> int \<times> ('w, 'm) mw_xen_scheme" where
  "mw_xen_offer_grant ker i s = offer_grant_loop ker i 0 (id_pagect (ins s ! i)) s"

section \<open>Discovery\<close>

text \<open>
  The domain id is the component of the path after the root; \<open>kstrtoint\<close> is a call that returns the
  number in \<open>kr_port\<close>. The result is the return code and the index.
\<close>

definition mw_xen_get_ins_from_xs_path ::
  "'w ker \<Rightarrow> string \<Rightarrow> ('w, 'm) mw_xen_scheme \<Rightarrow> (int \<times> nat option) \<times> ('w, 'm) mw_xen_scheme" where
  "mw_xen_get_ins_from_xs_path ker Path s =
    (let (r, s) = kdo ker KAlloc s in
     if kr_ret r = 0 then ((- ENOMEM, None), s)
     else
       let copy = take XENEVENT_PATH_STR_LEN Path;
           str = takeWhile (\<lambda>c. c \<noteq> CHR ''/'') (drop (length XENEVENT_XENSTORE_ROOT + 1) copy);
           (r, s) = kdo ker (KStrtol str) s
       in if kr_ret r \<noteq> 0 then ((kr_ret r, None), s)
          else
            case first_idx (\<lambda>d. int (unat (id_domid d)) = kr_port r) (ins s) of
              None \<Rightarrow> ((- ENOENT, None), s)
            | Some i \<Rightarrow> ((0, Some i), s))"

definition mw_xen_bind_evt_chn ::
  "'w ker \<Rightarrow> string \<Rightarrow> ('w, 'm) mw_xen_scheme \<Rightarrow> int \<times> ('w, 'm) mw_xen_scheme" where
  "mw_xen_bind_evt_chn ker Path s =
    (case mw_xen_get_ins_from_xs_path ker Path s of
       ((rc, None), s) \<Rightarrow> (rc, s)
     | ((rc, Some i), s) \<Rightarrow>
         let s = mw_xen_ins_alive ker i s;
             (is_bound_str, s) = mw_xen_read_from_key ker Path '''' s
         in case is_bound_str of
              None \<Rightarrow> (- EIO, s)
            | Some str \<Rightarrow>
                if str = ''0'' then (- EIO, s)
                else
                  let (r, s) = kdo ker (KBindIrq (id_common_evtchn (ins s ! i))) s in
                  if kr_ret r \<le> 0 then (kr_ret r, s)
                  else (0, upd_ins i (\<lambda>d. d\<lparr>id_irq := kr_ret r\<rparr>) s))"

definition mw_xen_ins_heartbeat ::
  "'w ker \<Rightarrow> string \<Rightarrow> ('w, 'm) mw_xen_scheme \<Rightarrow> int \<times> ('w, 'm) mw_xen_scheme" where
  "mw_xen_ins_heartbeat ker Path s =
    (case mw_xen_get_ins_from_xs_path ker Path s of
       ((rc, None), s) \<Rightarrow> (rc, s)
     | ((rc, Some i), s) \<Rightarrow>
         if id_in_use (ins s ! i) \<noteq> 1 then (- EINVAL, s)
         else (0, mw_xen_ins_alive ker i s))"

definition mw_xen_init_ring ::
  "'w ker \<Rightarrow> nat \<Rightarrow> ('w, 'm) mw_xen_scheme \<Rightarrow> int \<times> ('w, 'm) mw_xen_scheme" where
  "mw_xen_init_ring ker i s = (0, snd (kdo ker (KRingInit i) s))"

definition mw_xen_init_ring_block ::
  "'w ker \<Rightarrow> nat \<Rightarrow> ('w, 'm) mw_xen_scheme \<Rightarrow> int \<times> ('w, 'm) mw_xen_scheme" where
  "mw_xen_init_ring_block ker i s =
    (let (r, s) = kdo ker (KPages XENEVENT_GRANT_REF_ORDER) s;
         s = upd_ins i (\<lambda>d. d\<lparr>id_ring_ptr := (kr_ret r \<noteq> 0), id_pagect := XENEVENT_GRANT_REF_COUNT\<rparr>) s
     in (if kr_ret r = 0 then - ENOMEM else 0, s))"

text \<open>
  \<open>mw_xen_ins_found\<close> after a slot \<open>i\<close> has been claimed: the handshake. The callback that tells the
  socket layer of the new INS is the call \<open>KInsReady\<close>.
\<close>

definition ins_handshake ::
  "'w ker \<Rightarrow> nat \<Rightarrow> ('w, 'm) mw_xen_scheme \<Rightarrow> int \<times> ('w, 'm) mw_xen_scheme" where
  "ins_handshake ker i s =
    (let (err, s) = mw_xen_init_ring_block ker i s in
     if err \<noteq> 0 then (err, s)
     else let (err, s) = mw_xen_create_unbound_evt_chn ker i s in
     if err \<noteq> 0 then (err, s)
     else let (err, s) = mw_xen_offer_grant ker i s in
     if err \<noteq> 0 then (err, s)
     else let (err, s) = mw_xen_init_ring ker i s in
     if err \<noteq> 0 then (err, s)
     else let (err, s) = mw_xen_write_grant_refs_to_key ker i s in
     if err \<noteq> 0 then (err, s)
     else
       let s = mw_xen_ins_alive ker i s;
           s = upd_ins i (\<lambda>d. d\<lparr>id_locked := False, id_is_ring_ready := True\<rparr>) s;
           s = s\<lparr>ins_count := ins_count s + 1\<rparr>
       in (0, snd (kdo ker (KInsReady (id_domid (ins s ! i))) s)))"

definition mw_xen_ins_found ::
  "'w ker \<Rightarrow> string \<Rightarrow> ('w, 'm) mw_xen_scheme \<Rightarrow> int \<times> ('w, 'm) mw_xen_scheme" where
  "mw_xen_ins_found ker Path s =
    (let (client_id_str, s) = mw_xen_read_from_key ker Path '''' s in
     case client_id_str of
       None \<Rightarrow> (- EIO, s)
     | Some str \<Rightarrow>
         if str = ''0'' then (- EIO, s)
         else
           case first_idx (\<lambda>d. id_in_use d = 0) (ins s) of
             None \<Rightarrow> (- ENXIO, s)
           | Some i \<Rightarrow>
               let (r, s) = kdo ker (KStrtol str) (upd_ins i (\<lambda>d. d\<lparr>id_in_use := 1\<rparr>) s);
                   s = upd_ins i (\<lambda>d. d\<lparr>id_domid := word_of_int (kr_port r)\<rparr>) s
               in ins_handshake ker i s)"

definition mw_xen_iface_ready :: "('w, 'm) mw_xen_scheme \<Rightarrow> bool" where
  "mw_xen_iface_ready s \<longleftrightarrow> ins_count s > 0"

section \<open>Choice of an INS\<close>

definition mw_xen_get_next_index_rr :: "('w, 'm) mw_xen_scheme \<Rightarrow> nat \<times> ('w, 'm) mw_xen_scheme" where
  "mw_xen_get_next_index_rr s =
    (let i = rr_next s mod int MAX_INS_COUNT in (nat i, s\<lparr>rr_next := i + 1\<rparr>))"

text \<open>The static index is an \<open>int\<close>; a negative remainder is an index outside the table, that is None.\<close>

fun new_socket_rr_loop :: "nat \<Rightarrow> ('w, 'm) mw_xen_scheme \<Rightarrow> (nat \<times> ('w, 'm) mw_xen_scheme) option" where
  "new_socket_rr_loop 0 s = Some (0, s)"
| "new_socket_rr_loop (Suc n) s =
    (let c = c_rem (sint (rr_curr_index s)) (int MAX_INS_COUNT) in
     if c < 0 then None
     else if id_is_ring_ready (ins s ! nat c) then Some (nat c, s\<lparr>rr_curr_index := rr_curr_index s + 1\<rparr>)
     else new_socket_rr_loop n s)"

definition mw_xen_new_socket_rr :: "('w, 'm) mw_xen_scheme \<Rightarrow> (u16 \<times> ('w, 'm) mw_xen_scheme) option" where
  "mw_xen_new_socket_rr s =
    map_option (\<lambda>(selected, s). (id_domid (ins s ! selected), s)) (new_socket_rr_loop MAX_INS_COUNT s)"

section \<open>Release of an INS\<close>

fun end_grants :: "'w ker \<Rightarrow> u32 list \<Rightarrow> ('w, 'm) mw_xen_scheme \<Rightarrow> ('w, 'm) mw_xen_scheme" where
  "end_grants ker [] s = s"
| "end_grants ker (g # gs) s = end_grants ker gs (if g \<noteq> 0 then snd (kdo ker (KEndGrant g) s) else s)"

definition mw_xen_release_ins :: "'w ker \<Rightarrow> nat \<Rightarrow> ('w, 'm) mw_xen_scheme \<Rightarrow> ('w, 'm) mw_xen_scheme" where
  "mw_xen_release_ins ker i s =
    (let s = (if id_in_use (ins s ! i) = 0 then s
              else
                let s = end_grants ker (id_grant_refs (ins s ! i)) s;
                    s = (if id_irq (ins s ! i) \<noteq> 0 then snd (kdo ker (KUnbindIrq (id_irq (ins s ! i))) s) else s);
                    (closed, s) = mw_xen_is_evt_chn_closed ker i s
                in if closed then s else mw_xen_free_unbound_evt_chn ker i s)
     in upd_ins i (\<lambda>d. d\<lparr>id_in_use := 0, id_is_ring_ready := False, id_domid := DOMID_INVALID\<rparr>) s)"

text \<open>
  The loop of \<open>mw_xen_reap_dead_ins\<close> over the indices \<open>is\<close>; the list is the filled part of
  \<open>Dead_INS_Array\<close>. The number of jiffies in a second, \<open>HZ\<close>, is configuration of the kernel.
\<close>

fun reap_loop ::
  "'w ker \<Rightarrow> u64 \<Rightarrow> u64 \<Rightarrow> nat list \<Rightarrow> u16 list \<Rightarrow> ('w, 'm) mw_xen_scheme \<Rightarrow> u16 list \<times> ('w, 'm) mw_xen_scheme" where
  "reap_loop ker HZ now [] dead s = (dead, s)"
| "reap_loop ker HZ now (i # is) dead s =
    (if id_in_use (ins s ! i) = 0 then reap_loop ker HZ now is dead s
     else
       let age = (now - id_last_seen_time (ins s ! i)) div HZ in
       if age \<le> of_nat HEARTBEAT_INTERVAL_SEC * word_of_int (id_missed_heartbeats (ins s ! i) + 1)
       then reap_loop ker HZ now is dead s
       else
         let s = upd_ins i (\<lambda>d. d\<lparr>id_missed_heartbeats := id_missed_heartbeats d + 1\<rparr>) s in
         if id_missed_heartbeats (ins s ! i) = HEARTBEAT_MAX_MISSES
         then reap_loop ker HZ now is (dead @ [id_domid (ins s ! i)]) (mw_xen_release_ins ker i s)
         else reap_loop ker HZ now is dead s)"

definition mw_xen_reap_dead_ins ::
  "'w ker \<Rightarrow> u64 \<Rightarrow> ('w, 'm) mw_xen_scheme \<Rightarrow> u16 list \<times> ('w, 'm) mw_xen_scheme" where
  "mw_xen_reap_dead_ins ker HZ s =
    (let (r, s) = kdo ker KJiffies s in reap_loop ker HZ (kr_jiffies r) [0..<MAX_INS_COUNT] [] s)"

section \<open>Responses\<close>

text \<open>The loop of \<open>mw_xen_response_available\<close>, at most \<open>n\<close> more iterations; the result is the handle.\<close>

fun response_available_loop ::
  "'w ker \<Rightarrow> nat \<Rightarrow> ('w, 'm) mw_xen_scheme \<Rightarrow> nat option \<times> ('w, 'm) mw_xen_scheme" where
  "response_available_loop ker 0 s = (None, s)"
| "response_available_loop ker (Suc n) s =
    (let (i, s) = mw_xen_get_next_index_rr s in
     if \<not> id_is_ring_ready (ins s ! i) then response_available_loop ker n s
     else
       let (r, s) = kdo ker (KRingHasResponse i) s in
       if kr_ret r = 0 then response_available_loop ker n s else (Some i, s))"

definition mw_xen_response_available ::
  "'w ker \<Rightarrow> ('w, 'm) mw_xen_scheme \<Rightarrow> nat option \<times> ('w, 'm) mw_xen_scheme" where
  "mw_xen_response_available ker s = response_available_loop ker MAX_INS_COUNT s"

definition mw_xen_get_next_response ::
  "'w ker \<Rightarrow> nat \<Rightarrow> ('w, 'm) mw_xen_scheme \<Rightarrow> (int \<times> mt_response_generic) \<times> ('w, 'm) mw_xen_scheme" where
  "mw_xen_get_next_response ker i s =
    (let (r, s) = kdo ker (KRingResponse i) s
     in ((if \<not> MT_IS_RESPONSE (rs_base (kr_response r)) then - EIO else 0, kr_response r), s))"

definition mw_xen_mark_response_consumed ::
  "'w ker \<Rightarrow> nat option \<Rightarrow> ('w, 'm) mw_xen_scheme \<Rightarrow> int \<times> ('w, 'm) mw_xen_scheme" where
  "mw_xen_mark_response_consumed ker h s =
    (case h of None \<Rightarrow> (- EIO, s) | Some i \<Rightarrow> (0, snd (kdo ker (KRingConsume i) s)))"

section \<open>Requests\<close>

definition mw_xen_get_ins_from_domid :: "u16 \<Rightarrow> ('w, 'm) mw_xen_scheme \<Rightarrow> int \<times> nat option" where
  "mw_xen_get_ins_from_domid Domid s =
    (case first_idx (\<lambda>d. id_domid d = Domid) (ins s) of
       None \<Rightarrow> (- ENXIO, None)
     | Some i \<Rightarrow> (if id_in_use (ins s ! i) = 0 then - ESTALE else 0, Some i))"

text \<open>
  The wait for a free slot. Sleeping lets other threads run; a result of the sleep other than 0
  means that the monitor thread has released this INS in the meantime.
\<close>

partial_function (option) ring_wait ::
  "'w ker \<Rightarrow> bool \<Rightarrow> nat \<Rightarrow> ('w, 'm) mw_xen_scheme \<Rightarrow> (int \<times> ('w, 'm) mw_xen_scheme) option" where
  "ring_wait ker WaitForRing i s =
    (if id_in_use (ins s ! i) = 0 then Some (- ESTALE, s)
     else
       let (r, s) = kdo ker (KRingFull i) s in
       if kr_ret r = 0 then Some (0, s)
       else if \<not> WaitForRing then Some (- L_EAGAIN, s)
       else
         let (r, s) = kdo ker KSleep s in
         ring_wait ker WaitForRing i (if kr_ret r \<noteq> 0 then mw_xen_release_ins ker i s else s))"

declare ring_wait.simps [code]

text \<open>
  \<open>mw_xen_get_next_request_slot\<close>: the return code and the handle. None is a call that does not
  return: the lock of the INS is held, or its ring stays full.
\<close>

definition mw_xen_get_next_request_slot ::
  "'w ker \<Rightarrow> bool \<Rightarrow> u16 \<Rightarrow> ('w, 'm) mw_xen_scheme \<Rightarrow> ((int \<times> nat option) \<times> ('w, 'm) mw_xen_scheme) option" where
  "mw_xen_get_next_request_slot ker WaitForRing DomId s =
    Option.bind (if DomId = DOMID_INVALID \<or> DomId = - 1 then mw_xen_new_socket_rr s else Some (DomId, s)) (\<lambda>(DomId, s).
     case mw_xen_get_ins_from_domid DomId s of
       (rc, None) \<Rightarrow> Some ((rc, None), s)
     | (rc, Some i) \<Rightarrow>
         if rc \<noteq> 0 then Some ((rc, None), s)
         else if \<not> id_is_ring_ready (ins s ! i) then Some ((- EIO, None), s)
         else if id_locked (ins s ! i) then None
         else
           (case ring_wait ker WaitForRing i
                   (upd_ins i (\<lambda>d. d\<lparr>id_locked := True, id_curr_req := None\<rparr>) s) of
              None \<Rightarrow> None
            | Some (rc, s) \<Rightarrow>
                if rc \<noteq> 0 then Some ((rc, Some i), s)
                else
                  let (r, s) = kdo ker (KRingSlot i) s
                  in Some ((0, Some i), upd_ins i (\<lambda>d. d\<lparr>id_curr_req := Some (kr_request r)\<rparr>) s)))"

text \<open>The copy of a request into the reserved slot.\<close>

definition put_request :: "nat \<Rightarrow> mt_request_generic \<Rightarrow> ('w, 'm) mw_xen_scheme \<Rightarrow> ('w, 'm) mw_xen_scheme" where
  "put_request i req s = upd_ins i (\<lambda>d. d\<lparr>id_curr_req := Some req\<rparr>) s"

definition release_request_exit ::
  "nat \<Rightarrow> int \<times> ('w, 'm) mw_xen_scheme \<Rightarrow> int \<times> ('w, 'm) mw_xen_scheme" where
  "release_request_exit i = (\<lambda>(rc, s). (rc, upd_ins i (\<lambda>d. d\<lparr>id_curr_req := None, id_locked := False\<rparr>) s))"

definition mw_xen_release_request ::
  "'w ker \<Rightarrow> nat option \<Rightarrow> bool \<Rightarrow> ('w, 'm) mw_xen_scheme \<Rightarrow> (int \<times> ('w, 'm) mw_xen_scheme) option" where
  "mw_xen_release_request ker h SendRequest s =
    (case h of
       None \<Rightarrow> Some (- EINVAL, s)
     | Some i \<Rightarrow>
         map_option (release_request_exit i)
           (if id_in_use (ins s ! i) = 0 then Some (- EINVAL, s)
            else if \<not> SendRequest then Some (0, s)
            else
              case id_curr_req (ins s ! i) of
                None \<Rightarrow> None
              | Some req \<Rightarrow>
                  if \<not> MT_IS_REQUEST (rq_base req) then Some (- EINVAL, s)
                  else
                    let (r, s) = kdo ker (KRingPush i req) s
                    in Some (mw_xen_send_event ker i s)))"

text \<open>The loop of \<open>mw_xen_for_each_live_ins\<close>, with the callback as a parameter.\<close>

fun for_each_live_ins ::
  "(u16 \<Rightarrow> ('w, 'm) mw_xen_scheme \<Rightarrow> (int \<times> ('w, 'm) mw_xen_scheme) option) \<Rightarrow> nat list \<Rightarrow> int
     \<Rightarrow> ('w, 'm) mw_xen_scheme \<Rightarrow> (int \<times> ('w, 'm) mw_xen_scheme) option" where
  "for_each_live_ins Callback [] rc s = Some (rc, s)"
| "for_each_live_ins Callback (i # is) rc s =
    (if \<not> id_is_ring_ready (ins s ! i) then for_each_live_ins Callback is rc s
     else
       case Callback (id_domid (ins s ! i)) s of
         None \<Rightarrow> None
       | Some (rc2, s) \<Rightarrow> for_each_live_ins Callback is (if rc2 \<noteq> 0 then rc2 else rc) s)"

definition mw_xen_for_each_live_ins ::
  "(u16 \<Rightarrow> ('w, 'm) mw_xen_scheme \<Rightarrow> (int \<times> ('w, 'm) mw_xen_scheme) option)
     \<Rightarrow> ('w, 'm) mw_xen_scheme \<Rightarrow> (int \<times> ('w, 'm) mw_xen_scheme) option" where
  "mw_xen_for_each_live_ins Callback s = for_each_live_ins Callback [0..<MAX_INS_COUNT] 0 s"

section \<open>Watching XenStore; start and end\<close>

definition strstr :: "string \<Rightarrow> string \<Rightarrow> bool" where
  "strstr hay needle = (\<exists>k < length hay + 1. take (length needle) (drop k hay) = needle)"

definition mw_xen_xenstore_state_changed ::
  "'w ker \<Rightarrow> string \<Rightarrow> ('w, 'm) mw_xen_scheme \<Rightarrow> ('w, 'm) mw_xen_scheme" where
  "mw_xen_xenstore_state_changed ker Path s =
    (if strstr Path INS_ID_KEY then snd (mw_xen_ins_found ker Path s)
     else if strstr Path VM_EVT_CHN_BOUND_KEY then snd (mw_xen_bind_evt_chn ker Path s)
     else if strstr Path INS_HEARTBEAT_KEY then snd (mw_xen_ins_heartbeat ker Path s)
     else s)"

definition mw_xen_write_server_id_to_key ::
  "'w ker \<Rightarrow> ('w, 'm) mw_xen_scheme \<Rightarrow> int \<times> ('w, 'm) mw_xen_scheme" where
  "mw_xen_write_server_id_to_key ker s =
    (let (dom_id_str, s) = mw_xen_read_from_key ker PRIVATE_ID_PATH '''' s in
     case dom_id_str of
       None \<Rightarrow> (- EIO, s)
     | Some str \<Rightarrow>
         let (err, s) = mw_xen_write_to_key ker XENEVENT_XENSTORE_PVM SERVER_ID_KEY str s in
         if err \<noteq> 0 then (err, s)
         else let (r, s) = kdo ker (KStrtol str) s in (0, s\<lparr>my_domid := word_of_int (kr_port r)\<rparr>))"

definition mw_xen_initialize_keystore ::
  "'w ker \<Rightarrow> ('w, 'm) mw_xen_scheme \<Rightarrow> int \<times> ('w, 'm) mw_xen_scheme" where
  "mw_xen_initialize_keystore ker s =
    (let (rc, s) = mw_xen_mkdir ker XENEVENT_XENSTORE_ROOT XENEVENT_XENSTORE_PVM_NODE s in
     if rc \<noteq> 0 then (rc, s) else mw_xen_mkdir ker XENEVENT_XENSTORE_PVM SERVER_ID_KEY s)"

definition mw_xen_initialize_keys ::
  "'w ker \<Rightarrow> ('w, 'm) mw_xen_scheme \<Rightarrow> int \<times> ('w, 'm) mw_xen_scheme" where
  "mw_xen_initialize_keys ker s = mw_xen_write_to_key ker XENEVENT_XENSTORE_PVM SERVER_ID_KEY KEY_RESET_VAL s"

text \<open>\<^verbatim>\<open>static mwcomms_xen_globals_t g_mwxen_state = {0};\<close> and the bzero of \<open>mw_xen_init\<close>.\<close>

definition ins_zeroed :: mwcomms_ins_data where
  "ins_zeroed = \<lparr>id_in_use = 0, id_domid = 0, id_ring_ptr = False, id_pagect = 0, id_is_ring_ready = False,
     id_grant_refs = replicate XENEVENT_GRANT_REF_COUNT 0, id_common_evtchn = 0, id_irq = 0,
     id_last_seen_time = 0, id_missed_heartbeats = 0, id_curr_req = None, id_locked = False\<rparr>"

definition mw_xen_init :: "'w ker \<Rightarrow> ('w, 'm) mw_xen_scheme \<Rightarrow> int \<times> ('w, 'm) mw_xen_scheme" where
  "mw_xen_init ker s =
    (let s = s\<lparr>my_domid := 0, xenbus_watch_active := False, xen_pending_exit := False, ins_count := 0,
               ins := replicate MAX_INS_COUNT ins_zeroed\<rparr>;
         (rc, s) = mw_xen_initialize_keystore ker s
     in if rc \<noteq> 0 then (rc, s)
        else let (rc, s) = mw_xen_initialize_keys ker s in
        if rc \<noteq> 0 then (rc, s)
        else let (rc, s) = mw_xen_write_server_id_to_key ker s in
        if rc \<noteq> 0 then (rc, s)
        else let (r, s) = kdo ker KXsWatch s in
        if kr_ret r \<noteq> 0 then (kr_ret r, s)
        else (0, s\<lparr>xenbus_watch_active := True\<rparr>))"

definition mw_xen_fini :: "'w ker \<Rightarrow> ('w, 'm) mw_xen_scheme \<Rightarrow> ('w, 'm) mw_xen_scheme" where
  "mw_xen_fini ker s =
    (let s = fold (mw_xen_release_ins ker) [0..<MAX_INS_COUNT] (s\<lparr>xen_pending_exit := True\<rparr>);
         s = (if xenbus_watch_active s then snd (kdo ker KXsUnwatch s) else s);
         s = snd (mw_xen_initialize_keys ker s)
     in snd (mw_xen_rm ker XENEVENT_XENSTORE_ROOT XENEVENT_XENSTORE_PVM_NODE s))"

end
