(* ===== verification/InsTable.thy ===== *)
theory InsTable
  imports XenIface
begin

text \<open>
  Properties of the table of INSs: what the reaper does to each entry, how long an INS may be
  silent, an entry that is never reclaimed, the choice of an INS for a new socket, and the order
  in which the rings are served.
\<close>

section \<open>What the operations leave unchanged\<close>

lemma kdo_sel [simp]:
  "ins (snd (kdo ker c s)) = ins s" "rr_next (snd (kdo ker c s)) = rr_next s"
  "rr_curr_index (snd (kdo ker c s)) = rr_curr_index s" "my_domid (snd (kdo ker c s)) = my_domid s"
  "ins_count (snd (kdo ker c s)) = ins_count s" "kworld (snd (kdo ker c s)) = snd (ker c (kworld s))"
  "fst (kdo ker c s) = fst (ker c (kworld s))"
  by (simp_all add: kdo_def split: prod.splits)

lemma kdo_ins: "kdo ker c s = (r, t) \<Longrightarrow> ins t = ins s"
  using kdo_sel(1) [of ker c s] by simp

lemma upd_ins_sel [simp]: "ins (upd_ins i f s) = (ins s)[i := f (ins s ! i)]"
  "rr_next (upd_ins i f s) = rr_next s" "rr_curr_index (upd_ins i f s) = rr_curr_index s"
  "kworld (upd_ins i f s) = kworld s" "ktrace (upd_ins i f s) = ktrace s"
  by (simp_all add: upd_ins_def)

lemma end_grants_ins [simp]: "ins (end_grants ker gs s) = ins s"
  by (induction ker gs s rule: end_grants.induct) simp_all

definition released :: "mwcomms_ins_data \<Rightarrow> mwcomms_ins_data" where
  "released d = d\<lparr>id_in_use := 0, id_is_ring_ready := False, id_domid := DOMID_INVALID\<rparr>"

lemma release_ins_ins [simp]: "ins (mw_xen_release_ins ker i s) = (ins s)[i := released (ins s ! i)]"
  by (auto simp: mw_xen_release_ins_def mw_xen_is_evt_chn_closed_def mw_xen_free_unbound_evt_chn_def
      Let_def released_def split: prod.splits dest: kdo_ins)

section \<open>The reaper\<close>

text \<open>An INS in use that has been silent for longer than its missed heartbeats account for.\<close>

definition silent :: "u64 \<Rightarrow> u64 \<Rightarrow> mwcomms_ins_data \<Rightarrow> bool" where
  "silent HZ now d \<longleftrightarrow> id_in_use d \<noteq> 0
     \<and> \<not> (now - id_last_seen_time d) div HZ \<le> of_nat HEARTBEAT_INTERVAL_SEC * word_of_int (id_missed_heartbeats d + 1)"

definition dies :: "u64 \<Rightarrow> u64 \<Rightarrow> mwcomms_ins_data \<Rightarrow> bool" where
  "dies HZ now d \<longleftrightarrow> silent HZ now d \<and> id_missed_heartbeats d + 1 = HEARTBEAT_MAX_MISSES"

definition reap_entry :: "u64 \<Rightarrow> u64 \<Rightarrow> mwcomms_ins_data \<Rightarrow> mwcomms_ins_data" where
  "reap_entry HZ now d =
    (if silent HZ now d then
       let d = d\<lparr>id_missed_heartbeats := id_missed_heartbeats d + 1\<rparr> in
       if id_missed_heartbeats d = HEARTBEAT_MAX_MISSES then released d else d
     else d)"

lemma reap_loop_Cons:
  assumes "i < length (ins s)"
  shows "reap_loop ker HZ now (i # is) dead s =
    (let s' = upd_ins i (\<lambda>d. d\<lparr>id_missed_heartbeats := id_missed_heartbeats d + 1\<rparr>) s in
     if dies HZ now (ins s ! i) then reap_loop ker HZ now is (dead @ [id_domid (ins s ! i)]) (mw_xen_release_ins ker i s')
     else reap_loop ker HZ now is dead (if silent HZ now (ins s ! i) then s' else s))"
  using assms unfolding dies_def silent_def
  by (cases "id_missed_heartbeats (ins s ! i) + 1 = HEARTBEAT_MAX_MISSES") (simp_all add: Let_def del: of_int_add)

lemma reap_loop_entries:
  assumes "ins s = xs @ ys" and "reap_loop ker HZ now [length xs..<length xs + length ys] dead s = (dead', t)"
  shows "ins t = xs @ map (reap_entry HZ now) ys \<and> dead' = dead @ map id_domid (filter (dies HZ now) ys)"
  supply upt_Suc [simp del] reap_loop.simps(2) [simp del]
  using assms
proof (induction ys arbitrary: xs dead s)
  case Nil
  then show ?case by simp
next
  case (Cons y ys)
  let ?i = "length xs"
  have upt: "[?i..<?i + length (y # ys)] = ?i # [length (xs @ [y'])..<length (xs @ [y']) + length ys]" for y'
    using upt_conv_Cons [of ?i "?i + length (y # ys)"] by (simp del: upt_Suc)
  have nth: "ins s ! ?i = y" using Cons.prems(1) by simp
  consider (keep) "\<not> silent HZ now y" | (miss) "silent HZ now y" "\<not> dies HZ now y" | (die) "dies HZ now y"
    by (auto simp: dies_def)
  then show ?case
  proof cases
    case keep
    then have "reap_loop ker HZ now [length (xs @ [y])..<length (xs @ [y]) + length ys] dead s = (dead', t)"
      using Cons.prems upt [of y] nth by (simp add: reap_loop_Cons dies_def)
    then show ?thesis
      using Cons.IH [of s "xs @ [y]" dead] Cons.prems(1) keep by (simp add: reap_entry_def dies_def)
  next
    case miss
    let ?y = "y\<lparr>id_missed_heartbeats := id_missed_heartbeats y + 1\<rparr>"
    let ?s = "upd_ins ?i (\<lambda>d. d\<lparr>id_missed_heartbeats := id_missed_heartbeats d + 1\<rparr>) s"
    have "reap_loop ker HZ now [length (xs @ [?y])..<length (xs @ [?y]) + length ys] dead ?s = (dead', t)"
      using Cons.prems upt [of ?y] nth miss by (simp add: reap_loop_Cons Let_def)
    moreover have "ins ?s = (xs @ [?y]) @ ys" using Cons.prems(1) by simp
    ultimately show ?thesis
      using Cons.IH [of ?s "xs @ [?y]" dead] miss by (simp add: reap_entry_def dies_def Let_def)
  next
    case die
    let ?y = "y\<lparr>id_missed_heartbeats := id_missed_heartbeats y + 1\<rparr>"
    let ?s = "mw_xen_release_ins ker ?i (upd_ins ?i (\<lambda>d. d\<lparr>id_missed_heartbeats := id_missed_heartbeats d + 1\<rparr>) s)"
    have "reap_loop ker HZ now [length (xs @ [released ?y])..<length (xs @ [released ?y]) + length ys]
        (dead @ [id_domid y]) ?s = (dead', t)"
      using Cons.prems upt [of "released ?y"] nth die by (simp add: reap_loop_Cons Let_def)
    moreover have "ins ?s = (xs @ [released ?y]) @ ys" using Cons.prems(1) by simp
    ultimately show ?thesis
      using Cons.IH [of ?s "xs @ [released ?y]" "dead @ [id_domid y]"] die
      by (simp add: reap_entry_def dies_def Let_def)
  qed
qed

lemma reap_dead_ins_entries:
  assumes "length (ins s) = MAX_INS_COUNT" and "mw_xen_reap_dead_ins ker HZ s = (dead, t)"
  shows "ins t = map (reap_entry HZ (kr_jiffies (fst (ker KJiffies (kworld s))))) (ins s)"
    and "dead = map id_domid (filter (dies HZ (kr_jiffies (fst (ker KJiffies (kworld s))))) (ins s))"
proof -
  obtain r u where k: "kdo ker KJiffies s = (r, u)" by fastforce
  then have "ins u = [] @ ins s" "r = fst (ker KJiffies (kworld s))"
    using kdo_ins kdo_sel(7) [of ker KJiffies s] by auto
  then show "ins t = map (reap_entry HZ (kr_jiffies (fst (ker KJiffies (kworld s))))) (ins s)"
    and "dead = map id_domid (filter (dies HZ (kr_jiffies (fst (ker KJiffies (kworld s))))) (ins s))"
    using reap_loop_entries [of u "[]" "ins s" ker HZ "kr_jiffies r" "[]" dead t] assms k
    by (simp_all add: mw_xen_reap_dead_ins_def)
qed

text \<open>Repeated passes of the monitor thread.\<close>

definition reap_times :: "'w ker \<Rightarrow> u64 \<Rightarrow> nat \<Rightarrow> ('w, 'm) mw_xen_scheme \<Rightarrow> ('w, 'm) mw_xen_scheme" where
  "reap_times ker HZ n = ((snd \<circ> mw_xen_reap_dead_ins ker HZ) ^^ n)"

lemma reap_times_Suc:
  assumes "length (ins (reap_times ker HZ n s)) = MAX_INS_COUNT" and "i < MAX_INS_COUNT"
  shows "length (ins (reap_times ker HZ (Suc n) s)) = MAX_INS_COUNT
    \<and> ins (reap_times ker HZ (Suc n) s) ! i
       = reap_entry HZ (kr_jiffies (fst (ker KJiffies (kworld (reap_times ker HZ n s))))) (ins (reap_times ker HZ n s) ! i)"
proof -
  let ?s = "reap_times ker HZ n s"
  obtain dead t where "mw_xen_reap_dead_ins ker HZ ?s = (dead, t)" by fastforce
  moreover from this have "reap_times ker HZ (Suc n) s = t" by (simp add: reap_times_def)
  ultimately show ?thesis using reap_dead_ins_entries(1) [of ?s ker HZ dead t] assms by simp
qed

text \<open>A property of one entry that each pass keeps holds after any number of passes.\<close>

lemma reap_times_keeps:
  assumes "length (ins s) = MAX_INS_COUNT" and "i < MAX_INS_COUNT" and "P (ins s ! i)"
    and "\<And>w d. P d \<Longrightarrow> P (reap_entry HZ (kr_jiffies (fst (ker KJiffies w))) d)"
  shows "length (ins (reap_times ker HZ n s)) = MAX_INS_COUNT \<and> P (ins (reap_times ker HZ n s) ! i)"
proof (induction n)
  case 0
  then show ?case using assms by (simp add: reap_times_def)
next
  case (Suc n)
  then show ?case using reap_times_Suc [of ker HZ n s i] assms(2,4) by simp
qed

section \<open>How long an INS may be silent\<close>

text \<open>
  The time since the last heartbeat in whole seconds, on 64-bit counters that may wrap around.
\<close>

lemma silent_iff:
  assumes "id_missed_heartbeats d = m" and "0 \<le> m" and "m < 100"
  shows "silent HZ now d \<longleftrightarrow> id_in_use d \<noteq> 0 \<and> unat (now - id_last_seen_time d) div unat HZ > nat (m + 1)"
proof -
  have "unat (of_nat HEARTBEAT_INTERVAL_SEC * word_of_int (m + 1) :: u64) = nat (m + 1)"
    using assms(2,3) by (simp add: mw_consts unat_eq_nat_uint uint_word_of_int_eq take_bit_int_eq_self del: of_int_add)
  then show ?thesis
    using assms(1) by (simp add: silent_def word_le_nat_alt unat_div not_le del: of_int_add)
qed

text \<open>The entry of an INS that was last heard of at time \<open>t\<close> and has not been given up.\<close>

definition heard :: "u64 \<Rightarrow> mwcomms_ins_data \<Rightarrow> bool" where
  "heard t d \<longleftrightarrow> id_in_use d \<noteq> 0 \<and> id_last_seen_time d = t \<and> id_missed_heartbeats d \<in> {0, 1}"

lemma heard_reap:
  assumes "heard t d" and "unat (now - t) < 3 * unat HZ" and "0 < unat HZ"
  shows "heard t (reap_entry HZ now d)"
proof -
  have "unat (now - t) div unat HZ < 3" using assms(2,3) by (simp add: div_less_iff_less_mult)
  then have "\<not> dies HZ now d"
    using assms(1) silent_iff [of d 1 HZ now] by (auto simp: heard_def dies_def mw_consts)
  then show ?thesis
    using assms(1) by (auto simp: heard_def dies_def reap_entry_def Let_def mw_consts)
qed

lemma reap_entry_in_use: "id_in_use (reap_entry HZ now d) = 0 \<or> id_in_use (reap_entry HZ now d) = id_in_use d"
  by (simp add: reap_entry_def released_def Let_def)

lemma silent_reap:
  assumes "heard t d" and "3 * unat HZ \<le> unat (now - t)" and "0 < unat HZ"
  shows "silent HZ now d"
proof -
  have "3 \<le> unat (now - t) div unat HZ" using assms(2,3) by (simp add: less_eq_div_iff_mult_less_eq)
  then show ?thesis
    using assms(1) silent_iff [of d "id_missed_heartbeats d" HZ now] by (auto simp: heard_def)
qed

text \<open>
  C20. Heartbeats decide over life and death. Take an INS in use whose last heartbeat was at time \<open>t\<close>,
  with no missed heartbeat. As long as every reading of the clock is less than three seconds after
  \<open>t\<close>, no number of passes of the reaper releases it. If the readings are three seconds or more
  after \<open>t\<close>, the second pass at the latest releases it: its entry is free, its ring is not used any
  more, and it has lost its domain id.
\<close>

theorem heartbeat_decides:
  assumes "length (ins s) = MAX_INS_COUNT" and "i < MAX_INS_COUNT" and "0 < HZ"
    and "id_in_use (ins s ! i) = 1" and "id_last_seen_time (ins s ! i) = t" and "id_missed_heartbeats (ins s ! i) = 0"
  shows "((\<forall>w. unat (kr_jiffies (fst (ker KJiffies w)) - t) < 3 * unat HZ)
           \<longrightarrow> id_in_use (ins (reap_times ker HZ n s) ! i) = 1)
     \<and> ((\<forall>w. 3 * unat HZ \<le> unat (kr_jiffies (fst (ker KJiffies w)) - t))
           \<longrightarrow> id_in_use (ins (reap_times ker HZ 2 s) ! i) = 0
               \<and> \<not> id_is_ring_ready (ins (reap_times ker HZ 2 s) ! i)
               \<and> id_domid (ins (reap_times ker HZ 2 s) ! i) = DOMID_INVALID)"
proof (intro conjI impI)
  have hz: "0 < unat HZ" using assms(3) by (simp add: word_less_nat_alt)
  let ?P = "\<lambda>d. heard t d \<and> id_in_use d = 1"
  assume clock: "\<forall>w. unat (kr_jiffies (fst (ker KJiffies w)) - t) < 3 * unat HZ"
  have "?P (reap_entry HZ (kr_jiffies (fst (ker KJiffies w))) d)" if "?P d" for w d
  proof -
    have "heard t (reap_entry HZ (kr_jiffies (fst (ker KJiffies w))) d)" using that clock hz heard_reap by blast
    then show ?thesis using that reap_entry_in_use [of HZ _ d] by (metis heard_def)
  qed
  then show "id_in_use (ins (reap_times ker HZ n s) ! i) = 1"
    using reap_times_keeps [of s i ?P HZ ker n] assms by (simp add: heard_def)
next
  have hz: "0 < unat HZ" using assms(3) by (simp add: word_less_nat_alt)
  assume clock: "\<forall>w. 3 * unat HZ \<le> unat (kr_jiffies (fst (ker KJiffies w)) - t)"
  let ?s1 = "reap_times ker HZ 1 s" and ?d = "ins s ! i"
  let ?d1 = "?d\<lparr>id_missed_heartbeats := 1\<rparr>"
  have h: "heard t ?d" "heard t ?d1" using assms by (simp_all add: heard_def)
  then have sil: "silent HZ (kr_jiffies (fst (ker KJiffies w))) ?d" "silent HZ (kr_jiffies (fst (ker KJiffies w))) ?d1" for w
    using silent_reap clock hz by blast+
  have one: "ins ?s1 ! i = ?d1" "length (ins ?s1) = MAX_INS_COUNT"
    using reap_times_Suc [of ker HZ 0 s i] assms(1,2,6) sil(1)
    by (simp_all add: reap_times_def reap_entry_def Let_def mw_consts)
  have "ins (reap_times ker HZ 2 s) ! i = released (?d\<lparr>id_missed_heartbeats := 2\<rparr>)"
    using reap_times_Suc [of ker HZ 1 s i] one assms(2) sil(2)
    by (simp add: reap_times_def reap_entry_def Let_def mw_consts numeral_2_eq_2)
  then show "id_in_use (ins (reap_times ker HZ 2 s) ! i) = 0"
    and "\<not> id_is_ring_ready (ins (reap_times ker HZ 2 s) ! i)"
    and "id_domid (ins (reap_times ker HZ 2 s) ! i) = DOMID_INVALID"
    by (simp_all add: released_def)
qed

text \<open>A kernel whose clock always shows \<open>t\<close>.\<close>

definition ker_clock :: "u64 \<Rightarrow> unit ker" where
  "ker_clock t c w = (case c of KJiffies \<Rightarrow> kret0\<lparr>kr_jiffies := t\<rparr> | _ \<Rightarrow> kret0, w)"

theorem heartbeat_decides_witness:
  "id_in_use (ins (reap_times (ker_clock 700) 250 5 xen_example) ! 1) = 1
   \<and> id_in_use (ins (reap_times (ker_clock 800) 250 2 xen_example) ! 1) = 0"
proof
  have e: "length (ins xen_example) = MAX_INS_COUNT" "1 < MAX_INS_COUNT" "(0::u64) < 250"
    "id_in_use (ins xen_example ! 1) = 1" "id_last_seen_time (ins xen_example ! 1) = 0"
    "id_missed_heartbeats (ins xen_example ! 1) = 0"
    by (simp_all add: xen_example_def ins_example_def mw_consts)
  show "id_in_use (ins (reap_times (ker_clock 700) 250 5 xen_example) ! 1) = 1"
    using heartbeat_decides [OF e, of "ker_clock 700" 5] by (simp add: ker_clock_def)
  show "id_in_use (ins (reap_times (ker_clock 800) 250 2 xen_example) ! 1) = 0"
    using heartbeat_decides [OF e, of "ker_clock 800" 0] by (simp add: ker_clock_def)
qed

section \<open>An entry that is never reclaimed\<close>

text \<open>The steps of the handshake keep the fields that the reaper reads.\<close>

definition same_life :: "mwcomms_ins_data \<Rightarrow> mwcomms_ins_data \<Rightarrow> bool" where
  "same_life d e \<longleftrightarrow> id_in_use e = id_in_use d \<and> id_missed_heartbeats e = id_missed_heartbeats d
     \<and> id_is_ring_ready e = id_is_ring_ready d"

definition keeps_life :: "nat \<Rightarrow> ('w, 'm) mw_xen_scheme \<Rightarrow> ('w, 'm) mw_xen_scheme \<Rightarrow> bool" where
  "keeps_life i s t \<longleftrightarrow> length (ins t) = length (ins s) \<and> same_life (ins s ! i) (ins t ! i)"

lemma keeps_life_trans [trans]: "keeps_life i s t \<Longrightarrow> keeps_life i t u \<Longrightarrow> keeps_life i s u"
  by (simp add: keeps_life_def same_life_def)

lemma keeps_life_refl: "ins t = ins s \<Longrightarrow> keeps_life i s t"
  by (simp add: keeps_life_def same_life_def)

lemma keeps_life_kdo: "kdo ker c s = (r, t) \<Longrightarrow> keeps_life i s t"
  by (intro keeps_life_refl kdo_ins)

lemma keeps_life_write: "mw_xen_write_to_key ker d n v s = (rc, t) \<Longrightarrow> keeps_life i s t"
  by (drule write_to_key_frame) (metis keeps_life_refl mw_xen.select_convs(5) mw_xen.surjective mw_xen.update_convs(8,9))

lemma keeps_life_upd:
  assumes "i < length (ins s)" and "same_life (ins s ! i) (f (ins s ! i))"
  shows "keeps_life i s (upd_ins i f s)"
  using assms by (simp add: keeps_life_def)

lemma keeps_life_valid: "keeps_life i s t \<Longrightarrow> i < length (ins s) \<Longrightarrow> i < length (ins t)"
  by (simp add: keeps_life_def)

lemma keeps_life_offer: "i < length (ins s) \<Longrightarrow> offer_grant_loop ker i k n s = (rc, t) \<Longrightarrow> keeps_life i s t"
proof (induction ker i k n s rule: offer_grant_loop.induct)
  case (1 ker i k s)
  then show ?case by (simp add: keeps_life_refl)
next
  case (2 ker i k n s)
  obtain r s1 where k: "kdo ker (KGrant (id_domid (ins s ! i)) k) s = (r, s1)" by fastforce
  let ?f = "\<lambda>d. d\<lparr>id_grant_refs := (id_grant_refs d)[k := word_of_int (kr_ret r)]\<rparr>"
  have "keeps_life i s (upd_ins i ?f s1)"
    using keeps_life_kdo [OF k] keeps_life_upd [of i s1 ?f] kdo_ins [OF k] 2(2)
    by (auto intro: keeps_life_trans simp: same_life_def)
  then show ?case
    using 2 k keeps_life_kdo [OF k] by (auto split: if_splits intro: keeps_life_trans simp: kdo_ins [OF k])
qed

lemma keeps_life_block: "i < length (ins s) \<Longrightarrow> mw_xen_init_ring_block ker i s = (rc, t) \<Longrightarrow> keeps_life i s t"
  by (auto simp: mw_xen_init_ring_block_def Let_def keeps_life_def same_life_def split: prod.splits dest!: kdo_ins)

lemma keeps_life_evtchn:
  assumes "i < length (ins s)" and "mw_xen_create_unbound_evt_chn ker i s = (rc, t)"
  shows "keeps_life i s t"
proof (cases "id_domid (ins s ! i) = 0")
  case True
  then show ?thesis using assms by (simp add: mw_xen_create_unbound_evt_chn_def keeps_life_refl)
next
  case False
  obtain r s1 where k: "kdo ker (KEvtchnAllocUnbound (my_domid s) (id_domid (ins s ! i))) s = (r, s1)" by fastforce
  have "keeps_life i s (upd_ins i (\<lambda>d. d\<lparr>id_common_evtchn := kr_port r\<rparr>) s1)"
    using kdo_ins [OF k] assms(1) by (simp add: keeps_life_def same_life_def)
  then show ?thesis
    using assms(2) False k keeps_life_kdo [OF k, of i]
    by (auto simp: mw_xen_create_unbound_evt_chn_def Let_def split: if_splits
        dest!: keeps_life_write [of _ _ _ _ _ _ _ i] intro: keeps_life_trans)
qed

lemma keeps_life_refs_loop: "grant_refs_loop ker p refs c k a s = (rc, c', k', a', t) \<Longrightarrow> keeps_life i s t"
proof (induction ker p refs c k a s rule: grant_refs_loop.induct)
  case (2 ker path ref refs c k a s)
  then show ?case
    by (auto simp: Let_def split: if_splits prod.splits intro: keeps_life_refl keeps_life_write keeps_life_trans)
qed (simp add: keeps_life_refl)

lemma keeps_life_refs:
  assumes "mw_xen_write_grant_refs_to_key ker j s = (rc, t)"
  shows "keeps_life i s t"
proof -
  obtain r s0 where k: "kdo ker KAlloc s = (r, s0)" by fastforce
  obtain rc1 cnt chunk acc s1 where
    l: "grant_refs_loop ker (ins_dir (id_domid (ins s ! j))) (id_grant_refs (ins s ! j)) 0 1 [] s0 = (rc1, cnt, chunk, acc, s1)"
    using prod_cases5 by blast
  have a: "keeps_life i s s0" and b: "keeps_life i s s1"
    using keeps_life_kdo [OF k] keeps_life_refs_loop [OF l] by (auto intro: keeps_life_trans)
  show ?thesis
    using assms a b unfolding mw_xen_write_grant_refs_to_key_def Let_def k prod.case kdo_ins [OF k] l
    by (auto split: if_splits prod.splits dest!: keeps_life_write [of _ _ _ _ _ _ _ i] intro: keeps_life_trans)
qed

lemma keeps_life_handshake:
  assumes "i < length (ins s)" and "ins_handshake ker i s = (err, t)" and "err \<noteq> 0"
  shows "keeps_life i s t"
proof -
  obtain e1 s1 where 1: "mw_xen_init_ring_block ker i s = (e1, s1)" by fastforce
  obtain e2 s2 where 2: "mw_xen_create_unbound_evt_chn ker i s1 = (e2, s2)" by fastforce
  obtain e3 s3 where 3: "mw_xen_offer_grant ker i s2 = (e3, s3)" by fastforce
  obtain e4 s4 where 4: "mw_xen_init_ring ker i s3 = (e4, s4)" by fastforce
  obtain e5 s5 where 5: "mw_xen_write_grant_refs_to_key ker i s4 = (e5, s5)" by fastforce
  have k1: "keeps_life i s s1" by (rule keeps_life_block [OF assms(1) 1])
  then have k2: "keeps_life i s s2" using keeps_life_evtchn [OF keeps_life_valid 2] assms(1) by (blast intro: keeps_life_trans)
  then have k3: "keeps_life i s s3"
    using keeps_life_offer [of i s2 ker 0 "id_pagect (ins s2 ! i)" e3 s3] keeps_life_valid [OF k2 assms(1)] 3
    by (auto simp: mw_xen_offer_grant_def intro: keeps_life_trans)
  then have k4: "keeps_life i s s4" using 4 by (auto simp: mw_xen_init_ring_def keeps_life_def)
  then have k5: "keeps_life i s s5" using keeps_life_refs [OF 5] by (blast intro: keeps_life_trans)
  show ?thesis
    using assms(2,3) 1 2 3 4 5 k1 k2 k3 k4 k5
    by (auto simp: ins_handshake_def Let_def split: if_splits)
qed

text \<open>An entry in use that has missed as many heartbeats as the limit is skipped by the test for equality.\<close>

lemma over_limit_reap:
  assumes "id_in_use d = 1 \<and> HEARTBEAT_MAX_MISSES \<le> id_missed_heartbeats d \<and> \<not> id_is_ring_ready d"
  shows "id_in_use (reap_entry HZ now d) = 1 \<and> HEARTBEAT_MAX_MISSES \<le> id_missed_heartbeats (reap_entry HZ now d)
     \<and> \<not> id_is_ring_ready (reap_entry HZ now d)"
  using assms by (simp add: reap_entry_def Let_def)

text \<open>
  A leak of entries. When an INS has been released for missing heartbeats, its entry keeps the
  number of misses. If the entry is claimed for a new INS and the handshake fails, the entry stays
  in use without a ring, and no number of passes of the reaper ever frees it: the count is already
  at the limit, and the reaper compares for equality after an increment.
\<close>

theorem failed_handshake_leaks_entry:
  assumes "length (ins s) = MAX_INS_COUNT" and "first_idx (\<lambda>d. id_in_use d = 0) (ins s) = Some i"
    and "\<not> id_is_ring_ready (ins s ! i)" and "HEARTBEAT_MAX_MISSES \<le> id_missed_heartbeats (ins s ! i)"
    and "mw_xen_ins_found ker Path s = (err, t)" and "err \<noteq> 0" and "id_in_use (ins t ! i) = 1"
  shows "id_in_use (ins (reap_times ker' HZ n t) ! i) = 1 \<and> \<not> id_is_ring_ready (ins (reap_times ker' HZ n t) ! i)"
proof -
  have i: "i < MAX_INS_COUNT" using first_idx_SomeD(1) [OF assms(2)] assms(1) by simp
  obtain str s1 where rd: "mw_xen_read_from_key ker Path '''' s = (str, s1)" by fastforce
  then have ins1: "ins s1 = ins s"
    by (auto simp: mw_xen_read_from_key_def Let_def split: prod.splits if_splits dest!: kdo_ins)
  have free: "id_in_use (ins s ! i) = 0" using first_idx_SomeD(2) [OF assms(2)] by simp
  obtain v where v: "str = Some v" "v \<noteq> ''0''"
    using assms(5,7) rd ins1 free by (cases str) (auto simp: mw_xen_ins_found_def split: if_splits)
  let ?s2 = "upd_ins i (\<lambda>d. d\<lparr>id_in_use := 1\<rparr>) s1"
  obtain r s3 where k: "kdo ker (KStrtol v) ?s2 = (r, s3)" by fastforce
  let ?s4 = "upd_ins i (\<lambda>d. d\<lparr>id_domid := word_of_int (kr_port r)\<rparr>) s3"
  have "ins_handshake ker i ?s4 = (err, t)"
    using assms(2,5) rd v ins1 k by (simp add: mw_xen_ins_found_def Let_def)
  moreover have e: "length (ins ?s4) = MAX_INS_COUNT" "id_is_ring_ready (ins ?s4 ! i) = id_is_ring_ready (ins s ! i)"
    "id_missed_heartbeats (ins ?s4 ! i) = id_missed_heartbeats (ins s ! i)"
    using kdo_ins [OF k] ins1 assms(1) i by simp_all
  ultimately have "keeps_life i ?s4 t" using keeps_life_handshake [of i ?s4 ker err t] assms(6) i by simp
  then have "length (ins t) = MAX_INS_COUNT \<and> \<not> id_is_ring_ready (ins t ! i)
      \<and> HEARTBEAT_MAX_MISSES \<le> id_missed_heartbeats (ins t ! i)"
    using e assms(3,4) by (simp add: keeps_life_def same_life_def)
  then show ?thesis
    using reap_times_keeps [of t i "\<lambda>d. id_in_use d = 1 \<and> HEARTBEAT_MAX_MISSES \<le> id_missed_heartbeats d
        \<and> \<not> id_is_ring_ready d" HZ ker' n] over_limit_reap i assms(7) by simp
qed

text \<open>An entry as the reaper leaves it, and a kernel without memory for a ring.\<close>

definition ker_no_pages :: "unit ker" where
  "ker_no_pages c w = (case c of KXsRead _ _ \<Rightarrow> kret0\<lparr>kr_str := Some ''9''\<rparr> | KStrtol _ \<Rightarrow> kret0\<lparr>kr_port := 9\<rparr> | _ \<Rightarrow> kret0, w)"

definition xen_reused :: "unit mw_xen" where
  "xen_reused = xen_example\<lparr>ins := replicate 3 (released (ins_example\<lparr>id_missed_heartbeats := 2\<rparr>))\<rparr>"

theorem failed_handshake_leaks_entry_witness:
  "fst (mw_xen_ins_found ker_no_pages ''/mw/9/ins_dom_id'' xen_reused) = - ENOMEM
   \<and> id_in_use (ins (reap_times (ker_clock 5000) 250 9 (snd (mw_xen_ins_found ker_no_pages ''/mw/9/ins_dom_id'' xen_reused))) ! 0) = 1"
proof
  have e: "length (ins xen_reused) = MAX_INS_COUNT" "first_idx (\<lambda>d. id_in_use d = 0) (ins xen_reused) = Some 0"
    "\<not> id_is_ring_ready (ins xen_reused ! 0)" "HEARTBEAT_MAX_MISSES \<le> id_missed_heartbeats (ins xen_reused ! 0)"
    by (simp_all add: xen_reused_def released_def mw_consts numeral_3_eq_3)
  have f: "fst (mw_xen_ins_found ker_no_pages ''/mw/9/ins_dom_id'' xen_reused) = - ENOMEM
      \<and> id_in_use (ins (snd (mw_xen_ins_found ker_no_pages ''/mw/9/ins_dom_id'' xen_reused)) ! 0) = 1"
    by (simp add: mw_xen_ins_found_def mw_xen_read_from_key_def ins_handshake_def mw_xen_init_ring_block_def
        kdo_def ker_no_pages_def kret0_def xen_reused_def xen_example_def released_def upd_ins_def mw_consts
        numeral_3_eq_3 Let_def)
  then show "fst (mw_xen_ins_found ker_no_pages ''/mw/9/ins_dom_id'' xen_reused) = - ENOMEM" by simp
  obtain err t where m: "mw_xen_ins_found ker_no_pages ''/mw/9/ins_dom_id'' xen_reused = (err, t)" by fastforce
  show "id_in_use (ins (reap_times (ker_clock 5000) 250 9
      (snd (mw_xen_ins_found ker_no_pages ''/mw/9/ins_dom_id'' xen_reused))) ! 0) = 1"
    using failed_handshake_leaks_entry [OF e m, of "ker_clock 5000" 250 9] f m by simp
qed

section \<open>The choice of an INS for a new socket\<close>

definition rr_entry :: "('w, 'm) mw_xen_scheme \<Rightarrow> nat" where
  "rr_entry s = nat (sint (rr_curr_index s) mod int MAX_INS_COUNT)"

lemma new_socket_rr_loop_result:
  "new_socket_rr_loop n s = Some (i, t) \<Longrightarrow> t = s \<or> t = s\<lparr>rr_curr_index := rr_curr_index s + 1\<rparr>"
  by (induction n s rule: new_socket_rr_loop.induct) (auto simp: Let_def split: if_split_asm)

lemma new_socket_rr_result:
  "mw_xen_new_socket_rr s = Some (d, t) \<Longrightarrow> t = s \<or> t = s\<lparr>rr_curr_index := rr_curr_index s + 1\<rparr>"
  by (auto simp: mw_xen_new_socket_rr_def dest: new_socket_rr_loop_result)

lemma new_socket_rr_eq:
  assumes "0 \<le> sint (rr_curr_index s)"
  shows "mw_xen_new_socket_rr s = Some
    (if id_is_ring_ready (ins s ! rr_entry s)
     then (id_domid (ins s ! rr_entry s), s\<lparr>rr_curr_index := rr_curr_index s + 1\<rparr>)
     else (id_domid (ins s ! 0), s))"
proof -
  have "new_socket_rr_loop n s = Some (if n \<noteq> 0 \<and> id_is_ring_ready (ins s ! rr_entry s)
      then (rr_entry s, s\<lparr>rr_curr_index := rr_curr_index s + 1\<rparr>) else (0, s))" for n
    using assms by (induction n) (simp_all add: rr_entry_def c_rem_def Let_def mw_consts)
  then show ?thesis by (simp add: mw_xen_new_socket_rr_def mw_consts)
qed

text \<open>The index after the largest one is the smallest \<open>int\<close>, whose remainder is -2.\<close>

lemma sint_succ: "sint (w + 1 :: u32) = (if sint w = 2 ^ 31 - 1 then - (2 ^ 31) else sint w + 1)"
proof -
  have "- (2 ^ 31) \<le> sint w" "sint w < 2 ^ 31" using sint_ge [of w] sint_lt [of w] by simp_all
  moreover have "sint (w + 1) = signed_take_bit 31 (sint w + 1)" by (simp add: sint_word_ariths)
  ultimately show ?thesis by (auto simp: signed_take_bit_int_eq_self signed_take_bit_eq_take_bit_shift take_bit_eq_mod)
qed

lemma new_socket_rr_overflow: "sint (rr_curr_index s) = - (2 ^ 31) \<Longrightarrow> mw_xen_new_socket_rr s = None"
  by (simp add: mw_xen_new_socket_rr_def mw_consts numeral_3_eq_3 c_rem_def)

fun new_sockets :: "nat \<Rightarrow> ('w, 'm) mw_xen_scheme \<Rightarrow> u16 list option" where
  "new_sockets 0 s = Some []"
| "new_sockets (Suc n) s = Option.bind (mw_xen_new_socket_rr s) (\<lambda>(domid, s). map_option (Cons domid) (new_sockets n s))"

lemma new_sockets_rotate:
  assumes "\<forall>i<MAX_INS_COUNT. id_is_ring_ready (ins s ! i)" and "0 \<le> sint (rr_curr_index s)"
  shows "new_sockets n s = (if sint (rr_curr_index s) + int n \<le> 2 ^ 31
    then Some (map (\<lambda>k. id_domid (ins s ! nat ((sint (rr_curr_index s) + int k) mod int MAX_INS_COUNT))) [0..<n]) else None)"
  using assms
proof (induction n arbitrary: s)
  case 0
  then show ?case using sint_lt [of "rr_curr_index s"] by simp
next
  case (Suc n)
  let ?t = "s\<lparr>rr_curr_index := rr_curr_index s + 1\<rparr>"
  have "rr_entry s < MAX_INS_COUNT" by (simp add: rr_entry_def mw_consts nat_less_iff)
  then have step: "mw_xen_new_socket_rr s = Some (id_domid (ins s ! rr_entry s), ?t)"
    using Suc.prems by (simp add: new_socket_rr_eq)
  show ?case
  proof (cases "sint (rr_curr_index s) = 2 ^ 31 - 1")
    case True
    then have "sint (rr_curr_index ?t) = - (2 ^ 31)" by (simp add: sint_succ)
    then have "new_sockets n ?t = (if n = 0 then Some [] else None)" by (cases n) (simp_all only: new_sockets.simps new_socket_rr_overflow, simp_all)
    then show ?thesis using step True by (simp add: rr_entry_def)
  next
    case False
    then have t: "sint (rr_curr_index ?t) = sint (rr_curr_index s) + 1" by (simp add: sint_succ)
    have upt: "[0..<Suc n] = 0 # map Suc [0..<n]" by (simp add: upt_conv_Cons map_Suc_upt del: upt_Suc)
    have "new_sockets n ?t = (if sint (rr_curr_index s) + 1 + int n \<le> 2 ^ 31
        then Some (map (\<lambda>k. id_domid (ins s ! nat ((sint (rr_curr_index s) + 1 + int k) mod int MAX_INS_COUNT))) [0..<n]) else None)"
      using Suc.IH [of ?t] Suc.prems unfolding t by simp
    then show ?thesis unfolding upt by (simp add: step rr_entry_def comp_def add.assoc)
  qed
qed

text \<open>
  C21. New sockets and round robin. As long as the index of the rotation is not negative, the domains chosen for \<open>n\<close> new sockets in a row rotate through the
  table when all INSs are ready. But when the entry whose turn it is has no ring, every one of them
  goes to the first entry, however many other INSs are ready, because the turn never moves on. And the index is an \<open>int\<close> that is
  only ever incremented: the socket after the one for the index \<open>2 ^ 31 - 1\<close> reads the table at the index -2.
\<close>

theorem new_sockets_rotate_or_stick:
  assumes "0 \<le> sint (rr_curr_index s)"
  shows "((\<forall>i<MAX_INS_COUNT. id_is_ring_ready (ins s ! i)) \<longrightarrow> new_sockets n s = (if sint (rr_curr_index s) + int n \<le> 2 ^ 31
      then Some (map (\<lambda>k. id_domid (ins s ! nat ((sint (rr_curr_index s) + int k) mod int MAX_INS_COUNT))) [0..<n]) else None))
   \<and> (\<not> id_is_ring_ready (ins s ! rr_entry s) \<longrightarrow> new_sockets n s = Some (replicate n (id_domid (ins s ! 0))))"
proof (intro conjI impI)
  assume "\<not> id_is_ring_ready (ins s ! rr_entry s)"
  then show "new_sockets n s = Some (replicate n (id_domid (ins s ! 0)))"
    using assms by (induction n) (simp_all add: new_socket_rr_eq)
qed (rule new_sockets_rotate [OF _ assms])

definition ready_entry :: "u16 \<Rightarrow> bool \<Rightarrow> mwcomms_ins_data" where
  "ready_entry domid ready = ins_example\<lparr>id_domid := domid, id_is_ring_ready := ready\<rparr>"

definition xen_rr :: "bool \<Rightarrow> u32 \<Rightarrow> unit mw_xen" where
  "xen_rr third turn = xen_example\<lparr>ins := [ready_entry 4 True, ready_entry 5 True, ready_entry 6 third], rr_curr_index := turn\<rparr>"

theorem new_sockets_rotate_or_stick_witness:
  "new_sockets 4 (xen_rr True 1) = Some [5, 6, 4, 5] \<and> new_sockets 4 (xen_rr True 0x7FFFFFFD) = None \<and> new_sockets 4 (xen_rr False 2) = Some [4, 4, 4, 4]"
proof (intro conjI)
  have ready: "\<forall>i<MAX_INS_COUNT. id_is_ring_ready (ins (xen_rr True k) ! i)" for k
    by (auto simp: xen_rr_def ready_entry_def mw_consts less_Suc_eq numeral_3_eq_3)
  have "map (\<lambda>k. id_domid (ins (xen_rr True 1) ! nat ((sint (rr_curr_index (xen_rr True 1)) + int k) mod int MAX_INS_COUNT)))
      [0..<4] = [5, 6, 4, 5]"
    by (simp add: xen_rr_def ready_entry_def mw_consts upt_rec [of _ 4] del: upt_rec_numeral)
  then show "new_sockets 4 (xen_rr True 1) = Some [5, 6, 4, 5]"
    using new_sockets_rotate_or_stick [of "xen_rr True 1" 4] ready by (simp add: xen_rr_def)
  show "new_sockets 4 (xen_rr True 0x7FFFFFFD) = None"
    using new_sockets_rotate_or_stick [of "xen_rr True 0x7FFFFFFD" 4] ready by (simp add: xen_rr_def)
  have "\<not> id_is_ring_ready (ins (xen_rr False 2) ! rr_entry (xen_rr False 2))"
    by (simp add: xen_rr_def ready_entry_def rr_entry_def mw_consts)
  then show "new_sockets 4 (xen_rr False 2) = Some [4, 4, 4, 4]"
    using new_sockets_rotate_or_stick [of "xen_rr False 2" 4] by (simp add: xen_rr_def ready_entry_def numeral_eq_Suc)
qed

section \<open>The order in which rings are served\<close>

text \<open>The rings with responses, as long as none arrives or is consumed: the answer does not depend on the world.\<close>

definition pending_rings :: "'w ker \<Rightarrow> (nat \<Rightarrow> bool) \<Rightarrow> bool" where
  "pending_rings ker P \<longleftrightarrow> (\<forall>i w. kr_ret (fst (ker (KRingHasResponse i) w)) \<noteq> 0 \<longleftrightarrow> P i)"

text \<open>The entry to be looked at \<open>k\<close> steps after the next one.\<close>

definition rr_at :: "('w, 'm) mw_xen_scheme \<Rightarrow> nat \<Rightarrow> nat" where
  "rr_at s k = nat ((rr_next s + int k) mod int MAX_INS_COUNT)"

lemma rr_at_Suc: "rr_at (s\<lparr>rr_next := rr_next s mod int MAX_INS_COUNT + 1\<rparr>) k = rr_at s (Suc k)"
proof -
  have "(rr_next s mod int MAX_INS_COUNT + 1 + int k) mod int MAX_INS_COUNT
      = (rr_next s + (1 + int k)) mod int MAX_INS_COUNT"
    by (metis add.assoc mod_add_left_eq)
  then show ?thesis by (simp add: rr_at_def)
qed

lemma response_loop:
  assumes "pending_rings ker P"
  shows "(\<exists>k<n. id_is_ring_ready (ins s ! rr_at s k) \<and> P (rr_at s k)
            \<and> (\<forall>j<k. \<not> (id_is_ring_ready (ins s ! rr_at s j) \<and> P (rr_at s j)))
            \<and> (\<exists>t. response_available_loop ker n s = (Some (rr_at s k), t) \<and> ins t = ins s
                  \<and> (\<forall>m. rr_at t m = rr_at s (Suc (k + m)))))
     \<or> ((\<forall>k<n. \<not> (id_is_ring_ready (ins s ! rr_at s k) \<and> P (rr_at s k)))
            \<and> fst (response_available_loop ker n s) = None)"
  using assms
proof (induction n arbitrary: s)
  case 0
  then show ?case by simp
next
  case (Suc n)
  let ?s = "s\<lparr>rr_next := rr_next s mod int MAX_INS_COUNT + 1\<rparr>"
  have nx: "mw_xen_get_next_index_rr s = (rr_at s 0, ?s)"
    by (simp add: mw_xen_get_next_index_rr_def rr_at_def Let_def)
  obtain r u where k: "kdo ker (KRingHasResponse (rr_at s 0)) ?s = (r, u)" by fastforce
  then have u: "ins u = ins s" "rr_next u = rr_next ?s" and r: "kr_ret r \<noteq> 0 \<longleftrightarrow> P (rr_at s 0)"
    using kdo_sel(1,2,7) [of ker "KRingHasResponse (rr_at s 0)" ?s] Suc.prems by (auto simp: pending_rings_def)
  have at: "rr_at ?s m = rr_at s (Suc m)" "rr_at u m = rr_at s (Suc m)" for m
    using rr_at_Suc [of s m] u(2) by (simp_all add: rr_at_def)
  show ?case
  proof (cases "id_is_ring_ready (ins s ! rr_at s 0) \<and> P (rr_at s 0)")
    case True
    then have "response_available_loop ker (Suc n) s = (Some (rr_at s 0), u)" using nx k r by simp
    then show ?thesis using True u at by (intro disjI1 exI [of _ 0]) simp
  next
    case False
    define v where "v = (if id_is_ring_ready (ins s ! rr_at s 0) then u else ?s)"
    have step: "response_available_loop ker (Suc n) s = response_available_loop ker n v"
      using False nx k r by (auto simp: v_def)
    have v: "ins v = ins s" "\<And>m. rr_at v m = rr_at s (Suc m)" using u at by (simp_all add: v_def)
    from Suc.IH [OF Suc.prems, of v, unfolded v, folded step] show ?thesis
    proof
      assume "\<exists>k<n. id_is_ring_ready (ins s ! rr_at s (Suc k)) \<and> P (rr_at s (Suc k))
          \<and> (\<forall>j<k. \<not> (id_is_ring_ready (ins s ! rr_at s (Suc j)) \<and> P (rr_at s (Suc j))))
          \<and> (\<exists>t. response_available_loop ker (Suc n) s = (Some (rr_at s (Suc k)), t) \<and> ins t = ins s
                \<and> (\<forall>m. rr_at t m = rr_at s (Suc (Suc (k + m)))))"
      then obtain k t where k: "k < n" "id_is_ring_ready (ins s ! rr_at s (Suc k))" "P (rr_at s (Suc k))"
        "\<And>j. j < k \<Longrightarrow> \<not> (id_is_ring_ready (ins s ! rr_at s (Suc j)) \<and> P (rr_at s (Suc j)))"
        "response_available_loop ker (Suc n) s = (Some (rr_at s (Suc k)), t)" "ins t = ins s"
        "\<And>m. rr_at t m = rr_at s (Suc (Suc (k + m)))" by blast
      have "\<not> (id_is_ring_ready (ins s ! rr_at s j) \<and> P (rr_at s j))" if "j < Suc k" for j
        using that False k(4) by (cases j) auto
      then show ?thesis using k by (intro disjI1 exI [of _ "Suc k"]) (simp del: response_available_loop.simps)
    next
      assume none: "(\<forall>k<n. \<not> (id_is_ring_ready (ins s ! rr_at s (Suc k)) \<and> P (rr_at s (Suc k))))
          \<and> fst (response_available_loop ker (Suc n) s) = None"
      have "\<not> (id_is_ring_ready (ins s ! rr_at s k) \<and> P (rr_at s k))" if "k < Suc n" for k
        using that False none by (cases k) auto
      then show ?thesis using none by (intro disjI2) (simp del: response_available_loop.simps)
    qed
  qed
qed

lemma served_within:
  assumes "pending_rings ker P" and "id_is_ring_ready (ins s ! i)" and "P i" and "rr_at s p = i" and "p < MAX_INS_COUNT"
  shows "\<exists>k\<le>p. fst (mw_xen_response_available ker (((snd \<circ> mw_xen_response_available ker) ^^ k) s)) = Some i"
  using assms
proof (induction p arbitrary: s rule: less_induct)
  case (less p)
  from response_loop [OF less.prems(1), of MAX_INS_COUNT s]
  obtain k t where k: "k < MAX_INS_COUNT" "\<And>j. j < k \<Longrightarrow> \<not> (id_is_ring_ready (ins s ! rr_at s j) \<and> P (rr_at s j))"
    "mw_xen_response_available ker s = (Some (rr_at s k), t)" "ins t = ins s" "\<And>m. rr_at t m = rr_at s (Suc (k + m))"
    unfolding mw_xen_response_available_def using less.prems by blast
  then have "k \<le> p" using less.prems(2,3,4) by (metis not_le)
  show ?case
  proof (cases "k = p")
    case True
    then show ?thesis using k(3) less.prems(4) by (intro exI [of _ 0]) simp
  next
    case False
    then have q: "p - Suc k < p" "rr_at t (p - Suc k) = i" using \<open>k \<le> p\<close> k(5) less.prems(4) by auto
    moreover have "id_is_ring_ready (ins t ! i)" "p - Suc k < MAX_INS_COUNT" using less.prems k(4) by simp_all
    ultimately obtain m where "m \<le> p - Suc k"
      "fst (mw_xen_response_available ker (((snd \<circ> mw_xen_response_available ker) ^^ m) t)) = Some i"
      using less.IH [of "p - Suc k" t] less.prems(1,3) by blast
    then show ?thesis
      using k(3) q(1) by (intro exI [of _ "Suc m"]) (simp add: funpow_Suc_right comp_def del: funpow.simps)
  qed
qed

text \<open>
  C22. No ring is starved. If an INS is ready and its ring holds a response, then one of the next
  MAX\_INS\_COUNT calls of \<open>mw_xen_response_available\<close> returns it, whatever other rings hold.
\<close>

theorem response_ring_served:
  assumes "pending_rings ker P" and "i < MAX_INS_COUNT" and "id_is_ring_ready (ins s ! i)" and "P i"
  shows "\<exists>k<MAX_INS_COUNT. fst (mw_xen_response_available ker (((snd \<circ> mw_xen_response_available ker) ^^ k) s)) = Some i"
proof -
  define p where "p = nat ((int i - rr_next s) mod int MAX_INS_COUNT)"
  have "p < MAX_INS_COUNT" by (simp add: p_def mw_consts nat_less_iff)
  moreover have "rr_at s p = i" using assms(2) by (simp add: rr_at_def p_def mod_simps mw_consts)
  ultimately show ?thesis using served_within [of ker P s i p] assms by (meson le_less_trans)
qed

definition ker_rings :: "unit ker" where
  "ker_rings c w = (case c of KRingHasResponse i \<Rightarrow> kret0\<lparr>kr_ret := (if i < 2 then 1 else 0)\<rparr> | _ \<Rightarrow> kret0, w)"

theorem response_ring_served_witness:
  "\<exists>k<MAX_INS_COUNT. fst (mw_xen_response_available ker_rings
      (((snd \<circ> mw_xen_response_available ker_rings) ^^ k) (xen_rr True 0))) = Some 1"
  by (rule response_ring_served [of ker_rings "\<lambda>i. i < 2"])
    (simp_all add: pending_rings_def ker_rings_def kret0_def xen_rr_def ready_entry_def mw_consts)

end
