(* ===== verification/PvmState.thy ===== *)
theory PvmState
  imports InsTable "HOL-Library.Monad_Syntax"
begin

text \<open>
  The state of the socket layer of the PVM kernel module (mwcomms-socket.c): socket instances and
  active requests in explicit stores, so that a dangling pointer shows, the lists that hold them,
  reference counts, request ids. An operation that uses the address of an object that is not
  allocated has the result None.
\<close>

section \<open>Flags\<close>

definition MWSOCKET_FLAG_USER :: u32 where [mw_consts]: "MWSOCKET_FLAG_USER = 0x01"
definition MWSOCKET_FLAG_POLLABLE :: u32 where [mw_consts]: "MWSOCKET_FLAG_POLLABLE = 0x02"
definition MWSOCKET_FLAG_BOUND :: u32 where [mw_consts]: "MWSOCKET_FLAG_BOUND = 0x10"
definition MWSOCKET_FLAG_LISTENING :: u32 where [mw_consts]: "MWSOCKET_FLAG_LISTENING = 0x20"
definition MWSOCKET_FLAG_ACCEPT :: u32 where [mw_consts]: "MWSOCKET_FLAG_ACCEPT = 0x40"
definition MWSOCKET_FLAG_CONNECTED :: u32 where [mw_consts]: "MWSOCKET_FLAG_CONNECTED = 0x100"
definition MWSOCKET_FLAG_CLOSED :: u32 where [mw_consts]: "MWSOCKET_FLAG_CLOSED = 0x40000000"
definition MWSOCKET_FLAG_RELEASED :: u32 where [mw_consts]: "MWSOCKET_FLAG_RELEASED = 0x80000000"
definition MT_FLAGS_BATCH_SEND_INIT :: u32 where [mw_consts]: "MT_FLAGS_BATCH_SEND_INIT = 0x40000000"
definition MT_FLAGS_BATCH_SEND :: u32 where [mw_consts]: "MT_FLAGS_BATCH_SEND = 0x20000000"
definition MT_FLAGS_BATCH_SEND_FINI :: u32 where [mw_consts]: "MT_FLAGS_BATCH_SEND_FINI = 0x10000000"
definition MT_ID_UNSET_VALUE :: u64 where [mw_consts]: "MT_ID_UNSET_VALUE = 0"

definition flag :: "u32 \<Rightarrow> u32 \<Rightarrow> bool" where
  "flag f x \<longleftrightarrow> x AND f \<noteq> 0"

definition MT_REQUEST_CALLER_WAITS :: "mt_request_generic \<Rightarrow> bool" where
  "MT_REQUEST_CALLER_WAITS r \<longleftrightarrow> flag MT_FLAGS_PVM_CALLER_AWAITS_RESPONSE (rq_flags (rq_base r))"

section \<open>Objects\<close>

text \<open>
  \<open>mwsocket_instance_t\<close>. The reader-writer lock \<open>close_lock\<close> is the number of its readers and
  whether a writer holds it; the list of siblings holds the addresses in the order of the list.
\<close>

record mwsocket_instance =
  si_file :: "nat option"
  si_local_fd :: int
  si_remote_fd :: mw_socket_fd
  si_mwflags :: u32
  si_sock_fam :: u32
  si_sock_type :: u32
  si_sock_protocol :: u32
  si_bind_sockaddr :: mt_sockaddr_in
  si_backlog :: int
  si_defer_accept :: u32
  si_inbound_list :: "nat list"
  si_inbound_sem :: nat
  si_user_outstanding_accept :: int
  si_usersock :: nat
  si_poll_active :: "nat option"
  si_siblings :: "nat list"
  si_poll_events :: u32
  si_u_flags :: u32
  si_send_tally :: int
  si_pending_errno :: int
  si_tot_sent :: u64
  si_tot_recv :: u64
  si_refct :: int
  si_blockid :: u64
  si_read_expected :: bool
  si_remote_close_requested :: bool
  si_remote_surprise_close :: bool
  si_ins_alive :: bool
  si_close_readers :: int
  si_close_writer :: bool
  si_close_lock_write :: bool
  si_close_blockid :: u64
  si_request_sem :: int
  si_state_valid :: bool

text \<open>\<^verbatim>\<open>mt_request_response_union_t rr\<close>: a request until the response is copied over it.\<close>

datatype rr = RrRequest mt_request_generic | RrResponse mt_response_generic

fun rr_request :: "rr \<Rightarrow> mt_request_generic option" where
  "rr_request (RrRequest r) = Some r"
| "rr_request (RrResponse r) = None"

fun rr_response :: "rr \<Rightarrow> mt_response_generic option" where
  "rr_response (RrRequest r) = None"
| "rr_response (RrResponse r) = Some r"

text \<open>\<open>mwsocket_active_request_t\<close>; \<open>ar_arrived\<close> is the count of the completion.\<close>

record mwsocket_active_request =
  ar_id :: u64
  ar_deliver_response :: bool
  ar_response_populated :: bool
  ar_from_user :: bool
  ar_arrived :: nat
  ar_rr :: rr
  ar_sockinst :: nat

text \<open>
  \<open>mwsocket_globals_t\<close>, on top of the state of the Xen interface, with the static counter of
  \<open>mwsocket_get_next_id\<close> and the private data of the file objects.
\<close>

record 'w pvm = "'w mw_xen" +
  is_xen_iface_ready :: bool
  ar_heap :: "nat \<rightharpoonup> mwsocket_active_request"
  active_request_list :: "nat list"
  si_heap :: "nat \<rightharpoonup> mwsocket_instance"
  sockinst_list :: "nat list"
  sockinst_count :: int
  poll_sock_count :: int
  event_channel_sem :: nat
  sock_pending_exit :: bool
  id_counter :: u64
  file_private :: "nat \<rightharpoonup> nat"

definition upd_si :: "nat \<Rightarrow> (mwsocket_instance \<Rightarrow> mwsocket_instance) \<Rightarrow> 'w pvm \<Rightarrow> 'w pvm" where
  "upd_si x f s = s\<lparr>si_heap := (si_heap s)(x := map_option f (si_heap s x))\<rparr>"

definition upd_ar :: "nat \<Rightarrow> (mwsocket_active_request \<Rightarrow> mwsocket_active_request) \<Rightarrow> 'w pvm \<Rightarrow> 'w pvm" where
  "upd_ar a f s = s\<lparr>ar_heap := (ar_heap s)(a := map_option f (ar_heap s a))\<rparr>"

section \<open>Request ids\<close>

text \<open>
  \<open>mwsocket_get_next_id\<close>, given the ids of the active requests and the counter: the id and the new
  counter. None is a loop that does not end.
\<close>

partial_function (option) next_id :: "u64 list \<Rightarrow> u64 \<Rightarrow> (u64 \<times> u64) option" where
  "next_id used counter =
    (let counter = counter + 1;
         counter = (if counter = MT_ID_UNSET_VALUE then counter + 1 else counter)
     in if counter \<in> set used then next_id used counter else Some (counter, counter))"

declare next_id.simps [code]

definition mwsocket_get_next_id :: "'w pvm \<Rightarrow> (u64 \<times> 'w pvm) option" where
  "mwsocket_get_next_id s = do {
     used \<leftarrow> those (map (\<lambda>a. map_option ar_id (ar_heap s a)) (active_request_list s));
     (i, counter) \<leftarrow> next_id used (id_counter s);
     Some (i, s\<lparr>id_counter := counter\<rparr>)
   }"

section \<open>References to socket instances\<close>

definition mwsocket_get_sockinst :: "nat \<Rightarrow> 'w pvm \<Rightarrow> 'w pvm option" where
  "mwsocket_get_sockinst x s = do {
     i \<leftarrow> si_heap s x;
     Some (upd_si x (\<lambda>i. i\<lparr>si_refct := si_refct i + 1\<rparr>) s)
   }"

definition mwsocket_set_pollable :: "nat \<Rightarrow> bool \<Rightarrow> 'w pvm \<Rightarrow> 'w pvm option" where
  "mwsocket_set_pollable x Pollable s = do {
     i \<leftarrow> si_heap s x;
     Some (if flag MWSOCKET_FLAG_POLLABLE (si_mwflags i) = Pollable then s
           else if Pollable then
             (upd_si x (\<lambda>i. i\<lparr>si_mwflags := si_mwflags i OR MWSOCKET_FLAG_POLLABLE\<rparr>) s)
               \<lparr>poll_sock_count := poll_sock_count s + 1\<rparr>
           else
             (upd_si x (\<lambda>i. i\<lparr>si_mwflags := si_mwflags i AND NOT MWSOCKET_FLAG_POLLABLE\<rparr>) s)
               \<lparr>poll_sock_count := poll_sock_count s - 1\<rparr>)
   }"

text \<open>\<^verbatim>\<open>list_del( &SockInst->sibling_listener_list )\<close>\<close>

definition unlink_sibling :: "nat \<Rightarrow> 'w pvm \<Rightarrow> 'w pvm" where
  "unlink_sibling x s =
    s\<lparr>si_heap := (\<lambda>a. map_option (\<lambda>i. i\<lparr>si_siblings := removeAll x (si_siblings i)\<rparr>) (si_heap s a))\<rparr>"

definition mwsocket_put_sockinst :: "nat option \<Rightarrow> 'w pvm \<Rightarrow> 'w pvm option" where
  "mwsocket_put_sockinst SockInst s =
    (case SockInst of
       None \<Rightarrow> Some s
     | Some x \<Rightarrow> do {
         i \<leftarrow> si_heap s x;
         let s = upd_si x (\<lambda>i. i\<lparr>si_refct := si_refct i - 1\<rparr>) s;
         if si_refct i - 1 \<noteq> 0 then Some s
         else do {
           let s = unlink_sibling x (s\<lparr>sockinst_count := sockinst_count s - 1,
                                       sockinst_list := removeAll x (sockinst_list s)\<rparr>);
           s \<leftarrow> mwsocket_set_pollable x False s;
           Some (s\<lparr>si_heap := (si_heap s)(x := None)\<rparr>)
         }
       })"

section \<open>Active requests\<close>

definition mwsocket_destroy_active_request :: "nat option \<Rightarrow> 'w pvm \<Rightarrow> 'w pvm option" where
  "mwsocket_destroy_active_request ActReq s =
    (case ActReq of
       None \<Rightarrow> Some s
     | Some a \<Rightarrow> do {
         ar \<leftarrow> ar_heap s a;
         i \<leftarrow> si_heap s (ar_sockinst ar);
         let s = (if si_close_blockid i = ar_id ar
                  then upd_si (ar_sockinst ar) (\<lambda>i. i\<lparr>si_close_blockid := MT_ID_UNSET_VALUE\<rparr>) s else s);
         s \<leftarrow> mwsocket_put_sockinst (Some (ar_sockinst ar)) s;
         Some (s\<lparr>active_request_list := removeAll a (active_request_list s), ar_heap := (ar_heap s)(a := None)\<rparr>)
       })"

definition ar_zeroed :: "nat \<Rightarrow> mwsocket_active_request" where
  "ar_zeroed x = \<lparr>ar_id = 0, ar_deliver_response = False, ar_response_populated = False, ar_from_user = False,
     ar_arrived = 0, ar_rr = RrRequest rq_zero, ar_sockinst = x\<rparr>"

text \<open>
  \<open>mwsocket_create_active_request\<close>: the return code and the new object. The cache gives an address
  that is not in use; should it not, the result is None.
\<close>

definition mwsocket_create_active_request ::
  "'w ker \<Rightarrow> nat \<Rightarrow> 'w pvm \<Rightarrow> ((int \<times> nat option) \<times> 'w pvm) option" where
  "mwsocket_create_active_request ker x s = do {
     i \<leftarrow> si_heap s x;
     if \<not> si_ins_alive i then Some ((- EINVAL, None), s)
     else do {
       let (r, s) = kdo ker (KCacheAlloc (active_request_list s)) s;
       if kr_ret r = 0 then Some ((- ENOMEM, None), s)
       else if ar_heap s (kr_addr r) \<noteq> None then None
       else do {
         s \<leftarrow> mwsocket_get_sockinst x s;
         (i, s) \<leftarrow> mwsocket_get_next_id s;
         Some ((0, Some (kr_addr r)),
               s\<lparr>ar_heap := (ar_heap s)(kr_addr r \<mapsto> (ar_zeroed x)\<lparr>ar_id := i\<rparr>),
                 active_request_list := kr_addr r # active_request_list s\<rparr>)
       }
     }
   }"

text \<open>The request with a given id: the return code and the object.\<close>

fun find_by_id :: "'w pvm \<Rightarrow> u64 \<Rightarrow> nat list \<Rightarrow> nat option option" where
  "find_by_id s rid [] = Some None"
| "find_by_id s rid (a # as) = do {
     ar \<leftarrow> ar_heap s a;
     if ar_id ar = rid then Some (Some a) else find_by_id s rid as
   }"

definition mwsocket_find_active_request_by_id :: "u64 \<Rightarrow> 'w pvm \<Rightarrow> (int \<times> nat option) option" where
  "mwsocket_find_active_request_by_id rid s = do {
     f \<leftarrow> find_by_id s rid (active_request_list s);
     case f of
       None \<Rightarrow> Some (- ENOENT, None)
     | Some a \<Rightarrow> do {
         ar \<leftarrow> ar_heap s a;
         i \<leftarrow> si_heap s (ar_sockinst ar);
         Some (0, Some a)
       }
   }"

section \<open>Finding socket instances\<close>

definition mwsocket_find_sockinst :: "nat \<Rightarrow> 'w pvm \<Rightarrow> (int \<times> nat option) option" where
  "mwsocket_find_sockinst File s =
    (case file_private s File of
       None \<Rightarrow> Some (- EBADFD, None)
     | Some x \<Rightarrow> do {
         i \<leftarrow> si_heap s x;
         Some (if si_file i \<noteq> Some File then (- EBADFD, None) else (0, Some x))
       })"

fun find_by_remote_fd :: "'w pvm \<Rightarrow> mw_socket_fd \<Rightarrow> nat list \<Rightarrow> nat option option" where
  "find_by_remote_fd s fd [] = Some None"
| "find_by_remote_fd s fd (x # xs) = do {
     i \<leftarrow> si_heap s x;
     if si_remote_fd i = fd then Some (Some x) else find_by_remote_fd s fd xs
   }"

definition mwsocket_find_sockinst_by_remote_fd :: "mw_socket_fd \<Rightarrow> 'w pvm \<Rightarrow> (int \<times> nat option) option" where
  "mwsocket_find_sockinst_by_remote_fd RemoteFd s = do {
     f \<leftarrow> find_by_remote_fd s RemoteFd (sockinst_list s);
     Some (if f = None then - EBADF else 0, f)
   }"

section \<open>Creating socket instances\<close>

definition si_new :: "nat \<Rightarrow> mwsocket_instance" where
  "si_new x = \<lparr>si_file = None, si_local_fd = -1, si_remote_fd = MT_INVALID_SOCKET_FD, si_mwflags = 0,
     si_sock_fam = 0, si_sock_type = 0, si_sock_protocol = 0, si_bind_sockaddr = bind_sockaddr rq_zero,
     si_backlog = 0, si_defer_accept = 0, si_inbound_list = [], si_inbound_sem = 0, si_user_outstanding_accept = 0,
     si_usersock = x, si_poll_active = None, si_siblings = [], si_poll_events = 0, si_u_flags = 0,
     si_send_tally = 0, si_pending_errno = 0, si_tot_sent = 0, si_tot_recv = 0, si_refct = 1, si_blockid = 0,
     si_read_expected = False, si_remote_close_requested = False, si_remote_surprise_close = False,
     si_ins_alive = True, si_close_readers = 0, si_close_writer = False, si_close_lock_write = False,
     si_close_blockid = 0, si_request_sem = 1, si_state_valid = True\<rparr>"

text \<open>The backing file: the return code with the file and its descriptor.\<close>

definition create_backing_file :: "'w ker \<Rightarrow> 'w pvm \<Rightarrow> (int \<times> nat \<times> int) \<times> 'w pvm" where
  "create_backing_file ker s =
    (let (r, s) = kdo ker KGetFd s; fd = kr_ret r in
     if fd < 0 then ((- EMFILE, 0, 0), s)
     else let (r, s) = kdo ker KNewInode s in
     if kr_ret r = 0 then ((- ENOMEM, 0, 0), s)
     else let (r, s) = kdo ker KAllocDentry s in
     if kr_ret r = 0 then ((- ENOMEM, 0, 0), s)
     else let (r, s) = kdo ker KAllocFile s in
     if kr_ret r < 0 then ((kr_ret r, 0, 0), s)
     else ((0, kr_addr r, fd), s))"

definition mwsocket_create_sockinst ::
  "'w ker \<Rightarrow> bool \<Rightarrow> bool \<Rightarrow> 'w pvm \<Rightarrow> ((int \<times> nat option) \<times> 'w pvm) option" where
  "mwsocket_create_sockinst ker Pollable CreateBackingFile s =
    (let (r, s) = kdo ker (KCacheAlloc (sockinst_list s)) s; x = kr_addr r in
     if kr_ret r = 0 then Some ((- ENOMEM, None), s)
     else if si_heap s x \<noteq> None then None
     else do {
       let s = s\<lparr>si_heap := (si_heap s)(x \<mapsto> si_new x), sockinst_list := x # sockinst_list s,
                 sockinst_count := sockinst_count s + 1\<rparr>;
       s \<leftarrow> mwsocket_set_pollable x Pollable s;
       if \<not> CreateBackingFile then Some ((0, Some x), s)
       else
         case create_backing_file ker s of
           ((rc, file, fd), s) \<Rightarrow>
             if rc \<noteq> 0 then
               Some ((rc, None), s\<lparr>sockinst_list := removeAll x (sockinst_list s),
                                   sockinst_count := sockinst_count s - 1, si_heap := (si_heap s)(x := None)\<rparr>)
             else
               Some ((0, Some x),
                     (upd_si x (\<lambda>i. i\<lparr>si_file := Some file, si_local_fd := fd\<rparr>) s)
                       \<lparr>file_private := (file_private s)(file \<mapsto> x)\<rparr>)
     })"

end
