(* ===== verification/PvmRequests.thy ===== *)
theory PvmRequests
  imports PvmState Networking
begin

text \<open>
  Requests and responses in the socket layer of the PVM (mwcomms-socket.c): preparing and sending a
  request, post-processing a response, the response consumer, and waiting for a response. While a
  task waits, the response consumer runs.
\<close>

section \<open>Sizes of requests\<close>

definition MT_REQUEST_SOCKET_CREATE_SIZE :: nat where [sizes]: "MT_REQUEST_SOCKET_CREATE_SIZE = MT_REQUEST_BASE_SIZE + 12"
definition MT_REQUEST_SOCKET_BIND_SIZE :: nat where [sizes]: "MT_REQUEST_SOCKET_BIND_SIZE = MT_REQUEST_BASE_SIZE + sizeof_mt_sockaddr_in"
definition MT_REQUEST_SOCKET_LISTEN_SIZE :: nat where [sizes]: "MT_REQUEST_SOCKET_LISTEN_SIZE = MT_REQUEST_BASE_SIZE + 4"
definition MT_REQUEST_SOCKET_ACCEPT_SIZE :: nat where [sizes]: "MT_REQUEST_SOCKET_ACCEPT_SIZE = MT_REQUEST_BASE_SIZE + 4"
definition MT_REQUEST_SOCKET_CLOSE_SIZE :: nat where [sizes]: "MT_REQUEST_SOCKET_CLOSE_SIZE = MT_REQUEST_BASE_SIZE"
definition MT_REQUEST_SOCKET_ATTRIB_SIZE :: nat where [sizes]: "MT_REQUEST_SOCKET_ATTRIB_SIZE = MT_REQUEST_BASE_SIZE + 22"
definition MT_REQUEST_POLLSET_QUERY_SIZE :: nat where [sizes]: "MT_REQUEST_POLLSET_QUERY_SIZE = MT_REQUEST_BASE_SIZE"

text \<open>A request of which only the type and sz are set.\<close>

definition new_request :: "mt_request_type \<Rightarrow> nat \<Rightarrow> mt_request_generic" where
  "new_request ty sz =
    rq_zero\<lparr>rq_base := (rq_base rq_zero)\<lparr>rq_type := mt_request_code ty, rq_size := of_nat sz\<rparr>\<rparr>"

definition set_rq_sockfd :: "mw_socket_fd \<Rightarrow> mt_request_generic \<Rightarrow> mt_request_generic" where
  "set_rq_sockfd fd r = r\<lparr>rq_base := (rq_base r)\<lparr>rq_sockfd := fd\<rparr>\<rparr>"

definition rs_type_is :: "mt_request_type \<Rightarrow> mt_response_generic \<Rightarrow> bool" where
  "rs_type_is ty r \<longleftrightarrow> rs_type (rs_base r) = mt_response_code ty"

definition rq_type_is :: "mt_request_type \<Rightarrow> mt_request_generic \<Rightarrow> bool" where
  "rq_type_is ty r \<longleftrightarrow> rq_type (rq_base r) = mt_request_code ty"

section \<open>Pending errors\<close>

abbreviation "SIGPIPE \<equiv> (13::int)"

definition mwsocket_pending_error :: "'w ker \<Rightarrow> nat \<Rightarrow> u32 \<Rightarrow> 'w pvm \<Rightarrow> (int \<times> 'w pvm) option" where
  "mwsocket_pending_error ker x RequestType s =
    (if RequestType = mt_request_code MtRequestSocketShutdown \<or> RequestType = mt_request_code MtRequestSocketClose
     then Some (0, s)
     else do {
       i \<leftarrow> si_heap s x;
       if si_remote_surprise_close i then
         Some (- EPIPE, if RequestType = mt_request_code MtRequestSocketSend
                        then snd (kdo ker (KSignal SIGPIPE) s) else s)
       else if si_pending_errno i \<noteq> 0 then
         Some (si_pending_errno i, upd_si x (\<lambda>i. i\<lparr>si_pending_errno := 0\<rparr>) s)
       else Some (0, s)
     })"

section \<open>Post-processing of a response\<close>

text \<open>The close lock: what a response of a type that holds it up, or of a close, does to it.\<close>

definition postproc_close_lock :: "u64 \<Rightarrow> mt_response_generic \<Rightarrow> mwsocket_instance \<Rightarrow> mwsocket_instance" where
  "postproc_close_lock rid rsp i =
    (if MT_CLOSE_WAITS (rs_type (rs_base rsp)) then
       i\<lparr>si_close_blockid := (if si_close_blockid i = rid then MT_ID_UNSET_VALUE else si_close_blockid i),
         si_close_readers := si_close_readers i - 1\<rparr>
     else if rs_type_is MtRequestSocketClose rsp \<and> si_close_lock_write i then
       i\<lparr>si_close_writer := False, si_close_lock_write := False\<rparr>
     else i)"

text \<open>The tally of a batch of sends; the count of a response has 16 bits.\<close>

definition postproc_batch :: "mt_response_generic \<Rightarrow> mwsocket_instance \<Rightarrow> mt_response_generic \<times> mwsocket_instance" where
  "postproc_batch rsp i =
    (if \<not> rs_type_is MtRequestSocketSend rsp then (rsp, i)
     else if flag MT_FLAGS_BATCH_SEND_FINI (rs_flags (rs_base rsp)) then
       (rsp\<lparr>send_count := send_count rsp + word_of_int (si_send_tally i)\<rparr>,
        i\<lparr>si_u_flags := si_u_flags i AND NOT (MT_FLAGS_BATCH_SEND_INIT OR MT_FLAGS_BATCH_SEND OR MT_FLAGS_BATCH_SEND_FINI)\<rparr>)
     else if flag MT_FLAGS_BATCH_SEND (rs_flags (rs_base rsp)) then
       (rsp, if send_count rsp > 0 then i\<lparr>si_send_tally := si_send_tally i + int (unat (send_count rsp))\<rparr> else i)
     else (rsp, i))"

definition postproc_remote_closed :: "mt_response_generic \<Rightarrow> mwsocket_instance \<Rightarrow> mwsocket_instance" where
  "postproc_remote_closed rsp i =
    (if flag MT_FLAGS_REMOTE_CLOSED (rs_flags (rs_base rsp)) then i\<lparr>si_remote_surprise_close := True\<rparr> else i)"

text \<open>A response to accept joins the queue of inbound connections of the primary socket.\<close>

definition postproc_accept :: "nat \<Rightarrow> nat \<Rightarrow> mt_response_generic \<Rightarrow> 'w pvm \<Rightarrow> 'w pvm option" where
  "postproc_accept a x rsp s =
    (if \<not> rs_type_is MtRequestSocketAccept rsp then Some s
     else do {
       i \<leftarrow> si_heap s x;
       let s = upd_si x (\<lambda>i. i\<lparr>si_mwflags := si_mwflags i AND NOT MWSOCKET_FLAG_ACCEPT\<rparr>) s;
       let s = (if si_remote_close_requested i then upd_ar a (\<lambda>r. r\<lparr>ar_deliver_response := False\<rparr>) s else s);
       let s = upd_ar a (\<lambda>r. r\<lparr>ar_rr := RrResponse rsp, ar_response_populated := True\<rparr>) s;
       p \<leftarrow> si_heap s (si_usersock i);
       Some (upd_si (si_usersock i)
               (\<lambda>p. p\<lparr>si_inbound_list := si_inbound_list p @ [a], si_inbound_sem := si_inbound_sem p + 1\<rparr>) s)
     })"

definition postproc_success :: "nat \<Rightarrow> mt_response_generic \<Rightarrow> 'w pvm \<Rightarrow> 'w pvm option" where
  "postproc_success x rsp s = do {
     i \<leftarrow> si_heap s x;
     if rs_type_is MtRequestSocketCreate rsp then
       Some (upd_si x (\<lambda>i. i\<lparr>si_remote_fd := rs_sockfd (rs_base rsp)\<rparr>) s)
     else if rs_type_is MtRequestSocketListen rsp then
       Some (upd_si x (\<lambda>i. i\<lparr>si_mwflags := si_mwflags i OR MWSOCKET_FLAG_LISTENING\<rparr>) s)
     else if rs_type_is MtRequestSocketBind rsp then
       Some (upd_si x (\<lambda>i. i\<lparr>si_mwflags := si_mwflags i OR MWSOCKET_FLAG_BOUND\<rparr>) s)
     else if rs_type_is MtRequestSocketConnect rsp then
       Some (upd_si x (\<lambda>i. i\<lparr>si_mwflags := si_mwflags i OR MWSOCKET_FLAG_CONNECTED\<rparr>) s)
     else if rs_type_is MtRequestSocketSend rsp then
       Some (upd_si x (\<lambda>i. i\<lparr>si_tot_sent := si_tot_sent i + ucast (send_count rsp)\<rparr>) s)
     else if rs_type_is MtRequestSocketRecv rsp then
       Some (upd_si x (\<lambda>i. i\<lparr>si_tot_recv := si_tot_recv i + ucast (recv_count rsp)\<rparr>) s)
     else if rs_type_is MtRequestSocketRecvFrom rsp then
       Some (upd_si x (\<lambda>i. i\<lparr>si_tot_recv := si_tot_recv i + ucast (recvfrom_count rsp)\<rparr>) s)
     else if rs_type_is MtRequestSocketAttrib rsp \<and> attrib_rs_name rsp = MtSockAttribDeferAccept then do {
       u \<leftarrow> si_heap s (si_usersock i);
       Some (upd_si (si_usersock i) (\<lambda>u. u\<lparr>si_defer_accept := feat_v32 (attrib_rs_val rsp)\<rparr>) s)
     }
     else Some s
   }"

text \<open>\<open>mwsocket_postproc_no_context\<close>: the response as changed, and the state.\<close>

definition mwsocket_postproc_no_context ::
  "nat \<Rightarrow> mt_response_generic \<Rightarrow> 'w pvm \<Rightarrow> (mt_response_generic \<times> 'w pvm) option" where
  "mwsocket_postproc_no_context a rsp s = do {
     ar \<leftarrow> ar_heap s a;
     let x = ar_sockinst ar;
     i \<leftarrow> si_heap s x;
     let (rsp', i') = postproc_batch rsp (postproc_close_lock (ar_id ar) rsp i);
     let s = upd_si x (\<lambda>_. postproc_remote_closed rsp' i') s;
     s \<leftarrow> postproc_accept a x rsp' s;
     s \<leftarrow> (if rs_status (rs_base rsp) < 0 then Some s else postproc_success x rsp' s);
     Some (rsp', s)
   }"

section \<open>The response consumer\<close>

text \<open>
  One pass of the loop of \<open>mwsocket_response_consumer\<close> after a response has become available on the
  ring \<open>h\<close>. The result tells whether the thread goes on. Whether the process of the socket is dying
  (PF\_EXITING without PF\_FORKNOEXEC) is asked from the kernel. The netflow message is output only.
\<close>

definition deliver_or_destroy :: "'w ker \<Rightarrow> nat \<Rightarrow> mt_response_generic \<Rightarrow> 'w pvm \<Rightarrow> 'w pvm option" where
  "deliver_or_destroy ker a rsp s = do {
     ar \<leftarrow> ar_heap s a;
     let (r, s) = kdo ker (KProcDying (ar_sockinst ar)) s;
     if \<not> ar_deliver_response ar \<or> (ar_from_user ar \<and> kr_ret r \<noteq> 0)
     then mwsocket_destroy_active_request (Some a) s
     else Some (upd_ar a (\<lambda>ar. (if ar_response_populated ar then ar
                                else ar\<lparr>ar_rr := RrResponse rsp, ar_response_populated := True\<rparr>)
                               \<lparr>ar_arrived := ar_arrived ar + 1\<rparr>) s)
   }"

definition consume_response :: "'w ker \<Rightarrow> nat \<Rightarrow> 'w pvm \<Rightarrow> (bool \<times> 'w pvm) option" where
  "consume_response ker h s =
    (case mw_xen_get_next_response ker h s of
       ((rc, rsp), s) \<Rightarrow>
         if rc \<noteq> 0 \<or> sock_pending_exit s then Some (False, s)
         else do {
           (rc, f) \<leftarrow> mwsocket_find_active_request_by_id (rs_id (rs_base rsp)) s;
           case f of
             None \<Rightarrow> Some (True, snd (mw_xen_mark_response_consumed ker (Some h) s))
           | Some a \<Rightarrow> do {
               (rsp, s) \<leftarrow> mwsocket_postproc_no_context a rsp s;
               s \<leftarrow> deliver_or_destroy ker a rsp s;
               Some (True, snd (mw_xen_mark_response_consumed ker (Some h) s))
             }
         })"

text \<open>The whole pass; without a response the thread sleeps, or ends at exit.\<close>

definition mwsocket_response_consumer :: "'w ker \<Rightarrow> 'w pvm \<Rightarrow> (bool \<times> 'w pvm) option" where
  "mwsocket_response_consumer ker s =
    (case mw_xen_response_available ker s of
       (None, s) \<Rightarrow> Some (\<not> sock_pending_exit s, s)
     | (Some h, s) \<Rightarrow> consume_response ker h s)"

section \<open>Waiting\<close>

text \<open>
  Waiting until a condition on the state holds. \<open>KWait\<close> tells what happens to the waiting task: a
  positive result lets the response consumer run, 0 is a timeout, a negative result a signal.
\<close>

partial_function (option) wait_until ::
  "'w ker \<Rightarrow> ('w pvm \<Rightarrow> bool option) \<Rightarrow> 'w pvm \<Rightarrow> (int \<times> 'w pvm) option" where
  "wait_until ker cond s = do {
     c \<leftarrow> cond s;
     if c then Some (1, s)
     else
       let (r, s) = kdo ker KWait s in
       if kr_ret r \<le> 0 then Some (kr_ret r, s)
       else do {
         (more, s) \<leftarrow> mwsocket_response_consumer ker s;
         wait_until ker cond s
       }
   }"

declare wait_until.simps [code]

text \<open>\<^verbatim>\<open>wait_for_completion_...( &actreq->arrived )\<close>\<close>

definition wait_arrived :: "'w ker \<Rightarrow> nat \<Rightarrow> 'w pvm \<Rightarrow> (int \<times> 'w pvm) option" where
  "wait_arrived ker a s = do {
     (r, s) \<leftarrow> wait_until ker (\<lambda>s. map_option (\<lambda>ar. ar_arrived ar > 0) (ar_heap s a)) s;
     Some (r, if r > 0 then upd_ar a (\<lambda>ar. ar\<lparr>ar_arrived := ar_arrived ar - 1\<rparr>) s else s)
   }"

section \<open>Sending a request\<close>

text \<open>The attempts to take the close lock for writing, \<open>n\<close> of them.\<close>

fun close_lock_tries :: "'w ker \<Rightarrow> nat \<Rightarrow> nat \<Rightarrow> 'w pvm \<Rightarrow> 'w pvm option" where
  "close_lock_tries ker x 0 s = Some s"
| "close_lock_tries ker x (Suc n) s = do {
     i \<leftarrow> si_heap s x;
     if si_close_readers i = 0 \<and> \<not> si_close_writer i
     then Some (upd_si x (\<lambda>i. i\<lparr>si_close_writer := True\<rparr>) s)
     else close_lock_tries ker x n (snd (kdo ker KSleep s))
   }"

definition preproc_close_lock :: "'w ker \<Rightarrow> u64 \<Rightarrow> nat \<Rightarrow> mt_request_generic \<Rightarrow> 'w pvm \<Rightarrow> 'w pvm option" where
  "preproc_close_lock ker rid x req s = do {
     i \<leftarrow> si_heap s x;
     if MT_CLOSE_WAITS (rq_type (rq_base req)) then
       if si_close_writer i then None
       else Some (upd_si x (\<lambda>i. i\<lparr>si_close_readers := si_close_readers i + 1, si_close_blockid := rid\<rparr>) s)
     else if rq_type_is MtRequestSocketClose req then do {
       s \<leftarrow> (if si_close_blockid i \<noteq> MT_ID_UNSET_VALUE then close_lock_tries ker x 60 s else Some s);
       Some (upd_si x (\<lambda>i. i\<lparr>si_close_blockid := MT_ID_UNSET_VALUE\<rparr>) s)
     }
     else Some s
   }"

definition preproc_by_type :: "mt_request_generic \<Rightarrow> mwsocket_instance \<Rightarrow> mwsocket_instance" where
  "preproc_by_type req i =
    (if rq_type_is MtRequestSocketCreate req then
       i\<lparr>si_sock_fam := create_sock_fam req, si_sock_type := create_sock_type req, si_sock_protocol := create_sock_protocol req\<rparr>
     else if rq_type_is MtRequestSocketListen req then i\<lparr>si_backlog := listen_backlog req\<rparr>
     else if rq_type_is MtRequestSocketBind req then i\<lparr>si_bind_sockaddr := bind_sockaddr req\<rparr>
     else if rq_type_is MtRequestSocketAccept req then
       i\<lparr>si_mwflags := si_mwflags i OR MWSOCKET_FLAG_ACCEPT, si_defer_accept := accept_rq_flags req\<rparr>
     else if rq_type_is MtRequestSocketSend req then
       if \<not> flag MT_FLAGS_BATCH_SEND (si_u_flags i) \<and> flag MT_FLAGS_BATCH_SEND (rq_flags (rq_base req)) then
         i\<lparr>si_u_flags := si_u_flags i OR MT_FLAGS_BATCH_SEND, si_send_tally := 0\<rparr>
       else i
     else i)"

text \<open>
  \<open>mwsocket_pre_process_request\<close>. None is also a task that waits for the close lock while a close
  holds it, which is never released again. An accept is routed to the sibling that has an event.
\<close>

definition mwsocket_pre_process_request :: "'w ker \<Rightarrow> nat \<Rightarrow> 'w pvm \<Rightarrow> 'w pvm option" where
  "mwsocket_pre_process_request ker a s = do {
     ar \<leftarrow> ar_heap s a;
     let x = ar_sockinst ar;
     req \<leftarrow> rr_request (ar_rr ar);
     i \<leftarrow> si_heap s x;
     let s = (if MT_REQUEST_CALLER_WAITS req then
                upd_ar a (\<lambda>r. r\<lparr>ar_deliver_response := True\<rparr>)
                  (upd_si x (\<lambda>i. i\<lparr>si_read_expected := True, si_blockid := ar_id ar\<rparr>) s)
              else s);
     s \<leftarrow> preproc_close_lock ker (ar_id ar) x req s;
     let s = upd_si x (preproc_by_type req) s;
     if rq_type_is MtRequestSocketAccept req \<and> si_poll_events i AND POLLIN \<noteq> 0 then
       case si_poll_active i of
         None \<Rightarrow> Some s
       | Some p \<Rightarrow> do {
           pi \<leftarrow> si_heap s p;
           Some (upd_ar a (\<lambda>r. r\<lparr>ar_rr := RrRequest (set_rq_sockfd (si_remote_fd pi) req)\<rparr>) s)
         }
     else Some s
   }"

text \<open>The fields of the header that \<open>mwsocket_send_request\<close> fills in.\<close>

definition prepare_base :: "u64 \<Rightarrow> mw_socket_fd \<Rightarrow> mt_request_generic \<Rightarrow> mt_request_generic" where
  "prepare_base rid remote_fd req =
    (let b = (rq_base req)\<lparr>rq_sig := MT_SIGNATURE_REQUEST, rq_id := rid\<rparr>;
         b = (if \<not> MW_SOCKET_IS_FD (rq_sockfd b) then b\<lparr>rq_sockfd := remote_fd\<rparr> else b)
     in req\<lparr>rq_base := b\<rparr>)"

definition mwsocket_send_request :: "'w ker \<Rightarrow> nat \<Rightarrow> bool \<Rightarrow> 'w pvm \<Rightarrow> (int \<times> 'w pvm) option" where
  "mwsocket_send_request ker a WaitForRing s = do {
     ar \<leftarrow> ar_heap s a;
     let x = ar_sockinst ar;
     i \<leftarrow> si_heap s x;
     req \<leftarrow> rr_request (ar_rr ar);
     let req = prepare_base (ar_id ar) (si_remote_fd i) req;
     let s = upd_ar a (\<lambda>r. r\<lparr>ar_rr := RrRequest req\<rparr>) s;
     if \<not> MT_IS_REQUEST (rq_base req) then mw_xen_release_request ker None False s
     else if \<not> si_ins_alive i then do {
       s \<leftarrow> mwsocket_set_pollable x False s;
       mw_xen_release_request ker None False s
     }
     else do {
       ((rc, h), s) \<leftarrow> mw_xen_get_next_request_slot ker WaitForRing (MW_SOCKET_CLIENT_ID (rq_sockfd (rq_base req))) s;
       if rc \<noteq> 0 then do {
         s \<leftarrow> (if WaitForRing
               then mwsocket_set_pollable x False (upd_si x (\<lambda>i. i\<lparr>si_ins_alive := False\<rparr>) s)
               else Some s);
         mw_xen_release_request ker h False s
       }
       else do {
         s \<leftarrow> mwsocket_pre_process_request ker a s;
         ar \<leftarrow> ar_heap s a;
         req \<leftarrow> rr_request (ar_rr ar);
         hi \<leftarrow> h;
         mw_xen_release_request ker h True (put_request hi req s)
       }
     }
   }"

end
