(* ===== verification/PvmSocket.thy ===== *)
theory PvmSocket
  imports PvmRequests
begin

text \<open>
  The operations on sockets of the PVM (mwcomms-socket.c): closing the remote end, messages of the
  driver itself, replicating a listening socket onto another INS, and the file operations create,
  write, read, ioctl, poll and release.
\<close>

section \<open>Closing the remote socket\<close>

text \<open>The status of the response that has arrived for an active request.\<close>

definition arrived_status :: "nat \<Rightarrow> 'w pvm \<Rightarrow> int option" where
  "arrived_status a s = do {
     ar \<leftarrow> ar_heap s a;
     rsp \<leftarrow> rr_response (ar_rr ar);
     Some (rs_status (rs_base rsp))
   }"

text \<open>A wait with a timeout of a task that takes no signals: a result that is not positive is a timeout.\<close>

definition mwsocket_close_remote :: "'w ker \<Rightarrow> nat \<Rightarrow> bool \<Rightarrow> 'w pvm \<Rightarrow> (int \<times> 'w pvm) option" where
  "mwsocket_close_remote ker x WaitForResponse s = do {
     i \<leftarrow> si_heap s x;
     if \<not> MW_SOCKET_IS_FD (si_remote_fd i) then Some (- EINVAL, s)
     else if si_remote_close_requested i then Some (0, s)
     else do {
       let s = upd_si x (\<lambda>i. i\<lparr>si_remote_close_requested := True,
                               si_mwflags := si_mwflags i OR MWSOCKET_FLAG_CLOSED\<rparr>) s;
       ((rc, actreq), s) \<leftarrow> mwsocket_create_active_request ker x s;
       case actreq of
         None \<Rightarrow> Some (rc, s)
       | Some a \<Rightarrow> do {
           let s = upd_ar a (\<lambda>r. r\<lparr>ar_deliver_response := WaitForResponse,
                     ar_rr := RrRequest (new_request MtRequestSocketClose MT_REQUEST_SOCKET_CLOSE_SIZE)\<rparr>) s;
           (rc, s) \<leftarrow> mwsocket_send_request ker a True s;
           if rc \<noteq> 0 then do { s \<leftarrow> mwsocket_destroy_active_request (Some a) s; Some (rc, s) }
           else if \<not> WaitForResponse then Some (0, s)
           else do {
             (r, s) \<leftarrow> wait_arrived ker a s;
             rc \<leftarrow> (if r \<le> 0 then Some (- ETIME) else arrived_status a s);
             s \<leftarrow> mwsocket_destroy_active_request (Some a) s;
             Some (rc, s)
           }
         }
     }
   }"

definition mwsocket_close_by_remote_fd :: "'w ker \<Rightarrow> mw_socket_fd \<Rightarrow> bool \<Rightarrow> 'w pvm \<Rightarrow> (int \<times> 'w pvm) option" where
  "mwsocket_close_by_remote_fd ker RemoteFd Wait s = do {
     (rc, sockinst) \<leftarrow> mwsocket_find_sockinst_by_remote_fd RemoteFd s;
     case sockinst of
       None \<Rightarrow> Some (rc, s)
     | Some x \<Rightarrow> do {
         (rc, s) \<leftarrow> mwsocket_close_remote ker x Wait s;
         if rc \<noteq> 0 then Some (rc, s)
         else do {
           i \<leftarrow> si_heap s x;
           Some (0, upd_si x (\<lambda>i. i\<lparr>si_remote_surprise_close := True\<rparr>) s)
         }
       }
   }"

definition mwsocket_signal_owner_by_remote_fd :: "'w ker \<Rightarrow> mw_socket_fd \<Rightarrow> int \<Rightarrow> 'w pvm \<Rightarrow> (int \<times> 'w pvm) option" where
  "mwsocket_signal_owner_by_remote_fd ker RemoteFd SignalNum s = do {
     (rc, sockinst) \<leftarrow> mwsocket_find_sockinst_by_remote_fd RemoteFd s;
     case sockinst of
       None \<Rightarrow> Some (rc, s)
     | Some x \<Rightarrow> Some (0, snd (kdo ker (KSignalProc x SignalNum) s))
   }"

section \<open>Messages of the driver\<close>

text \<open>
  \<open>mwsocket_send_message\<close>. The status is read from the active request after it has been destroyed;
  the model reads what it held before. On a failure the active request is not destroyed.
\<close>

definition mwsocket_send_message :: "'w ker \<Rightarrow> nat \<Rightarrow> mt_request_generic \<Rightarrow> bool \<Rightarrow> 'w pvm \<Rightarrow> (int \<times> 'w pvm) option" where
  "mwsocket_send_message ker x Req AwaitResponse s = do {
     ((rc, actreq), s) \<leftarrow> mwsocket_create_active_request ker x s;
     case actreq of
       None \<Rightarrow> Some (rc, s)
     | Some a \<Rightarrow> do {
         let s = upd_ar a (\<lambda>r. r\<lparr>ar_deliver_response := AwaitResponse, ar_rr := RrRequest Req\<rparr>) s;
         (rc, s) \<leftarrow> mwsocket_send_request ker a True s;
         if rc \<noteq> 0 \<or> \<not> AwaitResponse then Some (rc, s)
         else do {
           (r, s) \<leftarrow> wait_arrived ker a s;
           if r = 0 then Some (- ETIME, s)
           else if r < 0 then Some (r, s)
           else do {
             status \<leftarrow> arrived_status a s;
             s \<leftarrow> mwsocket_destroy_active_request (Some a) s;
             Some (- status, s)
           }
         }
       }
   }"

text \<open>The size field of a union: it has the same place in a request and in a response.\<close>

fun rr_size :: "rr \<Rightarrow> u16" where
  "rr_size (RrRequest r) = rq_size (rq_base r)"
| "rr_size (RrResponse r) = rs_size (rs_base r)"

text \<open>
  \<open>mwsocket_send_bare_request\<close>, given the size of the buffer for the response: what is copied there.
  The function does not wait, so this is the request unless the response has come in the meantime.
\<close>

definition mwsocket_send_bare_request ::
  "'w ker \<Rightarrow> mt_request_generic \<Rightarrow> u16 \<Rightarrow> 'w pvm \<Rightarrow> ((int \<times> rr option) \<times> 'w pvm) option" where
  "mwsocket_send_bare_request ker Req response_size s =
    (if unat (rq_size (rq_base Req)) > sizeof_mt_request_generic then Some ((- EINVAL, None), s)
     else do {
       (rc, sockinst) \<leftarrow> mwsocket_find_sockinst_by_remote_fd (rq_sockfd (rq_base Req)) s;
       case sockinst of
         None \<Rightarrow> Some ((rc, None), s)
       | Some x \<Rightarrow> do {
           ((rc, actreq), s) \<leftarrow> mwsocket_create_active_request ker x s;
           case actreq of
             None \<Rightarrow> Some ((rc, None), s)
           | Some a \<Rightarrow> do {
               let s = upd_ar a (\<lambda>r. r\<lparr>ar_deliver_response := True, ar_rr := RrRequest Req\<rparr>) s;
               (rc, s) \<leftarrow> mwsocket_send_request ker a True s;
               ar \<leftarrow> ar_heap s a;
               let (rc, out) = (if rc \<noteq> 0 then (rc, None)
                                else if rr_size (ar_rr ar) > response_size then (- ENOSPC, None)
                                else (0, Some (ar_rr ar)));
               s \<leftarrow> mwsocket_destroy_active_request (Some a) s;
               Some ((rc, out), s)
             }
         }
     })"

definition MT_REQUEST_ADDR_BLOCK_SIZE :: nat where [sizes]: "MT_REQUEST_ADDR_BLOCK_SIZE = MT_REQUEST_BASE_SIZE + 4 + 16"

text \<open>\<open>mwsocket_block_ip_mitigation\<close>, given the value and the address of the feature request.\<close>

definition mwsocket_block_ip_mitigation :: "'w ker \<Rightarrow> u16 \<Rightarrow> u32 \<times> string \<Rightarrow> 'w pvm \<Rightarrow> (int \<times> 'w pvm) option" where
  "mwsocket_block_ip_mitigation ker Domid feat s = do {
     let req = new_request MtRequestAddrBlock MT_REQUEST_ADDR_BLOCK_SIZE;
     let req = set_rq_sockfd MT_INVALID_SOCKET_FD
                 (req\<lparr>rq_base := (rq_base req)\<lparr>rq_sig := MT_SIGNATURE_REQUEST\<rparr>,
                      block_block := fst feat, block_addr := take 16 (snd feat)\<rparr>);
     ((rc, newsock), s) \<leftarrow> mwsocket_create_sockinst ker False False s;
     case newsock of
       None \<Rightarrow> Some (rc, s)
     | Some x \<Rightarrow> mwsocket_send_message ker x req True s
   }"

section \<open>Replicating a socket\<close>

fun find_sibling :: "'w pvm \<Rightarrow> u16 \<Rightarrow> nat list \<Rightarrow> nat option option" where
  "find_sibling s Domid [] = Some None"
| "find_sibling s Domid (x # xs) = do {
     i \<leftarrow> si_heap s x;
     if MW_SOCKET_CLIENT_ID (si_remote_fd i) = Domid then Some (Some x) else find_sibling s Domid xs
   }"

text \<open>
  A new socket instance for the INS, with a socket there: the return code, the instance (which the
  caller puts on an error), the state.
\<close>

definition replicate_create :: "'w ker \<Rightarrow> u16 \<Rightarrow> nat \<Rightarrow> 'w pvm \<Rightarrow> ((int \<times> nat option) \<times> 'w pvm) option" where
  "replicate_create ker Domid u s = do {
     ((rc, newsock), s) \<leftarrow> mwsocket_create_sockinst ker True False s;
     case newsock of
       None \<Rightarrow> Some ((rc, None), s)
     | Some n \<Rightarrow> do {
         usersock \<leftarrow> si_heap s u;
         let req = (set_rq_sockfd (MW_SOCKET_CREATE Domid (-1)) (new_request MtRequestSocketCreate MT_REQUEST_SOCKET_CREATE_SIZE))
                     \<lparr>create_sock_fam := si_sock_fam usersock, create_sock_type := si_sock_type usersock,
                      create_sock_protocol := si_sock_protocol usersock\<rparr>;
         (rc, s) \<leftarrow> mwsocket_send_message ker n req True s;
         if rc \<noteq> 0 then Some ((rc, Some n), s)
         else do {
           usersock \<leftarrow> si_heap s u;
           newsock \<leftarrow> si_heap s n;
           Some ((0, Some n),
                 upd_si n (\<lambda>i. i\<lparr>si_usersock := u\<rparr>) (upd_si u (\<lambda>i. i\<lparr>si_siblings := n # si_siblings i\<rparr>) s))
         }
       }
   }"

definition replicate_bind :: "'w ker \<Rightarrow> nat \<Rightarrow> nat \<Rightarrow> 'w pvm \<Rightarrow> (int \<times> 'w pvm) option" where
  "replicate_bind ker u n s = do {
     usersock \<leftarrow> si_heap s u;
     newsock \<leftarrow> si_heap s n;
     if flag MWSOCKET_FLAG_BOUND (si_mwflags usersock) \<and> \<not> flag MWSOCKET_FLAG_BOUND (si_mwflags newsock)
     then mwsocket_send_message ker n
            ((set_rq_sockfd (si_remote_fd newsock) (new_request MtRequestSocketBind MT_REQUEST_SOCKET_BIND_SIZE))
               \<lparr>bind_sockaddr := si_bind_sockaddr usersock\<rparr>) True s
     else Some (0, s)
   }"

definition replicate_listen :: "'w ker \<Rightarrow> nat \<Rightarrow> nat \<Rightarrow> 'w pvm \<Rightarrow> (int \<times> 'w pvm) option" where
  "replicate_listen ker u n s = do {
     usersock \<leftarrow> si_heap s u;
     newsock \<leftarrow> si_heap s n;
     if flag MWSOCKET_FLAG_LISTENING (si_mwflags usersock) \<and> \<not> flag MWSOCKET_FLAG_LISTENING (si_mwflags newsock)
     then mwsocket_send_message ker n
            ((set_rq_sockfd (si_remote_fd newsock) (new_request MtRequestSocketListen MT_REQUEST_SOCKET_LISTEN_SIZE))
               \<lparr>listen_backlog := si_backlog usersock\<rparr>) True s
     else Some (0, s)
   }"

definition replicate_defer_accept :: "'w ker \<Rightarrow> nat \<Rightarrow> nat \<Rightarrow> 'w pvm \<Rightarrow> (int \<times> 'w pvm) option" where
  "replicate_defer_accept ker u n s = do {
     usersock \<leftarrow> si_heap s u;
     newsock \<leftarrow> si_heap s n;
     if 0 < sint (si_defer_accept usersock) \<and> \<not> 0 < sint (si_defer_accept newsock)
     then mwsocket_send_message ker n
            ((set_rq_sockfd (si_remote_fd newsock) (new_request MtRequestSocketAttrib MT_REQUEST_SOCKET_ATTRIB_SIZE))
               \<lparr>attrib_modify := 1, attrib_rq_name := MtSockAttribDeferAccept,
                attrib_rq_val := feat_of_v32 (si_defer_accept usersock)\<rparr>) True s
     else Some (0, s)
   }"

definition set_caller_waits :: "mt_request_generic \<Rightarrow> mt_request_generic" where
  "set_caller_waits r = r\<lparr>rq_base := (rq_base r)\<lparr>rq_flags := rq_flags (rq_base r) OR MT_FLAGS_PVM_CALLER_AWAITS_RESPONSE\<rparr>\<rparr>"

definition replicate_accept :: "'w ker \<Rightarrow> nat \<Rightarrow> mt_request_generic option \<Rightarrow> nat \<Rightarrow> 'w pvm \<Rightarrow> (int \<times> 'w pvm) option" where
  "replicate_accept ker u reqbase n s = do {
     usersock \<leftarrow> si_heap s u;
     newsock \<leftarrow> si_heap s n;
     if flag MWSOCKET_FLAG_ACCEPT (si_mwflags newsock) then Some (0, s)
     else do {
       let accept = (set_rq_sockfd (si_remote_fd newsock) (new_request MtRequestSocketAccept MT_REQUEST_SOCKET_ACCEPT_SIZE))
                      \<lparr>accept_rq_flags := si_defer_accept usersock\<rparr>;
       ((rc, actreq), s) \<leftarrow> mwsocket_create_active_request ker n s;
       case actreq of
         None \<Rightarrow> Some (rc, s)
       | Some a \<Rightarrow> do {
           let accept = (if n = u \<and> (\<exists>b \<in> set_option reqbase. MT_REQUEST_CALLER_WAITS b)
                         then set_caller_waits accept else accept);
           mwsocket_send_request ker a True
             (upd_ar a (\<lambda>r. r\<lparr>ar_deliver_response := True, ar_rr := RrRequest accept\<rparr>) s)
         }
     }
   }"

text \<open>The steps one after the other, until one fails.\<close>

fun until_error :: "('w pvm \<Rightarrow> (int \<times> 'w pvm) option) list \<Rightarrow> 'w pvm \<Rightarrow> (int \<times> 'w pvm) option" where
  "until_error [] s = Some (0, s)"
| "until_error (f # fs) s = do {
     (rc, s) \<leftarrow> f s;
     if rc \<noteq> 0 then Some (rc, s) else until_error fs s
   }"

definition replicate_exit :: "nat option \<Rightarrow> int \<times> 'w pvm \<Rightarrow> (int \<times> 'w pvm) option" where
  "replicate_exit newsock = (\<lambda>(rc, s).
     if rc \<noteq> 0 then do { s \<leftarrow> mwsocket_put_sockinst newsock s; Some (rc, s) } else Some (rc, s))"

definition mwsocket_ins_sock_replicator ::
  "'w ker \<Rightarrow> nat \<Rightarrow> mt_request_generic option \<Rightarrow> u16 \<Rightarrow> 'w pvm \<Rightarrow> (int \<times> 'w pvm) option" where
  "mwsocket_ins_sock_replicator ker u reqbase Domid s = do {
     usersock \<leftarrow> si_heap s u;
     if \<not> flag MWSOCKET_FLAG_USER (si_mwflags usersock) then replicate_exit None (- EINVAL, s)
     else do {
       found \<leftarrow> (if MW_SOCKET_CLIENT_ID (si_remote_fd usersock) = Domid then Some (Some u)
                 else find_sibling s Domid (si_siblings usersock));
       ((rc, newsock), s) \<leftarrow> (case found of
           Some n \<Rightarrow> Some ((0, Some n), s)
         | None \<Rightarrow> replicate_create ker Domid u s);
       if rc \<noteq> 0 then replicate_exit newsock (rc, s)
       else do {
         n \<leftarrow> newsock;
         r \<leftarrow> until_error [replicate_bind ker u n, replicate_listen ker u n, replicate_defer_accept ker u n,
                            replicate_accept ker u reqbase n] s;
         replicate_exit newsock r
       }
     }
   }"

text \<open>
  \<open>mwsocket_propogate_listeners\<close>: instances are added at the head of the list only; those that have
  been removed are not visited, and the walk is lost when the current one has been removed.
\<close>

fun propogate_loop :: "'w ker \<Rightarrow> nat list \<Rightarrow> int \<Rightarrow> 'w pvm \<Rightarrow> (int \<times> 'w pvm) option" where
  "propogate_loop ker [] rc s = Some (rc, s)"
| "propogate_loop ker (x # xs) rc s =
    (if x \<notin> set (sockinst_list s) then propogate_loop ker xs rc s
     else do {
       i \<leftarrow> si_heap s x;
       if \<not> (flag MWSOCKET_FLAG_USER (si_mwflags i) \<and> flag MWSOCKET_FLAG_BOUND (si_mwflags i)
             \<and> flag MWSOCKET_FLAG_LISTENING (si_mwflags i))
       then propogate_loop ker xs rc s
       else do {
         (rc, s) \<leftarrow> mw_xen_for_each_live_ins (mwsocket_ins_sock_replicator ker x None) s;
         if x \<notin> set (sockinst_list s) then None else propogate_loop ker xs rc s
       }
     })"

definition mwsocket_propogate_listeners :: "'w ker \<Rightarrow> 'w pvm \<Rightarrow> (int \<times> 'w pvm) option" where
  "mwsocket_propogate_listeners ker s = propogate_loop ker (sockinst_list s) 0 s"

definition mwsocket_new_ins :: "'w ker \<Rightarrow> u16 \<Rightarrow> 'w pvm \<Rightarrow> int \<times> 'w pvm" where
  "mwsocket_new_ins ker Domid s =
    (let (r, s) = kdo ker KAlloc s in
     if kr_ret r = 0 then (- ENOMEM, s) else (0, snd (kdo ker KScheduleWork s)))"

definition mwsocket_notify_ring_ready :: "'w ker \<Rightarrow> u16 \<Rightarrow> 'w pvm \<Rightarrow> 'w pvm" where
  "mwsocket_notify_ring_ready ker Domid s =
    (if \<not> is_xen_iface_ready s then s\<lparr>is_xen_iface_ready := True\<rparr> else snd (mwsocket_new_ins ker Domid s))"

definition mwsocket_event_cb :: "'w pvm \<Rightarrow> 'w pvm" where
  "mwsocket_event_cb s = s\<lparr>event_channel_sem := event_channel_sem s + 1\<rparr>"

end
