(* ===== verification/PvmFile.thy ===== *)
theory PvmFile
  imports PvmSocket
begin

text \<open>
  The file operations of a socket of the PVM (mwcomms-socket.c): create through the device, write of a
  request, read of its response, the ioctl for attributes, poll and release. An interruptible wait
  without a timeout that returns no positive result was interrupted.
\<close>

section \<open>Creating a socket\<close>

text \<open>The return code with the descriptor, which is -1 on an error.\<close>

definition mwsocket_create :: "'w ker \<Rightarrow> u32 \<Rightarrow> u32 \<Rightarrow> u32 \<Rightarrow> 'w pvm \<Rightarrow> ((int \<times> int) \<times> 'w pvm) option" where
  "mwsocket_create ker dm Type Protocol s =
    (if \<not> is_xen_iface_ready s then Some ((- ENODEV, -1), s)
     else do {
       ((rc, sockinst), s) \<leftarrow> mwsocket_create_sockinst ker True True s;
       case sockinst of
         None \<Rightarrow> Some ((rc, -1), s)
       | Some x \<Rightarrow> do {
           let req = (new_request MtRequestSocketCreate MT_REQUEST_SOCKET_CREATE_SIZE)
                       \<lparr>create_sock_fam := dm, create_sock_type := Type, create_sock_protocol := Protocol\<rparr>;
           (rc, s) \<leftarrow> mwsocket_send_message ker x req True s;
           if rc \<noteq> 0 then Some ((rc, -1), s)
           else do {
             i \<leftarrow> si_heap s x;
             Some ((0, si_local_fd i), upd_si x (\<lambda>i. i\<lparr>si_mwflags := si_mwflags i OR MWSOCKET_FLAG_USER\<rparr>) s)
           }
         }
     })"

section \<open>Attributes\<close>

text \<open>\<open>mwsocket_attrib_t\<close>\<close>

record mwsocket_attrib =
  sa_modify :: bool
  sa_name :: u16
  sa_val :: mt_sockfeat_arg

definition mwsocket_handle_attrib ::
  "'w ker \<Rightarrow> nat \<Rightarrow> mwsocket_attrib \<Rightarrow> 'w pvm \<Rightarrow> ((int \<times> mwsocket_attrib) \<times> 'w pvm) option" where
  "mwsocket_handle_attrib ker File SetAttribs s = do {
     (rc, sockinst) \<leftarrow> mwsocket_find_sockinst File s;
     case sockinst of
       None \<Rightarrow> Some ((rc, SetAttribs), s)
     | Some x \<Rightarrow> do {
         ((rc, actreq), s) \<leftarrow> mwsocket_create_active_request ker x s;
         case actreq of
           None \<Rightarrow> Some ((rc, SetAttribs), s)
         | Some a \<Rightarrow> do {
             let req = (new_request MtRequestSocketAttrib MT_REQUEST_SOCKET_ATTRIB_SIZE)
                         \<lparr>attrib_modify := of_bool (sa_modify SetAttribs), attrib_rq_name := sa_name SetAttribs,
                          attrib_rq_val := sa_val SetAttribs\<rparr>;
             let s = upd_ar a (\<lambda>r. r\<lparr>ar_deliver_response := True, ar_rr := RrRequest req\<rparr>) s;
             (rc, s) \<leftarrow> mwsocket_send_request ker a True s;
             ((rc, SetAttribs), s) \<leftarrow>
               (if rc \<noteq> 0 then Some ((rc, SetAttribs), s)
                else do {
                  (r, s) \<leftarrow> wait_arrived ker a s;
                  if r \<le> 0 then Some ((- ETIME, SetAttribs), s)
                  else do {
                    ar \<leftarrow> ar_heap s a;
                    rsp \<leftarrow> rr_response (ar_rr ar);
                    Some (if rs_status (rs_base rsp) < 0 then (rs_status (rs_base rsp), SetAttribs)
                          else (0, if sa_modify SetAttribs
                                   then SetAttribs\<lparr>sa_val := attrib_rs_val rsp\<rparr> else SetAttribs), s)
                  }
                });
             s \<leftarrow> mwsocket_destroy_active_request (Some a) s;
             Some ((rc, SetAttribs), s)
           }
       }
   }"

definition MW_IOCTL_SOCKET_ATTRIBUTES :: u32 where [mw_consts]: "MW_IOCTL_SOCKET_ATTRIBUTES = 0xc0085306"

text \<open>The attributes come from the user as the fields of the same name of a request.\<close>

definition mwsocket_ioctl :: "'w ker \<Rightarrow> nat \<Rightarrow> u32 \<Rightarrow> 'w pvm \<Rightarrow> (int \<times> 'w pvm) option" where
  "mwsocket_ioctl ker File Cmd s = do {
     (rc, sockinst) \<leftarrow> mwsocket_find_sockinst File s;
     if rc \<noteq> 0 then Some (rc, s)
     else if Cmd \<noteq> MW_IOCTL_SOCKET_ATTRIBUTES then Some (- EINVAL, s)
     else
       let (r, s) = kdo ker (KCopyFromUser 0) s;
           attrib = \<lparr>sa_modify = (attrib_modify (kr_request r) \<noteq> 0), sa_name = attrib_rq_name (kr_request r),
                     sa_val = attrib_rq_val (kr_request r)\<rparr>
       in if kr_ret r \<noteq> 0 then Some (- EFAULT, s)
          else do {
            ((rc, attrib), s) \<leftarrow> mwsocket_handle_attrib ker File attrib s;
            if rc \<noteq> 0 then Some (rc, s)
            else if sa_modify attrib then
              let (r, s) = kdo ker (KCopyAttribToUser (sa_val attrib)) s
              in Some (if kr_ret r \<noteq> 0 then - EFAULT else 0, s)
            else Some (0, s)
          }
   }"

section \<open>Reading a response\<close>

text \<open>The new socket of a successful accept: the return code and the response as changed.\<close>

definition mwsocket_postproc_in_task ::
  "'w ker \<Rightarrow> mt_response_generic \<Rightarrow> 'w pvm \<Rightarrow> ((int \<times> mt_response_generic) \<times> 'w pvm) option" where
  "mwsocket_postproc_in_task ker rsp s =
    (if \<not> rs_type_is MtRequestSocketAccept rsp \<or> rs_status (rs_base rsp) < 0 then Some ((0, rsp), s)
     else do {
       ((rc, acceptinst), s) \<leftarrow> mwsocket_create_sockinst ker True True s;
       case acceptinst of
         None \<Rightarrow> Some ((rc, rsp), s)
       | Some y \<Rightarrow> do {
           i \<leftarrow> si_heap s y;
           let s = upd_si y (\<lambda>i. i\<lparr>si_remote_fd := rs_sockfd (rs_base rsp),
                                   si_mwflags := si_mwflags i OR MWSOCKET_FLAG_USER\<rparr>) s;
           Some ((0, rsp\<lparr>rs_base := (rs_base rsp)\<lparr>rs_sockfd := word_of_int (si_local_fd i),
                                                     rs_status := si_local_fd i\<rparr>\<rparr>), s)
         }
     })"

definition mwsocket_await_inbound_connection ::
  "'w ker \<Rightarrow> nat \<Rightarrow> 'w pvm \<Rightarrow> ((int \<times> nat option) \<times> 'w pvm) option" where
  "mwsocket_await_inbound_connection ker a s = do {
     ar \<leftarrow> ar_heap s a;
     let x = ar_sockinst ar;
     (r, s) \<leftarrow> wait_until ker (\<lambda>s. map_option (\<lambda>i. si_inbound_sem i > 0) (si_heap s x)) s;
     if r \<le> 0 then Some ((- EINTR, None), upd_si x (\<lambda>i. i\<lparr>si_state_valid := False\<rparr>) s)
     else do {
       i \<leftarrow> si_heap s x;
       case si_inbound_list i of
         [] \<Rightarrow> None
       | b # bs \<Rightarrow> Some ((0, Some b),
                         upd_si x (\<lambda>i. i\<lparr>si_inbound_sem := si_inbound_sem i - 1, si_inbound_list := bs\<rparr>) s)
     }
   }"

definition request_sem_up :: "nat \<Rightarrow> 'w pvm \<Rightarrow> 'w pvm" where
  "request_sem_up x s = upd_si x (\<lambda>i. i\<lparr>si_request_sem := si_request_sem i + 1\<rparr>) s"

text \<open>\<^verbatim>\<open>down_interruptible( &sockinst->request_sem )\<close>: whether the semaphore was taken.\<close>

definition request_sem_down :: "'w ker \<Rightarrow> nat \<Rightarrow> 'w pvm \<Rightarrow> (bool \<times> 'w pvm) option" where
  "request_sem_down ker x s = do {
     (r, s) \<leftarrow> wait_until ker (\<lambda>s. map_option (\<lambda>i. si_request_sem i > 0) (si_heap s x)) s;
     Some (if r \<le> 0 then (False, s)
           else (True, upd_si x (\<lambda>i. i\<lparr>si_request_sem := si_request_sem i - 1\<rparr>) s))
   }"

definition read_exit :: "nat \<Rightarrow> nat option \<Rightarrow> int \<Rightarrow> 'w pvm \<Rightarrow> (int \<times> 'w pvm) option" where
  "read_exit x actreq rc s = do {
     s \<leftarrow> (if rc \<noteq> - EINTR then mwsocket_destroy_active_request actreq s else Some s);
     i \<leftarrow> si_heap s x;
     Some (rc, request_sem_up x s)
   }"

text \<open>From the point where the response of the active request is there.\<close>

definition read_response :: "'w ker \<Rightarrow> nat \<Rightarrow> nat \<Rightarrow> nat \<Rightarrow> 'w pvm \<Rightarrow> (int \<times> 'w pvm) option" where
  "read_response ker x a Len s = do {
     ar \<leftarrow> ar_heap s a;
     rsp \<leftarrow> rr_response (ar_rr ar);
     if Len < unat (rs_size (rs_base rsp)) then read_exit x (Some a) (- EINVAL) s
     else do {
       ((rc, rsp), s) \<leftarrow> mwsocket_postproc_in_task ker rsp s;
       let s = upd_ar a (\<lambda>r. r\<lparr>ar_rr := RrResponse rsp\<rparr>) s;
       if rc \<noteq> 0 then read_exit x (Some a) rc s
       else do {
         (rc, s) \<leftarrow> mwsocket_pending_error ker x (rs_type (rs_base rsp) AND MT_TYPE_MASK) s;
         if rc \<noteq> 0 then read_exit x (Some a) rc s
         else
           let (r, s) = kdo ker (KCopyToUser rsp) s
           in read_exit x (Some a) (if kr_ret r \<noteq> 0 then - EFAULT else int (unat (rs_size (rs_base rsp)))) s
       }
     }
   }"

text \<open>The connection that arrived first replaces the accept of the user.\<close>

definition read_accept :: "'w ker \<Rightarrow> nat \<Rightarrow> nat \<Rightarrow> nat \<Rightarrow> 'w pvm \<Rightarrow> (int \<times> 'w pvm) option" where
  "read_accept ker x a Len s = do {
     let s = upd_si x (\<lambda>i. i\<lparr>si_user_outstanding_accept := si_user_outstanding_accept i - 1\<rparr>) s;
     ((rc, inbound), s) \<leftarrow> mwsocket_await_inbound_connection ker a s;
     case inbound of
       None \<Rightarrow> read_exit x (Some a) rc s
     | Some b \<Rightarrow> do {
         ar \<leftarrow> ar_heap s b;
         let y = ar_sockinst ar;
         s \<leftarrow> (if x = y then Some s
               else do {
                 i \<leftarrow> si_heap s x;
                 (taken, s) \<leftarrow> request_sem_down ker y (request_sem_up x s);
                 Some (upd_si y (\<lambda>i. i\<lparr>si_read_expected := False\<rparr>) s)
               });
         read_response ker y b Len s
       }
   }"

definition mwsocket_read :: "'w ker \<Rightarrow> nat \<Rightarrow> nat \<Rightarrow> 'w pvm \<Rightarrow> (int \<times> 'w pvm) option" where
  "mwsocket_read ker File Len s = do {
     (rc, sockinst) \<leftarrow> mwsocket_find_sockinst File s;
     case sockinst of
       None \<Rightarrow> Some (rc, s)
     | Some x \<Rightarrow> do {
         i \<leftarrow> si_heap s x;
         if si_state_valid i \<and> \<not> si_read_expected i then read_exit x None (- EINVAL) s
         else do {
           let s = upd_si x (\<lambda>i. i\<lparr>si_read_expected := False\<rparr>) s;
           (rc, actreq) \<leftarrow> mwsocket_find_active_request_by_id (si_blockid i) s;
           case actreq of
             None \<Rightarrow> read_exit x None rc s
           | Some a \<Rightarrow> do {
               ar \<leftarrow> ar_heap s a;
               if \<not> ar_deliver_response ar then read_exit x (Some a) (- EINVAL) s
               else if si_user_outstanding_accept i > 0 then read_accept ker x a Len s
               else do {
                 (r, s) \<leftarrow> wait_arrived ker a s;
                 if r \<le> 0 then read_exit x (Some a) (- EINTR) (upd_si x (\<lambda>i. i\<lparr>si_read_expected := True\<rparr>) s)
                 else read_response ker x a Len s
               }
             }
         }
       }
   }"

section \<open>Writing a request\<close>

text \<open>The size of \<^verbatim>\<open>mt_request_response_union_t\<close>.\<close>

definition sizeof_rr :: nat where [sizes]: "sizeof_rr = max sizeof_mt_request_generic sizeof_mt_response_generic"

definition write_exit :: "nat \<Rightarrow> nat option \<Rightarrow> int \<Rightarrow> 'w pvm \<Rightarrow> (int \<times> 'w pvm) option" where
  "write_exit x actreq rc s = do {
     i \<leftarrow> si_heap s x;
     s \<leftarrow> (if rc \<noteq> 0
           then mwsocket_destroy_active_request actreq (upd_si x (\<lambda>i. i\<lparr>si_read_expected := False\<rparr>) s)
           else Some s);
     i \<leftarrow> si_heap s x;
     Some (rc, if \<not> si_read_expected i \<or> \<not> si_state_valid i then request_sem_up x s else s)
   }"

text \<open>
  A request other than accept. The user decides how many bytes are copied; more than the union holds
  overwrite what follows it in the active request, which is None.
\<close>

definition write_request :: "'w ker \<Rightarrow> nat \<Rightarrow> nat \<Rightarrow> 'w pvm \<Rightarrow> (int \<times> 'w pvm) option" where
  "write_request ker x Len s = do {
     ((rc, actreq), s) \<leftarrow> mwsocket_create_active_request ker x s;
     case actreq of
       None \<Rightarrow> write_exit x None rc s
     | Some a \<Rightarrow>
         let (r, s) = kdo ker (KCopyFromUser Len) s;
             req = kr_request r;
             s = upd_ar a (\<lambda>r. r\<lparr>ar_from_user := True, ar_rr := RrRequest req\<rparr>) s
         in if kr_ret r \<noteq> 0 then write_exit x (Some a) (- EFAULT) s
            else if Len > sizeof_rr then None
            else if unat (rq_size (rq_base req)) > Len then write_exit x (Some a) (- EINVAL) s
            else do {
              (rc, s) \<leftarrow> mwsocket_pending_error ker x (rq_type (rq_base req)) s;
              if rc \<noteq> 0 then write_exit x (Some a) rc s
              else do {
                (rc, s) \<leftarrow> mwsocket_send_request ker a True s;
                write_exit x (Some a) rc s
              }
            }
   }"

definition mwsocket_write :: "'w ker \<Rightarrow> nat \<Rightarrow> nat \<Rightarrow> 'w pvm \<Rightarrow> (int \<times> 'w pvm) option" where
  "mwsocket_write ker File Len s =
    (if Len < MT_REQUEST_BASE_SIZE then Some (- EINVAL, s)
     else
       let (r, s) = kdo ker (KCopyFromUser MT_REQUEST_BASE_SIZE) s; base = kr_request r in
       if kr_ret r \<noteq> 0 then Some (- EFAULT, s)
       else do {
         (rc, sockinst) \<leftarrow> mwsocket_find_sockinst File s;
         case sockinst of
           None \<Rightarrow> Some (rc, s)
         | Some x \<Rightarrow> do {
             (taken, s) \<leftarrow> request_sem_down ker x s;
             if \<not> taken then write_exit x None (- EINTR) (upd_si x (\<lambda>i. i\<lparr>si_state_valid := False\<rparr>) s)
             else do {
               i \<leftarrow> si_heap s x;
               if si_state_valid i \<and> si_read_expected i then write_exit x None (- EIO) s
               else if rq_type_is MtRequestSocketAccept base then do {
                 let s = upd_si x (\<lambda>i. i\<lparr>si_user_outstanding_accept := si_user_outstanding_accept i + 1\<rparr>) s;
                 (rc, s) \<leftarrow> mw_xen_for_each_live_ins (mwsocket_ins_sock_replicator ker x (Some base)) s;
                 write_exit x None rc (upd_si x (\<lambda>i. i\<lparr>si_read_expected := True\<rparr>) s)
               }
               else write_request ker x Len s
             }
           }
       })"

section \<open>Poll and release\<close>

text \<open>An unknown file is dereferenced as a null pointer.\<close>

definition mwsocket_poll :: "nat \<Rightarrow> 'w pvm \<Rightarrow> (u32 \<times> 'w pvm) option" where
  "mwsocket_poll File s = do {
     (rc, sockinst) \<leftarrow> mwsocket_find_sockinst File s;
     x \<leftarrow> sockinst;
     i \<leftarrow> si_heap s x;
     Some (si_poll_events i, upd_si x (\<lambda>i. i\<lparr>si_poll_events := 0\<rparr>) s)
   }"

text \<open>The sibling listeners of a socket that is released.\<close>

fun release_siblings :: "'w ker \<Rightarrow> nat list \<Rightarrow> int \<Rightarrow> 'w pvm \<Rightarrow> (int \<times> 'w pvm) option" where
  "release_siblings ker [] rc s = Some (rc, s)"
| "release_siblings ker (x # xs) rc s = do {
     i \<leftarrow> si_heap s x;
     if flag MWSOCKET_FLAG_USER (si_mwflags i) then release_siblings ker xs rc s
     else do {
       (rc, s) \<leftarrow> mwsocket_close_remote ker x True s;
       i \<leftarrow> si_heap s x;
       s \<leftarrow> mwsocket_put_sockinst (Some x) (upd_si x (\<lambda>i. i\<lparr>si_mwflags := si_mwflags i OR MWSOCKET_FLAG_RELEASED\<rparr>) s);
       release_siblings ker xs rc s
     }
   }"

definition mwsocket_release :: "'w ker \<Rightarrow> nat \<Rightarrow> 'w pvm \<Rightarrow> (int \<times> 'w pvm) option" where
  "mwsocket_release ker File s = do {
     (rc, sockinst) \<leftarrow> mwsocket_find_sockinst File s;
     case sockinst of
       None \<Rightarrow> Some (rc, s)
     | Some x \<Rightarrow> do {
         i \<leftarrow> si_heap s x;
         let s = upd_si x (\<lambda>i. i\<lparr>si_mwflags := si_mwflags i OR MWSOCKET_FLAG_RELEASED\<rparr>) s;
         (rc, s) \<leftarrow> release_siblings ker (si_siblings i) rc s;
         i \<leftarrow> si_heap s x;
         (rc, s) \<leftarrow> (if MW_SOCKET_IS_FD (si_remote_fd i) then mwsocket_close_remote ker x True s else Some (rc, s));
         s \<leftarrow> mwsocket_put_sockinst (Some x) s;
         Some (rc, s)
       }
   }"

end
