(* ===== verification/PvmMonitor.thy ===== *)
theory PvmMonitor
  imports PvmFile
begin

text \<open>
  The monitor thread of the PVM (mwcomms-socket.c): poll queries to the INSs and the distribution of
  the events, what becomes of the sockets of an INS that has died, one pass of the loop, and the
  start and the end of the socket layer.
\<close>

section \<open>Poll notifications\<close>

text \<open>
  The domains to ask, in the order of the array \<open>ins\<close>; \<open>p\<close> is the pseudo-socket of the monitor. An
  entry with domain 0 is free, so a socket with this client id finds it and adds nothing.
\<close>

fun poll_domains :: "nat \<Rightarrow> nat list \<Rightarrow> u16 list \<Rightarrow> 'w pvm \<Rightarrow> (u16 list \<times> 'w pvm) option" where
  "poll_domains p [] ds s = Some (ds, s)"
| "poll_domains p (x # xs) ds s = do {
     i \<leftarrow> si_heap s x;
     if \<not> si_ins_alive i then do { s \<leftarrow> mwsocket_set_pollable x False s; poll_domains p xs ds s }
     else if p = x \<or> flag (MWSOCKET_FLAG_CLOSED OR MWSOCKET_FLAG_RELEASED) (si_mwflags i) then poll_domains p xs ds s
     else if length ds = MAX_INS_COUNT then Some (ds, s)
     else
       let domid = MW_SOCKET_CLIENT_ID (si_remote_fd i)
       in poll_domains p xs (if domid = 0 \<or> domid \<in> set ds then ds else ds @ [domid]) s
   }"

text \<open>One query per domain: the return code and the active requests made so far.\<close>

fun poll_queries :: "'w ker \<Rightarrow> nat \<Rightarrow> u16 list \<Rightarrow> nat list \<Rightarrow> 'w pvm \<Rightarrow> ((int \<times> nat list) \<times> 'w pvm) option" where
  "poll_queries ker p [] as s = Some ((0, as), s)"
| "poll_queries ker p (d # ds) as s = do {
     ((rc, actreq), s) \<leftarrow> mwsocket_create_active_request ker p s;
     case actreq of
       None \<Rightarrow> Some ((rc, as), s)
     | Some a \<Rightarrow> do {
         let req = set_rq_sockfd (MW_SOCKET_CREATE d 0) (new_request MtRequestPollsetQuery MT_REQUEST_POLLSET_QUERY_SIZE);
         let s = upd_ar a (\<lambda>r. r\<lparr>ar_deliver_response := True, ar_rr := RrRequest req\<rparr>) s;
         (rc, s) \<leftarrow> mwsocket_send_request ker a True s;
         if rc \<noteq> 0 then Some ((rc, as @ [a]), s) else poll_queries ker p ds (as @ [a]) s
       }
   }"

text \<open>The events of a response, for one instance and for all of a list.\<close>

definition poll_distribute1 :: "(mw_socket_fd \<times> u32) list \<Rightarrow> nat \<Rightarrow> 'w pvm \<Rightarrow> 'w pvm option" where
  "poll_distribute1 evs x s = do {
     i \<leftarrow> si_heap s x;
     let u = si_usersock i;
     ui \<leftarrow> si_heap s u;
     let s = upd_si u (\<lambda>i. i\<lparr>si_poll_events := 0\<rparr>) s;
     Some (case map_of evs (si_remote_fd i) of
             None \<Rightarrow> s
           | Some events \<Rightarrow>
               upd_si u (\<lambda>i. i\<lparr>si_poll_events := si_poll_events i OR events, si_poll_active := Some x\<rparr>) s)
   }"

fun poll_distribute :: "(mw_socket_fd \<times> u32) list \<Rightarrow> nat list \<Rightarrow> 'w pvm \<Rightarrow> 'w pvm option" where
  "poll_distribute evs [] s = Some s"
| "poll_distribute evs (x # xs) s = do { s \<leftarrow> poll_distribute1 evs x s; poll_distribute evs xs s }"

definition poll_response :: "mt_response_generic \<Rightarrow> 'w pvm \<Rightarrow> 'w pvm option" where
  "poll_response rsp s =
    (if rs_status (rs_base rsp) < 0 \<or> pollset_count rsp = 0 then Some s
     else poll_distribute (take (unat (pollset_count rsp)) (pollset_items rsp)) (sockinst_list s) s)"

text \<open>A response that does not come in time is dropped.\<close>

fun poll_responses :: "'w ker \<Rightarrow> nat list \<Rightarrow> 'w pvm \<Rightarrow> 'w pvm option" where
  "poll_responses ker [] s = Some s"
| "poll_responses ker (a # as) s = do {
     (r, s) \<leftarrow> wait_arrived ker a s;
     s \<leftarrow> (if r \<le> 0 then Some s
           else do {
             ar \<leftarrow> ar_heap s a;
             rsp \<leftarrow> rr_response (ar_rr ar);
             poll_response rsp s
           });
     poll_responses ker as s
   }"

fun destroy_all :: "nat list \<Rightarrow> 'w pvm \<Rightarrow> 'w pvm option" where
  "destroy_all [] s = Some s"
| "destroy_all (a # as) s = do { s \<leftarrow> mwsocket_destroy_active_request (Some a) s; destroy_all as s }"

definition mwsocket_poll_handle_notifications :: "'w ker \<Rightarrow> nat \<Rightarrow> 'w pvm \<Rightarrow> (int \<times> 'w pvm) option" where
  "mwsocket_poll_handle_notifications ker p s = do {
     (ds, s) \<leftarrow> poll_domains p (sockinst_list s) [] s;
     ((rc, as), s) \<leftarrow> poll_queries ker p ds [] s;
     s \<leftarrow> (if rc \<noteq> 0 then Some s else poll_responses ker as s);
     s \<leftarrow> destroy_all as s;
     Some (rc, s)
   }"

section \<open>Sockets of a dead INS\<close>

text \<open>The header fields that a request and a response have in the same place.\<close>

fun rr_type :: "rr \<Rightarrow> u32" where
  "rr_type (RrRequest r) = rq_type (rq_base r)"
| "rr_type (RrResponse r) = rs_type (rs_base r)"

fun rr_id :: "rr \<Rightarrow> u64" where
  "rr_id (RrRequest r) = rq_id (rq_base r)"
| "rr_id (RrResponse r) = rs_id (rs_base r)"

fun rr_sockfd :: "rr \<Rightarrow> mw_socket_fd" where
  "rr_sockfd (RrRequest r) = rq_sockfd (rq_base r)"
| "rr_sockfd (RrResponse r) = rs_sockfd (rs_base r)"

text \<open>
  \<open>Dead_INS_Array\<close> from its filled part, and whether a domain is found in it. The search stops at
  the first entry that is 0; when there is none it reads past the end of the array, which is None.
\<close>

definition dead_array :: "u16 list \<Rightarrow> u16 list" where
  "dead_array dead = take MAX_INS_COUNT (dead @ replicate MAX_INS_COUNT 0)"

definition dead_match :: "u16 list \<Rightarrow> u16 \<Rightarrow> bool option" where
  "dead_match dead domid =
    map_option (\<lambda>d. d = domid) (find (\<lambda>d. d = 0 \<or> d = domid) (dead_array dead))"

text \<open>The response made up for a request to a dead INS; of the body nothing is copied.\<close>

definition dead_response :: "rr \<Rightarrow> mt_response_generic" where
  "dead_response r = rs_zero\<lparr>rs_base := rs_base_zero\<lparr>rs_sig := MT_SIGNATURE_RESPONSE,
     rs_type := MT_RESPONSE (rr_type r), rs_size := of_nat MT_RESPONSE_BASE_SIZE, rs_id := rr_id r,
     rs_sockfd := rr_sockfd r, rs_status := - ENOENT\<rparr>\<rparr>"

definition fail_request :: "'w ker \<Rightarrow> nat option \<Rightarrow> 'w pvm \<Rightarrow> (int \<times> 'w pvm) option" where
  "fail_request ker ActReq s =
    (let (r, s) = kdo ker KAlloc s in
     if kr_ret r = 0 then Some (- ENOMEM, s)
     else do {
       a \<leftarrow> ActReq;
       ar \<leftarrow> ar_heap s a;
       (rsp, s) \<leftarrow> mwsocket_postproc_no_context a (dead_response (ar_rr ar)) s;
       Some (0, upd_ar a (\<lambda>r. r\<lparr>ar_rr := RrResponse rsp, ar_response_populated := True,
                                ar_arrived := ar_arrived r + 1\<rparr>) s)
     })"

fun reap_requests :: "'w ker \<Rightarrow> u16 list \<Rightarrow> nat list \<Rightarrow> int \<Rightarrow> 'w pvm \<Rightarrow> (int \<times> 'w pvm) option" where
  "reap_requests ker dead [] rc s = Some (rc, s)"
| "reap_requests ker dead (a # as) rc s = do {
     ar \<leftarrow> ar_heap s a;
     i \<leftarrow> si_heap s (ar_sockinst ar);
     m \<leftarrow> dead_match dead (MW_SOCKET_CLIENT_ID (si_remote_fd i));
     if \<not> m then reap_requests ker dead as rc s
     else if \<not> ar_deliver_response ar
             \<or> (rr_type (ar_rr ar) = mt_request_code MtRequestSocketAccept \<and> \<not> flag MWSOCKET_FLAG_USER (si_mwflags i))
     then do { s \<leftarrow> mwsocket_destroy_active_request (Some a) s; reap_requests ker dead as rc s }
     else if rr_type (ar_rr ar) \<noteq> mt_request_code MtRequestSocketAccept \<and> \<not> ar_response_populated ar
     then do { (e, s) \<leftarrow> fail_request ker (Some a) s; reap_requests ker dead as (if e \<noteq> 0 then e else rc) s }
     else reap_requests ker dead as rc s
   }"

text \<open>A sibling of a listening socket on an INS that is alive.\<close>

fun live_sibling :: "u16 list \<Rightarrow> nat list \<Rightarrow> 'w pvm \<Rightarrow> nat option option" where
  "live_sibling dead [] s = Some None"
| "live_sibling dead (y # ys) s = do {
     i \<leftarrow> si_heap s y;
     if \<not> si_ins_alive i \<or> MW_SOCKET_CLIENT_ID (si_remote_fd i) \<in> set (dead_array dead) then live_sibling dead ys s
     else Some (Some y)
   }"

text \<open>The active requests of the dead socket \<open>x\<close> are destroyed, those of its sibling \<open>y\<close> move to \<open>x\<close>.\<close>

fun move_requests :: "nat \<Rightarrow> nat \<Rightarrow> nat list \<Rightarrow> 'w pvm \<Rightarrow> 'w pvm option" where
  "move_requests x y [] s = Some s"
| "move_requests x y (a # as) s = do {
     ar \<leftarrow> ar_heap s a;
     s \<leftarrow> (if ar_sockinst ar = x then mwsocket_destroy_active_request (Some a) s
           else if ar_sockinst ar = y then do {
             s \<leftarrow> mwsocket_put_sockinst (Some y) (upd_ar a (\<lambda>r. r\<lparr>ar_sockinst := x\<rparr>) s);
             mwsocket_get_sockinst x s
           }
           else Some s);
     move_requests x y as s
   }"

definition take_over :: "mwsocket_instance \<Rightarrow> mwsocket_instance \<Rightarrow> mwsocket_instance" where
  "take_over y x = x\<lparr>si_remote_fd := si_remote_fd y, si_mwflags := si_mwflags y OR MWSOCKET_FLAG_USER,
     si_poll_events := si_poll_events y, si_send_tally := si_send_tally y, si_pending_errno := si_pending_errno y,
     si_tot_sent := si_tot_sent y, si_tot_recv := si_tot_recv y, si_read_expected := si_read_expected y,
     si_remote_close_requested := si_remote_close_requested y,
     si_remote_surprise_close := si_remote_surprise_close y, si_close_lock_write := si_close_lock_write y,
     si_close_blockid := si_close_blockid y\<rparr>"

definition replace_by_sibling :: "nat \<Rightarrow> nat \<Rightarrow> 'w pvm \<Rightarrow> 'w pvm option" where
  "replace_by_sibling x y s = do {
     s \<leftarrow> move_requests x y (active_request_list s) s;
     yi \<leftarrow> si_heap s y;
     xi \<leftarrow> si_heap s x;
     s \<leftarrow> mwsocket_put_sockinst (Some y) (upd_si x (take_over yi) s);
     xi \<leftarrow> si_heap s x;
     mwsocket_set_pollable x True (upd_si x (\<lambda>i. i\<lparr>si_ins_alive := True\<rparr>) s)
   }"

definition reap_sockinst :: "'w ker \<Rightarrow> u16 list \<Rightarrow> nat \<Rightarrow> int \<Rightarrow> 'w pvm \<Rightarrow> (int \<times> 'w pvm) option" where
  "reap_sockinst ker dead x rc s = do {
     i \<leftarrow> si_heap s x;
     m \<leftarrow> dead_match dead (MW_SOCKET_CLIENT_ID (si_remote_fd i));
     if \<not> m then Some (rc, s)
     else do {
       s \<leftarrow> mwsocket_set_pollable x False (upd_si x (\<lambda>i. i\<lparr>si_ins_alive := False\<rparr>) s);
       (e, blockreq) \<leftarrow> mwsocket_find_active_request_by_id (si_blockid i) s;
       if \<not> flag MWSOCKET_FLAG_ACCEPT (si_mwflags i) then Some (rc, s)
       else if \<not> flag MWSOCKET_FLAG_USER (si_mwflags i) then do {
         s \<leftarrow> mwsocket_put_sockinst (Some x) s;
         Some (rc, s)
       }
       else do {
         sib \<leftarrow> live_sibling dead (si_siblings i) s;
         case sib of
           None \<Rightarrow> do {
             (e, s) \<leftarrow> fail_request ker blockreq s;
             Some (if e \<noteq> 0 then e else rc, s)
           }
         | Some y \<Rightarrow> do { s \<leftarrow> replace_by_sibling x y s; Some (rc, s) }
       }
     }
   }"

text \<open>
  The walk over the instances remembers the next one: None when this one has been freed in between,
  while others that have been removed are not visited.
\<close>

fun reap_sockinsts :: "'w ker \<Rightarrow> u16 list \<Rightarrow> nat list \<Rightarrow> int \<Rightarrow> 'w pvm \<Rightarrow> (int \<times> 'w pvm) option" where
  "reap_sockinsts ker dead [] rc s = Some (rc, s)"
| "reap_sockinsts ker dead (x # xs) rc s =
    (if x \<notin> set (sockinst_list s) then reap_sockinsts ker dead xs rc s
     else do {
       let nxt = find (\<lambda>y. y \<in> set (sockinst_list s)) xs;
       (rc, s) \<leftarrow> reap_sockinst ker dead x rc s;
       if \<exists>y \<in> set_option nxt. y \<notin> set (sockinst_list s) then None
       else reap_sockinsts ker dead xs rc s
     })"

definition mwsocket_reap_dead_sock_instances :: "'w ker \<Rightarrow> u16 list \<Rightarrow> 'w pvm \<Rightarrow> (int \<times> 'w pvm) option" where
  "mwsocket_reap_dead_sock_instances ker dead s =
    (if hd (dead_array dead) = 0 then Some (0, s)
     else do {
       (rc, s) \<leftarrow> reap_requests ker dead (active_request_list s) 0 s;
       reap_sockinsts ker dead (sockinst_list s) rc s
     })"

section \<open>The monitor\<close>

text \<open>One pass of the loop of \<open>mwsocket_monitor\<close>, with the pseudo-socket; whether it goes on.\<close>

definition mwsocket_monitor :: "'w ker \<Rightarrow> u64 \<Rightarrow> nat \<Rightarrow> 'w pvm \<Rightarrow> (bool \<times> 'w pvm) option" where
  "mwsocket_monitor ker HZ p s =
    (if sock_pending_exit s then do { s \<leftarrow> mwsocket_put_sockinst (Some p) s; Some (False, s) }
     else do {
       let s = snd (kdo ker KSleep s);
       let (dead, s) = mw_xen_reap_dead_ins ker HZ s;
       (rc, s) \<leftarrow> mwsocket_reap_dead_sock_instances ker dead s;
       if poll_sock_count s < 1 then Some (True, s)
       else do {
         (rc, s) \<leftarrow> mwsocket_poll_handle_notifications ker p s;
         if rc \<noteq> 0 then Some (True, s)
         else do {
           i \<leftarrow> si_heap s p;
           Some (True, if \<not> si_ins_alive i then upd_si p (\<lambda>i. i\<lparr>si_ins_alive := True\<rparr>) s else s)
         }
       }
     })"

abbreviation "ESRCH \<equiv> (3::int)"

section \<open>Start and end\<close>

definition mwsocket_init :: "'w ker \<Rightarrow> 'w pvm \<Rightarrow> int \<times> 'w pvm" where
  "mwsocket_init ker s =
    (let s = s\<lparr>is_xen_iface_ready := False, active_request_list := [], sockinst_list := [], sockinst_count := 0,
               poll_sock_count := 0, event_channel_sem := 0, sock_pending_exit := False\<rparr>;
         (r, s) = kdo ker KSymbols s
     in if kr_ret r = 0 then (- ENXIO, s)
        else let (r, s) = kdo ker KFsInit s in
        if kr_ret r \<noteq> 0 then (kr_ret r, s)
        else let (r, s) = kdo ker KCacheCreate s in
        if kr_ret r = 0 then (- ENOMEM, s)
        else let (r, s) = kdo ker KCacheCreate s in
        if kr_ret r = 0 then (- ENOMEM, s)
        else let (r, s) = kdo ker KThread s in
        if kr_ret r = 0 then (- ESRCH, s)
        else let (r, s) = kdo ker KThread s in
        if kr_ret r = 0 then (- ESRCH, s) else (0, s))"

text \<open>\<open>mwsocket_fini\<close>, after the threads have ended: what is left is freed without regard to references.\<close>

definition mwsocket_fini :: "'w pvm \<Rightarrow> 'w pvm" where
  "mwsocket_fini s =
    (let s = s\<lparr>sock_pending_exit := True, event_channel_sem := event_channel_sem s + 1\<rparr>;
         s = s\<lparr>ar_heap := (\<lambda>a. if a \<in> set (active_request_list s) then None else ar_heap s a),
               active_request_list := []\<rparr>
     in s\<lparr>si_heap := (\<lambda>x. if x \<in> set (sockinst_list s) then None else si_heap s x), sockinst_list := []\<rparr>)"

end
