(* ===== verification/PvmStore.thy ===== *)
theory PvmStore
  imports PvmMonitor
begin

text \<open>
  The contract between the store of socket instances and active requests and the operations above it:
  a locale for a predicate on the state that the primitive operations of the store keep, in which the
  operations of the socket layer are shown to keep it. Its parameter is the set of sockets on which a
  release in progress still holds the reference of the file.
\<close>

section \<open>What the Xen interface leaves alone\<close>

lemma kdo_more [simp]: "mw_xen.more (snd (kdo ker c s)) = mw_xen.more s"
  by (simp add: kdo_def split: prod.splits)

lemma kdo_moreD [frame]: "kdo ker c s = (r, t) \<Longrightarrow> mw_xen.more t = mw_xen.more s"
  using kdo_more [of ker c s] by simp

lemma upd_ins_more [simp]: "mw_xen.more (upd_ins i f s) = mw_xen.more s"
  by (simp add: upd_ins_def)

lemma end_grants_more [simp]: "mw_xen.more (end_grants ker gs s) = mw_xen.more s"
  by (induction ker gs s rule: end_grants.induct) simp_all

lemma release_ins_more [simp]: "mw_xen.more (mw_xen_release_ins ker i s) = mw_xen.more s"
  by (auto simp: mw_xen_release_ins_def mw_xen_is_evt_chn_closed_def mw_xen_free_unbound_evt_chn_def Let_def
      split: prod.splits dest: kdo_moreD)

lemma new_socket_rr_more [frame]: "mw_xen_new_socket_rr s = Some (d, t) \<Longrightarrow> mw_xen.more t = mw_xen.more s"
  by (drule new_socket_rr_result) auto

lemma response_available_loop_more: "mw_xen.more (snd (response_available_loop ker n s)) = mw_xen.more s"
  by (induction ker n s rule: response_available_loop.induct)
    (auto simp: Let_def mw_xen_get_next_index_rr_def split: prod.splits dest!: kdo_moreD)

lemma response_available_more [frame]:
  "mw_xen_response_available ker s = (h, t) \<Longrightarrow> mw_xen.more t = mw_xen.more s"
  using response_available_loop_more unfolding mw_xen_response_available_def by (metis snd_conv)

lemma get_next_response_more [frame]:
  "mw_xen_get_next_response ker h s = (r, t) \<Longrightarrow> mw_xen.more t = mw_xen.more s"
  by (auto simp: mw_xen_get_next_response_def Let_def split: prod.splits dest: kdo_moreD)

lemma mark_response_more [simp]: "mw_xen.more (snd (mw_xen_mark_response_consumed ker h s)) = mw_xen.more s"
  by (auto simp: mw_xen_mark_response_consumed_def split: option.splits)

lemma ring_wait_more [frame]:
  assumes ret: "ring_wait ker W i s = Some y"
  shows "mw_xen.more (snd y) = mw_xen.more s"
  by (rule ring_wait.raw_induct [where P = "\<lambda>ker W i s y. mw_xen.more (snd y) = mw_xen.more s", OF _ ret])
    (auto simp: Let_def split: if_splits prod.splits dest!: kdo_moreD)

lemma request_slot_more [frame]:
  assumes "mw_xen_get_next_request_slot ker W d s = Some (r, t)"
  shows "mw_xen.more t = mw_xen.more s"
proof -
  from assms obtain d' u where du: "(if d = DOMID_INVALID \<or> d = - 1 then mw_xen_new_socket_rr s else Some (d, s)) = Some (d', u)"
    unfolding mw_xen_get_next_request_slot_def Option.bind_eq_Some_conv by auto
  then have "mw_xen.more u = mw_xen.more s" using new_socket_rr_more by (auto split: if_split_asm)
  moreover have "mw_xen.more t = mw_xen.more u"
    using assms unfolding mw_xen_get_next_request_slot_def du
    by (auto simp: Let_def split: prod.split_asm if_split_asm option.split_asm dest!: ring_wait_more kdo_moreD)
  ultimately show ?thesis by simp
qed

lemma release_request_more [frame]:
  "mw_xen_release_request ker h b s = Some (rc, t) \<Longrightarrow> mw_xen.more t = mw_xen.more s"
  by (auto simp: mw_xen_release_request_def release_request_exit_def mw_xen_send_event_def Let_def
      split: prod.splits if_splits option.splits dest!: kdo_moreD)

section \<open>Flags\<close>

lemma flag_or [simp]: "flag f (x OR y) \<longleftrightarrow> flag f x \<or> flag f y"
  by (simp add: flag_def bit.conj_disj_distrib2 or_eq_0_iff)

lemma flag_and_not:
  assumes "f AND g = 0"
  shows "flag f (x AND NOT g) = flag f x"
proof -
  have "bit f n \<and> \<not> bit g n \<longleftrightarrow> bit f n" for n
    using assms by (metis bit_0_eq bit_and_iff bot_apply bot_bool_def)
  then have "(x AND NOT g) AND f = x AND f"
    by (intro bit_eqI) (auto simp: bit_and_iff bit_not_iff)
  then show ?thesis by (simp add: flag_def)
qed

lemma flag_released [simp]:
  "\<not> flag MWSOCKET_FLAG_RELEASED 0"
  "\<not> flag MWSOCKET_FLAG_RELEASED MWSOCKET_FLAG_USER" "\<not> flag MWSOCKET_FLAG_RELEASED MWSOCKET_FLAG_POLLABLE"
  "\<not> flag MWSOCKET_FLAG_RELEASED MWSOCKET_FLAG_BOUND" "\<not> flag MWSOCKET_FLAG_RELEASED MWSOCKET_FLAG_LISTENING"
  "\<not> flag MWSOCKET_FLAG_RELEASED MWSOCKET_FLAG_ACCEPT" "\<not> flag MWSOCKET_FLAG_RELEASED MWSOCKET_FLAG_CONNECTED"
  "\<not> flag MWSOCKET_FLAG_RELEASED MWSOCKET_FLAG_CLOSED" "flag MWSOCKET_FLAG_RELEASED MWSOCKET_FLAG_RELEASED"
  by (simp_all add: flag_def mw_consts)

lemma flag_released_cleared [simp]:
  "flag MWSOCKET_FLAG_RELEASED (x AND NOT MWSOCKET_FLAG_ACCEPT) = flag MWSOCKET_FLAG_RELEASED x"
  "flag MWSOCKET_FLAG_RELEASED (x AND NOT MWSOCKET_FLAG_POLLABLE) = flag MWSOCKET_FLAG_RELEASED x"
  by (rule flag_and_not, simp add: mw_consts)+

section \<open>The store\<close>

text \<open>What most operations leave of a socket instance; a pending error is at most cleared.\<close>

definition same_refs :: "mwsocket_instance \<Rightarrow> mwsocket_instance \<Rightarrow> bool" where
  "same_refs i j \<longleftrightarrow> si_refct j = si_refct i \<and> si_usersock j = si_usersock i
     \<and> flag MWSOCKET_FLAG_RELEASED (si_mwflags j) = flag MWSOCKET_FLAG_RELEASED (si_mwflags i)
     \<and> (si_pending_errno j = si_pending_errno i \<or> si_pending_errno j = 0)"

definition same_ar :: "mwsocket_active_request \<Rightarrow> mwsocket_active_request \<Rightarrow> bool" where
  "same_ar r q \<longleftrightarrow> ar_id q = ar_id r \<and> ar_sockinst q = ar_sockinst r"

lemma same_refs_refl [simp]: "same_refs i i" by (simp add: same_refs_def)

lemma same_refs_trans: "same_refs i j \<Longrightarrow> same_refs j k \<Longrightarrow> same_refs i k"
  by (auto simp: same_refs_def)

lemma same_refs_close_lock: "same_refs i (postproc_close_lock rid rsp i)"
  by (simp add: same_refs_def postproc_close_lock_def)

lemma same_refs_remote_closed: "same_refs i (postproc_remote_closed rsp i)"
  by (simp add: same_refs_def postproc_remote_closed_def)

lemma same_refs_batch: "same_refs i (snd (postproc_batch rsp i))"
  by (simp add: same_refs_def postproc_batch_def)

lemma same_refs_preproc [simp]: "same_refs i (preproc_by_type req i)"
  by (simp add: same_refs_def preproc_by_type_def)

lemma same_refs_postproc:
  "same_refs i (postproc_remote_closed rsp' (snd (postproc_batch rsp (postproc_close_lock rid rsp i))))"
  by (meson same_refs_batch same_refs_close_lock same_refs_remote_closed same_refs_trans)

text \<open>
  \<open>pred_option Q m\<close> says that the result of \<open>m\<close>, when there is one, satisfies \<open>Q\<close>. The rules below take
  a sequence of operations apart; each operation adds its own.
\<close>

named_theorems wp \<open>rules for the results of operations\<close>

lemma bind_wp [wp]: "pred_option (\<lambda>y. pred_option Q (f y)) m \<Longrightarrow> pred_option Q (m \<bind> f)"
  by (cases m) simp_all

lemma lookup_wp [wp]:
  "(\<And>i. si_heap s x = Some i \<Longrightarrow> Q i) \<Longrightarrow> pred_option Q (si_heap s x)"
  "(\<And>r. ar_heap s a = Some r \<Longrightarrow> P r) \<Longrightarrow> pred_option P (ar_heap s a)"
  "(\<And>r. rr_request u = Some r \<Longrightarrow> R r) \<Longrightarrow> pred_option R (rr_request u)"
  "(\<And>r. rr_response u = Some r \<Longrightarrow> S r) \<Longrightarrow> pred_option S (rr_response u)"
  by (simp_all add: option.pred_set)

lemma pred_optionI: "(\<And>y. m = Some y \<Longrightarrow> Q y) \<Longrightarrow> pred_option Q m"
  by (cases m) simp_all

lemma find_wp [wp]:
  "(\<And>y. mwsocket_find_active_request_by_id rid s = Some y \<Longrightarrow> P y) \<Longrightarrow> pred_option P (mwsocket_find_active_request_by_id rid s)"
  "(\<And>y. mwsocket_find_sockinst File s = Some y \<Longrightarrow> Q y) \<Longrightarrow> pred_option Q (mwsocket_find_sockinst File s)"
  "(\<And>y. mwsocket_find_sockinst_by_remote_fd fd s = Some y \<Longrightarrow> R y) \<Longrightarrow> pred_option R (mwsocket_find_sockinst_by_remote_fd fd s)"
  "(\<And>y. arrived_status a s = Some y \<Longrightarrow> S y) \<Longrightarrow> pred_option S (arrived_status a s)"
  by (blast intro: pred_optionI)+

lemmas seq_simps = Let_def split_beta

locale pvm_store =
  fixes I :: "nat set \<Rightarrow> 'w pvm \<Rightarrow> bool"
  assumes xen: "mw_xen.more t = mw_xen.more s \<Longrightarrow> I E s \<Longrightarrow> I E t"
    and si: "(\<And>i. si_heap s x = Some i \<Longrightarrow> same_refs i (f i)) \<Longrightarrow> I E s \<Longrightarrow> I E (upd_si x f s)"
    and ar: "(\<And>r. ar_heap s a = Some r \<Longrightarrow> same_ar r (g r)) \<Longrightarrow> I E s \<Longrightarrow> I E (upd_ar a g s)"
    and pollable: "I E s \<Longrightarrow> pred_option (I E) (mwsocket_set_pollable x b s)"
    and create_ar: "I E s \<Longrightarrow> pred_option (\<lambda>y. I E (snd y)) (mwsocket_create_active_request ker x s)"
    and destroy_ar: "I E s \<Longrightarrow> pred_option (I E) (mwsocket_destroy_active_request actreq s)"
    and create_si: "I E s \<Longrightarrow> pred_option (\<lambda>y. I E (snd y)) (mwsocket_create_sockinst ker p b s)"
    and start_release: "I {} s \<Longrightarrow> si_heap s x = Some i \<Longrightarrow> \<not> flag MWSOCKET_FLAG_RELEASED (si_mwflags i) \<Longrightarrow>
      I {x} (upd_si x (\<lambda>i. i\<lparr>si_mwflags := si_mwflags i OR MWSOCKET_FLAG_RELEASED\<rparr>) s)"
    and end_release: "I {x} s \<Longrightarrow> pred_option (I {}) (mwsocket_put_sockinst (Some x) s)"
    and globals: "I E s \<Longrightarrow> I E (s\<lparr>is_xen_iface_ready := b\<rparr>)" "I E s \<Longrightarrow> I E (s\<lparr>event_channel_sem := n\<rparr>)"
begin

lemma kdo_keeps: "I E s \<Longrightarrow> I E (snd (kdo ker c s))"
  by (rule xen [OF kdo_more])

lemma put_request_keeps: "I E s \<Longrightarrow> I E (put_request h req s)"
  by (rule xen [rotated]) (simp_all add: put_request_def)

lemma si_fields: "I E s \<Longrightarrow> (\<And>i. same_refs i (f i)) \<Longrightarrow> I E (upd_si x f s)"
  by (blast intro: si)

lemma ar_fields: "I E s \<Longrightarrow> (\<And>r. same_ar r (g r)) \<Longrightarrow> I E (upd_ar a g s)"
  by (blast intro: ar)

lemma marked_keeps: "I E s \<Longrightarrow> I E (snd (mw_xen_mark_response_consumed ker h s))"
  by (rule xen [OF mark_response_more])

lemma next_response_keeps: "I E s \<Longrightarrow> I E (snd (mw_xen_get_next_response ker h s))"
  using get_next_response_more [of ker h s] by (cases "mw_xen_get_next_response ker h s") (auto intro: xen)

lemma available_keeps: "I E s \<Longrightarrow> I E (snd (mw_xen_response_available ker s))"
  using response_available_more [of ker s] by (cases "mw_xen_response_available ker s") (auto intro: xen)

lemmas [intro!] = kdo_keeps put_request_keeps si_fields ar_fields marked_keeps next_response_keeps available_keeps

text \<open>From what an operation keeps to a rule for sequences.\<close>

lemma seq:
  "pred_option (\<lambda>y. I E (snd y)) m \<Longrightarrow> (\<And>r t. I E t \<Longrightarrow> Q (r, t)) \<Longrightarrow> pred_option Q m"
  by (auto simp: seq_simps option.pred_set)

lemma seq1: "pred_option (I E) m \<Longrightarrow> (\<And>t. I E t \<Longrightarrow> Q t) \<Longrightarrow> pred_option Q m"
  by (auto simp: seq_simps option.pred_set)

lemmas [wp] = seq1 [OF pollable] seq [OF create_ar] seq1 [OF destroy_ar] seq [OF create_si]

lemma slot_keeps [wp]:
  "I E s \<Longrightarrow> (\<And>r t. I E t \<Longrightarrow> Q (r, t)) \<Longrightarrow> pred_option Q (mw_xen_get_next_request_slot ker W d s)"
  by (auto intro!: pred_optionI intro: xen [OF request_slot_more])

lemma release_request_keeps [wp]:
  "I E s \<Longrightarrow> (\<And>r t. I E t \<Longrightarrow> Q (r, t)) \<Longrightarrow> pred_option Q (mw_xen_release_request ker h b s)"
  by (auto intro!: pred_optionI intro: xen [OF release_request_more])

subsection \<open>Responses\<close>

lemma postproc_accept_keeps: "I E s \<Longrightarrow> pred_option (I E) (postproc_accept a x rsp s)"
  by (auto simp: seq_simps postproc_accept_def same_refs_def same_ar_def intro!: wp)

lemma postproc_success_keeps: "I E s \<Longrightarrow> pred_option (I E) (postproc_success x rsp s)"
  unfolding postproc_success_def by (intro wp) (simp add: si_fields same_refs_def; intro impI wp; simp add: si_fields same_refs_def)

lemmas [wp] = seq1 [OF postproc_accept_keeps] seq1 [OF postproc_success_keeps]

lemma postproc_first:
  assumes "si_heap s x = Some i" and "I E s"
  shows "I E (upd_si x (\<lambda>_. postproc_remote_closed rsp'
    (snd (postproc_batch rsp (postproc_close_lock rid rsp i)))) s)"
  using assms same_refs_postproc by (auto intro!: si)

lemma postproc_keeps: "I E s \<Longrightarrow> pred_option (\<lambda>y. I E (snd y)) (mwsocket_postproc_no_context a rsp s)"
  by (auto simp: seq_simps mwsocket_postproc_no_context_def intro!: wp postproc_first del: si_fields)

lemma deliver_keeps: "I E s \<Longrightarrow> pred_option (I E) (deliver_or_destroy ker a rsp s)"
  by (auto simp: seq_simps deliver_or_destroy_def same_ar_def intro!: wp)

lemmas [wp] = seq [OF postproc_keeps] seq1 [OF deliver_keeps]

lemma consume_keeps: "I E s \<Longrightarrow> pred_option (\<lambda>y. I E (snd y)) (consume_response ker h s)"
  by (auto simp: seq_simps consume_response_def split: option.split intro!: wp)

lemma consumer_keeps: "I E s \<Longrightarrow> pred_option (\<lambda>y. I E (snd y)) (mwsocket_response_consumer ker s)"
  by (auto simp: seq_simps mwsocket_response_consumer_def split: option.split intro!: consume_keeps)

lemma wait_keeps: "I E s \<Longrightarrow> pred_option (\<lambda>y. I E (snd y)) (wait_until ker cond s)"
proof (rule pred_optionI)
  fix y assume s: "I E s" and ret: "wait_until ker cond s = Some y"
  have "I E s \<longrightarrow> I E (snd y)"
  proof (rule wait_until.raw_induct [where P = "\<lambda>ker cond s y. I E s \<longrightarrow> I E (snd y)", OF _ ret], rule impI)
    fix w and ker :: "'w ker" and cond s y
    assume IH: "\<And>ker cond s y. w ker cond s = Some y \<Longrightarrow> I E s \<longrightarrow> I E (snd y)" and s: "I E s"
      and eq: "cond s \<bind> (\<lambda>c. if c then Some (1, s) else let (r, s) = kdo ker KWait s in
        if kr_ret r \<le> 0 then Some (kr_ret r, s)
        else mwsocket_response_consumer ker s \<bind> (\<lambda>(more, s). w ker cond s)) = Some y"
    have "pred_option (\<lambda>y. I E (snd y)) (mwsocket_response_consumer ker (snd (kdo ker KWait s)))"
      using s by (intro consumer_keeps kdo_keeps)
    then show "I E (snd y)"
      using eq s kdo_keeps [OF s] by (auto simp: seq_simps Option.bind_eq_Some_conv dest!: IH split: if_split_asm)
  qed
  with s show "I E (snd y)" by simp
qed

lemmas [wp] = seq [OF consumer_keeps] seq [OF wait_keeps]

lemma wait_arrived_keeps: "I E s \<Longrightarrow> pred_option (\<lambda>y. I E (snd y)) (wait_arrived ker a s)"
  by (auto simp: seq_simps wait_arrived_def same_ar_def intro!: wp)

lemmas [wp] = seq [OF wait_arrived_keeps]

subsection \<open>Sending\<close>

lemma close_lock_tries_keeps: "I E s \<Longrightarrow> pred_option (I E) (close_lock_tries ker x n s)"
  by (induction ker x n s rule: close_lock_tries.induct)
    (auto simp: seq_simps same_refs_def kdo_keeps intro!: wp)

lemmas [wp] = seq1 [OF close_lock_tries_keeps]

lemma preproc_close_lock_keeps: "I E s \<Longrightarrow> pred_option (I E) (preproc_close_lock ker rid x req s)"
  by (auto simp: seq_simps preproc_close_lock_def same_refs_def intro!: wp)

lemmas [wp] = seq1 [OF preproc_close_lock_keeps]

lemma preproc_keeps: "I E s \<Longrightarrow> pred_option (I E) (mwsocket_pre_process_request ker a s)"
  by (auto simp: seq_simps mwsocket_pre_process_request_def same_ar_def split: option.split intro!: wp)
    (auto simp: seq_simps same_refs_def)

lemmas [wp] = seq1 [OF preproc_keeps]

lemma release_handle_keeps:
  "I E s \<Longrightarrow> pred_option (\<lambda>hi. pred_option (\<lambda>y. I E (snd y)) (mw_xen_release_request ker h b (put_request hi req s))) h"
  by (cases h) (auto simp: seq_simps intro!: wp)

lemma send_request_keeps: "I E s \<Longrightarrow> pred_option (\<lambda>y. I E (snd y)) (mwsocket_send_request ker a W s)"
  by (auto simp: seq_simps mwsocket_send_request_def same_ar_def same_refs_def intro!: wp release_handle_keeps)

lemmas [wp] = seq [OF send_request_keeps]

lemma close_remote_keeps: "I E s \<Longrightarrow> pred_option (\<lambda>y. I E (snd y)) (mwsocket_close_remote ker x W s)"
  by (auto simp: seq_simps mwsocket_close_remote_def same_ar_def same_refs_def split: option.split intro!: wp)

lemma send_message_keeps: "I E s \<Longrightarrow> pred_option (\<lambda>y. I E (snd y)) (mwsocket_send_message ker x req W s)"
  by (auto simp: seq_simps mwsocket_send_message_def same_ar_def split: option.split intro!: wp)

lemmas [wp] = seq [OF close_remote_keeps] seq [OF send_message_keeps]

lemma close_by_remote_fd_keeps: "I E s \<Longrightarrow> pred_option (\<lambda>y. I E (snd y)) (mwsocket_close_by_remote_fd ker fd W s)"
  by (auto simp: seq_simps mwsocket_close_by_remote_fd_def same_refs_def split: option.split intro!: wp)

lemma signal_owner_keeps: "I E s \<Longrightarrow> pred_option (\<lambda>y. I E (snd y)) (mwsocket_signal_owner_by_remote_fd ker fd n s)"
  by (auto simp: seq_simps mwsocket_signal_owner_by_remote_fd_def split: option.split intro!: wp)

lemma bare_request_keeps: "I E s \<Longrightarrow> pred_option (\<lambda>y. I E (snd y)) (mwsocket_send_bare_request ker req n s)"
  by (auto simp: seq_simps mwsocket_send_bare_request_def same_ar_def split: option.split intro!: wp)

lemma block_ip_keeps: "I E s \<Longrightarrow> pred_option (\<lambda>y. I E (snd y)) (mwsocket_block_ip_mitigation ker d f s)"
  by (auto simp: seq_simps mwsocket_block_ip_mitigation_def split: option.split intro!: wp)

subsection \<open>File operations\<close>

lemma create_keeps: "I E s \<Longrightarrow> pred_option (\<lambda>y. I E (snd y)) (mwsocket_create ker dm ty pr s)"
  by (auto simp: seq_simps mwsocket_create_def same_refs_def split: option.split intro!: wp)

lemma attrib_keeps: "I E s \<Longrightarrow> pred_option (\<lambda>y. I E (snd y)) (mwsocket_handle_attrib ker File A s)"
  by (auto simp: seq_simps mwsocket_handle_attrib_def same_ar_def split: option.split intro!: wp)

lemmas [wp] = seq [OF attrib_keeps]

lemma ioctl_keeps: "I E s \<Longrightarrow> pred_option (\<lambda>y. I E (snd y)) (mwsocket_ioctl ker File Cmd s)"
  by (auto simp: seq_simps mwsocket_ioctl_def intro!: wp)

lemma in_task_keeps: "I E s \<Longrightarrow> pred_option (\<lambda>y. I E (snd y)) (mwsocket_postproc_in_task ker rsp s)"
  by (auto simp: seq_simps mwsocket_postproc_in_task_def same_refs_def split: option.split intro!: wp)

lemma await_keeps: "I E s \<Longrightarrow> pred_option (\<lambda>y. I E (snd y)) (mwsocket_await_inbound_connection ker a s)"
  by (auto simp: seq_simps mwsocket_await_inbound_connection_def same_refs_def split: list.split intro!: wp)

lemma pending_error_keeps: "I E s \<Longrightarrow> pred_option (\<lambda>y. I E (snd y)) (mwsocket_pending_error ker x ty s)"
  by (auto simp: seq_simps mwsocket_pending_error_def same_refs_def intro!: wp)

lemma sem_up_keeps: "I E s \<Longrightarrow> I E (request_sem_up x s)"
  by (auto simp: seq_simps request_sem_up_def same_refs_def)

lemma sem_down_keeps: "I E s \<Longrightarrow> pred_option (\<lambda>y. I E (snd y)) (request_sem_down ker x s)"
  by (auto simp: seq_simps request_sem_down_def same_refs_def intro!: wp)

lemma read_exit_keeps: "I E s \<Longrightarrow> pred_option (\<lambda>y. I E (snd y)) (read_exit x actreq rc s)"
  by (auto simp: seq_simps read_exit_def intro!: wp sem_up_keeps)

lemmas [wp] = seq [OF in_task_keeps] seq [OF await_keeps] seq [OF pending_error_keeps] seq [OF sem_down_keeps]
  seq [OF read_exit_keeps]

lemma read_response_keeps: "I E s \<Longrightarrow> pred_option (\<lambda>y. I E (snd y)) (read_response ker x a Len s)"
  by (auto simp: seq_simps read_response_def same_ar_def intro!: wp)

lemmas [wp] = seq [OF read_response_keeps]

lemma read_accept_keeps: "I E s \<Longrightarrow> pred_option (\<lambda>y. I E (snd y)) (read_accept ker x a Len s)"
  by (auto simp: seq_simps read_accept_def same_refs_def split: option.split intro!: wp sem_up_keeps)

lemmas [wp] = seq [OF read_accept_keeps]

lemma read_keeps: "I E s \<Longrightarrow> pred_option (\<lambda>y. I E (snd y)) (mwsocket_read ker File Len s)"
  by (auto simp: seq_simps mwsocket_read_def same_refs_def split: option.split intro!: wp)

lemma write_exit_keeps: "I E s \<Longrightarrow> pred_option (\<lambda>y. I E (snd y)) (write_exit x actreq rc s)"
  by (auto simp: seq_simps write_exit_def same_refs_def intro!: wp sem_up_keeps)

lemmas [wp] = seq [OF write_exit_keeps]

lemma write_request_keeps: "I E s \<Longrightarrow> pred_option (\<lambda>y. I E (snd y)) (write_request ker x Len s)"
  by (auto simp: seq_simps write_request_def same_ar_def split: option.split intro!: wp)

lemmas [wp] = seq [OF write_request_keeps]

text \<open>A write of anything but accept.\<close>

lemma write_keeps:
  assumes "I E s"
    and "\<not> rq_type_is MtRequestSocketAccept (kr_request (fst (ker (KCopyFromUser MT_REQUEST_BASE_SIZE) (kworld s))))"
  shows "pred_option (\<lambda>y. I E (snd y)) (mwsocket_write ker File Len s)"
  using assms by (auto simp: seq_simps mwsocket_write_def same_refs_def split: option.split intro!: wp)

lemma poll_keeps: "I E s \<Longrightarrow> pred_option (\<lambda>y. I E (snd y)) (mwsocket_poll File s)"
  by (auto simp: seq_simps mwsocket_poll_def same_refs_def intro!: wp) (rule pred_optionI, auto simp: same_refs_def intro!: wp)

lemma release_keeps:
  assumes "I {} s" and "file_private s File = Some x" and "si_heap s x = Some i"
    and "\<not> flag MWSOCKET_FLAG_RELEASED (si_mwflags i)" and "si_siblings i = []"
  shows "pred_option (\<lambda>y. I {} (snd y)) (mwsocket_release ker File s)"
proof -
  have tail: "I {x} u \<Longrightarrow> pred_option (\<lambda>y. I {} (snd y))
      (do { i \<leftarrow> si_heap u x;
            (rc, s) \<leftarrow> (if MW_SOCKET_IS_FD (si_remote_fd i) then mwsocket_close_remote ker x True u else Some (rc, u));
            s \<leftarrow> mwsocket_put_sockinst (Some x) s;
            Some (rc, s) })" for u and rc :: int
    by (auto simp: seq_simps intro!: wp seq1 [OF end_release])
  show ?thesis
    using assms tail [OF start_release [OF assms(1,3,4)]]
    by (auto simp: seq_simps mwsocket_release_def mwsocket_find_sockinst_def)
qed

subsection \<open>The monitor\<close>

lemma poll_domains_keeps: "I E s \<Longrightarrow> pred_option (\<lambda>y. I E (snd y)) (poll_domains p xs ds s)"
  by (induction xs arbitrary: ds s) (auto simp: seq_simps intro!: wp)

lemma poll_queries_keeps: "I E s \<Longrightarrow> pred_option (\<lambda>y. I E (snd y)) (poll_queries ker p ds as s)"
  by (induction ds arbitrary: as s) (auto simp: seq_simps same_ar_def split: option.split intro!: wp)

lemma poll_distribute1_keeps: "I E s \<Longrightarrow> pred_option (I E) (poll_distribute1 evs x s)"
  by (auto simp: seq_simps poll_distribute1_def same_refs_def split: option.split intro!: wp)

lemma poll_distribute_keeps: "I E s \<Longrightarrow> pred_option (I E) (poll_distribute evs xs s)"
  by (induction xs arbitrary: s) (auto simp: seq_simps intro!: wp seq1 [OF poll_distribute1_keeps])

lemma poll_response_keeps: "I E s \<Longrightarrow> pred_option (I E) (poll_response rsp s)"
  by (auto simp: seq_simps poll_response_def intro!: poll_distribute_keeps)

lemma poll_responses_keeps: "I E s \<Longrightarrow> pred_option (I E) (poll_responses ker as s)"
  by (induction as arbitrary: s) (auto simp: seq_simps intro!: wp seq1 [OF poll_response_keeps])

lemma destroy_all_keeps: "I E s \<Longrightarrow> pred_option (I E) (destroy_all as s)"
  by (induction as arbitrary: s) (auto simp: seq_simps intro!: wp)

lemmas [wp] = seq [OF poll_domains_keeps] seq [OF poll_queries_keeps] seq1 [OF poll_responses_keeps]
  seq1 [OF destroy_all_keeps]

lemma poll_notifications_keeps: "I E s \<Longrightarrow> pred_option (\<lambda>y. I E (snd y)) (mwsocket_poll_handle_notifications ker p s)"
  by (auto simp: seq_simps mwsocket_poll_handle_notifications_def intro!: wp)

end

end
