(* ===== verification/PvmInv.thy ===== *)
theory PvmInv
  imports PvmStore
begin

text \<open>
  The steps of the socket layer and what holds in every state they reach: the reference counts of
  socket instances, that no active request has lost its socket instance, and request ids.
\<close>

section \<open>Steps\<close>

text \<open>
  What the tasks and threads of the PVM do, one operation at a time; while an operation waits, the
  response consumer runs inside it. The interface to Xen may change its own state at any time. A file
  is released once. Accept and what rests on it (replication, siblings) are left out, and so is the
  work of the monitor on the sockets of a dead INS.
\<close>

inductive pvm_step :: "'w ker \<Rightarrow> 'w pvm \<Rightarrow> 'w pvm \<Rightarrow> bool" for ker where
  xen: "mw_xen.more t = mw_xen.more s \<Longrightarrow> pvm_step ker s t"
| ring_ready: "pvm_step ker s (mwsocket_notify_ring_ready ker d s)"
| event: "pvm_step ker s (mwsocket_event_cb s)"
| consumer: "mwsocket_response_consumer ker s = Some (b, t) \<Longrightarrow> pvm_step ker s t"
| pseudo_socket: "mwsocket_create_sockinst ker False False s = Some (r, t) \<Longrightarrow> pvm_step ker s t"
| notifications: "mwsocket_poll_handle_notifications ker p s = Some (rc, t) \<Longrightarrow> pvm_step ker s t"
| create: "mwsocket_create ker dm ty pr s = Some (r, t) \<Longrightarrow> pvm_step ker s t"
| file_write: "\<not> rq_type_is MtRequestSocketAccept
        (kr_request (fst (ker (KCopyFromUser MT_REQUEST_BASE_SIZE) (kworld s)))) \<Longrightarrow>
    mwsocket_write ker File Len s = Some (rc, t) \<Longrightarrow> pvm_step ker s t"
| file_read: "mwsocket_read ker File Len s = Some (rc, t) \<Longrightarrow> pvm_step ker s t"
| file_ioctl: "mwsocket_ioctl ker File Cmd s = Some (rc, t) \<Longrightarrow> pvm_step ker s t"
| file_poll: "mwsocket_poll File s = Some (ev, t) \<Longrightarrow> pvm_step ker s t"
| file_release: "file_private s File = Some x \<Longrightarrow> si_heap s x = Some i \<Longrightarrow>
    \<not> flag MWSOCKET_FLAG_RELEASED (si_mwflags i) \<Longrightarrow> si_siblings i = [] \<Longrightarrow>
    mwsocket_release ker File s = Some (rc, t) \<Longrightarrow> pvm_step ker s t"
| close_fd: "mwsocket_close_by_remote_fd ker fd w s = Some (rc, t) \<Longrightarrow> pvm_step ker s t"
| signal: "mwsocket_signal_owner_by_remote_fd ker fd n s = Some (rc, t) \<Longrightarrow> pvm_step ker s t"
| bare: "mwsocket_send_bare_request ker req sz s = Some (r, t) \<Longrightarrow> pvm_step ker s t"
| block_ip: "mwsocket_block_ip_mitigation ker d f s = Some (rc, t) \<Longrightarrow> pvm_step ker s t"

definition pvm_start :: "'w pvm \<Rightarrow> bool" where
  "pvm_start s \<longleftrightarrow> si_heap s = Map.empty \<and> ar_heap s = Map.empty \<and> sockinst_list s = [] \<and> active_request_list s = []
     \<and> sockinst_count s = 0"

inductive pvm_reach :: "'w ker \<Rightarrow> 'w pvm \<Rightarrow> bool" for ker where
  start: "pvm_start s \<Longrightarrow> pvm_reach ker s"
| step: "pvm_reach ker s \<Longrightarrow> pvm_step ker s t \<Longrightarrow> pvm_reach ker t"

lemma returned: "m = Some (r, t) \<Longrightarrow> pred_option (\<lambda>y. P (snd y)) m \<Longrightarrow> P t"
  by simp

context pvm_store begin

lemma step_keeps: "pvm_step ker s t \<Longrightarrow> I {} s \<Longrightarrow> I {} t"
proof (induction rule: pvm_step.induct)
  case (xen t s)
  then show ?case by (rule pvm_store_axioms [THEN pvm_store.xen])
next
  case (ring_ready s d)
  then show ?case
    by (auto simp: mwsocket_notify_ring_ready_def mwsocket_new_ins_def seq_simps intro: globals)
next
  case (event s)
  then show ?case by (auto simp: mwsocket_event_cb_def intro: globals)
next
  case (consumer s b t)
  then show ?case by (rule returned [OF _ consumer_keeps])
next
  case (pseudo_socket s r t)
  then show ?case by (rule returned [OF _ create_si])
next
  case (notifications p s rc t)
  then show ?case by (rule returned [OF _ poll_notifications_keeps])
next
  case (create dm ty pr s r t)
  then show ?case by (rule returned [OF _ create_keeps])
next
  case (file_write s File Len rc t)
  then show ?case by (blast intro: returned [OF _ write_keeps])
next
  case (file_read File Len s rc t)
  then show ?case by (rule returned [OF _ read_keeps])
next
  case (file_ioctl File Cmd s rc t)
  then show ?case by (rule returned [OF _ ioctl_keeps])
next
  case (file_poll File s ev t)
  then show ?case by (rule returned [OF _ poll_keeps])
next
  case (file_release s File x i rc t)
  then show ?case by (blast intro: returned [OF _ release_keeps])
next
  case (close_fd fd w s rc t)
  then show ?case by (rule returned [OF _ close_by_remote_fd_keeps])
next
  case (signal fd n s rc t)
  then show ?case by (rule returned [OF _ signal_owner_keeps])
next
  case (bare req sz s r t)
  then show ?case by (rule returned [OF _ bare_request_keeps])
next
  case (block_ip d f s rc t)
  then show ?case by (rule returned [OF _ block_ip_keeps])
qed

lemma reach_keeps:
  assumes "pvm_reach ker s" and "\<And>s. pvm_start s \<Longrightarrow> I {} s"
  shows "I {} s"
  using assms by (induction rule: pvm_reach.induct) (auto intro: step_keeps)

end

section \<open>Request ids\<close>

lemma next_id_unused:
  assumes "next_id used c = Some y"
  shows "fst y = snd y \<and> fst y \<noteq> 0 \<and> fst y \<notin> set used"
proof (rule next_id.raw_induct [where P = "\<lambda>used c y. fst y = snd y \<and> fst y \<noteq> 0 \<and> fst y \<notin> set used", OF _ assms])
  fix loop used c y
  assume IH: "\<And>used c y. loop used c = Some y \<Longrightarrow> fst y = snd y \<and> fst y \<noteq> 0 \<and> fst y \<notin> set used"
    and eq: "(let counter = c + 1; counter = (if counter = MT_ID_UNSET_VALUE then counter + 1 else counter)
       in if counter \<in> set used then loop used counter else Some (counter, counter)) = Some y"
  from eq show "fst y = snd y \<and> fst y \<noteq> 0 \<and> fst y \<notin> set used"
    by (auto simp: Let_def MT_ID_UNSET_VALUE_def split: if_split_asm dest: IH)
qed

lemma unat_dec: "w \<noteq> 0 \<Longrightarrow> unat (w - 1) < unat w" for w :: u64
  by (metis diff_less gr0I measure_unat unat_minus_one zero_less_one unat_eq_zero)

text \<open>The loop ends when some id other than 0 is not in use.\<close>

lemma next_id_returns:
  assumes "v \<noteq> 0" "v \<notin> set used"
  shows "\<exists>y. next_id used c = Some y"
proof (induction "unat (v - c - 1)" arbitrary: c rule: less_induct)
  case less
  define c' where "c' = (if c + 1 = 0 then c + 1 + 1 else c + 1)"
  have eq: "next_id used c = (if c' \<in> set used then next_id used c' else Some (c', c'))"
    by (subst next_id.simps) (simp add: c'_def MT_ID_UNSET_VALUE_def Let_def)
  show ?case
  proof (cases "c' \<in> set used")
    case True
    then have "c' \<noteq> v" using assms by auto
    have "unat (v - c' - 1) < unat (v - c - 1)"
    proof (cases "c + 1 = 0")
      case z: True
      then have c: "c = - 1" by (simp add: eq_neg_iff_add_eq_0)
      then have "c' = 1" by (simp add: c'_def)
      then have "v \<noteq> 1" using \<open>c' \<noteq> v\<close> by simp
      have "v - c' - 1 = v - 2" using \<open>c' = 1\<close> by simp
      moreover have "v - c - 1 = v" using c by simp
      moreover have "unat (v - 2) < unat v"
      proof -
        have "unat v \<noteq> 0" "unat v \<noteq> 1" using assms(1) \<open>v \<noteq> 1\<close> by (auto simp: word_unat_eq_iff)
        then have "2 \<le> v" by (simp add: word_le_nat_alt)
        then show ?thesis by (simp add: unat_sub word_le_nat_alt)
      qed
      ultimately show ?thesis by (simp only:)
    next
      case False
      then have "v - c - 1 \<noteq> 0" using \<open>c' \<noteq> v\<close> by (auto simp: c'_def algebra_simps)
      moreover have "v - c' - 1 = (v - c - 1) - 1" using False by (simp add: c'_def algebra_simps)
      ultimately show ?thesis by (simp only: unat_dec not_False_eq_True)
    qed
    from less [OF this] eq True show ?thesis by simp
  qed (simp add: eq)
qed

lemma unused_id_exists:
  assumes "length used < 2 ^ 64 - 1"
  shows "\<exists>v :: u64. v \<noteq> 0 \<and> v \<notin> set used"
proof (rule ccontr)
  assume "\<not> ?thesis"
  then have "UNIV \<subseteq> insert 0 (set used)" by auto
  then have "CARD(u64) \<le> card (insert 0 (set used))" by (intro card_mono) auto
  also have "\<dots> \<le> Suc (length used)"
    by (metis card_insert_le_m1 card_length card_insert_disjoint card_insert_if finite_set le_SucI not_less_eq_eq)
  finally show False using assms by (simp add: card_word)
qed

section \<open>Reference counts\<close>

text \<open>What the invariant reads of the two stores.\<close>

definition released_flag :: "mwsocket_instance \<Rightarrow> bool" where
  "released_flag i = flag MWSOCKET_FLAG_RELEASED (si_mwflags i)"

definition si_core :: "mwsocket_instance \<Rightarrow> int \<times> nat \<times> bool" where
  "si_core i = (si_refct i, si_usersock i, released_flag i)"

definition cores :: "'w pvm \<Rightarrow> (nat \<rightharpoonup> int \<times> nat \<times> bool)" where
  "cores s = (\<lambda>x. map_option si_core (si_heap s x))"

definition ars :: "'w pvm \<Rightarrow> (nat \<rightharpoonup> u64 \<times> nat)" where
  "ars s = (\<lambda>a. map_option (\<lambda>r. (ar_id r, ar_sockinst r)) (ar_heap s a))"

text \<open>The active requests on a socket instance.\<close>

definition requests_on :: "(nat \<rightharpoonup> u64 \<times> nat) \<Rightarrow> nat \<Rightarrow> nat set" where
  "requests_on A x = {a. \<exists>i. A a = Some (i, x)}"

definition refs_inv ::
  "nat set \<Rightarrow> (nat \<rightharpoonup> int \<times> nat \<times> bool) \<Rightarrow> (nat \<rightharpoonup> u64 \<times> nat) \<Rightarrow> nat list \<Rightarrow> nat list \<Rightarrow> int \<Rightarrow> bool" where
  "refs_inv E C A xs as n \<longleftrightarrow>
     distinct xs \<and> set xs = dom C \<and> n = int (length xs) \<and> distinct as \<and> set as = dom A
     \<and> (\<forall>a i x. A a = Some (i, x) \<longrightarrow> i \<noteq> 0 \<and> x \<in> dom C)
     \<and> (\<forall>a b i x y. A a = Some (i, x) \<longrightarrow> A b = Some (i, y) \<longrightarrow> a = b)
     \<and> (\<forall>x k u r. C x = Some (k, u, r) \<longrightarrow> u = x \<and> k = int (card (requests_on A x)) + of_bool (\<not> r \<or> x \<in> E))
     \<and> (\<forall>x k u r. x \<in> E \<longrightarrow> C x = Some (k, u, r) \<longrightarrow> r) \<and> E \<subseteq> dom C"

definition refs_ok :: "nat set \<Rightarrow> 'w pvm \<Rightarrow> bool" where
  "refs_ok E s = refs_inv E (cores s) (ars s) (sockinst_list s) (active_request_list s) (sockinst_count s)"

text \<open>The operations of the store in these terms.\<close>

lemma more_selectors:
  assumes "mw_xen.more t = mw_xen.more s"
  shows "si_heap t = si_heap s" "ar_heap t = ar_heap s" "sockinst_list t = sockinst_list s"
    "active_request_list t = active_request_list s" "sockinst_count t = sockinst_count s"
    "id_counter t = id_counter s" "file_private t = file_private s"
  using assms by (cases s; cases t; simp)+

lemma upd_si_sel [simp]:
  "ar_heap (upd_si x f s) = ar_heap s" "sockinst_list (upd_si x f s) = sockinst_list s"
  "active_request_list (upd_si x f s) = active_request_list s" "sockinst_count (upd_si x f s) = sockinst_count s"
  "si_heap (upd_si x f s) = (si_heap s)(x := map_option f (si_heap s x))" "kworld (upd_si x f s) = kworld s"
  "file_private (upd_si x f s) = file_private s" "ktrace (upd_si x f s) = ktrace s"
  "poll_sock_count (upd_si x f s) = poll_sock_count s" "id_counter (upd_si x f s) = id_counter s"
  by (simp_all add: upd_si_def)

lemma upd_ar_sel [simp]:
  "si_heap (upd_ar a f s) = si_heap s" "sockinst_list (upd_ar a f s) = sockinst_list s"
  "active_request_list (upd_ar a f s) = active_request_list s" "sockinst_count (upd_ar a f s) = sockinst_count s"
  "ar_heap (upd_ar a f s) = (ar_heap s)(a := map_option f (ar_heap s a))" "kworld (upd_ar a f s) = kworld s"
  "file_private (upd_ar a f s) = file_private s" "ktrace (upd_ar a f s) = ktrace s"
  "poll_sock_count (upd_ar a f s) = poll_sock_count s" "id_counter (upd_ar a f s) = id_counter s"
  by (simp_all add: upd_ar_def)

lemma cores_upd_si: "cores (upd_si x f s) = (cores s)(x := map_option (si_core \<circ> f) (si_heap s x))"
  by (auto simp: cores_def option.map_comp)

lemma cores_upd_si_same:
  "(\<And>i. si_heap s x = Some i \<Longrightarrow> si_core (f i) = si_core i) \<Longrightarrow> cores (upd_si x f s) = cores s"
  by (cases "si_heap s x") (auto simp: cores_def fun_eq_iff)

lemma ars_upd_ar_same:
  "(\<And>r. ar_heap s a = Some r \<Longrightarrow> same_ar r (g r)) \<Longrightarrow> ars (upd_ar a g s) = ars s"
  by (cases "ar_heap s a") (auto simp: ars_def fun_eq_iff same_ar_def)

lemma cores_upd_ar [simp]: "cores (upd_ar a g s) = cores s"
  and ars_upd_si [simp]: "ars (upd_si x f s) = ars s"
  by (simp_all add: cores_def ars_def)

lemma set_pollable_refs:
  assumes "mwsocket_set_pollable x b s = Some t"
  shows "cores t = cores s \<and> ars t = ars s \<and> sockinst_list t = sockinst_list s
    \<and> active_request_list t = active_request_list s \<and> sockinst_count t = sockinst_count s"
  using assms
  by (auto simp: mwsocket_set_pollable_def Option.bind_eq_Some_conv cores_def ars_def fun_eq_iff si_core_def
      released_flag_def split: if_split_asm)

lemma put_refs:
  assumes "mwsocket_put_sockinst (Some x) s = Some t"
  obtains k u r where "cores s x = Some (k, u, r)"
    and "cores t = (cores s)(x := if k = 1 then None else Some (k - 1, u, r))"
    and "sockinst_list t = (if k = 1 then removeAll x (sockinst_list s) else sockinst_list s)"
    and "sockinst_count t = (if k = 1 then sockinst_count s - 1 else sockinst_count s)"
    and "ars t = ars s" and "ar_heap t = ar_heap s" and "active_request_list t = active_request_list s"
proof -
  from assms obtain i where i: "si_heap s x = Some i"
    by (auto simp: mwsocket_put_sockinst_def Option.bind_eq_Some_conv)
  show thesis
  proof (rule that [of "si_refct i" "si_usersock i" "released_flag i"])
    show "cores s x = Some (si_refct i, si_usersock i, released_flag i)"
      using i by (simp add: cores_def si_core_def)
  qed (use assms i in \<open>auto simp: mwsocket_put_sockinst_def Option.bind_eq_Some_conv Let_def
      mwsocket_set_pollable_def unlink_sibling_def cores_def ars_def si_core_def [abs_def] released_flag_def fun_eq_iff upd_si_def
      option.map_comp comp_def split: if_split_asm\<close>)
qed

lemma destroy_refs:
  assumes "mwsocket_destroy_active_request (Some a) s = Some t"
  obtains rid x k u r where "ars s a = Some (rid, x)" and "cores s x = Some (k, u, r)"
    and "cores t = (cores s)(x := if k = 1 then None else Some (k - 1, u, r))"
    and "sockinst_list t = (if k = 1 then removeAll x (sockinst_list s) else sockinst_list s)"
    and "sockinst_count t = (if k = 1 then sockinst_count s - 1 else sockinst_count s)"
    and "ars t = (ars s)(a := None)" and "active_request_list t = removeAll a (active_request_list s)"
proof -
  from assms obtain ar i where ar: "ar_heap s a = Some ar" and i: "si_heap s (ar_sockinst ar) = Some i"
    by (auto simp: mwsocket_destroy_active_request_def Option.bind_eq_Some_conv)
  define s' where "s' = (if si_close_blockid i = ar_id ar
      then upd_si (ar_sockinst ar) (\<lambda>i. i\<lparr>si_close_blockid := MT_ID_UNSET_VALUE\<rparr>) s else s)"
  from assms ar i obtain t' where put: "mwsocket_put_sockinst (Some (ar_sockinst ar)) s' = Some t'"
    and t: "t = t'\<lparr>active_request_list := removeAll a (active_request_list t'), ar_heap := (ar_heap t')(a := None)\<rparr>"
    by (auto simp: mwsocket_destroy_active_request_def Option.bind_eq_Some_conv s'_def)
  have same: "cores s' = cores s" "ars s' = ars s" "sockinst_list s' = sockinst_list s"
    "sockinst_count s' = sockinst_count s" "active_request_list s' = active_request_list s" "ar_heap s' = ar_heap s"
    by (auto simp: s'_def si_core_def released_flag_def intro!: cores_upd_si_same)
  from put show thesis
  proof (rule put_refs)
    fix k u r
    assume "cores s' (ar_sockinst ar) = Some (k, u, r)"
      "cores t' = (cores s')(ar_sockinst ar := if k = 1 then None else Some (k - 1, u, r))"
      "sockinst_list t' = (if k = 1 then removeAll (ar_sockinst ar) (sockinst_list s') else sockinst_list s')"
      "sockinst_count t' = (if k = 1 then sockinst_count s' - 1 else sockinst_count s')"
      "ars t' = ars s'" "ar_heap t' = ar_heap s'" "active_request_list t' = active_request_list s'"
    moreover have "cores t = cores t'" "sockinst_list t = sockinst_list t'" "sockinst_count t = sockinst_count t'"
      "active_request_list t = removeAll a (active_request_list t')" "ars t = (ars t')(a := None)"
      "ars s a = Some (ar_id ar, ar_sockinst ar)"
      using ar by (simp_all add: t cores_def ars_def fun_eq_iff)
    ultimately show thesis
      using same by (intro that [of "ar_id ar" "ar_sockinst ar" k u r]) simp_all
  qed
qed

lemma those_SomeD: "those ms = Some ys \<Longrightarrow> ms = map Some ys"
  by (induction ms arbitrary: ys) (auto split: option.split_asm)

lemma next_id_refs:
  assumes "mwsocket_get_next_id s = Some (rid, t)" and "set (active_request_list s) = dom (ars s)"
  shows "t = s\<lparr>id_counter := id_counter t\<rparr> \<and> rid \<noteq> 0 \<and> (\<forall>a x. ars s a \<noteq> Some (rid, x))"
proof -
  from assms(1) obtain used c where u: "those (map (\<lambda>a. map_option ar_id (ar_heap s a)) (active_request_list s)) = Some used"
    and n: "next_id used (id_counter s) = Some (rid, c)" and t: "t = s\<lparr>id_counter := c\<rparr>"
    by (auto simp: mwsocket_get_next_id_def Option.bind_eq_Some_conv)
  have "ars s a = Some (i, x) \<Longrightarrow> i \<in> set used" for a i x
  proof -
    assume a: "ars s a = Some (i, x)"
    then have "a \<in> set (active_request_list s)" using assms(2) by blast
    moreover from a have "map_option ar_id (ar_heap s a) = Some i" by (auto simp: ars_def)
    ultimately have "Some i \<in> (\<lambda>a. map_option ar_id (ar_heap s a)) ` set (active_request_list s)"
      by (metis imageI)
    then have "Some i \<in> set (map Some used)" by (simp only: those_SomeD [OF u, symmetric] set_map)
    then show "i \<in> set used" by auto
  qed
  then have "\<forall>a x. ars s a \<noteq> Some (rid, x)" using next_id_unused [OF n] by force
  moreover have "rid \<noteq> 0" using next_id_unused [OF n] by auto
  ultimately show ?thesis by (simp add: t)
qed

lemma requests_on_drop: "requests_on (A(a := None)) x = requests_on A x - {a}"
  by (auto simp: requests_on_def)

lemma requests_on_add:
  "A a = None \<Longrightarrow> requests_on (A(a \<mapsto> (i, y))) x = (if x = y then insert a (requests_on A x) else requests_on A x)"
  by (auto simp: requests_on_def)

lemma length_removeAll_distinct:
  "distinct xs \<Longrightarrow> x \<in> set xs \<Longrightarrow> int (length (removeAll x xs)) = int (length xs) - 1"
  by (induction xs) (auto simp: removeAll_id)

lemma finite_requests_on:
  assumes "refs_inv E C A xs as n"
  shows "finite (requests_on A x)"
proof (rule finite_subset)
  show "requests_on A x \<subseteq> set as" using assms by (auto simp: requests_on_def refs_inv_def)
qed simp

lemma refs_invI:
  assumes "distinct xs" "set xs = dom C" "n = int (length xs)" "distinct as" "set as = dom A"
    and "\<And>a i x. A a = Some (i, x) \<Longrightarrow> i \<noteq> 0 \<and> x \<in> dom C"
    and "\<And>a b i x y. A a = Some (i, x) \<Longrightarrow> A b = Some (i, y) \<Longrightarrow> a = b"
    and "\<And>x k u r. C x = Some (k, u, r) \<Longrightarrow>
      u = x \<and> k = int (card (requests_on A x)) + of_bool (\<not> r \<or> x \<in> E) \<and> (x \<in> E \<longrightarrow> r)"
    and "E \<subseteq> dom C"
  shows "refs_inv E C A xs as n"
  unfolding refs_inv_def using assms by blast

lemma refs_invD:
  assumes "refs_inv E C A xs as n"
  shows "distinct xs" "set xs = dom C" "n = int (length xs)" "distinct as" "set as = dom A"
    and "\<And>a i x. A a = Some (i, x) \<Longrightarrow> i \<noteq> 0 \<and> x \<in> dom C"
    and "\<And>a b i x y. A a = Some (i, x) \<Longrightarrow> A b = Some (i, y) \<Longrightarrow> a = b"
    and "\<And>x k u r. C x = Some (k, u, r) \<Longrightarrow>
      u = x \<and> k = int (card (requests_on A x)) + of_bool (\<not> r \<or> x \<in> E) \<and> (x \<in> E \<longrightarrow> r)"
    and "E \<subseteq> dom C"
  by (insert assms, unfold refs_inv_def) ((elim conjE, assumption | blast)+)

lemma refs_inv_put:
  assumes inv: "refs_inv {x} C A xs as n" and x: "C x = Some (k, u, r)"
  shows "refs_inv {} (C(x := if k = 1 then None else Some (k - 1, u, r))) A
    (if k = 1 then removeAll x xs else xs) as (if k = 1 then n - 1 else n)" (is "refs_inv {} ?C A ?xs as ?n")
proof (rule refs_invI)
  note I = refs_invD [OF inv]
  note x' = I(8) [OF x]
  have none: "k = 1 \<Longrightarrow> A a = Some (i, y) \<Longrightarrow> y \<noteq> x" for a i y
    using x' finite_requests_on [OF inv] by (auto simp: requests_on_def)
  show "set ?xs = dom ?C" using I(2) x by auto
  show "?n = int (length ?xs)" using I(1-3) x by (auto simp: length_removeAll_distinct domI)
  show "i \<noteq> 0 \<and> y \<in> dom ?C" if "A a = Some (i, y)" for a i y using I(6) [OF that] none [OF _ that] by auto
  show "v = y \<and> m = int (card (requests_on A y)) + of_bool (\<not> q \<or> y \<in> {}) \<and> (y \<in> {} \<longrightarrow> q)"
    if "?C y = Some (m, v, q)" for y m v q
    using that x' I(8) [of y m v q] by (auto split: if_split_asm)
qed (use refs_invD [OF inv] in \<open>auto simp: distinct_removeAll\<close>)

lemma refs_inv_destroy:
  assumes inv: "refs_inv E C A xs as n" and a: "A a = Some (rid, x)" and x: "C x = Some (k, u, r)"
  shows "refs_inv E (C(x := if k = 1 then None else Some (k - 1, u, r))) (A(a := None))
    (if k = 1 then removeAll x xs else xs) (removeAll a as) (if k = 1 then n - 1 else n)"
    (is "refs_inv E ?C ?A ?xs ?as ?n")
proof (rule refs_invI)
  note I = refs_invD [OF inv]
  note x' = I(8) [OF x]
  have mem: "a \<in> requests_on A x" and fin: "finite (requests_on A x)"
    using a finite_requests_on [OF inv] by (auto simp: requests_on_def)
  then have card: "int (card (requests_on A x)) = int (card (requests_on ?A x)) + 1"
    by (metis card_Suc_Diff1 of_nat_Suc add.commute requests_on_drop)
  have other: "y \<noteq> x \<Longrightarrow> requests_on ?A y = requests_on A y" for y using a by (auto simp: requests_on_def)
  have none: "y \<noteq> x" if "k = 1" "?A b = Some (i, y)" for b i y
  proof
    assume "y = x"
    then have "requests_on ?A x \<noteq> {}" using that(2) by (auto simp: requests_on_def split: if_split_asm)
    moreover have "finite (requests_on ?A x)" using fin by (simp add: requests_on_drop)
    ultimately have "card (requests_on ?A x) > 0" by (simp add: card_gt_0_iff)
    then show False using x' card that(1) by (auto simp: of_bool_def split: if_split_asm)
  qed
  have "k = 1 \<Longrightarrow> x \<notin> E" using x' card by auto
  then show "E \<subseteq> dom ?C" using I(9) by auto
  show "set ?xs = dom ?C" using I(2) x by auto
  show "?n = int (length ?xs)" using I(1-3) x by (auto simp: length_removeAll_distinct domI)
  show "set ?as = dom ?A" using I(5) by auto
  show "i \<noteq> 0 \<and> y \<in> dom ?C" if "?A b = Some (i, y)" for b i y
    using that none [OF _ that] I(6) [of b i y] by (auto split: if_split_asm)
  show "v = y \<and> m = int (card (requests_on ?A y)) + of_bool (\<not> q \<or> y \<in> E) \<and> (y \<in> E \<longrightarrow> q)"
    if "?C y = Some (m, v, q)" for y m v q
    using that x' card other [of y] I(8) [of y m v q] by (auto split: if_split_asm)
qed (use refs_invD [OF inv] in \<open>auto simp: distinct_removeAll split: if_split_asm\<close>)

lemma refs_inv_create_ar:
  assumes inv: "refs_inv E C A xs as n" and a: "A a = None" and x: "C x = Some (k, u, r)"
    and rid: "rid \<noteq> 0" "\<forall>b y. A b \<noteq> Some (rid, y)"
  shows "refs_inv E (C(x \<mapsto> (k + 1, u, r))) (A(a \<mapsto> (rid, x))) xs (a # as) n" (is "refs_inv E ?C ?A xs ?as n")
proof (rule refs_invI)
  note I = refs_invD [OF inv]
  have "a \<notin> requests_on A x" using a by (auto simp: requests_on_def)
  then have card: "card (requests_on ?A x) = Suc (card (requests_on A x))"
    using finite_requests_on [OF inv, of x] a by (simp add: requests_on_add)
  show "distinct ?as" using I(4,5) a by auto
  show "set xs = dom ?C" using I(2) x by auto
  show "v = y \<and> m = int (card (requests_on ?A y)) + of_bool (\<not> q \<or> y \<in> E) \<and> (y \<in> E \<longrightarrow> q)"
    if "?C y = Some (m, v, q)" for y m v q
    using that card I(8) [OF x] I(8) [of y m v q] a by (auto simp: requests_on_add split: if_split_asm)
qed (use refs_invD [OF inv] rid in \<open>auto split: if_split_asm\<close>)

lemma refs_inv_create_si:
  assumes inv: "refs_inv E C A xs as n" and x: "C x = None"
  shows "refs_inv E (C(x \<mapsto> (1, x, False))) A (x # xs) as (n + 1)" (is "refs_inv E ?C A ?xs as _")
proof (rule refs_invI)
  note I = refs_invD [OF inv]
  have E: "x \<notin> E" using I(9) x by auto
  have "requests_on A x = {}" using I(6) x by (auto simp: requests_on_def)
  then show "v = y \<and> m = int (card (requests_on A y)) + of_bool (\<not> q \<or> y \<in> E) \<and> (y \<in> E \<longrightarrow> q)"
    if "?C y = Some (m, v, q)" for y m v q
    using that E I(8) [of y m v q] by (auto split: if_split_asm)
  show "distinct ?xs" using I(1,2) x by auto
qed (use refs_invD [OF inv] in auto)

section \<open>The store keeps the reference counts\<close>

lemma cores_dom: "dom (cores s) = dom (si_heap s)" and ars_dom: "dom (ars s) = dom (ar_heap s)"
  by (auto simp: cores_def ars_def)

lemma refs_ok_same:
  assumes "cores t = cores s \<and> ars t = ars s \<and> sockinst_list t = sockinst_list s
    \<and> active_request_list t = active_request_list s \<and> sockinst_count t = sockinst_count s"
  shows "refs_ok E s \<Longrightarrow> refs_ok E t"
  using assms by (simp add: refs_ok_def)

lemma same_refs_core: "same_refs i j \<Longrightarrow> si_core j = si_core i"
  by (simp add: same_refs_def si_core_def released_flag_def)

lemma refs_ok_xen: "mw_xen.more t = mw_xen.more s \<Longrightarrow> refs_ok E s \<Longrightarrow> refs_ok E t"
  by (rule refs_ok_same) (simp_all add: cores_def ars_def more_selectors [of t s])

lemma refs_ok_destroy:
  assumes ok: "refs_ok E s" and d: "mwsocket_destroy_active_request (Some a) s = Some t"
  shows "refs_ok E t"
proof (rule destroy_refs [OF d], goal_cases)
  case (1 rid x k u r)
  from refs_inv_destroy [OF ok [unfolded refs_ok_def] 1(1,2)] show ?case
    by (simp only: refs_ok_def 1(3-7))
qed

lemma refs_ok_put:
  assumes ok: "refs_ok {x} s" and p: "mwsocket_put_sockinst (Some x) s = Some t"
  shows "refs_ok {} t"
proof (rule put_refs [OF p], goal_cases)
  case (1 k u r)
  from refs_inv_put [OF ok [unfolded refs_ok_def] 1(1)] show ?case
    by (simp only: refs_ok_def 1(2-7))
qed

lemma refs_ok_new_request:
  assumes ok: "refs_ok E s" and x: "si_heap s x = Some i" and a: "ar_heap s a = None"
    and nxt: "mwsocket_get_next_id (upd_si x (\<lambda>i. i\<lparr>si_refct := si_refct i + 1\<rparr>) s) = Some (rid, w)"
  shows "refs_ok E (w\<lparr>ar_heap := (ar_heap w)(a \<mapsto> (ar_zeroed x)\<lparr>ar_id := rid\<rparr>),
    active_request_list := a # active_request_list w\<rparr>)"
proof -
  let ?v = "upd_si x (\<lambda>i. i\<lparr>si_refct := si_refct i + 1\<rparr>) s"
  have "set (active_request_list ?v) = dom (ars ?v)"
    using ok by (simp add: refs_ok_def refs_inv_def)
  from next_id_refs [OF nxt this] have w: "w = ?v\<lparr>id_counter := id_counter w\<rparr>"
    and rid: "rid \<noteq> 0" "\<forall>b y. ars s b \<noteq> Some (rid, y)" by auto
  have sel: "si_heap w = si_heap ?v" "ar_heap w = ar_heap s" "sockinst_list w = sockinst_list s"
    "active_request_list w = active_request_list s" "sockinst_count w = sockinst_count s"
    by (subst w, simp)+
  have "ars s a = None" "cores s x = Some (si_refct i, si_usersock i, released_flag i)"
    using a x by (simp_all add: ars_def cores_def si_core_def)
  note inv = refs_inv_create_ar [OF ok [unfolded refs_ok_def] this rid]
  let ?t = "w\<lparr>ar_heap := (ar_heap w)(a \<mapsto> (ar_zeroed x)\<lparr>ar_id := rid\<rparr>), active_request_list := a # active_request_list w\<rparr>"
  have "cores ?t = (cores s)(x \<mapsto> (si_refct i + 1, si_usersock i, released_flag i))"
    using x by (auto simp: cores_def sel fun_eq_iff si_core_def released_flag_def)
  moreover have "ars ?t = (ars s)(a \<mapsto> (rid, x))"
    by (auto simp: ars_def sel fun_eq_iff ar_zeroed_def)
  ultimately show ?thesis using inv by (simp add: refs_ok_def sel)
qed

lemma refs_ok_create_ar:
  "refs_ok E s \<Longrightarrow> pred_option (\<lambda>y. refs_ok E (snd y)) (mwsocket_create_active_request ker x s)"
  by (auto simp: mwsocket_create_active_request_def mwsocket_get_sockinst_def Let_def split_beta
      intro!: wp refs_ok_xen [OF kdo_more] pred_optionI [of "mwsocket_get_next_id _"]
      simp del: kdo_sel) (rule refs_ok_new_request [OF refs_ok_xen [OF kdo_more]])

text \<open>A new socket instance, and taking it back when its file cannot be made.\<close>

definition add_si :: "nat \<Rightarrow> 'w pvm \<Rightarrow> 'w pvm" where
  "add_si x s = s\<lparr>si_heap := (si_heap s)(x \<mapsto> si_new x), sockinst_list := x # sockinst_list s,
     sockinst_count := sockinst_count s + 1\<rparr>"

definition drop_si :: "nat \<Rightarrow> 'w pvm \<Rightarrow> 'w pvm" where
  "drop_si x s = s\<lparr>sockinst_list := removeAll x (sockinst_list s), sockinst_count := sockinst_count s - 1,
     si_heap := (si_heap s)(x := None)\<rparr>"

lemma refs_ok_add_si:
  assumes "refs_ok E s" and "si_heap s x = None"
  shows "refs_ok E (add_si x s)"
proof -
  have "cores (add_si x s) = (cores s)(x \<mapsto> (1, x, False))"
    by (auto simp: cores_def add_si_def fun_eq_iff si_core_def si_new_def released_flag_def)
  moreover have "cores s x = None" using assms(2) by (simp add: cores_def)
  ultimately show ?thesis
    using refs_inv_create_si [OF assms(1) [unfolded refs_ok_def], of x] by (simp add: refs_ok_def add_si_def ars_def)
qed

text \<open>What is the same as after adding a new instance, apart from the world and the pollable count.\<close>

lemma create_backing_file_more: "mw_xen.more (snd (create_backing_file ker s)) = mw_xen.more s"
  by (simp add: create_backing_file_def Let_def split_beta)

definition like :: "'w pvm \<Rightarrow> 'w pvm \<Rightarrow> bool" where
  "like s t \<longleftrightarrow> cores t = cores s \<and> ars t = ars s \<and> sockinst_list t = sockinst_list s
    \<and> active_request_list t = active_request_list s \<and> sockinst_count t = sockinst_count s"

lemma like_trans: "like s t \<Longrightarrow> like t u \<Longrightarrow> like s u"
  by (simp add: like_def)

lemma like_more: "mw_xen.more t = mw_xen.more s \<Longrightarrow> like s t"
  by (simp add: like_def cores_def ars_def more_selectors [of t s])

lemma refs_ok_drop_si:
  assumes ok: "refs_ok E s" and x: "si_heap s x = None" and z: "like (add_si x s) z"
  shows "refs_ok E (drop_si x z)"
proof (rule refs_ok_same [OF _ ok])
  have "x \<notin> set (sockinst_list s)" using ok x by (auto simp: refs_ok_def refs_inv_def cores_dom)
  moreover have "cores (drop_si x z) = (cores z)(x := None)" by (auto simp: cores_def drop_si_def fun_eq_iff)
  moreover have "cores (add_si x s) = (cores s)(x \<mapsto> si_core (si_new x))"
    by (auto simp: cores_def add_si_def fun_eq_iff)
  moreover have "cores s x = None" using x by (simp add: cores_def)
  ultimately show "cores (drop_si x z) = cores s \<and> ars (drop_si x z) = ars s \<and> sockinst_list (drop_si x z) = sockinst_list s
    \<and> active_request_list (drop_si x z) = active_request_list s \<and> sockinst_count (drop_si x z) = sockinst_count s"
    using z by (auto simp: like_def drop_si_def ars_def add_si_def)
qed

lemma create_sockinst_eq:
  "mwsocket_create_sockinst ker p b s =
    (let (r, s) = kdo ker (KCacheAlloc (sockinst_list s)) s; x = kr_addr r in
     if kr_ret r = 0 then Some ((- ENOMEM, None), s)
     else if si_heap s x \<noteq> None then None
     else mwsocket_set_pollable x p (add_si x s) \<bind> (\<lambda>s.
       if \<not> b then Some ((0, Some x), s)
       else case create_backing_file ker s of ((rc, file, fd), s) \<Rightarrow>
         if rc \<noteq> 0 then Some ((rc, None), drop_si x s)
         else Some ((0, Some x), (upd_si x (\<lambda>i. i\<lparr>si_file := Some file, si_local_fd := fd\<rparr>) s)
                   \<lparr>file_private := (file_private s)(file \<mapsto> x)\<rparr>)))"
  unfolding mwsocket_create_sockinst_def add_si_def drop_si_def Let_def by (rule refl)

lemma like_file:
  assumes "like s t"
  shows "like s ((upd_si x (\<lambda>i. i\<lparr>si_file := f, si_local_fd := fd\<rparr>) t)\<lparr>file_private := p\<rparr>)"
proof -
  have "cores ((upd_si x (\<lambda>i. i\<lparr>si_file := f, si_local_fd := fd\<rparr>) t)\<lparr>file_private := p\<rparr>) = cores t"
    by (cases "si_heap t x") (auto simp: cores_def fun_eq_iff si_core_def released_flag_def)
  then show ?thesis using assms by (simp add: like_def ars_def)
qed

lemma refs_ok_create_si:
  assumes ok: "refs_ok E s"
  shows "pred_option (\<lambda>y. refs_ok E (snd y)) (mwsocket_create_sockinst ker p b s)"
proof -
  define u where "u = snd (kdo ker (KCacheAlloc (sockinst_list s)) s)"
  define x where "x = kr_addr (fst (kdo ker (KCacheAlloc (sockinst_list s)) s))"
  have u: "refs_ok E u" unfolding u_def by (rule refs_ok_xen [OF kdo_more ok])
  have "refs_ok E (snd y)" if y: "mwsocket_create_sockinst ker p b s = Some y" for y
  proof (cases "kr_ret (fst (kdo ker (KCacheAlloc (sockinst_list s)) s)) = 0")
    case True
    then show ?thesis using y u by (auto simp: create_sockinst_eq Let_def split_beta u_def)
  next
    case False
    with y have x: "si_heap u x = None"
      by (auto simp: create_sockinst_eq Let_def split_beta u_def x_def split: if_split_asm)
    from y False x obtain w where w: "mwsocket_set_pollable x p (add_si x u) = Some w"
      by (auto simp: create_sockinst_eq Let_def split_beta u_def x_def Option.bind_eq_Some_conv)
    define z where "z = snd (create_backing_file ker w)"
    have lw: "like (add_si x u) w" using set_pollable_refs [OF w] by (simp add: like_def)
    then have lz: "like (add_si x u) z"
      unfolding z_def by (rule like_trans) (rule like_more [OF create_backing_file_more])
    have "refs_ok E (add_si x u)" by (rule refs_ok_add_si [OF u x])
    then have ok': "like (add_si x u) t \<Longrightarrow> refs_ok E t" for t by (auto simp: like_def intro: refs_ok_same)
    show ?thesis
      using y False x w ok' [OF lw] refs_ok_drop_si [OF u x lz] ok' [OF like_file [OF lz]]
      by (auto simp: create_sockinst_eq Let_def split_beta u_def x_def z_def split: if_split_asm)
  qed
  then show ?thesis by (rule pred_optionI)
qed

lemma refs_inv_start_release:
  assumes inv: "refs_inv {} C A xs as n" and x: "C x = Some (k, u, False)"
  shows "refs_inv {x} (C(x \<mapsto> (k, u, True))) A xs as n" (is "refs_inv _ ?C A xs as n")
proof (rule refs_invI)
  note I = refs_invD [OF inv]
  show "set xs = dom ?C" using I(2) x by auto
  show "v = y \<and> m = int (card (requests_on A y)) + of_bool (\<not> q \<or> y \<in> {x}) \<and> (y \<in> {x} \<longrightarrow> q)"
    if "?C y = Some (m, v, q)" for y m v q
    using that I(8) [OF x] I(8) [of y m v q] by (auto split: if_split_asm)
qed (use refs_invD [OF inv] in auto)

lemma refs_ok_start_release:
  assumes ok: "refs_ok {} s" and i: "si_heap s x = Some i" "\<not> flag MWSOCKET_FLAG_RELEASED (si_mwflags i)"
  shows "refs_ok {x} (upd_si x (\<lambda>i. i\<lparr>si_mwflags := si_mwflags i OR MWSOCKET_FLAG_RELEASED\<rparr>) s)" (is "refs_ok _ ?t")
proof -
  have "cores ?t = (cores s)(x \<mapsto> (si_refct i, si_usersock i, True))"
    using i by (auto simp: cores_def fun_eq_iff si_core_def released_flag_def)
  moreover have "cores s x = Some (si_refct i, si_usersock i, False)"
    using i by (simp add: cores_def si_core_def released_flag_def)
  ultimately show ?thesis
    using refs_inv_start_release [OF ok [unfolded refs_ok_def]] by (simp add: refs_ok_def)
qed

lemma refs_ok_si:
  "(\<And>i. si_heap s x = Some i \<Longrightarrow> same_refs i (f i)) \<Longrightarrow> refs_ok E s \<Longrightarrow> refs_ok E (upd_si x f s)"
  using cores_upd_si_same [of s x f] same_refs_core by (simp add: refs_ok_def)

lemma refs_ok_ar:
  "(\<And>r. ar_heap s a = Some r \<Longrightarrow> same_ar r (g r)) \<Longrightarrow> refs_ok E s \<Longrightarrow> refs_ok E (upd_ar a g s)"
  using ars_upd_ar_same [of s a g] by (simp add: refs_ok_def)

lemma refs_ok_pollable: "refs_ok E s \<Longrightarrow> pred_option (refs_ok E) (mwsocket_set_pollable x b s)"
  by (rule pred_optionI) (blast intro: refs_ok_same [OF set_pollable_refs])

lemma refs_ok_destroy_opt: "refs_ok E s \<Longrightarrow> pred_option (refs_ok E) (mwsocket_destroy_active_request actreq s)"
  by (cases actreq) (auto simp: mwsocket_destroy_active_request_def [of None] intro!: pred_optionI intro: refs_ok_destroy)

lemma refs_ok_end_release: "refs_ok {x} s \<Longrightarrow> pred_option (refs_ok {}) (mwsocket_put_sockinst (Some x) s)"
  by (rule pred_optionI) (rule refs_ok_put)

lemma refs_ok_globals:
  "refs_ok E s \<Longrightarrow> refs_ok E (s\<lparr>is_xen_iface_ready := b\<rparr>)" "refs_ok E s \<Longrightarrow> refs_ok E (s\<lparr>event_channel_sem := n\<rparr>)"
  by (simp_all add: refs_ok_def cores_def ars_def)

interpretation refs: pvm_store refs_ok
  by unfold_locales (fact refs_ok_xen refs_ok_si refs_ok_ar refs_ok_pollable refs_ok_create_ar refs_ok_destroy_opt
      refs_ok_create_si refs_ok_start_release refs_ok_end_release refs_ok_globals)+

section \<open>The response consumer does not fail\<close>

text \<open>A socket instance that is its own primary.\<close>

definition own_si :: "nat \<Rightarrow> 'w pvm \<Rightarrow> bool" where
  "own_si x s \<longleftrightarrow> (\<exists>i. si_heap s x = Some i \<and> si_usersock i = x)"

lemma own_si_upd: "own_si x s \<Longrightarrow> (\<And>i. si_usersock (f i) = si_usersock i) \<Longrightarrow> own_si x (upd_si y f s)"
  by (auto simp: own_si_def)

lemma postproc_accept_returns:
  assumes "own_si x s"
  shows "\<exists>t. postproc_accept a x rsp s = Some t \<and> own_si x t \<and> ars t = ars s"
  using assms
  by (auto simp: postproc_accept_def seq_simps own_si_def ars_def fun_eq_iff option.map_comp comp_def)

lemma postproc_success_returns:
  assumes "own_si x s"
  shows "\<exists>t. postproc_success x rsp s = Some t \<and> ars t = ars s"
  using assms by (auto simp: postproc_success_def own_si_def)

lemma postproc_returns:
  assumes ar: "ar_heap s a = Some ar" and own: "own_si (ar_sockinst ar) s"
  shows "\<exists>rsp' t. mwsocket_postproc_no_context a rsp s = Some (rsp', t) \<and> ars t = ars s"
proof -
  let ?x = "ar_sockinst ar"
  from own obtain i where i: "si_heap s ?x = Some i" "si_usersock i = ?x" by (auto simp: own_si_def)
  define p where "p = postproc_batch rsp (postproc_close_lock (ar_id ar) rsp i)"
  define u where "u = upd_si ?x (\<lambda>_. postproc_remote_closed (fst p) (snd p)) s"
  have "same_refs i (postproc_remote_closed (fst p) (snd p))"
    unfolding p_def by (rule same_refs_postproc)
  then have "own_si ?x u" using i by (simp add: own_si_def u_def same_refs_def)
  from postproc_accept_returns [OF this] obtain v
    where v: "postproc_accept a ?x (fst p) u = Some v" "own_si ?x v" "ars v = ars u" by blast
  from postproc_success_returns [OF v(2)] obtain w where w: "postproc_success ?x (fst p) v = Some w" "ars w = ars v"
    by blast
  show ?thesis
    using ar i v w by (simp add: mwsocket_postproc_no_context_def Let_def split_beta p_def u_def)
qed

lemma refs_ok_own: "refs_ok E s \<Longrightarrow> ar_heap s a = Some ar \<Longrightarrow> own_si (ar_sockinst ar) s"
proof -
  assume ok: "refs_ok E s" and ar: "ar_heap s a = Some ar"
  note I = refs_invD [OF ok [unfolded refs_ok_def]]
  from ar have "ars s a = Some (ar_id ar, ar_sockinst ar)" by (simp add: ars_def)
  from I(6) [OF this] obtain i where i: "si_heap s (ar_sockinst ar) = Some i" by (auto simp: cores_def)
  then have "cores s (ar_sockinst ar) = Some (si_refct i, si_usersock i, released_flag i)"
    by (simp add: cores_def si_core_def)
  from I(8) [OF this] i show ?thesis by (simp add: own_si_def)
qed

lemma find_by_id_returns:
  "set as \<subseteq> dom (ar_heap s) \<Longrightarrow> \<exists>f. find_by_id s rid as = Some f \<and> (\<forall>a. f = Some a \<longrightarrow> (\<exists>ar. ar_heap s a = Some ar \<and> ar_id ar = rid \<and> a \<in> set as))"
  by (induction as) auto

lemma find_request_returns:
  assumes ok: "refs_ok E s"
  shows "\<exists>rc f. mwsocket_find_active_request_by_id rid s = Some (rc, f)
    \<and> (\<forall>a. f = Some a \<longrightarrow> (\<exists>ar. ar_heap s a = Some ar \<and> ar_id ar = rid))"
proof -
  have "set (active_request_list s) = dom (ar_heap s)"
    using refs_invD(5) [OF ok [unfolded refs_ok_def]] by (simp add: ars_dom)
  then obtain f where f: "find_by_id s rid (active_request_list s) = Some f"
    "\<forall>a. f = Some a \<longrightarrow> (\<exists>ar. ar_heap s a = Some ar \<and> ar_id ar = rid \<and> a \<in> set (active_request_list s))"
    using find_by_id_returns [of "active_request_list s" s rid] by auto
  show ?thesis
  proof (cases f)
    case (Some a)
    with f(2) obtain ar where "ar_heap s a = Some ar" "ar_id ar = rid" by auto
    moreover from refs_ok_own [OF ok this(1)] obtain i where "si_heap s (ar_sockinst ar) = Some i"
      by (auto simp: own_si_def)
    ultimately show ?thesis using f(1) Some by (simp add: mwsocket_find_active_request_by_id_def)
  qed (use f(1) in \<open>simp add: mwsocket_find_active_request_by_id_def\<close>)
qed

lemma destroy_returns:
  assumes "ar_heap s a = Some ar" and "si_heap s (ar_sockinst ar) = Some i"
  shows "\<exists>t. mwsocket_destroy_active_request (Some a) s = Some t"
  using assms
  by (auto simp: mwsocket_destroy_active_request_def mwsocket_put_sockinst_def mwsocket_set_pollable_def unlink_sibling_def
      Let_def upd_si_def)

lemma deliver_returns:
  assumes ar: "ar_heap s a = Some ar" and i: "si_heap s (ar_sockinst ar) = Some i"
  shows "\<exists>t. deliver_or_destroy ker a rsp s = Some t"
proof -
  note sel = more_selectors [OF kdo_more [of ker "KProcDying (ar_sockinst ar)" s]]
  from destroy_returns [of "snd (kdo ker (KProcDying (ar_sockinst ar)) s)" a ar i] ar i
  show ?thesis by (auto simp: deliver_or_destroy_def Let_def split_beta sel)
qed

lemma consumer_returns:
  assumes ok: "refs_ok {} s"
  shows "\<exists>y. mwsocket_response_consumer ker s = Some y"
proof (cases "mw_xen_response_available ker s")
  case (Pair h u)
  have u: "refs_ok {} u" by (rule refs_ok_xen [OF response_available_more [OF Pair] ok])
  show ?thesis
  proof (cases h)
    case (Some j)
    obtain rc rsp v where v: "mw_xen_get_next_response ker j u = ((rc, rsp), v)"
      by (metis prod.exhaust)
    have ok': "refs_ok {} v" by (rule refs_ok_xen [OF get_next_response_more [OF v] u])
    from find_request_returns [OF ok', of "rs_id (rs_base rsp)"] obtain e f
      where f: "mwsocket_find_active_request_by_id (rs_id (rs_base rsp)) v = Some (e, f)"
        "\<forall>a. f = Some a \<longrightarrow> (\<exists>ar. ar_heap v a = Some ar \<and> ar_id ar = rs_id (rs_base rsp))" by blast
    have "\<exists>y. consume_response ker j u = Some y"
    proof (cases f)
      case None
      then show ?thesis using v f by (auto simp: consume_response_def)
    next
      case (Some a)
      with f(2) obtain ar where ar: "ar_heap v a = Some ar" by auto
      from postproc_returns [OF ar refs_ok_own [OF ok' ar]] obtain rsp' w
        where w: "mwsocket_postproc_no_context a rsp v = Some (rsp', w)" and "ars w = ars v" by blast
      then have "dom (ar_heap w) = dom (ar_heap v)" by (metis ars_dom)
      then obtain br where br: "ar_heap w a = Some br" using ar by blast
      have "refs_ok {} w" using refs.postproc_keeps [OF ok', of a rsp] w by simp
      from refs_ok_own [OF this br] obtain i where "si_heap w (ar_sockinst br) = Some i" by (auto simp: own_si_def)
      from deliver_returns [OF br this] obtain t where "deliver_or_destroy ker a rsp' w = Some t" by blast
      then show ?thesis using v f w Some by (auto simp: consume_response_def)
    qed
    then show ?thesis using Pair Some by (simp add: mwsocket_response_consumer_def)
  qed (simp add: mwsocket_response_consumer_def Pair)
qed

section \<open>What holds in every reachable state\<close>

lemma refs_ok_start: "pvm_start s \<Longrightarrow> refs_ok {} s"
  by (simp add: pvm_start_def refs_ok_def refs_inv_def cores_def ars_def)

lemmas reach_refs_ok = refs.reach_keeps [OF _ refs_ok_start]

text \<open>
  C23 (invariant): from an empty start, in every state that is reached by the steps of \<open>pvm_step\<close>, the reference count of a socket instance is the number of its active requests
  plus one until its file has been released; the lists hold exactly the allocated objects; every
  active request has its socket instance, an id other than 0, and an id of its own; and the response
  consumer, whatever it finds on the ring, does not follow a dangling pointer. The limits are those of \<open>pvm_step\<close>: there are no accepts
  and no sibling sockets, the sockets of a dead INS are not reaped, and an operation is one step in which the consumer runs only where the operation
  waits; the race of the consumer with \<open>mwsocket_release\<close> that the comment of \<open>mwsocket_instance_t\<close> warns of is not among these runs.
\<close>

theorem pvm_references:
  assumes "pvm_reach ker s"
  shows "(\<forall>x i. si_heap s x = Some i \<longrightarrow>
       si_refct i = int (card {a. \<exists>r. ar_heap s a = Some r \<and> ar_sockinst r = x})
         + of_bool (\<not> flag MWSOCKET_FLAG_RELEASED (si_mwflags i)))
     \<and> set (sockinst_list s) = dom (si_heap s) \<and> set (active_request_list s) = dom (ar_heap s)
     \<and> sockinst_count s = int (card (dom (si_heap s)))
     \<and> (\<forall>a r. ar_heap s a = Some r \<longrightarrow> ar_id r \<noteq> 0 \<and> si_heap s (ar_sockinst r) \<noteq> None)
     \<and> inj_on (\<lambda>a. map_option ar_id (ar_heap s a)) (dom (ar_heap s))
     \<and> mwsocket_response_consumer ker s \<noteq> None"
proof -
  have ok: "refs_ok {} s" by (rule reach_refs_ok [OF assms])
  note I = refs_invD [OF ok [unfolded refs_ok_def]]
  have on: "requests_on (ars s) x = {a. \<exists>r. ar_heap s a = Some r \<and> ar_sockinst r = x}" for x
    by (auto simp: requests_on_def ars_def)
  have refct: "si_refct i = int (card {a. \<exists>r. ar_heap s a = Some r \<and> ar_sockinst r = x})
      + of_bool (\<not> flag MWSOCKET_FLAG_RELEASED (si_mwflags i))" if "si_heap s x = Some i" for x i
    using I(8) [of x "si_refct i" "si_usersock i" "released_flag i"] that
    by (simp add: on cores_def si_core_def released_flag_def)
  have req: "ar_id r \<noteq> 0 \<and> si_heap s (ar_sockinst r) \<noteq> None" if "ar_heap s a = Some r" for a r
    using I(6) [of a "ar_id r" "ar_sockinst r"] that by (auto simp: ars_def cores_def)
  have inj: "inj_on (\<lambda>a. map_option ar_id (ar_heap s a)) (dom (ar_heap s))"
  proof (rule inj_onI)
    fix a b assume "a \<in> dom (ar_heap s)" "b \<in> dom (ar_heap s)"
      and eq: "map_option ar_id (ar_heap s a) = map_option ar_id (ar_heap s b)"
    then obtain r q where "ar_heap s a = Some r" "ar_heap s b = Some q" by blast
    with eq show "a = b" using I(7) [of a "ar_id r" "ar_sockinst r" b "ar_sockinst q"] by (simp add: ars_def)
  qed
  have "card (dom (si_heap s)) = length (sockinst_list s)"
    using distinct_card [OF I(1)] I(2) by (simp add: cores_dom)
  then show ?thesis
    using refct req inj I(2,3,5) consumer_returns [OF ok, of ker]
    by (auto simp: cores_dom ars_dom)
qed

text \<open>
  A kernel for examples: allocations succeed at a fresh address, waiting times out, and the rings are
  never full and never hold a response. Its results carry a request without payload bytes. The state
  has one INS and no sockets.
\<close>

definition rq_demo :: "mt_request_base \<Rightarrow> mt_request_generic" where
  "rq_demo b = \<lparr>rq_base = b, create_sock_fam = 0, create_sock_type = 0, create_sock_protocol = 0,
     connect_sockaddr = \<lparr>sin_family = 0, sin_port = 0, sin_addr = 0, sin_zero = []\<rparr>,
     bind_sockaddr = \<lparr>sin_family = 0, sin_port = 0, sin_addr = 0, sin_zero = []\<rparr>,
     listen_backlog = 0, accept_rq_flags = 0, recv_rq_flags = 0, recv_requested = 0, shutdown_how = 0, send_rq_flags = 0,
     send_rq_bytes = [], getname_maxlen = 0, attrib_modify = 0, attrib_rq_name = 0,
     attrib_rq_val = \<lparr>feat_s = 0, feat_us = 0\<rparr>, block_block = 0, block_addr = ''''\<rparr>"

definition user_request :: mt_request_generic where
  "user_request = rq_demo \<lparr>rq_sig = 0, rq_type = mt_request_code MtRequestSocketRecv, rq_size = of_nat MT_REQUEST_BASE_SIZE,
     rq_id = 0, rq_sockfd = 0, rq_flags = MT_FLAGS_PVM_CALLER_AWAITS_RESPONSE\<rparr>"

definition kret_demo :: kret where
  "kret_demo = \<lparr>kr_ret = 0, kr_str = None, kr_port = 0, kr_jiffies = 0, kr_addr = 0, kr_request = user_request,
     kr_response = rs_zero\<rparr>"

fun ker_demo :: "unit ker" where
  "ker_demo (KCacheAlloc used) w = (kret_demo\<lparr>kr_ret := 1, kr_addr := Suc (fold max used 0)\<rparr>, w)"
| "ker_demo c w = (kret_demo, w)"

definition pvm_demo :: "'w \<Rightarrow> 'w pvm" where
  "pvm_demo w = \<lparr>my_domid = 1, xenbus_watch_active = True, xen_pending_exit = False, ins_count = 1,
     ins = [ins_zeroed\<lparr>id_in_use := 1, id_domid := 5, id_is_ring_ready := True, id_grant_refs := []\<rparr>,
       ins_zeroed\<lparr>id_grant_refs := []\<rparr>, ins_zeroed\<lparr>id_grant_refs := []\<rparr>],
     rr_next = 0, rr_curr_index = 0, kworld = w, ktrace = [],
     is_xen_iface_ready = True, ar_heap = Map.empty, active_request_list = [], si_heap = Map.empty,
     sockinst_list = [], sockinst_count = 0, poll_sock_count = 0, event_channel_sem = 0,
     sock_pending_exit = False, id_counter = 0, file_private = Map.empty\<rparr>"

text \<open>
  An environment in which an INS answers: the world is the list of requests on the ring that are not
  answered yet. The first argument is what waiting returns; files can be made; the user always asks to
  receive, and waits for the response.
\<close>

definition answer :: "mt_request_generic \<Rightarrow> mt_response_generic" where
  "answer q = rs_zero\<lparr>rs_base := rs_base_zero\<lparr>rs_sig := MT_SIGNATURE_RESPONSE, rs_type := MT_RESPONSE (rq_type (rq_base q)),
     rs_size := of_nat MT_RESPONSE_BASE_SIZE, rs_id := rq_id (rq_base q), rs_sockfd := MW_SOCKET_CREATE 5 3\<rparr>,
     attrib_rs_val := feat_of_v32 5\<rparr>"

fun ker_echo :: "int \<Rightarrow> mt_request_generic list ker" where
  "ker_echo n (KCacheAlloc used) w = (kret_demo\<lparr>kr_ret := 1, kr_addr := Suc (fold max used 0)\<rparr>, w)"
| "ker_echo n KNewInode w = (kret_demo\<lparr>kr_ret := 1\<rparr>, w)"
| "ker_echo n KAllocDentry w = (kret_demo\<lparr>kr_ret := 1\<rparr>, w)"
| "ker_echo n (KCopyFromUser k) w = (kret_demo, w)"
| "ker_echo n KWait w = (kret_demo\<lparr>kr_ret := n\<rparr>, w)"
| "ker_echo n (KRingPush i q) w = (kret_demo, w @ [q])"
| "ker_echo n (KRingHasResponse i) w = (kret_demo\<lparr>kr_ret := int (length w)\<rparr>, w)"
| "ker_echo n (KRingResponse i) w = (kret_demo\<lparr>kr_response := answer (hd w)\<rparr>, w)"
| "ker_echo n (KRingConsume i) w = (kret_demo, tl w)"
| "ker_echo n c w = (kret_demo, w)"

lemma pvm_demo_start: "pvm_reach ker (pvm_demo w)"
  by (rule pvm_reach.start) (simp add: pvm_start_def pvm_demo_def)

text \<open>A request that times out: its active request stays, and holds a reference.\<close>

theorem pvm_references_witness:
  "\<exists>rc t i. mwsocket_block_ip_mitigation ker_demo 5 (1, ''1.2.3.4'') (pvm_demo ()) = Some (rc, t) \<and> rc = - ETIME
     \<and> pvm_reach ker_demo t \<and> si_heap t 1 = Some i \<and> si_refct i = 2
     \<and> 2 = int (card {a. \<exists>r. ar_heap t a = Some r \<and> ar_sockinst r = 1})
         + of_bool (\<not> flag MWSOCKET_FLAG_RELEASED (si_mwflags i))
     \<and> mwsocket_response_consumer ker_demo t \<noteq> None"
proof -
  have "case mwsocket_block_ip_mitigation ker_demo 5 (1, ''1.2.3.4'') (pvm_demo ()) of None \<Rightarrow> False
    | Some (rc, t) \<Rightarrow> rc = - ETIME \<and> map_option si_refct (si_heap t 1) = Some 2" by code_simp
  then obtain rc t i where t: "mwsocket_block_ip_mitigation ker_demo 5 (1, ''1.2.3.4'') (pvm_demo ()) = Some (rc, t)"
    "rc = - ETIME" "si_heap t 1 = Some i" "si_refct i = 2" by (auto split: option.splits prod.splits)
  have r: "pvm_reach ker_demo t" by (rule pvm_reach.step [OF pvm_demo_start pvm_step.block_ip [OF t(1)]])
  have "\<forall>x i. si_heap t x = Some i \<longrightarrow>
       si_refct i = int (card {a. \<exists>r. ar_heap t a = Some r \<and> ar_sockinst r = x})
         + of_bool (\<not> flag MWSOCKET_FLAG_RELEASED (si_mwflags i))"
    and "mwsocket_response_consumer ker_demo t \<noteq> None" using pvm_references [OF r] by blast+
  with t r show ?thesis by fastforce
qed

section \<open>Fresh request ids\<close>

text \<open>
  C24 (termination): in every reachable state with fewer than \<open>2 ^ 64 - 1\<close> active requests the search
  for the id of a new request ends, with an id other than 0 that no active request has, and changes
  nothing but its counter, which holds this id.
\<close>

theorem next_id_terminates:
  assumes "pvm_reach ker s" and "length (active_request_list s) < 2 ^ 64 - 1"
  shows "\<exists>rid. mwsocket_get_next_id s = Some (rid, s\<lparr>id_counter := rid\<rparr>) \<and> rid \<noteq> MT_ID_UNSET_VALUE
    \<and> (\<forall>a r. ar_heap s a = Some r \<longrightarrow> ar_id r \<noteq> rid)"
proof -
  have ok: "refs_ok {} s" by (rule reach_refs_ok [OF assms(1)])
  have set_as: "set (active_request_list s) = dom (ars s)" using refs_invD(5) [OF ok [unfolded refs_ok_def]] .
  have "\<exists>used. those (map (\<lambda>a. map_option ar_id (ar_heap s a)) as) = Some used \<and> length used = length as"
    if "set as \<subseteq> dom (ars s)" for as
    using that by (induction as) (auto simp: ars_dom)
  from this [of "active_request_list s"] set_as obtain used
    where used: "those (map (\<lambda>a. map_option ar_id (ar_heap s a)) (active_request_list s)) = Some used"
      and len: "length used = length (active_request_list s)" by auto
  from unused_id_exists [of used] len assms(2) obtain v where "v \<noteq> 0" "v \<notin> set used" by auto
  from next_id_returns [OF this] obtain rid c where n: "next_id used (id_counter s) = Some (rid, c)" by (metis prod.exhaust)
  with next_id_unused [OF n] have "c = rid" by simp
  with used n have eq: "mwsocket_get_next_id s = Some (rid, s\<lparr>id_counter := rid\<rparr>)"
    by (simp add: mwsocket_get_next_id_def)
  from next_id_refs [OF this set_as] have "rid \<noteq> 0" "\<forall>a x. ars s a \<noteq> Some (rid, x)" by auto
  with eq show ?thesis by (auto simp: ars_def MT_ID_UNSET_VALUE_def)
qed

text \<open>Right before the counter wraps the next id is 1, not 0.\<close>

theorem next_id_terminates_witness:
  "pvm_reach ker_demo (pvm_demo ()\<lparr>id_counter := 0xffffffffffffffff\<rparr>)
   \<and> mwsocket_get_next_id (pvm_demo ()\<lparr>id_counter := 0xffffffffffffffff\<rparr>) = Some (1, pvm_demo ()\<lparr>id_counter := 1\<rparr>)"
proof -
  let ?s = "pvm_demo ()\<lparr>id_counter := 0xffffffffffffffff\<rparr>"
  have r: "pvm_reach ker_demo ?s" by (rule pvm_reach.start) (simp add: pvm_start_def pvm_demo_def)
  have "length (active_request_list ?s) < 2 ^ 64 - 1" by (simp add: pvm_demo_def)
  from next_id_terminates [OF r this] obtain rid where "mwsocket_get_next_id ?s = Some (rid, ?s\<lparr>id_counter := rid\<rparr>)" by blast
  moreover have "map_option fst (mwsocket_get_next_id ?s) = Some 1" by code_simp
  ultimately show ?thesis using r by simp
qed

end
