(* ===== verification/PvmProps.thy ===== *)
theory PvmProps
  imports PvmInv
begin

text \<open>
  Properties of the socket layer of the PVM: the fate of a response, and poll events that are lost.
\<close>

section \<open>The fate of a response\<close>

definition ar_except :: "nat \<Rightarrow> 'w pvm \<Rightarrow> 'w pvm \<Rightarrow> bool" where
  "ar_except a s t \<longleftrightarrow> (\<forall>b. b \<noteq> a \<longrightarrow> ar_heap t b = ar_heap s b)"

lemma postproc_accept_ars:
  "postproc_accept a x rsp s = Some t \<Longrightarrow> ar_except a s t \<and> (\<not> rs_type_is MtRequestSocketAccept rsp \<longrightarrow> ar_heap t = ar_heap s)"
  by (auto simp: postproc_accept_def ar_except_def Option.bind_eq_Some_conv Let_def split: if_split_asm)

lemma postproc_success_ars: "postproc_success x rsp s = Some t \<Longrightarrow> ar_heap t = ar_heap s"
  by (auto simp: postproc_success_def Option.bind_eq_Some_conv split: if_split_asm)

text \<open>Post-processing changes at most the count of a response to a send.\<close>

lemma postproc_batch_same:
  "rs_base (fst (postproc_batch rsp i)) = rs_base rsp"
  "\<not> rs_type_is MtRequestSocketSend rsp \<Longrightarrow> fst (postproc_batch rsp i) = rsp"
  by (simp_all add: postproc_batch_def)

lemma postproc_ars:
  assumes "mwsocket_postproc_no_context a rsp s = Some (rsp', t)"
  shows "ar_except a s t" and "\<not> rs_type_is MtRequestSocketAccept rsp \<Longrightarrow> ar_heap t = ar_heap s"
    and "rs_base rsp' = rs_base rsp" and "\<not> rs_type_is MtRequestSocketSend rsp \<Longrightarrow> rsp' = rsp"
proof -
  show b: "rs_base rsp' = rs_base rsp" "\<not> rs_type_is MtRequestSocketSend rsp \<Longrightarrow> rsp' = rsp"
    using assms postproc_batch_same
    by (auto simp: mwsocket_postproc_no_context_def Option.bind_eq_Some_conv Let_def split_beta)
  from b have ty: "rs_type_is MtRequestSocketAccept rsp' = rs_type_is MtRequestSocketAccept rsp"
    by (simp add: rs_type_is_def)
  from assms show "ar_except a s t" "\<not> rs_type_is MtRequestSocketAccept rsp \<Longrightarrow> ar_heap t = ar_heap s"
    using ty by (auto simp: mwsocket_postproc_no_context_def Option.bind_eq_Some_conv Let_def split_beta ar_except_def
        split: if_split_asm dest!: postproc_accept_ars postproc_success_ars)
qed

lemma put_ars: "mwsocket_put_sockinst (Some x) s = Some t \<Longrightarrow> ar_heap t = ar_heap s"
  by (erule put_refs)

lemma destroy_ars: "mwsocket_destroy_active_request (Some a) s = Some t \<Longrightarrow> ar_heap t = (ar_heap s)(a := None)"
  by (auto simp: mwsocket_destroy_active_request_def Option.bind_eq_Some_conv Let_def split: if_split_asm dest!: put_ars)

text \<open>Whether the process of a socket instance is dying, as the consumer asks it.\<close>

definition dying :: "'w ker \<Rightarrow> nat \<Rightarrow> 'w pvm \<Rightarrow> bool" where
  "dying ker x s \<longleftrightarrow> kr_ret (fst (ker (KProcDying x) (kworld s))) \<noteq> 0"

lemma deliver_ars:
  assumes "deliver_or_destroy ker a rsp s = Some t" and "ar_heap s a = Some r"
  shows "ar_heap t = (ar_heap s)(a :=
    (if \<not> ar_deliver_response r \<or> (ar_from_user r \<and> dying ker (ar_sockinst r) s) then None
     else Some ((if ar_response_populated r then r else r\<lparr>ar_rr := RrResponse rsp, ar_response_populated := True\<rparr>)
                  \<lparr>ar_arrived := ar_arrived r + 1\<rparr>)))"
  using assms more_selectors(2) [OF kdo_more [of ker "KProcDying (ar_sockinst r)" s]]
  by (auto simp: deliver_or_destroy_def Let_def split_beta dying_def split: if_split_asm dest!: destroy_ars)

text \<open>Consuming a response for which there is an active request, step by step.\<close>

lemma consume_known:
  assumes rsp: "mw_xen_get_next_response ker h u = ((0, rsp), v)" and "\<not> sock_pending_exit v"
    and found: "mwsocket_find_active_request_by_id (rs_id (rs_base rsp)) v = Some (0, Some a)"
    and post: "mwsocket_postproc_no_context a rsp v = Some (rsp', w)"
    and deliver: "deliver_or_destroy ker a rsp' w = Some z"
  shows "consume_response ker h u = Some (True, snd (mw_xen_mark_response_consumed ker (Some h) z))"
  using assms by (simp add: consume_response_def)

lemma find_request_code: "mwsocket_find_active_request_by_id rid s = Some (rc, Some a) \<Longrightarrow> rc = 0"
  by (auto simp: mwsocket_find_active_request_by_id_def Option.bind_eq_Some_conv split: option.split_asm)

lemma find_by_id_None:
  "find_by_id s rid as = Some None \<Longrightarrow> a \<in> set as \<Longrightarrow> ar_heap s a = Some r \<Longrightarrow> ar_id r \<noteq> rid"
  by (induction as) (auto simp: Option.bind_eq_Some_conv split: if_split_asm)

lemma find_request_None:
  assumes "refs_ok E s" and "mwsocket_find_active_request_by_id rid s = Some (rc, None)" and "ar_heap s a = Some r"
  shows "ar_id r \<noteq> rid"
proof -
  from assms(2) have "find_by_id s rid (active_request_list s) = Some None"
    by (auto simp: mwsocket_find_active_request_by_id_def Option.bind_eq_Some_conv split: option.split_asm)
  moreover have "a \<in> set (active_request_list s)"
    using refs_invD(5) [OF assms(1) [unfolded refs_ok_def]] assms(3) by (auto simp: ars_dom)
  ultimately show ?thesis using assms(3) by (rule find_by_id_None)
qed

lemma id_unique: "refs_ok E s \<Longrightarrow> ar_heap s a = Some r \<Longrightarrow> ar_heap s b = Some q \<Longrightarrow> ar_id r = ar_id q \<Longrightarrow> a = b"
  using refs_invD(7) [of E "cores s" "ars s"] by (fastforce simp: refs_ok_def ars_def)

lemma postproc_kworld: "mwsocket_postproc_no_context a rsp s = Some y \<Longrightarrow> kworld (snd y) = kworld s"
  by (auto simp: mwsocket_postproc_no_context_def postproc_accept_def postproc_success_def Option.bind_eq_Some_conv Let_def
      split_beta split: if_split_asm)

lemma more_pending_exit: "mw_xen.more t = mw_xen.more s \<Longrightarrow> sock_pending_exit t = sock_pending_exit s"
  by (cases s; cases t; simp)

text \<open>The request that has the id of a response, after the response has been delivered to it.\<close>

definition completed :: "'w ker \<Rightarrow> 'w pvm \<Rightarrow> mt_response_generic \<Rightarrow> mwsocket_active_request \<Rightarrow> mwsocket_active_request option" where
  "completed ker v rsp r =
    (if \<not> ar_deliver_response r \<or> (ar_from_user r \<and> dying ker (ar_sockinst r) v) then None
     else Some ((if ar_response_populated r then r else r\<lparr>ar_rr := RrResponse rsp, ar_response_populated := True\<rparr>)
                  \<lparr>ar_arrived := ar_arrived r + 1\<rparr>))"

lemma known_response_delivered:
  assumes ok: "refs_ok {} v" and r: "ar_heap v a = Some r" and rsp: "\<not> rs_type_is MtRequestSocketAccept rsp"
  obtains rsp' w z where "mwsocket_postproc_no_context a rsp v = Some (rsp', w)" "deliver_or_destroy ker a rsp' w = Some z"
    "rs_base rsp' = rs_base rsp" "rs_type_is MtRequestSocketSend rsp \<or> rsp' = rsp" "ar_heap z = (ar_heap v)(a := completed ker v rsp' r)"
proof -
  from postproc_returns [OF r refs_ok_own [OF ok r], of rsp] obtain rsp' w
    where w: "mwsocket_postproc_no_context a rsp v = Some (rsp', w)" by blast
  note same = postproc_ars [OF w]
  have hw: "ar_heap w = ar_heap v" by (rule same(2) [OF rsp])
  have ok': "refs_ok {} w" using refs.postproc_keeps [OF ok, of a rsp] w by simp
  from refs_ok_own [OF this, of a r] r hw obtain i where "si_heap w (ar_sockinst r) = Some i" by (auto simp: own_si_def)
  from deliver_returns [OF _ this, of a ker rsp'] r hw obtain z where z: "deliver_or_destroy ker a rsp' w = Some z" by auto
  have "dying ker x w = dying ker x v" for x using postproc_kworld [OF w] by (simp add: dying_def)
  with deliver_ars [OF z, of r] r hw have "ar_heap z = (ar_heap v)(a := completed ker v rsp' r)" by (simp add: completed_def)
  with that w z same(3,4) show thesis by blast
qed

text \<open>
  C25 (functional): when the consumer finds a response on a ring in a reachable state, other than one
  to accept, it returns; the active request with the id of the response gets it (unless it already
  has one) and is completed once more, or is destroyed when nobody wants the response; every other
  active request is as before. The response delivered has the header of the one received, and is the
  same but for the count of a send.
\<close>

theorem response_goes_to_its_request:
  assumes "pvm_reach ker s" and "mw_xen_response_available ker s = (Some h, u)"
    and "mw_xen_get_next_response ker h u = ((0, rsp), v)"
    and "\<not> sock_pending_exit s" and "\<not> rs_type_is MtRequestSocketAccept rsp"
  shows "\<exists>t rsp'. mwsocket_response_consumer ker s = Some (True, t)
    \<and> rs_base rsp' = rs_base rsp \<and> (rs_type_is MtRequestSocketSend rsp \<or> rsp' = rsp)
    \<and> (\<forall>a. ar_heap t a = (case ar_heap s a of None \<Rightarrow> None | Some r \<Rightarrow>
         if ar_id r \<noteq> rs_id (rs_base rsp) then Some r
         else if \<not> ar_deliver_response r \<or> (ar_from_user r \<and> dying ker (ar_sockinst r) v) then None
         else Some ((if ar_response_populated r then r else r\<lparr>ar_rr := RrResponse rsp', ar_response_populated := True\<rparr>)
                      \<lparr>ar_arrived := ar_arrived r + 1\<rparr>)))"
proof -
  have more: "mw_xen.more v = mw_xen.more s"
    using response_available_more [OF assms(2)] get_next_response_more [OF assms(3)] by simp
  have ok: "refs_ok {} v" by (rule refs_ok_xen [OF more reach_refs_ok [OF assms(1)]])
  have heap: "ar_heap s = ar_heap v" by (simp add: more_selectors [OF more])
  have exit: "\<not> sock_pending_exit v" using more_pending_exit [OF more] assms(4) by simp
  have cons: "mwsocket_response_consumer ker s = consume_response ker h u"
    using assms(2) by (simp add: mwsocket_response_consumer_def)
  have marked: "ar_heap (snd (mw_xen_mark_response_consumed ker (Some h) z)) = ar_heap z" for z :: "'a pvm"
    by (rule more_selectors(2) [OF mark_response_more])
  from find_request_returns [OF ok, of "rs_id (rs_base rsp)"] obtain e f
    where f: "mwsocket_find_active_request_by_id (rs_id (rs_base rsp)) v = Some (e, f)"
      and fr: "\<forall>a. f = Some a \<longrightarrow> (\<exists>r. ar_heap v a = Some r \<and> ar_id r = rs_id (rs_base rsp))" by blast
  show ?thesis
  proof (cases f)
    case None
    then have "consume_response ker h u = Some (True, snd (mw_xen_mark_response_consumed ker (Some h) v))"
      using f assms(3) exit by (simp add: consume_response_def)
    then show ?thesis
      using find_request_None [OF ok f [unfolded None]] cons
      by (auto simp: heap marked intro!: exI [of _ rsp] split: option.split)
  next
    case (Some a)
    with fr obtain r where r: "ar_heap v a = Some r" "ar_id r = rs_id (rs_base rsp)" by auto
    obtain rsp' w z where w: "mwsocket_postproc_no_context a rsp v = Some (rsp', w)" and z: "deliver_or_destroy ker a rsp' w = Some z"
      and same: "rs_base rsp' = rs_base rsp" "rs_type_is MtRequestSocketSend rsp \<or> rsp' = rsp"
      and hz: "ar_heap z = (ar_heap v)(a := completed ker v rsp' r)"
      by (rule known_response_delivered [OF ok r(1) assms(5)])
    have other: "b \<noteq> a \<Longrightarrow> ar_heap v b = Some q \<Longrightarrow> ar_id q \<noteq> rs_id (rs_base rsp)" for b q
      using id_unique [OF ok r(1), of b q] r(2) by auto
    have "e = 0" using find_request_code f Some by blast
    then have "consume_response ker h u = Some (True, snd (mw_xen_mark_response_consumed ker (Some h) z))"
      using consume_known [OF assms(3) exit _ w z] f Some by simp
    then show ?thesis
      using r same other cons
      by (intro exI [of _ "snd (mw_xen_mark_response_consumed ker (Some h) z)"] exI [of _ rsp'])
        (auto simp: heap marked hz completed_def split: option.split)
  qed
qed

text \<open>A request has been sent, and nobody has taken its response yet.\<close>

definition pvm_waiting :: "mt_request_generic list pvm" where
  "pvm_waiting = snd (the (mwsocket_block_ip_mitigation (ker_echo 0) 5 (1, ''1.2.3.4'') (pvm_demo [])))"

lemma pvm_waiting_facts:
  "(case mwsocket_block_ip_mitigation (ker_echo 0) 5 (1, ''1.2.3.4'') (pvm_demo []) of
      None \<Rightarrow> False
    | Some (rc, s) \<Rightarrow>
        \<not> sock_pending_exit s
        \<and> (case ar_heap s 1 of None \<Rightarrow> False | Some r \<Rightarrow> ar_id r = 1 \<and> ar_arrived r = 0 \<and> ar_deliver_response r
             \<and> \<not> ar_from_user r \<and> \<not> ar_response_populated r)
        \<and> (case mw_xen_response_available (ker_echo 0) s of (None, u) \<Rightarrow> False | (Some h, u) \<Rightarrow>
             (let g = mw_xen_get_next_response (ker_echo 0) h u in fst (fst g) = 0
              \<and> \<not> rs_type_is MtRequestSocketAccept (snd (fst g)) \<and> \<not> rs_type_is MtRequestSocketSend (snd (fst g))
              \<and> rs_id (rs_base (snd (fst g))) = 1)))"
  by code_simp

lemma pvm_waiting_step: "\<exists>rc. mwsocket_block_ip_mitigation (ker_echo 0) 5 (1, ''1.2.3.4'') (pvm_demo []) = Some (rc, pvm_waiting)"
  using pvm_waiting_facts unfolding pvm_waiting_def
  by (cases "mwsocket_block_ip_mitigation (ker_echo 0) 5 (1, ''1.2.3.4'') (pvm_demo [])") auto

lemma pvm_waiting_reach: "pvm_reach (ker_echo 0) pvm_waiting"
  using pvm_waiting_step by (blast intro: pvm_reach.step [OF pvm_demo_start pvm_step.block_ip])

theorem response_goes_to_its_request_witness:
  "\<exists>h u rsp v t r q. pvm_reach (ker_echo 0) pvm_waiting \<and> mw_xen_response_available (ker_echo 0) pvm_waiting = (Some h, u)
     \<and> mw_xen_get_next_response (ker_echo 0) h u = ((0, rsp), v) \<and> rs_id (rs_base rsp) = 1
     \<and> mwsocket_response_consumer (ker_echo 0) pvm_waiting = Some (True, t)
     \<and> ar_heap pvm_waiting 1 = Some r \<and> ar_id r = 1 \<and> ar_arrived r = 0
     \<and> ar_heap t 1 = Some q \<and> ar_arrived q = 1 \<and> ar_rr q = RrResponse rsp"
proof -
  let ?get = "mw_xen_get_next_response (ker_echo 0)"
  from pvm_waiting_step obtain rc
    where "mwsocket_block_ip_mitigation (ker_echo 0) 5 (1, ''1.2.3.4'') (pvm_demo []) = Some (rc, pvm_waiting)" by blast
  note facts = pvm_waiting_facts [unfolded this option.case prod.case Let_def]
  then obtain r where pe: "\<not> sock_pending_exit pvm_waiting" and r: "ar_heap pvm_waiting 1 = Some r" "ar_id r = 1"
    "ar_arrived r = 0" "ar_deliver_response r" "\<not> ar_from_user r" "\<not> ar_response_populated r"
    by (auto split: option.split_asm)
  from facts obtain h u where a: "mw_xen_response_available (ker_echo 0) pvm_waiting = (Some h, u)"
    and g: "fst (fst (?get h u)) = 0" "\<not> rs_type_is MtRequestSocketAccept (snd (fst (?get h u)))"
      "\<not> rs_type_is MtRequestSocketSend (snd (fst (?get h u)))" "rs_id (rs_base (snd (fst (?get h u)))) = 1"
    by (auto split: prod.split_asm option.split_asm)
  obtain rsp v where v: "?get h u = ((0, rsp), v)" using g(1) by (metis prod.collapse)
  with g have ty: "\<not> rs_type_is MtRequestSocketAccept rsp" "\<not> rs_type_is MtRequestSocketSend rsp"
    and rid: "rs_id (rs_base rsp) = 1" by simp_all
  from response_goes_to_its_request [OF pvm_waiting_reach a v pe ty(1)] ty(2) r rid
  obtain t where t: "mwsocket_response_consumer (ker_echo 0) pvm_waiting = Some (True, t)"
    and "ar_heap t 1 = Some (r\<lparr>ar_rr := RrResponse rsp, ar_response_populated := True, ar_arrived := 1\<rparr>)"
    by fastforce
  then show ?thesis using a v rid r pvm_waiting_reach by fastforce
qed

section \<open>Poll events\<close>

text \<open>
  The distribution of poll events clears the events of the primary socket for every socket instance
  that belongs to it. A socket is in the list behind the siblings made for it later, so that the events of a
  sibling are lost when the response does not mention the primary socket itself.
\<close>

lemma distribute1_other_socks:
  assumes "poll_distribute1 evs y s = Some t"
  shows "map_option (\<lambda>i. (si_remote_fd i, si_usersock i)) (si_heap t x) = map_option (\<lambda>i. (si_remote_fd i, si_usersock i)) (si_heap s x)"
  using assms by (auto simp: poll_distribute1_def Option.bind_eq_Some_conv Let_def upd_si_def option.map_comp comp_def split: option.split)

lemma distribute_other_socks:
  "poll_distribute evs xs s = Some t \<Longrightarrow>
    map_option (\<lambda>i. (si_remote_fd i, si_usersock i)) (si_heap t x) = map_option (\<lambda>i. (si_remote_fd i, si_usersock i)) (si_heap s x)"
  by (induction xs arbitrary: s) (auto simp: Option.bind_eq_Some_conv dest!: distribute1_other_socks [where x = x])

lemma poll_distribute_append:
  "poll_distribute evs (xs @ ys) s = poll_distribute evs xs s \<bind> poll_distribute evs ys"
  by (induction xs arbitrary: s) (auto intro: Option.bind_cong)

lemma poll_events_of_siblings_lost:
  assumes "poll_distribute evs (xs @ [x]) s = Some t" and x: "si_heap s x = Some i" "si_usersock i = x"
    and "map_of evs (si_remote_fd i) = None"
  shows "\<exists>j. si_heap t x = Some j \<and> si_poll_events j = 0"
proof -
  from assms(1) obtain u where u: "poll_distribute evs xs s = Some u" "poll_distribute1 evs x u = Some t"
    by (auto simp: poll_distribute_append Option.bind_eq_Some_conv)
  from distribute_other_socks [OF u(1), of x] x obtain k where "si_heap u x = Some k" "si_remote_fd k = si_remote_fd i" "si_usersock k = x"
    by auto
  with u(2) assms(4) show ?thesis by (auto simp: poll_distribute1_def upd_si_def)
qed

end
