(* ===== verification/PvmErrors.thy ===== *)
theory PvmErrors
  imports PvmInv
begin

text \<open>
  Errors in the socket layer of the PVM: what the result of sending a request means, the errors of
  requests nobody waits for, and attributes that are only queried.
\<close>

section \<open>Requests put on a ring\<close>

text \<open>The requests that a sequence of calls has put on rings.\<close>

fun push_of :: "kcall \<times> kret \<Rightarrow> (nat \<times> mt_request_generic) list" where
  "push_of (KRingPush h q, r) = [(h, q)]"
| "push_of _ = []"

definition pushed :: "('w, 'm) mw_xen_scheme \<Rightarrow> (nat \<times> mt_request_generic) list" where
  "pushed s = concat (map push_of (ktrace s))"

lemma pushed_kdo: "pushed (snd (kdo ker c s)) = pushed s @ push_of (c, fst (kdo ker c s))"
  by (simp add: pushed_def kdo_def split_beta)

lemma pushed_upd_ins [simp]: "pushed (upd_ins i f s) = pushed s"
  by (simp add: pushed_def)

lemma pushed_end_grants [simp]: "pushed (end_grants ker gs s) = pushed s"
  by (induction ker gs s rule: end_grants.induct) (simp_all add: pushed_kdo)

lemma pushed_release_ins [simp]: "pushed (mw_xen_release_ins ker i s) = pushed s"
  by (simp add: mw_xen_release_ins_def mw_xen_is_evt_chn_closed_def mw_xen_free_unbound_evt_chn_def Let_def split_beta
      pushed_kdo)

text \<open>While waiting for a slot nothing is put on a ring; the wait fails only when the INS is gone or without waiting.\<close>

lemma ring_wait_result:
  assumes ret: "ring_wait ker W i s = Some y"
  shows "pushed (snd y) = pushed s \<and> length (ins (snd y)) = length (ins s)
    \<and> (fst y \<noteq> 0 \<longrightarrow> W \<longrightarrow> id_in_use (ins (snd y) ! i) = 0)"
  by (rule ring_wait.raw_induct [where
        P = "\<lambda>ker W i s y. pushed (snd y) = pushed s \<and> length (ins (snd y)) = length (ins s) \<and> (fst y \<noteq> 0 \<longrightarrow> W \<longrightarrow> id_in_use (ins (snd y) ! i) = 0)", OF _ ret])
    (auto simp: Let_def split_beta pushed_kdo split: if_split_asm)

lemma pushed_new_socket_rr: "mw_xen_new_socket_rr s = Some (d, t) \<Longrightarrow> pushed t = pushed s"
  by (drule new_socket_rr_result) (auto simp: pushed_def)

lemma ins_from_domid_index: "mw_xen_get_ins_from_domid d s = (rc, Some i) \<Longrightarrow> i < length (ins s)"
  by (auto simp: mw_xen_get_ins_from_domid_def split: option.split_asm dest: first_idx_SomeD)

lemma slot_result:
  assumes "mw_xen_get_next_request_slot ker W d s = Some ((rc, h), t)"
  shows "pushed t = pushed s \<and> (rc = 0 \<longrightarrow> (\<exists>i. h = Some i \<and> i < length (ins t)))
    \<and> (rc \<noteq> 0 \<longrightarrow> W \<longrightarrow> (\<forall>i. h = Some i \<longrightarrow> id_in_use (ins t ! i) = 0))"
proof -
  from assms obtain d' u where du: "(if d = DOMID_INVALID \<or> d = - 1 then mw_xen_new_socket_rr s else Some (d, s)) = Some (d', u)"
    unfolding mw_xen_get_next_request_slot_def Option.bind_eq_Some_conv by auto
  then have u: "pushed u = pushed s" using pushed_new_socket_rr [of s] by (auto split: if_split_asm)
  obtain rc' h' where ins: "mw_xen_get_ins_from_domid d' u = (rc', h')" by fastforce
  have eq: "mw_xen_get_next_request_slot ker W d s =
      (case (rc', h') of
         (rc, None) \<Rightarrow> Some ((rc, None), u)
       | (rc, Some i) \<Rightarrow>
           if rc \<noteq> 0 then Some ((rc, None), u)
           else if \<not> id_is_ring_ready (ins u ! i) then Some ((- EIO, None), u)
           else if id_locked (ins u ! i) then None
           else case ring_wait ker W i (upd_ins i (\<lambda>d. d\<lparr>id_locked := True, id_curr_req := None\<rparr>) u) of
              None \<Rightarrow> None
            | Some (rc, s) \<Rightarrow>
                if rc \<noteq> 0 then Some ((rc, Some i), s)
                else let (r, s) = kdo ker (KRingSlot i) s
                     in Some ((0, Some i), upd_ins i (\<lambda>d. d\<lparr>id_curr_req := Some (kr_request r)\<rparr>) s))"
    by (simp only: mw_xen_get_next_request_slot_def Let_def du prod.case ins bind.bind_lunit)
  have "h' = None \<Longrightarrow> rc' \<noteq> 0" using ins by (auto simp: mw_xen_get_ins_from_domid_def split: option.split_asm)
  moreover have "h' = Some i \<Longrightarrow> i < length (ins u)" for i using ins_from_domid_index ins by blast
  ultimately show ?thesis
    using assms u unfolding eq
    by (auto simp: Let_def split_beta pushed_kdo split: option.split_asm if_split_asm dest!: ring_wait_result)
qed

lemma release_unsent:
  assumes "mw_xen_release_request ker h False s = Some (rc, t)"
  shows "pushed t = pushed s" and "rc = 0 \<or> rc = - EINVAL"
    and "(\<And>i. h = Some i \<Longrightarrow> id_in_use (ins s ! i) = 0) \<Longrightarrow> rc = - EINVAL"
  using assms by (auto simp: mw_xen_release_request_def release_request_exit_def split: option.split_asm if_split_asm)

lemma release_sent:
  assumes "mw_xen_release_request ker (Some h) True (put_request h q s) = Some (rc, t)" and "h < length (ins s)"
  shows "pushed t = pushed s @ [(h, q)] \<or> (pushed t = pushed s \<and> rc = - EINVAL)"
  using assms
  by (auto simp: mw_xen_release_request_def release_request_exit_def put_request_def mw_xen_send_event_def Let_def split_beta
      pushed_kdo split: option.split_asm if_split_asm)

section \<open>The result of sending a request\<close>

text \<open>Preparing a request puts nothing on a ring, and keeps its id and type.\<close>

lemma set_pollable_xen: "mwsocket_set_pollable x b s = Some t \<Longrightarrow> pushed t = pushed s \<and> ins t = ins s"
  by (auto simp: mwsocket_set_pollable_def Option.bind_eq_Some_conv pushed_def upd_si_def)

lemma upd_xen [simp]:
  "pushed (upd_si x f s) = pushed s" "ins (upd_si x f s) = ins s" "pushed (upd_ar a g s) = pushed s" "ins (upd_ar a g s) = ins s"
  by (simp_all add: pushed_def upd_si_def upd_ar_def)

lemma close_lock_tries_xen:
  "close_lock_tries ker x n s = Some t \<Longrightarrow> pushed t = pushed s \<and> ins t = ins s \<and> ar_heap t = ar_heap s"
proof (induction n arbitrary: s)
  case (Suc n)
  from Suc.prems obtain i where "si_heap s x = Some i" by (auto simp: Option.bind_eq_Some_conv)
  with Suc.prems Suc.IH [of "snd (kdo ker KSleep s)"] show ?case
    by (auto simp: pushed_kdo more_selectors(2) [OF kdo_more [of ker KSleep s]] split: if_split_asm)
qed simp

lemma preproc_close_lock_xen:
  "preproc_close_lock ker rid x req s = Some t \<Longrightarrow> pushed t = pushed s \<and> ins t = ins s \<and> ar_heap t = ar_heap s"
  by (auto simp: preproc_close_lock_def Option.bind_eq_Some_conv split: if_split_asm dest!: close_lock_tries_xen)

text \<open>The descriptor of a socket that a request names, before and after these steps.\<close>

definition remote_fds :: "'w pvm \<Rightarrow> nat \<Rightarrow> mw_socket_fd option" where
  "remote_fds s x = map_option si_remote_fd (si_heap s x)"

lemma remote_fds_upd_si: "(\<And>i. si_remote_fd (f i) = si_remote_fd i) \<Longrightarrow> remote_fds (upd_si x f s) = remote_fds s"
  by (auto simp: remote_fds_def upd_si_def fun_eq_iff option.map_comp comp_def)

lemma remote_fds_upd_ar [simp]: "remote_fds (upd_ar a f s) = remote_fds s"
  by (simp add: remote_fds_def upd_ar_def fun_eq_iff)

lemma close_lock_tries_fds: "close_lock_tries ker x n s = Some t \<Longrightarrow> remote_fds t = remote_fds s"
proof (induction n arbitrary: s)
  case (Suc n)
  have "remote_fds (snd (kdo ker KSleep s)) = remote_fds s"
    using more_selectors(1) [OF kdo_more [of ker KSleep s]] by (simp add: remote_fds_def fun_eq_iff)
  with Suc show ?case by (auto simp: Option.bind_eq_Some_conv remote_fds_upd_si split: if_split_asm)
qed simp

lemma preproc_close_lock_fds: "preproc_close_lock ker rid x req s = Some t \<Longrightarrow> remote_fds t = remote_fds s"
  by (auto simp: preproc_close_lock_def Option.bind_eq_Some_conv remote_fds_upd_si split: if_split_asm dest!: close_lock_tries_fds)

lemma preproc_by_type_fd [simp]: "si_remote_fd (preproc_by_type req i) = si_remote_fd i"
  by (simp add: preproc_by_type_def)

text \<open>What may become of a request on its way to the ring: an accept may get the descriptor of the sibling that has an event.\<close>

definition routed :: "'w pvm \<Rightarrow> mwsocket_instance \<Rightarrow> mt_request_generic \<Rightarrow> mt_request_generic \<Rightarrow> bool" where
  "routed s i req q \<longleftrightarrow> q = req
     \<or> rq_type_is MtRequestSocketAccept req \<and> (\<exists>p fd. si_poll_active i = Some p \<and> remote_fds s p = Some fd \<and> q = set_rq_sockfd fd req)"

lemma preproc_xen:
  assumes "mwsocket_pre_process_request ker a s = Some t" and "ar_heap s a = Some r" and "ar_rr r = RrRequest req" and "si_heap s (ar_sockinst r) = Some i"
  shows "pushed t = pushed s \<and> length (ins t) = length (ins s) \<and> (\<exists>r' q. ar_heap t a = Some r' \<and> ar_rr r' = RrRequest q \<and> routed s i req q)"
proof -
  let ?x = "ar_sockinst r"
  let ?s = "if MT_REQUEST_CALLER_WAITS req then upd_ar a (\<lambda>r. r\<lparr>ar_deliver_response := True\<rparr>)
      (upd_si ?x (\<lambda>i. i\<lparr>si_read_expected := True, si_blockid := ar_id r\<rparr>) s) else s"
  have s: "\<exists>r'. ar_heap ?s a = Some r' \<and> ar_rr r' = RrRequest req" "pushed ?s = pushed s" "ins ?s = ins s" "remote_fds ?s = remote_fds s"
    using assms(2,3) by (simp_all add: remote_fds_upd_si)
  from assms obtain u where u: "preproc_close_lock ker (ar_id r) ?x req ?s = Some u"
    and fin: "(if rq_type_is MtRequestSocketAccept req \<and> si_poll_events i AND POLLIN \<noteq> 0 then
       case si_poll_active i of None \<Rightarrow> Some (upd_si ?x (preproc_by_type req) u)
       | Some p \<Rightarrow> Option.bind (si_heap (upd_si ?x (preproc_by_type req) u) p)
           (\<lambda>pi. Some (upd_ar a (\<lambda>r. r\<lparr>ar_rr := RrRequest (set_rq_sockfd (si_remote_fd pi) req)\<rparr>) (upd_si ?x (preproc_by_type req) u)))
     else Some (upd_si ?x (preproc_by_type req) u)) = Some t"
    by (auto simp: mwsocket_pre_process_request_def Let_def Option.bind_eq_Some_conv)
  note x = preproc_close_lock_xen [OF u] and f = preproc_close_lock_fds [OF u]
  have fd: "remote_fds (upd_si ?x (preproc_by_type req) u) = remote_fds s" using f s(4) by (simp add: remote_fds_upd_si)
  have "remote_fds s p = Some (si_remote_fd pi)" if "si_heap (upd_si ?x (preproc_by_type req) u) p = Some pi" for p pi
    using that unfolding fd [symmetric] by (simp add: remote_fds_def)
  with fin x s(1-3) show ?thesis
    by (auto simp: routed_def Option.bind_eq_Some_conv split: if_split_asm option.split_asm)
qed

lemma release_none: "mw_xen_release_request ker None b s = Some (rc, t) \<Longrightarrow> rc = - EINVAL \<and> pushed t = pushed s"
  by (simp add: mw_xen_release_request_def)

text \<open>The ring of a slot is the one of the INS that was asked for.\<close>

lemma slot_domid:
  assumes "mw_xen_get_next_request_slot ker W d s = Some ((0, Some i), t)" and "d \<noteq> DOMID_INVALID" and "d \<noteq> - 1"
  shows "id_domid (ins s ! i) = d"
proof -
  from assms have "mw_xen_get_ins_from_domid d s = (0, Some i)"
    by (auto simp: mw_xen_get_next_request_slot_def Let_def split_beta prod_eq_iff split: option.split_asm if_split_asm prod.split_asm)
  then show ?thesis by (auto simp: mw_xen_get_ins_from_domid_def split: option.split_asm dest: first_idx_SomeD)
qed

text \<open>The last part of sending, from the reserved slot on.\<close>

lemma send_from_slot:
  assumes "mwsocket_pre_process_request ker a u = Some v" and "ar_heap u a = Some r" and "ar_rr r = RrRequest req" and "si_heap u (ar_sockinst r) = Some si"
    and "do { ar \<leftarrow> ar_heap v a; req \<leftarrow> rr_request (ar_rr ar); hi \<leftarrow> h;
              mw_xen_release_request ker h True (put_request hi req v) } = Some (rc, t)"
    and "h = Some i" and "i < length (ins u)"
  shows "(\<exists>q. pushed t = pushed u @ [(i, q)] \<and> routed u si req q) \<or> (pushed t = pushed u \<and> rc = - EINVAL)"
proof -
  from preproc_xen [OF assms(1-4)] obtain r' q where v: "pushed v = pushed u" "length (ins v) = length (ins u)"
    "ar_heap v a = Some r'" "ar_rr r' = RrRequest q" "routed u si req q" by blast
  with assms(5,6) have "mw_xen_release_request ker (Some i) True (put_request i q v) = Some (rc, t)" by simp
  from release_sent [OF this] assms(7) v show ?thesis by auto
qed

text \<open>The body of \<open>mwsocket_send_request\<close> once its request and its socket instance are known.\<close>

lemma send_request_eq:
  assumes "ar_heap s a = Some r" and "ar_rr r = RrRequest req" and "si_heap s (ar_sockinst r) = Some i"
    and "p = prepare_base (ar_id r) (si_remote_fd i) req" and "u = upd_ar a (\<lambda>r. r\<lparr>ar_rr := RrRequest p\<rparr>) s" and "x = ar_sockinst r"
  shows "mwsocket_send_request ker a W s =
    (if \<not> MT_IS_REQUEST (rq_base p) then mw_xen_release_request ker None False u
     else if \<not> si_ins_alive i then mwsocket_set_pollable x False u \<bind> mw_xen_release_request ker None False
     else mw_xen_get_next_request_slot ker W (MW_SOCKET_CLIENT_ID (rq_sockfd (rq_base p))) u \<bind> (\<lambda>((rc, h), s).
       if rc \<noteq> 0 then (if W then mwsocket_set_pollable x False (upd_si x (\<lambda>i. i\<lparr>si_ins_alive := False\<rparr>) s) else Some s)
            \<bind> mw_xen_release_request ker h False
       else mwsocket_pre_process_request ker a s \<bind> (\<lambda>s. do { ar \<leftarrow> ar_heap s a; req \<leftarrow> rr_request (ar_rr ar); hi \<leftarrow> h;
              mw_xen_release_request ker h True (put_request hi req s) })))"
  unfolding assms(4-6) using assms(1-3) by (simp add: mwsocket_send_request_def Let_def)

text \<open>The request as it is sent: the driver fills in the signature, the id and, where the user has given none, the descriptor.\<close>

lemma prepare_base_eq:
  "prepare_base rid rfd req = req\<lparr>rq_base := (rq_base req)\<lparr>rq_sig := MT_SIGNATURE_REQUEST, rq_id := rid,
     rq_sockfd := (if MW_SOCKET_IS_FD (rq_sockfd (rq_base req)) then rq_sockfd (rq_base req) else rfd)\<rparr>\<rparr>"
  by (simp add: prepare_base_def Let_def)

text \<open>
  C26 (error): sending a request either puts exactly one request on the ring of the INS that the descriptor names (any INS, if it names none), or puts nothing on any ring. What is put on the ring is the whole request
  of the user, payload, type, size and flags unchanged, with the signature, the id of its active request and the descriptor \<open>fd\<close> filled in; only for an accept the descriptor
  may be that of the sibling that has an event, although the ring is still that of the INS of \<open>fd\<close>. When nothing is put, a caller that is willing to wait for the
  ring gets \<open>-EINVAL\<close> whatever the reason was (an INS that is not known, dead or not ready), and one
  that is not may be told 0.
\<close>

theorem send_request_result:
  assumes send: "mwsocket_send_request ker a W s = Some (rc, t)" and r: "ar_heap s a = Some r"
    and req: "ar_rr r = RrRequest req" and i: "si_heap s (ar_sockinst r) = Some i"
    and fd: "fd = (if MW_SOCKET_IS_FD (rq_sockfd (rq_base req)) then rq_sockfd (rq_base req) else si_remote_fd i)"
  shows "(\<exists>h fd'. pushed t = pushed s @ [(h, req\<lparr>rq_base := (rq_base req)\<lparr>rq_sig := MT_SIGNATURE_REQUEST, rq_id := ar_id r, rq_sockfd := fd'\<rparr>\<rparr>)]
      \<and> (MW_SOCKET_CLIENT_ID fd \<noteq> DOMID_INVALID \<longrightarrow> MW_SOCKET_CLIENT_ID fd \<noteq> - 1 \<longrightarrow> id_domid (ins s ! h) = MW_SOCKET_CLIENT_ID fd)
      \<and> (fd' = fd \<or> rq_type_is MtRequestSocketAccept req
           \<and> (\<exists>p j. si_poll_active i = Some p \<and> si_heap s p = Some j \<and> fd' = si_remote_fd j)))
    \<or> (pushed t = pushed s \<and> (rc = - EINVAL \<or> \<not> W \<and> rc = 0))"
proof -
  let ?x = "ar_sockinst r"
  define p where "p = prepare_base (ar_id r) (si_remote_fd i) req"
  define u where "u = upd_ar a (\<lambda>r. r\<lparr>ar_rr := RrRequest p\<rparr>) s"
  have p: "p = req\<lparr>rq_base := (rq_base req)\<lparr>rq_sig := MT_SIGNATURE_REQUEST, rq_id := ar_id r, rq_sockfd := fd\<rparr>\<rparr>"
    by (simp add: p_def prepare_base_eq fd)
  have u: "pushed u = pushed s" "ar_heap u a = Some (r\<lparr>ar_rr := RrRequest p\<rparr>)" "si_heap u = si_heap s" "ins u = ins s"
    using r by (simp_all add: u_def)
  note eq = send_request_eq [OF r req i p_def u_def refl]
  show ?thesis
  proof (cases "MT_IS_REQUEST (rq_base p) \<and> si_ins_alive i")
    case False
    then show ?thesis
      using send u unfolding eq
      by (auto simp: Option.bind_eq_Some_conv split: if_split_asm dest!: release_none set_pollable_xen)
  next
    case True
    with send obtain rc' h v where slot: "mw_xen_get_next_request_slot ker W (MW_SOCKET_CLIENT_ID (rq_sockfd (rq_base p))) u = Some ((rc', h), v)"
      unfolding eq by (auto simp: Option.bind_eq_Some_conv)
    note res = slot_result [OF slot]
    have heap: "ar_heap v a = Some (r\<lparr>ar_rr := RrRequest p\<rparr>)" "si_heap v = si_heap s"
      using u more_selectors(1,2) [OF request_slot_more [OF slot]] by simp_all
    show ?thesis
    proof (cases "rc' = 0")
      case rc': True
      with res obtain j where j: "h = Some j" "j < length (ins v)" by blast
      have dom: "MW_SOCKET_CLIENT_ID fd \<noteq> DOMID_INVALID \<longrightarrow> MW_SOCKET_CLIENT_ID fd \<noteq> - 1 \<longrightarrow> id_domid (ins s ! j) = MW_SOCKET_CLIENT_ID fd"
        using slot_domid [OF slot [unfolded rc' j(1)]] u(4) by (simp add: p)
      from send [unfolded eq] True slot rc' obtain w where w: "mwsocket_pre_process_request ker a v = Some w"
        and "do { ar \<leftarrow> ar_heap w a; req \<leftarrow> rr_request (ar_rr ar); hi \<leftarrow> h;
              mw_xen_release_request ker h True (put_request hi req w) } = Some (rc, t)"
        by (auto simp: Option.bind_eq_Some_conv)
      from send_from_slot [OF w heap(1) _ _ this(2) j, of p i] heap(2) i res u
      consider (sent) q where "pushed t = pushed s @ [(j, q)]" "routed v i p q" | (unsent) "pushed t = pushed s" "rc = - EINVAL" by auto
      then show ?thesis using dom heap(2) p by cases (auto simp: routed_def remote_fds_def rq_type_is_def set_rq_sockfd_def)
    next
      case False
      define y where "y = (if W then mwsocket_set_pollable ?x False (upd_si ?x (\<lambda>i. i\<lparr>si_ins_alive := False\<rparr>) v) else Some v)"
      from send [unfolded eq] True slot False obtain w where w: "y = Some w" and rel: "mw_xen_release_request ker h False w = Some (rc, t)"
        by (auto simp: Option.bind_eq_Some_conv y_def)
      from w have "pushed w = pushed v" "ins w = ins v" by (auto simp: y_def split: if_split_asm dest!: set_pollable_xen)
      with release_unsent [OF rel] res False u show ?thesis by auto
    qed
  qed
qed

text \<open>A close of a socket on the INS 5, which goes to its ring; the descriptor comes from the socket.\<close>

definition pvm_closing :: "unit pvm" where
  "pvm_closing = (pvm_demo ())\<lparr>
     si_heap := [1 \<mapsto> (si_new 1)\<lparr>si_remote_fd := MW_SOCKET_CREATE 5 3, si_refct := 2\<rparr>], sockinst_list := [1],
     ar_heap := [2 \<mapsto> (ar_zeroed 1)\<lparr>ar_id := 7, ar_rr := RrRequest (new_request MtRequestSocketClose MT_REQUEST_SOCKET_CLOSE_SIZE)\<rparr>],
     active_request_list := [2]\<rparr>"

theorem send_request_result_witness:
  "\<exists>rc t h. mwsocket_send_request ker_demo 2 True pvm_closing = Some (rc, t) \<and> id_domid (ins pvm_closing ! h) = 5
     \<and> pushed t = [(h, (new_request MtRequestSocketClose MT_REQUEST_SOCKET_CLOSE_SIZE)\<lparr>rq_base :=
          (rq_base (new_request MtRequestSocketClose MT_REQUEST_SOCKET_CLOSE_SIZE))
            \<lparr>rq_sig := MT_SIGNATURE_REQUEST, rq_id := 7, rq_sockfd := MW_SOCKET_CREATE 5 3\<rparr>\<rparr>)]"
proof -
  let ?req = "new_request MtRequestSocketClose MT_REQUEST_SOCKET_CLOSE_SIZE" and ?fd = "MW_SOCKET_CREATE 5 3"
  have "case mwsocket_send_request ker_demo 2 True pvm_closing of None \<Rightarrow> False | Some (rc, t) \<Rightarrow> pushed t \<noteq> []" by code_simp
  then obtain rc t where t: "mwsocket_send_request ker_demo 2 True pvm_closing = Some (rc, t)" "pushed t \<noteq> []"
    by (auto split: option.splits prod.splits)
  have fd: "\<not> MW_SOCKET_IS_FD (rq_sockfd (rq_base ?req))" "MW_SOCKET_CLIENT_ID ?fd = 5" "\<not> rq_type_is MtRequestSocketAccept ?req"
    "pushed pvm_closing = []" "(5::u16) \<noteq> DOMID_INVALID" "(5::u16) \<noteq> - 1" by code_simp+
  define r i where "r = (ar_zeroed 1)\<lparr>ar_id := 7, ar_rr := RrRequest ?req\<rparr>" and "i = (si_new 1)\<lparr>si_remote_fd := ?fd, si_refct := 2\<rparr>"
  have heaps: "ar_heap pvm_closing 2 = Some r" "ar_rr r = RrRequest ?req" "si_heap pvm_closing (ar_sockinst r) = Some i"
    "ar_id r = 7" "si_remote_fd i = ?fd" by (simp_all add: pvm_closing_def r_def i_def ar_zeroed_def)
  with fd(1) have "?fd = (if MW_SOCKET_IS_FD (rq_sockfd (rq_base ?req)) then rq_sockfd (rq_base ?req) else si_remote_fd i)" by simp
  from send_request_result [OF t(1) heaps(1-3) this] show ?thesis using t fd heaps(4) by (metis append_Nil)
qed

section \<open>Errors of requests nobody waits for\<close>

definition no_pending :: "nat set \<Rightarrow> 'w pvm \<Rightarrow> bool" where
  "no_pending E s \<longleftrightarrow> (\<forall>x i. si_heap s x = Some i \<longrightarrow> si_pending_errno i = 0)"

lemma no_pending_si:
  "(\<And>i. si_heap s x = Some i \<Longrightarrow> same_refs i (f i)) \<Longrightarrow> no_pending E s \<Longrightarrow> no_pending E (upd_si x f s)"
  by (auto simp: no_pending_def same_refs_def)

lemma no_pending_put: "no_pending E s \<Longrightarrow> pred_option (no_pending F) (mwsocket_put_sockinst (Some x) s)"
  by (auto simp: mwsocket_put_sockinst_def mwsocket_set_pollable_def unlink_sibling_def no_pending_def Let_def upd_si_def
      intro!: wp)

lemma no_pending_xen: "mw_xen.more t = mw_xen.more s \<Longrightarrow> no_pending E s \<Longrightarrow> no_pending E t"
  by (simp add: no_pending_def more_selectors [of t s])

lemma no_pending_destroy: "no_pending E s \<Longrightarrow> pred_option (no_pending E) (mwsocket_destroy_active_request actreq s)"
proof (cases actreq)
  case (Some a)
  assume s: "no_pending E s"
  have put: "pred_option (\<lambda>t. no_pending E (t\<lparr>active_request_list := as t, ar_heap := hs t\<rparr>)) (mwsocket_put_sockinst (Some x) u)"
    if "no_pending E u" for as hs x and u :: "'a pvm"
    using no_pending_put [OF that, of E x] by (rule option.pred_mono_strong) (simp add: no_pending_def)
  show ?thesis
    using s unfolding Some
    by (auto simp: mwsocket_destroy_active_request_def Let_def intro!: wp put no_pending_si simp: same_refs_def)
qed (simp add: mwsocket_destroy_active_request_def)

lemma no_pending_create_ar:
  "no_pending E s \<Longrightarrow> pred_option (\<lambda>y. no_pending E (snd y)) (mwsocket_create_active_request ker x s)"
  by (auto simp: mwsocket_create_active_request_def mwsocket_get_sockinst_def mwsocket_get_next_id_def Let_def split_beta
      no_pending_def more_selectors(1) [OF kdo_more] Option.bind_eq_Some_conv intro!: wp pred_optionI split: if_split_asm)

lemma no_pending_create_si:
  "no_pending E s \<Longrightarrow> pred_option (\<lambda>y. no_pending E (snd y)) (mwsocket_create_sockinst ker p b s)"
  by (auto simp: mwsocket_create_sockinst_def mwsocket_set_pollable_def Let_def split_beta si_new_def
      no_pending_def more_selectors(1) [OF kdo_more] more_selectors(1) [OF create_backing_file_more] upd_si_def
      intro!: wp split: if_split_asm)

lemma no_pending_rest:
  "(\<And>r. ar_heap s a = Some r \<Longrightarrow> same_ar r (g r)) \<Longrightarrow> no_pending E s \<Longrightarrow> no_pending E (upd_ar a g s)"
  "no_pending E s \<Longrightarrow> pred_option (no_pending E) (mwsocket_set_pollable x b s)"
  "no_pending {} s \<Longrightarrow> si_heap s x = Some i \<Longrightarrow> \<not> flag MWSOCKET_FLAG_RELEASED (si_mwflags i) \<Longrightarrow>
     no_pending {x} (upd_si x (\<lambda>i. i\<lparr>si_mwflags := si_mwflags i OR MWSOCKET_FLAG_RELEASED\<rparr>) s)"
  "no_pending E s \<Longrightarrow> no_pending E (s\<lparr>is_xen_iface_ready := c\<rparr>)"
  "no_pending E s \<Longrightarrow> no_pending E (s\<lparr>event_channel_sem := n\<rparr>)"
  by (auto simp: no_pending_def mwsocket_set_pollable_def upd_si_def intro!: wp)

interpretation quiet: pvm_store no_pending
  by unfold_locales (fact no_pending_xen no_pending_si no_pending_rest no_pending_create_ar no_pending_destroy
      no_pending_create_si no_pending_put)+

text \<open>
  C27 (error): in every reachable state no socket has a pending error, so that a request nobody waits
  for and that failed on the INS is never reported: the check for pending errors that read and write
  make returns 0, or \<open>-EPIPE\<close> when the remote side has closed.
\<close>

theorem failed_requests_go_unreported:
  assumes "pvm_reach ker s" and "si_heap s x = Some i"
  shows "si_pending_errno i = 0
    \<and> (\<exists>t. mwsocket_pending_error ker x ty s =
         Some (if si_remote_surprise_close i \<and> ty \<noteq> mt_request_code MtRequestSocketShutdown
                 \<and> ty \<noteq> mt_request_code MtRequestSocketClose then - EPIPE else 0, t) \<and> si_heap t = si_heap s)"
proof -
  have "no_pending {} s" by (rule quiet.reach_keeps [OF assms(1)]) (simp add: no_pending_def pvm_start_def)
  with assms(2) have "si_pending_errno i = 0" by (simp add: no_pending_def)
  then show ?thesis
    using assms(2) more_selectors(1) [OF kdo_more [of ker "KSignal SIGPIPE" s]] by (auto simp: mwsocket_pending_error_def)
qed

theorem failed_requests_go_unreported_witness:
  "\<exists>rc t i u. mwsocket_create_sockinst ker_demo False False (pvm_demo ()) = Some (rc, t) \<and> si_heap t 1 = Some i
     \<and> mwsocket_pending_error ker_demo 1 (mt_request_code MtRequestSocketSend) t = Some (0, u)"
proof -
  have "case mwsocket_create_sockinst ker_demo False False (pvm_demo ()) of None \<Rightarrow> False
    | Some (rc, t) \<Rightarrow> map_option si_remote_surprise_close (si_heap t 1) = Some False" by code_simp
  then obtain rc t i where t: "mwsocket_create_sockinst ker_demo False False (pvm_demo ()) = Some (rc, t)"
    and i: "si_heap t 1 = Some i" "\<not> si_remote_surprise_close i" by (auto split: option.splits prod.splits)
  have "pvm_reach ker_demo t" by (rule pvm_reach.step [OF pvm_demo_start pvm_step.pseudo_socket [OF t]])
  from failed_requests_go_unreported [OF this i(1), of "mt_request_code MtRequestSocketSend"] t i show ?thesis by auto
qed

section \<open>Attributes\<close>

text \<open>The attributes that the ioctl reads from the user.\<close>

definition asked_attrib :: "mt_request_generic \<Rightarrow> mwsocket_attrib" where
  "asked_attrib q = \<lparr>sa_modify = (attrib_modify q \<noteq> 0), sa_name = attrib_rq_name q, sa_val = attrib_rq_val q\<rparr>"

lemma handle_query:
  assumes "\<not> sa_modify A" and "mwsocket_handle_attrib ker File A s = Some ((rc, B), t)"
  shows "B = A"
  using assms
  by (auto simp: mwsocket_handle_attrib_def Option.bind_eq_Some_conv Let_def split_beta
      split: option.split_asm if_split_asm)

text \<open>
  A query of an attribute returns nothing. Whatever the INS answers, the attributes
  are handed back as they came, and the ioctl ends in the state in which the request has ended: only
  the return code goes back to the user, and nothing is copied after it.
\<close>

theorem attribute_query_returns_nothing:
  assumes "mwsocket_find_sockinst File s = Some (0, Some x)" and "kdo ker (KCopyFromUser 0) s = (r, u)" and "kr_ret r = 0"
    and "attrib_modify (kr_request r) = 0"
    and "mwsocket_ioctl ker File MW_IOCTL_SOCKET_ATTRIBUTES s = Some (rc, t)"
  shows "mwsocket_handle_attrib ker File (asked_attrib (kr_request r)) u = Some ((rc, asked_attrib (kr_request r)), t)"
proof -
  have q: "\<not> sa_modify (asked_attrib (kr_request r))" using assms(4) by (simp add: asked_attrib_def)
  from assms obtain B where "mwsocket_handle_attrib ker File (asked_attrib (kr_request r)) u = Some ((rc, B), t)"
    by (auto simp: mwsocket_ioctl_def asked_attrib_def [symmetric] Let_def Option.bind_eq_Some_conv
        dest: handle_query [OF q] simp: q split: if_split_asm)
  with handle_query [OF q] show ?thesis by blast
qed

text \<open>A socket on the INS 5; a query is answered with 5, and the ioctl returns 0.\<close>

definition pvm_querying :: "mt_request_generic list pvm" where
  "pvm_querying = (pvm_demo [])\<lparr>si_heap := [1 \<mapsto> (si_new 1)\<lparr>si_file := Some 9, si_remote_fd := MW_SOCKET_CREATE 5 3\<rparr>],
     sockinst_list := [1], file_private := [9 \<mapsto> 1]\<rparr>"

theorem attribute_query_returns_nothing_witness:
  "\<exists>t. mwsocket_ioctl (ker_echo 1) 9 MW_IOCTL_SOCKET_ATTRIBUTES pvm_querying = Some (0, t)
     \<and> list_ex (\<lambda>(c, r). c = KRingResponse 0 \<and> feat_v32 (attrib_rs_val (kr_response r)) = 5) (ktrace t)
     \<and> mwsocket_handle_attrib (ker_echo 1) 9 (asked_attrib user_request) (snd (kdo (ker_echo 1) (KCopyFromUser 0) pvm_querying)) =
         Some ((0, asked_attrib user_request), t)"
proof -
  have "case mwsocket_ioctl (ker_echo 1) 9 MW_IOCTL_SOCKET_ATTRIBUTES pvm_querying of None \<Rightarrow> False
    | Some (rc, t) \<Rightarrow> rc = 0
        \<and> list_ex (\<lambda>(c, r). c = KRingResponse 0 \<and> feat_v32 (attrib_rs_val (kr_response r)) = 5) (ktrace t)" by code_simp
  then obtain t where t: "mwsocket_ioctl (ker_echo 1) 9 MW_IOCTL_SOCKET_ATTRIBUTES pvm_querying = Some (0, t)"
    "list_ex (\<lambda>(c, r). c = KRingResponse 0 \<and> feat_v32 (attrib_rs_val (kr_response r)) = 5) (ktrace t)"
    by (auto split: option.split_asm)
  have "mwsocket_handle_attrib (ker_echo 1) 9 (asked_attrib user_request) (snd (kdo (ker_echo 1) (KCopyFromUser 0) pvm_querying)) =
      Some ((0, asked_attrib user_request), t)"
    using attribute_query_returns_nothing [of 9 pvm_querying 1 "ker_echo 1" kret_demo _ 0 t] t(1)
    by (simp add: mwsocket_find_sockinst_def pvm_querying_def kdo_def kret_demo_def user_request_def rq_demo_def)
  with t show ?thesis by blast
qed

end
