(* ===== verification/PvmRead.thy ===== *)
theory PvmRead
  imports PvmProps PvmErrors
begin

text \<open>
  Reading a response from a socket of the PVM: the reader gets the response of the request it waits
  for, once.
\<close>

section \<open>Copies to the user\<close>

fun copy_of :: "kcall \<times> kret \<Rightarrow> mt_response_generic list" where
  "copy_of (KCopyToUser rsp, r) = [rsp]"
| "copy_of _ = []"

definition copied :: "('w, 'm) mw_xen_scheme \<Rightarrow> mt_response_generic list" where
  "copied s = concat (map copy_of (ktrace s))"

lemma copied_kdo: "copied (snd (kdo ker c s)) = copied s @ copy_of (c, fst (kdo ker c s))"
  by (simp add: copied_def kdo_def split_beta)

lemma copied_upd [simp]: "copied (upd_si x f s) = copied s" "copied (upd_ar a g s) = copied s" "copied (request_sem_up x s) = copied s"
  by (simp_all add: copied_def upd_si_def upd_ar_def request_sem_up_def)

lemma kworld_upd [simp]: "kworld (upd_si x f s) = kworld s" "kworld (upd_ar a g s) = kworld s"
  by (simp_all add: upd_si_def upd_ar_def)

lemma file_private_upd [simp]:
  "file_private (upd_si x f s) = file_private s" "file_private (upd_ar a g s) = file_private s"
  by (simp_all add: upd_si_def upd_ar_def)

section \<open>Destroying the request\<close>

definition same_file :: "mwsocket_instance \<Rightarrow> mwsocket_instance \<Rightarrow> bool" where
  "same_file i j \<longleftrightarrow> si_file j = si_file i \<and> si_read_expected j = si_read_expected i \<and> si_state_valid j = si_state_valid i"

lemma put_same_file:
  assumes "mwsocket_put_sockinst (Some y) s = Some t" and "si_heap t x = Some j"
  shows "\<exists>i. si_heap s x = Some i \<and> same_file i j" and "copied t = copied s \<and> file_private t = file_private s"
proof -
  from assms(1) obtain i where i: "si_heap s y = Some i"
    by (auto simp: mwsocket_put_sockinst_def Option.bind_eq_Some_conv)
  have "(\<exists>i. si_heap s x = Some i \<and> same_file i j) \<and> copied t = copied s \<and> file_private t = file_private s"
  proof (cases "si_refct i = 1")
    case True
    with assms i show ?thesis
      by (auto simp: mwsocket_put_sockinst_def mwsocket_set_pollable_def unlink_sibling_def upd_si_def same_file_def copied_def
          Let_def split: if_split_asm)
  next
    case False
    with assms i show ?thesis by (auto simp: mwsocket_put_sockinst_def upd_si_def same_file_def copied_def split: if_split_asm)
  qed
  then show "\<exists>i. si_heap s x = Some i \<and> same_file i j" and "copied t = copied s \<and> file_private t = file_private s" by auto
qed

lemma destroy_same_file:
  assumes "mwsocket_destroy_active_request (Some a) s = Some t" and "si_heap t x = Some j"
  shows "\<exists>i. si_heap s x = Some i \<and> same_file i j" and "copied t = copied s \<and> file_private t = file_private s"
proof -
  from assms(1) obtain ar i where ar: "ar_heap s a = Some ar" and i: "si_heap s (ar_sockinst ar) = Some i"
    by (auto simp: mwsocket_destroy_active_request_def Option.bind_eq_Some_conv)
  define u where "u = (if si_close_blockid i = ar_id ar
      then upd_si (ar_sockinst ar) (\<lambda>i. i\<lparr>si_close_blockid := MT_ID_UNSET_VALUE\<rparr>) s else s)"
  from assms(1) ar i obtain v where v: "mwsocket_put_sockinst (Some (ar_sockinst ar)) u = Some v"
    and t: "t = v\<lparr>active_request_list := removeAll a (active_request_list v), ar_heap := (ar_heap v)(a := None)\<rparr>"
    by (auto simp: mwsocket_destroy_active_request_def Option.bind_eq_Some_conv u_def)
  from assms(2) t have "si_heap v x = Some j" by simp
  note p = put_same_file [OF v this]
  show "\<exists>i. si_heap s x = Some i \<and> same_file i j"
    using p(1) by (auto simp: u_def upd_si_def same_file_def split: if_split_asm)
  show "copied t = copied s \<and> file_private t = file_private s" using p(2) t by (auto simp: u_def copied_def split: if_split_asm)
qed

text \<open>An open file keeps its socket instance while its requests are destroyed.\<close>

lemma destroy_keeps_open:
  assumes ok: "refs_ok {} s" and d: "mwsocket_destroy_active_request (Some a) s = Some t"
    and i: "si_heap s x = Some i" "\<not> flag MWSOCKET_FLAG_RELEASED (si_mwflags i)"
  obtains j where "si_heap t x = Some j"
proof -
  note I = refs_invD [OF ok [unfolded refs_ok_def]]
  have cx: "cores s x = Some (si_refct i, si_usersock i, False)" using i by (simp add: cores_def si_core_def released_flag_def)
  from d have "cores t x \<noteq> None"
  proof (rule destroy_refs)
    fix rid y k u r
    assume a: "ars s a = Some (rid, y)" and y: "cores s y = Some (k, u, r)"
      and t: "cores t = (cores s)(y := if k = 1 then None else Some (k - 1, u, r))"
    have "0 < card (requests_on (ars s) y)"
      using a finite_requests_on [OF ok [unfolded refs_ok_def]] by (auto simp: card_gt_0_iff requests_on_def)
    then have "y = x \<Longrightarrow> k \<noteq> 1" using I(8) [OF cx] y cx by auto
    then show ?thesis using t cx by auto
  qed
  then show thesis using that by (auto simp: cores_def)
qed

section \<open>The read\<close>

text \<open>From the response that has arrived to the return of the read.\<close>

lemma read_response_result:
  assumes ok: "refs_ok {} s" and r: "ar_heap s a = Some r" "ar_rr r = RrResponse rsp"
    and i: "si_heap s x = Some i" "\<not> flag MWSOCKET_FLAG_RELEASED (si_mwflags i)" "\<not> si_remote_surprise_close i" "si_pending_errno i = 0"
    and rsp: "\<not> rs_type_is MtRequestSocketAccept rsp" "unat (rs_size (rs_base rsp)) \<le> Len"
    and copy: "kr_ret (fst (ker (KCopyToUser rsp) (kworld s))) = 0"
  shows "\<exists>t j. read_response ker x a Len s = Some (int (unat (rs_size (rs_base rsp))), t) \<and> copied t = copied s @ [rsp]
    \<and> ar_heap t = (ar_heap s)(a := None) \<and> file_private t = file_private s \<and> si_heap t x = Some j \<and> same_file i j"
proof -
  define u where "u = upd_ar a (\<lambda>r. r\<lparr>ar_rr := RrResponse rsp\<rparr>) s"
  define v where "v = snd (kdo ker (KCopyToUser rsp) u)"
  have u: "refs_ok {} u" unfolding u_def by (rule refs_ok_ar [OF _ ok]) (simp add: same_ar_def)
  have v: "refs_ok {} v" unfolding v_def by (rule refs_ok_xen [OF kdo_more u])
  have "r\<lparr>ar_rr := RrResponse rsp\<rparr> = r" using r(2) by (cases r) simp
  then have us: "ar_heap u = ar_heap s" "si_heap u = si_heap s" using r by (auto simp: u_def upd_ar_def)
  note sel = more_selectors [OF kdo_more [of ker "KCopyToUser rsp" u]]
  have vs: "ar_heap v = ar_heap s" "si_heap v = si_heap s" "file_private v = file_private s" "copied v = copied s @ [rsp]"
    using us by (simp_all add: v_def sel copied_kdo) (simp_all add: u_def)
  obtain k where "si_heap v (ar_sockinst r) = Some k" using refs_ok_own [OF ok r(1)] vs(2) by (auto simp: own_si_def)
  with destroy_returns [of v a r k] vs(1) r(1) obtain w where w: "mwsocket_destroy_active_request (Some a) v = Some w" by auto
  obtain j where j: "si_heap w x = Some j" by (rule destroy_keeps_open [OF v w]) (use i vs in auto)
  note d = destroy_same_file [OF w j]
  have pend: "mwsocket_pending_error ker x (rs_type (rs_base rsp) AND MT_TYPE_MASK) u = Some (0, u)"
    using i us by (simp add: mwsocket_pending_error_def)
  have "kdo ker (KCopyToUser rsp) u = (fst (ker (KCopyToUser rsp) (kworld s)), v)"
    by (simp add: v_def kdo_def split_beta) (simp add: u_def)
  then have res: "read_response ker x a Len s = Some (int (unat (rs_size (rs_base rsp))), request_sem_up x w)"
    using r rsp copy pend w j
    by (simp add: read_response_def mwsocket_postproc_in_task_def u_def [symmetric] read_exit_def)
  have "si_heap (request_sem_up x w) x = Some (j\<lparr>si_request_sem := si_request_sem j + 1\<rparr>)"
    using j by (simp add: request_sem_up_def upd_si_def)
  moreover have "same_file i (j\<lparr>si_request_sem := si_request_sem j + 1\<rparr>)" using d(1) vs(2) i(1) by (auto simp: same_file_def)
  moreover have "ar_heap (request_sem_up x w) = (ar_heap s)(a := None)" using destroy_ars [OF w] vs(1) by (simp add: request_sem_up_def)
  ultimately show ?thesis using res d(2) vs by (auto simp: request_sem_up_def)
qed

text \<open>
  C32 (functional): in a reachable state, a read on an open socket whose request has been answered, where
  the socket is in a valid state, has no outstanding accept and was not closed by the remote side, the response is not that to an accept and not longer than the buffer
  of the user, and \<open>copy_to_user\<close> succeeds,
  returns the size of the response, copies exactly this response to the user and destroys the request, all
  other requests staying as they are; a second read returns \<open>-EINVAL\<close> and copies nothing.
\<close>

theorem read_returns_response_once:
  assumes reach: "pvm_reach ker s" and fl: "file_private s File = Some x" "si_heap s x = Some i" "si_file i = Some File"
    and i: "\<not> flag MWSOCKET_FLAG_RELEASED (si_mwflags i)" "si_read_expected i" "si_state_valid i"
      "si_user_outstanding_accept i = 0" "\<not> si_remote_surprise_close i"
    and r: "ar_heap s a = Some r" "ar_id r = si_blockid i" "ar_deliver_response r" "0 < ar_arrived r" "ar_rr r = RrResponse rsp"
    and rsp: "\<not> rs_type_is MtRequestSocketAccept rsp" "unat (rs_size (rs_base rsp)) \<le> Len"
    and copy: "kr_ret (fst (ker (KCopyToUser rsp) (kworld s))) = 0"
  shows "\<exists>t u. mwsocket_read ker File Len s = Some (int (unat (rs_size (rs_base rsp))), t)
    \<and> copied t = copied s @ [rsp] \<and> ar_heap t = (ar_heap s)(a := None)
    \<and> mwsocket_read ker File Len t = Some (- EINVAL, u) \<and> copied u = copied t"
proof -
  define u where "u = upd_si x (\<lambda>i. i\<lparr>si_read_expected := False\<rparr>) s"
  define v where "v = upd_ar a (\<lambda>r. r\<lparr>ar_arrived := ar_arrived r - 1\<rparr>) u"
  have ok: "refs_ok {} s" by (rule reach_refs_ok [OF reach])
  have u: "refs_ok {} u" unfolding u_def by (rule refs_ok_si [OF _ ok]) (simp add: same_refs_def)
  have v: "refs_ok {} v" unfolding v_def by (rule refs_ok_ar [OF _ u]) (simp add: same_ar_def)
  have pend: "si_pending_errno i = 0"
    using quiet.reach_keeps [OF reach, unfolded no_pending_def] fl(2) by (auto simp: pvm_start_def no_pending_def)
  have us: "ar_heap u a = Some r" "si_heap u x = Some (i\<lparr>si_read_expected := False\<rparr>)" using r(1) fl(2) by (simp_all add: u_def)
  obtain e f where f: "mwsocket_find_active_request_by_id (si_blockid i) u = Some (e, f)"
    and fa: "\<forall>a. f = Some a \<longrightarrow> (\<exists>r. ar_heap u a = Some r \<and> ar_id r = si_blockid i)"
    using find_request_returns [OF u, of "si_blockid i"] by blast
  have "f \<noteq> None" using find_request_None [OF u, of "si_blockid i" e a r] f us(1) r(2) by auto
  then have fa: "f = Some a" using fa id_unique [OF u us(1)] r(2) by auto
  then have found: "mwsocket_find_active_request_by_id (si_blockid i) u = Some (0, Some a)" using f find_request_code by auto
  have wait: "wait_arrived ker a u = Some (1, v)"
    using us(1) r(4) by (simp add: wait_arrived_def wait_until.simps [of ker _ u] v_def)
  have vs: "ar_heap v a = Some (r\<lparr>ar_arrived := ar_arrived r - 1\<rparr>)" "si_heap v x = Some (i\<lparr>si_read_expected := False\<rparr>)"
    "kworld v = kworld s" "copied v = copied s" "file_private v = file_private s"
    using us by (simp_all add: v_def) (simp_all add: u_def)
  obtain t j where t: "read_response ker x a Len v = Some (int (unat (rs_size (rs_base rsp))), t)" "copied t = copied s @ [rsp]"
    "ar_heap t = (ar_heap v)(a := None)" "file_private t = file_private s" "si_heap t x = Some j"
    "same_file (i\<lparr>si_read_expected := False\<rparr>) j"
    using read_response_result [OF v vs(1) _ vs(2), of rsp Len ker] r(5) i pend rsp copy vs by auto
  have "ar_heap t = (ar_heap s)(a := None)" using t(3) by (auto simp: v_def u_def upd_ar_def upd_si_def)
  moreover have read: "mwsocket_read ker File Len s = Some (int (unat (rs_size (rs_base rsp))), t)"
    using fl i found us(1) r(3) wait t(1) by (simp add: mwsocket_read_def mwsocket_find_sockinst_def u_def [symmetric])
  moreover have "mwsocket_read ker File Len t = Some (- EINVAL, request_sem_up x t)"
    using t(4-6) fl i(3)
    by (simp add: mwsocket_read_def mwsocket_find_sockinst_def same_file_def read_exit_def mwsocket_destroy_active_request_def)
  ultimately show ?thesis using t(2) by auto
qed

section \<open>An example\<close>

text \<open>
  The environment \<open>ker_echo\<close> in which the second allocation fails: the request to create the socket
  on the INS is not made, and the socket, which stays, is used without it.
\<close>

fun ker_late :: "(nat \<times> mt_request_generic list) ker" where
  "ker_late (KCacheAlloc used) w =
    (kret_demo\<lparr>kr_ret := (if fst w = 1 then 0 else 1), kr_addr := Suc (fold max used 0)\<rparr>, (Suc (fst w), snd w))"
| "ker_late c w = (case ker_echo 1 c (snd w) of (r, q) \<Rightarrow> (r, (fst w, q)))"

text \<open>The user asks to receive, and the response arrives; the file is 0.\<close>

lemma answered_facts:
  "case mwsocket_create ker_late 1 2 0 (pvm_demo (0, [])) of None \<Rightarrow> False | Some (r1, s1) \<Rightarrow>
   case mwsocket_write ker_late 0 100 s1 of None \<Rightarrow> False | Some (r2, s2) \<Rightarrow>
   case mwsocket_response_consumer ker_late s2 of None \<Rightarrow> False | Some (b, s3) \<Rightarrow>
     file_private s3 0 = Some 1
     \<and> (case si_heap s3 1 of None \<Rightarrow> False | Some i \<Rightarrow>
          si_file i = Some 0 \<and> \<not> flag MWSOCKET_FLAG_RELEASED (si_mwflags i) \<and> si_read_expected i \<and> si_state_valid i
          \<and> si_user_outstanding_accept i = 0 \<and> \<not> si_remote_surprise_close i
          \<and> (case ar_heap s3 1 of None \<Rightarrow> False | Some r \<Rightarrow>
               ar_id r = si_blockid i \<and> ar_deliver_response r \<and> 0 < ar_arrived r
               \<and> (case ar_rr r of RrRequest q \<Rightarrow> False | RrResponse rsp \<Rightarrow>
                    \<not> rs_type_is MtRequestSocketAccept rsp \<and> rs_size (rs_base rsp) = 40)))"
  by code_simp

lemma some_pair: "(case m of None \<Rightarrow> False | Some (r, s) \<Rightarrow> P r s) \<Longrightarrow> \<exists>r s. m = Some (r, s) \<and> P r s"
  by (auto split: option.split_asm)

theorem read_returns_response_once_witness:
  "\<exists>s t u rsp. pvm_reach ker_late s \<and> mwsocket_read ker_late 0 2048 s = Some (40, t) \<and> copied t = copied s @ [rsp]
     \<and> mwsocket_read ker_late 0 2048 t = Some (- EINVAL, u)"
proof -
  obtain r1 s1 where s1: "mwsocket_create ker_late 1 2 0 (pvm_demo (0, [])) = Some (r1, s1)"
    using some_pair [OF answered_facts] by blast
  note f1 = answered_facts [unfolded s1 option.case prod.case]
  obtain r2 s2 where s2: "mwsocket_write ker_late 0 100 s1 = Some (r2, s2)" using some_pair [OF f1] by blast
  note f2 = f1 [unfolded s2 option.case prod.case]
  obtain b s3 where s3: "mwsocket_response_consumer ker_late s2 = Some (b, s3)" using some_pair [OF f2] by blast
  from f2 [unfolded s3 option.case prod.case] obtain i r rsp
    where f: "file_private s3 0 = Some 1" "si_heap s3 1 = Some i" "si_file i = Some 0"
      and i: "\<not> flag MWSOCKET_FLAG_RELEASED (si_mwflags i)" "si_read_expected i" "si_state_valid i"
        "si_user_outstanding_accept i = 0" "\<not> si_remote_surprise_close i"
      and r: "ar_heap s3 1 = Some r" "ar_id r = si_blockid i" "ar_deliver_response r" "0 < ar_arrived r" "ar_rr r = RrResponse rsp"
      and rsp: "\<not> rs_type_is MtRequestSocketAccept rsp" "rs_size (rs_base rsp) = 40"
    by (auto split: option.split_asm rr.split_asm)
  have "\<not> rq_type_is MtRequestSocketAccept (kr_request (fst (ker_late (KCopyFromUser MT_REQUEST_BASE_SIZE) (kworld s1))))"
    by (simp add: kret_demo_def user_request_def rq_demo_def rq_type_is_def mt_request_code_inj del: mt_request_code.simps)
  then have reach: "pvm_reach ker_late s3"
    using pvm_demo_start [of ker_late "(0, [])"] s1 s2 s3
    by (meson pvm_reach.step pvm_step.create pvm_step.file_write pvm_step.consumer)
  have "kr_ret (fst (ker_late (KCopyToUser rsp) (kworld s3))) = 0" by (simp add: kret_demo_def)
  from read_returns_response_once [OF reach f i r rsp(1) _ this, of 2048] rsp(2) reach show ?thesis by auto
qed

end
