(* ===== verification/Shim.thy ===== *)
theory Shim
  imports PvmFile
begin

text \<open>
  The shim library of the PVM (protvm/user/wrapper/tcp\_ip\_wrapper.c) in its default build
  (USE\_MWCOMMS, SEND\_BATCH, no logging or tracing): the socket functions of libc that it replaces. The
  device and the functions of libc behind it are the parameter \<open>lc\<close>, a function from a call and a
  state of the world to a result; \<open>ltrace\<close> records the calls. A call sets errno; buffers that a call
  fills are part of its result. None is a call that does not return.
\<close>

section \<open>Calls\<close>

text \<open>The calls on the device and its files, and the original functions for any other descriptor.\<close>

datatype lcall =
    LVerify int
  | LCreate u32 u32 int
  | LWriteRequest int mt_request_generic
  | LReadResponse int nat
  | LNanosleep
  | LAttrib int mwsocket_attrib
  | LSocket int int int
  | LClose int
  | LBind int sockaddr_in nat
  | LListen int int
  | LAccept int
  | LAccept4 int int
  | LRecvfrom int nat int bool
  | LRead int nat
  | LReadv int "nat list"
  | LConnect int sockaddr_in nat
  | LSend int "u8 list" int
  | LWrite int "u8 list"
  | LWritev int "u8 list list"
  | LShutdown int int
  | LGetsockopt int int int nat
  | LSetsockopt int int int "u8 list"
  | LGetsockname int
  | LGetpeername int
  | LFcntl int int int

record lret =
  lr_ret :: int
  lr_errno :: int
  lr_flag :: bool
  lr_fd :: int
  lr_response :: mt_response_generic
  lr_attrib :: mwsocket_attrib
  lr_bytes :: "u8 list"
  lr_addr :: sockaddr_in

type_synonym 'w libc = "lcall \<Rightarrow> 'w \<Rightarrow> lret \<times> 'w"

record 'w shim =
  sh_errno :: int
  lworld :: 'w
  ltrace :: "(lcall \<times> lret) list"

definition ldo :: "'w libc \<Rightarrow> lcall \<Rightarrow> 'w shim \<Rightarrow> lret \<times> 'w shim" where
  "ldo lc c s = (let (r, w) = lc c (lworld s) in
     (r, s\<lparr>sh_errno := lr_errno r, lworld := w, ltrace := ltrace s @ [(c, r)]\<rparr>))"

text \<open>An original function, for a descriptor that is not an mwsocket.\<close>

definition libc_int :: "'w libc \<Rightarrow> lcall \<Rightarrow> 'w shim \<Rightarrow> int \<times> 'w shim" where
  "libc_int lc c s = (let (r, s) = ldo lc c s in (lr_ret r, s))"

abbreviation set_errno :: "int \<Rightarrow> 'w shim \<Rightarrow> 'w shim" where
  "set_errno e s \<equiv> s\<lparr>sh_errno := e\<rparr>"

section \<open>Constants of Linux\<close>

abbreviation "L_AF_INET \<equiv> (2::int)"
abbreviation "L_SOCK_STREAM \<equiv> (1::int)"
abbreviation "L_SOCK_CLOEXEC \<equiv> (0x80000::int)"
abbreviation "L_SOCK_NONBLOCK \<equiv> (0x800::int)"
abbreviation "L_O_NONBLOCK \<equiv> (0x800::int)"
abbreviation "L_F_SETFD \<equiv> (2::int)"
abbreviation "L_F_GETFL \<equiv> (3::int)"
abbreviation "L_F_SETFL \<equiv> (4::int)"
abbreviation "L_FD_CLOEXEC \<equiv> (1::int)"
abbreviation "L_SOL_SOCKET \<equiv> (1::int)"
abbreviation "L_SOL_TCP \<equiv> (6::int)"

definition MW_ERROR_REMOTE_SURPRISE_CLOSE :: int where [mw_consts]: "MW_ERROR_REMOTE_SURPRISE_CLOSE = EPIPE"
definition MT_REQUEST_SOCKET_RECV_SIZE :: nat where [sizes]: "MT_REQUEST_SOCKET_RECV_SIZE = MT_REQUEST_BASE_SIZE + 4 + 2"
definition MT_REQUEST_SOCKET_CONNECT_SIZE :: nat where [sizes]: "MT_REQUEST_SOCKET_CONNECT_SIZE = MT_REQUEST_BASE_SIZE + sizeof_mt_sockaddr_in"
definition MT_REQUEST_SOCKET_SHUTDOWN_SIZE :: nat where [sizes]: "MT_REQUEST_SOCKET_SHUTDOWN_SIZE = MT_REQUEST_BASE_SIZE + 4"
definition MT_REQUEST_SOCKET_GETNAME_SIZE :: nat where [sizes]: "MT_REQUEST_SOCKET_GETNAME_SIZE = MT_REQUEST_BASE_SIZE + 2"

section \<open>Requests and responses\<close>

definition mwcomms_is_mwsocket :: "'w libc \<Rightarrow> int \<Rightarrow> 'w shim \<Rightarrow> bool \<times> 'w shim" where
  "mwcomms_is_mwsocket lc Fd s =
    (if Fd < 0 then (False, s)
     else let (r, s) = ldo lc (LVerify Fd) s in (if lr_ret r < 0 then False else lr_flag r, s))"

definition mwcomms_init_request :: "mt_request_type \<Rightarrow> nat \<Rightarrow> int \<Rightarrow> mt_request_generic" where
  "mwcomms_init_request Type sz fd =
    rq_zero\<lparr>rq_base := \<lparr>rq_sig = MT_SIGNATURE_REQUEST, rq_type = mt_request_code Type, rq_size = of_nat sz,
                        rq_id = 0, rq_sockfd = word_of_int fd, rq_flags = 0\<rparr>\<rparr>"

text \<open>The loop around write: again after EINTR and EAGAIN, with a pause.\<close>

partial_function (option) write_loop :: "'w libc \<Rightarrow> int \<Rightarrow> mt_request_generic \<Rightarrow> 'w shim \<Rightarrow> (int \<times> 'w shim) option" where
  "write_loop lc fd req s =
    (let (r, s) = ldo lc (LWriteRequest fd req) s in
     if lr_ret r < 0 \<and> (sh_errno s = EINTR \<or> sh_errno s = L_EAGAIN)
     then write_loop lc fd req (snd (ldo lc LNanosleep s)) else Some (lr_ret r, s))"

declare write_loop.simps [code]

text \<open>The loop around read; the buffer for the response is filled only when bytes have been read.\<close>

partial_function (option) read_loop ::
  "'w libc \<Rightarrow> int \<Rightarrow> mt_response_generic \<Rightarrow> 'w shim \<Rightarrow> ((int \<times> mt_response_generic) \<times> 'w shim) option" where
  "read_loop lc fd rsp s =
    (let (r, s) = ldo lc (LReadResponse fd sizeof_mt_response_generic) s in
     if lr_ret r < 0 \<and> sh_errno s = EINTR then read_loop lc fd rsp s
     else Some ((lr_ret r, if lr_ret r < 0 then rsp else lr_response r), s))"

declare read_loop.simps [code]

text \<open>
  \<open>mwcomms_write_request\<close>: the return code, the request and the response as changed. The number of
  bytes read is compared with a sizeof, hence as an unsigned number.
\<close>

definition mwcomms_write_request ::
  "'w libc \<Rightarrow> int \<Rightarrow> bool \<Rightarrow> mt_request_generic \<Rightarrow> mt_response_generic \<Rightarrow> 'w shim \<Rightarrow>
     ((int \<times> mt_request_generic \<times> mt_response_generic) \<times> 'w shim) option" where
  "mwcomms_write_request lc MwFd ReadResponse req rsp s = do {
     let req = (if ReadResponse then set_caller_waits req else req);
     (ct, s) \<leftarrow> write_loop lc MwFd req s;
     if ct < 0 then Some ((-1, req, rsp), s)
     else if \<not> ReadResponse then Some ((0, req, rsp), s)
     else do {
       ((ct, rsp), s) \<leftarrow> read_loop lc MwFd rsp s;
       if unat (word_of_int ct :: u64) < MT_RESPONSE_BASE_SIZE then Some ((-1, req, rsp), s)
       else if IS_CRITICAL_ERROR (rs_status (rs_base rsp)) then
         Some ((-1, req, rsp\<lparr>rs_base := (rs_base rsp)\<lparr>rs_status := EIO\<rparr>\<rparr>), s)
       else if rs_status (rs_base rsp) < 0 then Some ((-1, req, rsp), set_errno (- rs_status (rs_base rsp)) s)
       else Some ((0, req, rsp), s)
     }
   }"

section \<open>File flags\<close>

definition fcntl :: "'w libc \<Rightarrow> int \<Rightarrow> int \<Rightarrow> int \<Rightarrow> 'w shim \<Rightarrow> int \<times> 'w shim" where
  "fcntl lc Fd Cmd arg s =
    (let (m, s) = mwcomms_is_mwsocket lc Fd s in
     if \<not> m \<or> Cmd \<noteq> L_F_SETFL then libc_int lc (LFcntl Fd Cmd arg) s
     else let (oldflags, s) = libc_int lc (LFcntl Fd L_F_GETFL 0) s;
              (rc, s) = libc_int lc (LFcntl Fd L_F_SETFL arg) s
     in if rc < 0 then (rc, s)
        else if oldflags AND L_O_NONBLOCK = arg AND L_O_NONBLOCK then (rc, s)
        else let (r, s) = ldo lc (LAttrib Fd \<lparr>sa_modify = True, sa_name = MtSockAttribNonblock,
                                   sa_val = feat_of_v32 (of_bool (arg AND L_O_NONBLOCK \<noteq> 0))\<rparr>) s
        in (lr_ret r, if lr_ret r < 0 then set_errno 0 s else s))"

section \<open>Creating and connecting\<close>

definition socket :: "'w libc \<Rightarrow> int \<Rightarrow> int \<Rightarrow> int \<Rightarrow> 'w shim \<Rightarrow> int \<times> 'w shim" where
  "socket lc Domn Type Protocol s =
    (if Domn \<noteq> L_AF_INET \<or> L_SOCK_STREAM AND Type = 0 then libc_int lc (LSocket Domn Type Protocol) s
     else let (r, s) = ldo lc (LCreate (xe_net_get_mt_protocol_family (word_of_int Domn)) MT_ST_STREAM Protocol) s in
     if lr_ret r < 0 then (lr_ret r, s)
     else if Type AND L_SOCK_CLOEXEC \<noteq> 0 then
       let (rc, s) = fcntl lc (lr_fd r) L_F_SETFD L_FD_CLOEXEC s
       in if rc < 0 then (rc, s) else (lr_fd r, set_errno 0 s)
     else (lr_fd r, set_errno 0 s))"

definition close :: "'w libc \<Rightarrow> int \<Rightarrow> 'w shim \<Rightarrow> int \<times> 'w shim" where
  "close lc Fd s = libc_int lc (LClose Fd) s"

definition bind :: "'w libc \<Rightarrow> int \<Rightarrow> sockaddr_in \<Rightarrow> nat \<Rightarrow> 'w shim \<Rightarrow> (int \<times> 'w shim) option" where
  "bind lc SockFd SockAddr AddrLen s =
    (let (m, s) = mwcomms_is_mwsocket lc SockFd s in
     if \<not> m then Some (libc_int lc (LBind SockFd SockAddr AddrLen) s)
     else if n_sin_family SockAddr \<noteq> AF_INET \<or> AddrLen \<noteq> 16 then Some (-1, set_errno EINVAL s)
     else do {
       let req = mwcomms_init_request MtRequestSocketBind MT_REQUEST_SOCKET_BIND_SIZE SockFd;
       let req = req\<lparr>bind_sockaddr := populate_mt_sockaddr_in (bind_sockaddr req) SockAddr\<rparr>;
       ((rc, req, rsp), s) \<leftarrow> mwcomms_write_request lc SockFd True req rs_zero s;
       Some (if rc = 0 then rs_status (rs_base rsp) else rc, s)
     })"

text \<open>A status below 0 with a return code 0 cannot come from \<open>mwcomms_write_request\<close>; the functions still check it.\<close>

definition status_or_errno :: "mt_response_generic \<Rightarrow> 'w shim \<Rightarrow> int \<times> 'w shim" where
  "status_or_errno rsp s =
    (if rs_status (rs_base rsp) < 0 then (-1, set_errno (- rs_status (rs_base rsp)) s) else (rs_status (rs_base rsp), s))"

definition listen :: "'w libc \<Rightarrow> int \<Rightarrow> int \<Rightarrow> 'w shim \<Rightarrow> (int \<times> 'w shim) option" where
  "listen lc SockFd BackLog s =
    (let (m, s) = mwcomms_is_mwsocket lc SockFd s in
     if \<not> m then Some (libc_int lc (LListen SockFd BackLog) s)
     else do {
       ((rc, req, rsp), s) \<leftarrow> mwcomms_write_request lc SockFd True
          ((mwcomms_init_request MtRequestSocketListen MT_REQUEST_SOCKET_LISTEN_SIZE SockFd)\<lparr>listen_backlog := BackLog\<rparr>) rs_zero s;
       Some (if rc \<noteq> 0 then (rc, s) else status_or_errno rsp s)
     })"

definition connect :: "'w libc \<Rightarrow> int \<Rightarrow> sockaddr_in \<Rightarrow> nat \<Rightarrow> 'w shim \<Rightarrow> (int \<times> 'w shim) option" where
  "connect lc SockFd Addr AddrLen s =
    (let (m, s) = mwcomms_is_mwsocket lc SockFd s in
     if \<not> m then Some (libc_int lc (LConnect SockFd Addr AddrLen) s)
     else do {
       let req = mwcomms_init_request MtRequestSocketConnect MT_REQUEST_SOCKET_CONNECT_SIZE SockFd;
       let req = req\<lparr>connect_sockaddr := populate_mt_sockaddr_in (connect_sockaddr req) Addr\<rparr>;
       ((rc, req, rsp), s) \<leftarrow> mwcomms_write_request lc SockFd True req rs_zero s;
       Some (if rc \<noteq> 0 then (rc, s) else status_or_errno rsp s)
     })"

text \<open>
  \<open>accept\<close>: the descriptor and the address of the peer, when the caller gave a place for it. The
  descriptor is the 64-bit field of the response, cut to an int.
\<close>

definition accept :: "'w libc \<Rightarrow> int \<Rightarrow> sockaddr_in option \<Rightarrow> 'w shim \<Rightarrow> ((int \<times> sockaddr_in option) \<times> 'w shim) option" where
  "accept lc SockFd SockAddr s =
    (let (m, s) = mwcomms_is_mwsocket lc SockFd s in
     if \<not> m then let (r, s) = ldo lc (LAccept SockFd) s in Some ((lr_ret r, map_option (\<lambda>_. lr_addr r) SockAddr), s)
     else do {
       ((rc, req, rsp), s) \<leftarrow> mwcomms_write_request lc SockFd True
          (mwcomms_init_request MtRequestSocketAccept MT_REQUEST_SOCKET_ACCEPT_SIZE SockFd) rs_zero s;
       Some (if rc \<noteq> 0 \<or> rs_status (rs_base rsp) < 0 then ((rc, SockAddr), s)
             else ((sint (ucast (rs_sockfd (rs_base rsp)) :: u32),
                    map_option (\<lambda>sa. populate_sockaddr_in sa (accept_sockaddr rsp)) SockAddr), s))
     })"

text \<open>One of the flags of accept4; the errno to return is kept apart, since closing may set it.\<close>

definition accept4_flag :: "'w libc \<Rightarrow> int \<Rightarrow> bool \<Rightarrow> int \<Rightarrow> int \<Rightarrow> 'w shim \<Rightarrow> int \<times> 'w shim" where
  "accept4_flag lc newfd wanted Cmd arg s = (if wanted then fcntl lc newfd Cmd arg s else (0, s))"

definition accept4_fail :: "'w libc \<Rightarrow> int \<Rightarrow> 'w shim \<Rightarrow> int \<times> 'w shim" where
  "accept4_fail lc newfd s =
    (let err = sh_errno s; s = (if newfd > 0 then snd (close lc newfd s) else s) in (-1, set_errno err s))"

definition accept4 :: "'w libc \<Rightarrow> int \<Rightarrow> sockaddr_in option \<Rightarrow> int \<Rightarrow> 'w shim \<Rightarrow> ((int \<times> sockaddr_in option) \<times> 'w shim) option" where
  "accept4 lc SockFd SockAddr Flags s =
    (let (m, s) = mwcomms_is_mwsocket lc SockFd s in
     if \<not> m then
       let (r, s) = ldo lc (LAccept4 SockFd Flags) s in Some ((lr_ret r, map_option (\<lambda>_. lr_addr r) SockAddr), s)
     else do {
       ((newfd, SockAddr), s) \<leftarrow> accept lc SockFd SockAddr s;
       if newfd < 0 then Some ((-1, SockAddr), s)
       else
         let (rc, s) = accept4_flag lc newfd (Flags AND L_SOCK_NONBLOCK \<noteq> 0) L_F_SETFL L_O_NONBLOCK s in
         if rc \<noteq> 0 then let (rc, s) = accept4_fail lc newfd s in Some ((rc, SockAddr), s)
         else let (rc, s) = accept4_flag lc newfd (Flags AND L_SOCK_CLOEXEC \<noteq> 0) L_F_SETFD L_FD_CLOEXEC s in
         if rc \<noteq> 0 then let (rc, s) = accept4_fail lc newfd s in Some ((rc, SockAddr), s)
         else Some ((newfd, SockAddr), set_errno 0 s)
     })"

section \<open>Receiving\<close>

text \<open>The bytes of a number in memory.\<close>

fun le_bytes :: "nat \<Rightarrow> nat \<Rightarrow> u8 list" where
  "le_bytes 0 n = []"
| "le_bytes (Suc k) n = of_nat (n mod 256) # le_bytes k (n div 256)"

definition sockaddr_bytes :: "mt_sockaddr_in \<Rightarrow> u8 list" where
  "sockaddr_bytes a = le_bytes 4 (unat (sin_family a)) @ le_bytes 2 (unat (sin_port a)) @ [0, 0]
     @ le_bytes 8 (unat (sin_addr a)) @ sin_zero a"

text \<open>
  The union of responses seen as \<open>mt_response_socket_recv_t\<close>: what lies where this type has its bytes
  when the response is one to recvfrom, of which the first two bytes lie under the count.
\<close>

definition recvfrom_body :: "mt_response_generic \<Rightarrow> u8 list" where
  "recvfrom_body rsp = sockaddr_bytes (recvfrom_src_addr rsp) @ le_bytes 4 (unat (recvfrom_addrlen rsp))
     @ le_bytes 2 (unat (recvfrom_count rsp)) @ recvfrom_bytes rsp"

definition socket_recv_bytes :: "mt_response_generic \<Rightarrow> u8 list" where
  "socket_recv_bytes rsp = (if rs_type_is MtRequestSocketRecvFrom rsp then drop 2 (recvfrom_body rsp) else recv_bytes rsp)"

text \<open>
  \<open>recvfrom\<close>, given whether the caller wants the address: the result with what was written to the
  buffer and, for recvfrom, the first bytes of the address and its length.
\<close>

record recv_out =
  ro_buf :: "u8 list"
  ro_src :: "u8 list option"
  ro_addrlen :: "u32 option"

definition ro_none :: recv_out where "ro_none = \<lparr>ro_buf = [], ro_src = None, ro_addrlen = None\<rparr>"

text \<open>The count of a response, whose place depends on the request.\<close>

definition received :: "bool \<Rightarrow> mt_response_generic \<Rightarrow> u16" where
  "received want_src rsp = (if want_src then recvfrom_count rsp else recv_count rsp)"

definition recvfrom :: "'w libc \<Rightarrow> int \<Rightarrow> nat \<Rightarrow> int \<Rightarrow> bool \<Rightarrow> 'w shim \<Rightarrow> ((int \<times> recv_out) \<times> 'w shim) option" where
  "recvfrom lc SockFd Len Flags want_src s =
    (let (m, s) = mwcomms_is_mwsocket lc SockFd s in
     if \<not> m then
       let (r, s) = ldo lc (LRecvfrom SockFd Len Flags want_src) s in Some ((lr_ret r, ro_none\<lparr>ro_buf := lr_bytes r\<rparr>), s)
     else do {
       let req = mwcomms_init_request (if want_src then MtRequestSocketRecvFrom else MtRequestSocketRecv)
                   MT_REQUEST_SOCKET_RECV_SIZE SockFd;
       let req = req\<lparr>recv_rq_flags := word_of_int Flags, recv_requested := of_nat (min MESSAGE_TYPE_MAX_PAYLOAD_LEN Len)\<rparr>;
       ((rc, req, rsp), s) \<leftarrow> mwcomms_write_request lc SockFd True req rs_zero s;
       Some (if rc \<noteq> 0 then
               if sh_errno s = MW_ERROR_REMOTE_SURPRISE_CLOSE then ((0, ro_none), set_errno 0 s) else ((rc, ro_none), s)
             else if rs_status (rs_base rsp) < 0 then ((-1, ro_none), set_errno (- rs_status (rs_base rsp)) s)
             else if received want_src rsp = 0 then ((0, ro_none), set_errno 0 s)
             else
               let n = unat (received want_src rsp);
                   from = rs_type_is MtRequestSocketRecvFrom rsp \<and> want_src
               in ((int n, \<lparr>ro_buf = take n (socket_recv_bytes rsp),
                            ro_src = (if from then Some (take 16 (recvfrom_body rsp)) else None),
                            ro_addrlen = (if from then Some (recvfrom_addrlen rsp) else None)\<rparr>), s))
     })"

definition recv :: "'w libc \<Rightarrow> int \<Rightarrow> nat \<Rightarrow> int \<Rightarrow> 'w shim \<Rightarrow> ((int \<times> recv_out) \<times> 'w shim) option" where
  "recv lc SockFd Len Flags s = recvfrom lc SockFd Len Flags False s"

definition read :: "'w libc \<Rightarrow> int \<Rightarrow> nat \<Rightarrow> 'w shim \<Rightarrow> ((int \<times> recv_out) \<times> 'w shim) option" where
  "read lc Fd Count s =
    (let (m, s) = mwcomms_is_mwsocket lc Fd s in
     if \<not> m then
       let (r, s) = ldo lc (LRead Fd Count) s
       in Some ((lr_ret r, ro_none\<lparr>ro_buf := lr_bytes r\<rparr>), if lr_ret r < 0 then s else set_errno 0 s)
     else recvfrom lc Fd Count 0 False s)"

text \<open>readv, given the lengths of the buffers: the total and the buffers that were filled.\<close>

fun readv_loop :: "'w libc \<Rightarrow> int \<Rightarrow> nat list \<Rightarrow> int \<Rightarrow> u8 list list \<Rightarrow> 'w shim \<Rightarrow> ((int \<times> u8 list list) \<times> 'w shim) option" where
  "readv_loop lc Fd [] tot bufs s = Some ((tot, bufs), set_errno 0 s)"
| "readv_loop lc Fd (n # ns) tot bufs s = do {
     ((rc, out), s) \<leftarrow> recvfrom lc Fd n 0 False s;
     if rc < 0 then Some ((tot, bufs), s) else readv_loop lc Fd ns (tot + rc) (bufs @ [ro_buf out]) s
   }"

text \<open>For another descriptor the result of the original function is not returned.\<close>

definition readv :: "'w libc \<Rightarrow> int \<Rightarrow> nat list \<Rightarrow> 'w shim \<Rightarrow> ((int \<times> u8 list list) \<times> 'w shim) option" where
  "readv lc Fd Iov s =
    (let (m, s) = mwcomms_is_mwsocket lc Fd s in
     if \<not> m then let (r, s) = ldo lc (LReadv Fd Iov) s in Some ((0, [lr_bytes r]), s)
     else readv_loop lc Fd Iov 0 [] s)"

section \<open>Sending\<close>

text \<open>
  The loop of \<open>send\<close>: \<open>tot\<close> is \<open>tot_sent\<close>. The result is the last return code, the errno noted and the
  last response. Every iteration sends more bytes or asserts \<open>final\<close>, so that the loop ends whenever
  the writes do.
\<close>

function batch_loop ::
  "'w libc \<Rightarrow> int \<Rightarrow> u8 list \<Rightarrow> nat \<Rightarrow> bool \<Rightarrow> int \<Rightarrow> int \<Rightarrow> mt_request_generic \<Rightarrow> mt_response_generic \<Rightarrow> 'w shim \<Rightarrow>
     ((int \<times> int \<times> mt_response_generic) \<times> 'w shim) option" where
  "batch_loop lc fd Buf tot final rc err req rsp s =
    (if length Buf \<le> tot then Some ((rc, err, rsp), s)
     else
       let chunksz = min MESSAGE_TYPE_MAX_PAYLOAD_LEN (length Buf - tot);
           flags = rq_flags (rq_base req);
           flags = (if tot > 0 then flags AND NOT MT_FLAGS_BATCH_SEND_INIT else flags);
           last = (length Buf = tot + chunksz);
           flags = (if last then flags OR MT_FLAGS_BATCH_SEND_FINI else flags);
           final' = (final \<or> last);
           req = req\<lparr>rq_base := (rq_base req)\<lparr>rq_flags := flags, rq_size := of_nat (MT_REQUEST_SOCKET_SEND_SIZE + chunksz)\<rparr>,
                     send_rq_bytes := take chunksz (drop tot Buf) @ drop chunksz (send_rq_bytes req)\<rparr>
       in do {
         ((rc, req, rsp), s) \<leftarrow> mwcomms_write_request lc fd final' req rsp s;
         if rc \<noteq> 0 then
           let err = (if sh_errno s = MW_ERROR_REMOTE_SURPRISE_CLOSE then EPIPE else sh_errno s)
           in if \<not> final' then batch_loop lc fd Buf tot True rc err req rsp s else Some ((rc, err, rsp), s)
         else batch_loop lc fd Buf (tot + chunksz) final' rc err req rsp s
       })"
  by pat_completeness auto

termination
  by (relation "measure (\<lambda>(lc, fd, Buf, tot, final, rc, err, req, rsp, s). 2 * (length Buf - tot) + of_bool (\<not> final))")
    (auto simp: MESSAGE_TYPE_MAX_PAYLOAD_LEN_def MESSAGE_TARGET_MAX_SIZE_def)

definition send :: "'w libc \<Rightarrow> int \<Rightarrow> u8 list \<Rightarrow> int \<Rightarrow> 'w shim \<Rightarrow> (int \<times> 'w shim) option" where
  "send lc SockFd Buf Flags s =
    (let (m, s) = mwcomms_is_mwsocket lc SockFd s in
     if \<not> m then Some (libc_int lc (LSend SockFd Buf Flags) s)
     else do {
       let req = mwcomms_init_request MtRequestSocketSend MT_REQUEST_SOCKET_SEND_SIZE SockFd;
       let req = req\<lparr>send_rq_flags := word_of_int Flags,
                     rq_base := (rq_base req)\<lparr>rq_flags := MT_FLAGS_BATCH_SEND_INIT OR MT_FLAGS_BATCH_SEND\<rparr>\<rparr>;
       ((rc, err, rsp), s) \<leftarrow> batch_loop lc SockFd Buf 0 False 0 0 req rs_zero s;
       Some (if send_count rsp > 0 then (int (unat (send_count rsp)), set_errno 0 s)
             else if rc = 0 then (-1, set_errno (- rs_status (rs_base rsp)) s)
             else (rc, set_errno err s))
     })"

definition shim_write :: "'w libc \<Rightarrow> int \<Rightarrow> u8 list \<Rightarrow> 'w shim \<Rightarrow> (int \<times> 'w shim) option" where
  "shim_write lc Fd Buf s =
    (let (m, s) = mwcomms_is_mwsocket lc Fd s in
     if \<not> m then Some (libc_int lc (LWrite Fd Buf) s) else send lc Fd Buf 0 s)"

fun writev_loop :: "'w libc \<Rightarrow> int \<Rightarrow> u8 list list \<Rightarrow> int \<Rightarrow> 'w shim \<Rightarrow> (int \<times> 'w shim) option" where
  "writev_loop lc Fd [] tot s = Some (tot, set_errno 0 s)"
| "writev_loop lc Fd (b # bs) tot s = do {
     (rc, s) \<leftarrow> send lc Fd b 0 s;
     if rc < 0 then Some (rc, s) else writev_loop lc Fd bs (tot + rc) s
   }"

definition writev :: "'w libc \<Rightarrow> int \<Rightarrow> u8 list list \<Rightarrow> 'w shim \<Rightarrow> (int \<times> 'w shim) option" where
  "writev lc Fd Iov s =
    (let (m, s) = mwcomms_is_mwsocket lc Fd s in
     if \<not> m then Some (libc_int lc (LWritev Fd Iov) s) else writev_loop lc Fd Iov 0 s)"

section \<open>Shutdown, names and options\<close>

definition shutdown :: "'w libc \<Rightarrow> int \<Rightarrow> int \<Rightarrow> 'w shim \<Rightarrow> (int \<times> 'w shim) option" where
  "shutdown lc SockFd How s =
    (let (m, s) = mwcomms_is_mwsocket lc SockFd (set_errno 0 s) in
     if \<not> m then Some (libc_int lc (LShutdown SockFd How) s)
     else do {
       ((rc, req, rsp), s) \<leftarrow> mwcomms_write_request lc SockFd True
          ((mwcomms_init_request MtRequestSocketShutdown MT_REQUEST_SOCKET_SHUTDOWN_SIZE SockFd)\<lparr>shutdown_how := word_of_int How\<rparr>)
          rs_zero s;
       Some (if rc \<noteq> 0 then (rc, s)
             else if rs_status (rs_base rsp) < 0 then (-1, set_errno (- rs_status (rs_base rsp)) s)
             else (0, set_errno 0 s))
     })"

text \<open>\<open>getsockname\<close> and \<open>getpeername\<close>, given the length the caller allows and the address to fill.\<close>

definition get_name ::
  "mt_request_type \<Rightarrow> 'w libc \<Rightarrow> int \<Rightarrow> sockaddr_in \<Rightarrow> nat \<Rightarrow> 'w shim \<Rightarrow> ((int \<times> sockaddr_in) \<times> 'w shim) option" where
  "get_name ty lc SockFd Addr AddrLen s = do {
     ((rc, req, rsp), s) \<leftarrow> mwcomms_write_request lc SockFd True
        ((mwcomms_init_request ty MT_REQUEST_SOCKET_GETNAME_SIZE SockFd)\<lparr>getname_maxlen := of_nat AddrLen\<rparr>) rs_zero s;
     Some (if rc \<noteq> 0 then ((rc, Addr), s)
           else if rs_status (rs_base rsp) < 0 then ((-1, Addr), set_errno (- rs_status (rs_base rsp)) s)
           else ((0, populate_sockaddr_in Addr (getname_sockaddr rsp)), set_errno 0 s))
   }"

definition getsockname :: "'w libc \<Rightarrow> int \<Rightarrow> sockaddr_in \<Rightarrow> nat \<Rightarrow> 'w shim \<Rightarrow> ((int \<times> sockaddr_in) \<times> 'w shim) option" where
  "getsockname lc SockFd Addr AddrLen s =
    (let (m, s) = mwcomms_is_mwsocket lc SockFd s in
     if \<not> m then let (r, s) = ldo lc (LGetsockname SockFd) s in Some ((lr_ret r, lr_addr r), set_errno 0 s)
     else get_name MtRequestSocketGetName lc SockFd Addr AddrLen s)"

definition getpeername :: "'w libc \<Rightarrow> int \<Rightarrow> sockaddr_in \<Rightarrow> nat \<Rightarrow> 'w shim \<Rightarrow> ((int \<times> sockaddr_in) \<times> 'w shim) option" where
  "getpeername lc SockFd Addr AddrLen s =
    (let (m, s) = mwcomms_is_mwsocket lc SockFd s in
     if \<not> m then let (r, s) = ldo lc (LGetpeername SockFd) s in Some ((lr_ret r, lr_addr r), s)
     else get_name MtRequestSocketGetPeer lc SockFd Addr AddrLen s)"

text \<open>The attribute for an option; at an unknown level the attributes stay as they are, without an error.\<close>

definition attr_zero :: mwsocket_attrib where
  "attr_zero = \<lparr>sa_modify = False, sa_name = 0, sa_val = \<lparr>feat_s = 0, feat_us = 0\<rparr>\<rparr>"

definition sol_socket_name :: "int \<Rightarrow> u16 option" where
  "sol_socket_name OptName = map_of
     [(2, MtSockAttribReuseaddr), (9, MtSockAttribKeepalive), (15, MtSockAttribReuseport), (20, MtSockAttribRcvTimeo),
      (21, MtSockAttribSndTimeo), (18, MtSockAttribRcvLoWat), (19, MtSockAttribSndLoWat), (4, MtSockAttribError)] OptName"

definition sol_tcp_name :: "int \<Rightarrow> u16 option" where
  "sol_tcp_name OptName = map_of [(9, MtSockAttribDeferAccept), (1, MtSockAttribNodelay)] OptName"

definition mwcomms_set_sockattr :: "int \<Rightarrow> int \<Rightarrow> mwsocket_attrib \<Rightarrow> int \<times> mwsocket_attrib" where
  "mwcomms_set_sockattr Level OptName Attribs =
    (if Level = L_SOL_SOCKET \<or> Level = L_SOL_TCP then
       case (if Level = L_SOL_SOCKET then sol_socket_name else sol_tcp_name) OptName of
         None \<Rightarrow> (EINVAL, Attribs)
       | Some name \<Rightarrow> (0, Attribs\<lparr>sa_name := name\<rparr>)
     else (0, Attribs))"

definition is_timeo :: "mwsocket_attrib \<Rightarrow> bool" where
  "is_timeo attr \<longleftrightarrow> sa_name attr = MtSockAttribSndTimeo \<or> sa_name attr = MtSockAttribRcvTimeo"

text \<open>The memory of the value of an attribute, 16 bytes, and the value from such memory.\<close>

definition feat_bytes :: "mt_sockfeat_arg \<Rightarrow> u8 list" where
  "feat_bytes v = le_bytes 8 (unat (feat_s v)) @ le_bytes 8 (unat (feat_us v))"

fun of_le :: "u8 list \<Rightarrow> nat" where
  "of_le [] = 0"
| "of_le (b # bs) = unat b + 256 * of_le bs"

definition feat_of_bytes :: "u8 list \<Rightarrow> mt_sockfeat_arg" where
  "feat_of_bytes bs = \<lparr>feat_s = of_nat (of_le (take 8 bs)), feat_us = of_nat (of_le (take 8 (drop 8 bs)))\<rparr>"

text \<open>
  \<open>getsockopt\<close>, given the length of the caller's buffer: the bytes written to it and the length
  returned. A timeout is written as a struct timeval of two 8-byte numbers, whatever the length.
\<close>

definition getsockopt :: "'w libc \<Rightarrow> int \<Rightarrow> int \<Rightarrow> int \<Rightarrow> nat \<Rightarrow> 'w shim \<Rightarrow> (int \<times> u8 list \<times> nat) \<times> 'w shim" where
  "getsockopt lc Fd Level OptName OptLen s =
    (let (m, s) = mwcomms_is_mwsocket lc Fd s in
     if \<not> m then let (r, s) = ldo lc (LGetsockopt Fd Level OptName OptLen) s in ((lr_ret r, lr_bytes r, length (lr_bytes r)), s)
     else case mwcomms_set_sockattr Level OptName attr_zero of
       (rc, attr) \<Rightarrow>
         if rc \<noteq> 0 then ((-1, [], OptLen), set_errno rc s)
         else let (r, s) = ldo lc (LAttrib Fd (attr\<lparr>sa_modify := False\<rparr>)) s; attr = lr_attrib r in
         if lr_ret r \<noteq> 0 then ((lr_ret r, [], OptLen), s)
         else ((0, if is_timeo attr then feat_bytes (sa_val attr)
                   else if 0 < OptLen \<and> OptLen \<le> 16 then take OptLen (feat_bytes (sa_val attr)) else [],
                if is_timeo attr then 16 else OptLen), set_errno 0 s))"

text \<open>\<open>setsockopt\<close>, given the bytes of the option; a timeout is read from 16 bytes.\<close>

definition setsockopt :: "'w libc \<Rightarrow> int \<Rightarrow> int \<Rightarrow> int \<Rightarrow> u8 list \<Rightarrow> 'w shim \<Rightarrow> int \<times> 'w shim" where
  "setsockopt lc Fd Level OptName OptVal s =
    (let (m, s) = mwcomms_is_mwsocket lc Fd s in
     if \<not> m then libc_int lc (LSetsockopt Fd Level OptName OptVal) s
     else case mwcomms_set_sockattr Level OptName attr_zero of
       (rc, attr) \<Rightarrow>
         if rc \<noteq> 0 then (-1, set_errno rc s)
         else
           let val = (if is_timeo attr \<or> OptVal \<noteq> [] \<and> length OptVal \<le> 16 then feat_of_bytes OptVal else sa_val attr_zero);
               (r, s) = ldo lc (LAttrib Fd (attr\<lparr>sa_modify := True, sa_val := val\<rparr>)) s
           in (lr_ret r, if lr_ret r \<noteq> 0 then s else set_errno 0 s))"

end
