(* ===== verification/ShimSend.thy ===== *)
theory ShimSend
  imports Shim PvmStore
begin

text \<open>
  The batch send of the shim library: the requests it writes are a reference chunking of the buffer, and
  what it returns once the driver of the PVM has summed up the responses of the batch.
\<close>

declare batch_loop.simps [simp del]

section \<open>Requests written\<close>

fun write_of :: "lcall \<times> lret \<Rightarrow> mt_request_generic list" where
  "write_of (LWriteRequest fd q, r) = [q]"
| "write_of _ = []"

definition writes :: "'w shim \<Rightarrow> mt_request_generic list" where
  "writes s = concat (map write_of (ltrace s))"

lemma writes_ldo: "writes (snd (ldo lc c s)) = writes s @ write_of (c, fst (ldo lc c s))"
  by (simp add: writes_def ldo_def split_beta)

lemma writes_errno [simp]: "writes (set_errno e s) = writes s"
  by (simp add: writes_def)

lemma ldo_fst: "fst (ldo lc c s) = fst (lc c (lworld s))"
  by (simp add: ldo_def split_beta)

text \<open>A device that takes every request and whose reads return the response \<open>R\<close>, a success.\<close>

definition device_ok :: "'w libc \<Rightarrow> mt_response_generic \<Rightarrow> bool" where
  "device_ok lc R \<longleftrightarrow> rs_status (rs_base R) = 0
     \<and> (\<forall>fd w. lr_flag (fst (lc (LVerify fd) w)) \<and> 0 \<le> lr_ret (fst (lc (LVerify fd) w)))
     \<and> (\<forall>fd q w. 0 \<le> lr_ret (fst (lc (LWriteRequest fd q) w)))
     \<and> (\<forall>fd n w. lr_ret (fst (lc (LReadResponse fd n) w)) \<in> {int MT_RESPONSE_BASE_SIZE ..< 2 ^ 16}
          \<and> lr_response (fst (lc (LReadResponse fd n) w)) = R)"

lemma write_request_ok:
  assumes dev: "device_ok lc R"
  obtains t where "mwcomms_write_request lc fd W req rsp s =
      Some ((0, if W then set_caller_waits req else req, if W then R else rsp), t)"
    and "writes t = writes s @ [if W then set_caller_waits req else req]"
proof -
  define q where "q = (if W then set_caller_waits req else req)"
  define u where "u = snd (ldo lc (LWriteRequest fd q) s)"
  define v where "v = snd (ldo lc (LReadResponse fd sizeof_mt_response_generic) u)"
  have w0: "0 \<le> lr_ret (fst (ldo lc (LWriteRequest fd q) s))" using dev by (simp add: device_ok_def ldo_fst)
  then have wl: "write_loop lc fd q s = Some (lr_ret (fst (ldo lc (LWriteRequest fd q) s)), u)"
    by (simp add: write_loop.simps [of lc fd q s] u_def split_beta)
  have ct: "lr_ret (fst (ldo lc (LReadResponse fd sizeof_mt_response_generic) u)) \<in> {int MT_RESPONSE_BASE_SIZE ..< 2 ^ 16}"
    using dev by (simp add: device_ok_def ldo_fst)
  have R: "lr_response (fst (ldo lc (LReadResponse fd sizeof_mt_response_generic) u)) = R"
    using dev by (simp add: device_ok_def ldo_fst)
  have "\<not> lr_ret (fst (ldo lc (LReadResponse fd sizeof_mt_response_generic) u)) < 0" using ct by auto
  then have rl: "read_loop lc fd rsp u = Some ((lr_ret (fst (ldo lc (LReadResponse fd sizeof_mt_response_generic) u)), R), v)"
    by (simp add: read_loop.simps [of lc fd rsp u] v_def split_beta R)
  have st: "rs_status (rs_base R) = 0" using dev by (simp add: device_ok_def)
  have "unat (word_of_int (lr_ret (fst (ldo lc (LReadResponse fd sizeof_mt_response_generic) u))) :: u64) \<ge> MT_RESPONSE_BASE_SIZE"
    using ct by (simp flip: nat_uint_eq add: uint_word_of_int take_bit_eq_mod le_nat_iff)
  then have res: "mwcomms_write_request lc fd W req rsp s = Some ((0, q, if W then R else rsp), if W then v else u)"
    using wl w0 rl st by (auto simp: mwcomms_write_request_def q_def [symmetric] Let_def IS_CRITICAL_ERROR_def mw_consts)
  have "writes (if W then v else u) = writes s @ [q]" by (simp add: u_def v_def writes_ldo)
  with res show thesis by (intro that) (simp_all add: q_def)
qed

section \<open>The reference chunking\<close>

function chunks :: "nat \<Rightarrow> 'a list \<Rightarrow> 'a list list" where
  "chunks n xs = (if xs = [] \<or> n = 0 then [] else take n xs # chunks n (drop n xs))"
  by pat_completeness auto
termination by (relation "measure (\<lambda>(n, xs). length xs)") auto

declare chunks.simps [simp del]

text \<open>The flags and the payload of the requests of a batch.\<close>

definition batch_flags :: "bool \<Rightarrow> bool \<Rightarrow> u32" where
  "batch_flags first fin = MT_FLAGS_BATCH_SEND OR (if first then MT_FLAGS_BATCH_SEND_INIT else 0)
     OR (if fin then MT_FLAGS_BATCH_SEND_FINI OR MT_FLAGS_PVM_CALLER_AWAITS_RESPONSE else 0)"

fun batch_spec :: "bool \<Rightarrow> u8 list list \<Rightarrow> (u32 \<times> u8 list) list" where
  "batch_spec first [] = []"
| "batch_spec first (c # cs) = (batch_flags first (cs = []), c) # batch_spec False cs"

definition payload :: "mt_request_generic \<Rightarrow> u8 list" where
  "payload q = take (unat (rq_size (rq_base q)) - MT_REQUEST_SOCKET_SEND_SIZE) (send_rq_bytes q)"

definition batch_view :: "mt_request_generic \<Rightarrow> u32 \<times> u8 list" where
  "batch_view q = (rq_flags (rq_base q), payload q)"

text \<open>What stays the same in all requests of a batch.\<close>

definition is_send :: "int \<Rightarrow> int \<Rightarrow> mt_request_generic \<Rightarrow> bool" where
  "is_send fd Flags q \<longleftrightarrow> rq_sig (rq_base q) = MT_SIGNATURE_REQUEST \<and> rq_type_is MtRequestSocketSend q
     \<and> rq_sockfd (rq_base q) = word_of_int fd \<and> send_rq_flags q = word_of_int Flags"

text \<open>The request of an iteration, from the one before.\<close>

definition next_request :: "u8 list \<Rightarrow> nat \<Rightarrow> mt_request_generic \<Rightarrow> mt_request_generic" where
  "next_request Buf tot req =
    (let chunksz = min MESSAGE_TYPE_MAX_PAYLOAD_LEN (length Buf - tot);
         flags = rq_flags (rq_base req);
         flags = (if tot > 0 then flags AND NOT MT_FLAGS_BATCH_SEND_INIT else flags);
         flags = (if length Buf = tot + chunksz then flags OR MT_FLAGS_BATCH_SEND_FINI else flags)
     in req\<lparr>rq_base := (rq_base req)\<lparr>rq_flags := flags, rq_size := of_nat (MT_REQUEST_SOCKET_SEND_SIZE + chunksz)\<rparr>,
            send_rq_bytes := take chunksz (drop tot Buf) @ drop chunksz (send_rq_bytes req)\<rparr>)"

lemma payload_bound: "0 < MESSAGE_TYPE_MAX_PAYLOAD_LEN" "MT_REQUEST_SOCKET_SEND_SIZE + MESSAGE_TYPE_MAX_PAYLOAD_LEN < 2 ^ 16"
  by (simp_all add: sizes)

lemma payload_next:
  assumes "tot < length Buf"
  shows "payload (next_request Buf tot req) = take MESSAGE_TYPE_MAX_PAYLOAD_LEN (drop tot Buf)"
proof -
  let ?k = "min MESSAGE_TYPE_MAX_PAYLOAD_LEN (length Buf - tot)"
  have k: "MT_REQUEST_SOCKET_SEND_SIZE + ?k < 2 ^ 16" using payload_bound by linarith
  then have "unat (of_nat (MT_REQUEST_SOCKET_SEND_SIZE + ?k) :: u16) = MT_REQUEST_SOCKET_SEND_SIZE + ?k"
    by (rule unat_of_nat_u16)
  then have "payload (next_request Buf tot req) = take ?k (take ?k (drop tot Buf) @ drop ?k (send_rq_bytes req))"
    by (simp add: payload_def next_request_def Let_def)
  also have "\<dots> = take MESSAGE_TYPE_MAX_PAYLOAD_LEN (drop tot Buf)" by (simp add: min_def)
  finally show ?thesis .
qed

lemma payload_waits [simp]: "payload (set_caller_waits q) = payload q"
  by (simp add: payload_def set_caller_waits_def)

lemma is_send_next: "is_send fd Flags req \<Longrightarrow> is_send fd Flags (next_request Buf tot req)"
  by (simp add: is_send_def next_request_def Let_def rq_type_is_def)

lemma is_send_waits: "is_send fd Flags req \<Longrightarrow> is_send fd Flags (set_caller_waits req)"
  by (simp add: is_send_def set_caller_waits_def rq_type_is_def)

text \<open>The flags a request of a batch has before its iteration.\<close>

definition batch_req :: "nat \<Rightarrow> mt_request_generic \<Rightarrow> bool" where
  "batch_req tot req \<longleftrightarrow> (\<exists>first. rq_flags (rq_base req) = batch_flags first False \<and> (tot = 0 \<longrightarrow> first))"

lemma batch_flags_bits:
  "batch_flags first False AND NOT MT_FLAGS_BATCH_SEND_INIT = batch_flags False False"
  "(batch_flags first False OR MT_FLAGS_BATCH_SEND_FINI) OR MT_FLAGS_PVM_CALLER_AWAITS_RESPONSE = batch_flags first True"
  by (cases first; simp add: batch_flags_def mw_consts)+

lemma flags_next:
  assumes "batch_req tot req" and "tot < length Buf"
  defines "fin \<equiv> length Buf = tot + min MESSAGE_TYPE_MAX_PAYLOAD_LEN (length Buf - tot)"
  shows "\<not> fin \<Longrightarrow> rq_flags (rq_base (next_request Buf tot req)) = batch_flags (tot = 0) False"
    and "fin \<Longrightarrow> rq_flags (rq_base (set_caller_waits (next_request Buf tot req))) = batch_flags (tot = 0) True"
  using assms(1) batch_flags_bits
  by (auto simp: batch_req_def next_request_def Let_def fin_def set_caller_waits_def)

lemma batch_req_next:
  "batch_req tot req \<Longrightarrow> tot < length Buf \<Longrightarrow> length Buf \<noteq> tot + min MESSAGE_TYPE_MAX_PAYLOAD_LEN (length Buf - tot) \<Longrightarrow>
     batch_req (tot + k) (next_request Buf tot req)"
  using flags_next(1) [of tot req Buf] by (auto simp: batch_req_def)

section \<open>The batch\<close>

text \<open>One iteration of the loop, written with the request it makes.\<close>

lemma batch_loop_step:
  "tot < length Buf \<Longrightarrow> batch_loop lc fd Buf tot final rc err req rsp s =
    (let chunksz = min MESSAGE_TYPE_MAX_PAYLOAD_LEN (length Buf - tot); final' = (final \<or> length Buf = tot + chunksz) in
     mwcomms_write_request lc fd final' (next_request Buf tot req) rsp s \<bind> (\<lambda>((rc, req, rsp), s).
       if rc \<noteq> 0 then
         let err = (if sh_errno s = MW_ERROR_REMOTE_SURPRISE_CLOSE then EPIPE else sh_errno s)
         in if \<not> final' then batch_loop lc fd Buf tot True rc err req rsp s else Some ((rc, err, rsp), s)
       else batch_loop lc fd Buf (tot + chunksz) final' rc err req rsp s))"
  by (subst batch_loop.simps) (simp only: next_request_def Let_def if_False not_le [symmetric])

lemma batch_loop_end: "length Buf \<le> tot \<Longrightarrow> batch_loop lc fd Buf tot final rc err req rsp s = Some ((rc, err, rsp), s)"
  by (subst batch_loop.simps) simp

lemma chunks_drop:
  assumes "tot < length Buf"
  defines "M \<equiv> MESSAGE_TYPE_MAX_PAYLOAD_LEN"
  shows "chunks M (drop tot Buf) = take M (drop tot Buf) # chunks M (drop (tot + min M (length Buf - tot)) Buf)"
    and "chunks M (drop (tot + min M (length Buf - tot)) Buf) = [] \<longleftrightarrow> length Buf = tot + min M (length Buf - tot)"
proof -
  have "0 < M" using payload_bound by (simp add: M_def)
  then show "chunks M (drop tot Buf) = take M (drop tot Buf) # chunks M (drop (tot + min M (length Buf - tot)) Buf)"
    using assms(1) by (subst chunks.simps) (auto simp: min_def add.commute chunks.simps [of _ "[]"])
  show "chunks M (drop (tot + min M (length Buf - tot)) Buf) = [] \<longleftrightarrow> length Buf = tot + min M (length Buf - tot)"
    using assms(1) \<open>0 < M\<close> by (subst chunks.simps) auto
qed

lemma batch_loop_ok:
  assumes dev: "device_ok lc R"
  shows "tot < length Buf \<Longrightarrow> batch_req tot req \<Longrightarrow> is_send fd Flags req \<Longrightarrow>
    \<exists>t qs. batch_loop lc fd Buf tot False rc err req rsp s = Some ((0, err, R), t) \<and> writes t = writes s @ qs
      \<and> map batch_view qs = batch_spec (tot = 0) (chunks MESSAGE_TYPE_MAX_PAYLOAD_LEN (drop tot Buf))
      \<and> list_all (is_send fd Flags) qs"
proof (induction "length Buf - tot" arbitrary: tot req rc rsp s rule: less_induct)
  case less
  let ?M = MESSAGE_TYPE_MAX_PAYLOAD_LEN
  define k where "k = min ?M (length Buf - tot)"
  define fin where "fin = (length Buf = tot + k)"
  let ?q = "next_request Buf tot req"
  let ?w = "if fin then set_caller_waits ?q else ?q"
  have k: "0 < k" "tot + k \<le> length Buf" using less.prems(1) payload_bound by (auto simp: k_def)
  have w: "is_send fd Flags ?w" using is_send_next [OF less.prems(3)] is_send_waits by simp
  have view: "batch_view ?w = (batch_flags (tot = 0) fin, take ?M (drop tot Buf))"
    using flags_next [OF less.prems(2,1), folded k_def fin_def] payload_next [OF less.prems(1)]
    by (simp add: batch_view_def)
  note ch = chunks_drop [OF less.prems(1), folded k_def]
  obtain u where u: "mwcomms_write_request lc fd fin ?q rsp s = Some ((0, ?w, if fin then R else rsp), u)" "writes u = writes s @ [?w]"
    by (rule write_request_ok [OF dev])
  have step: "batch_loop lc fd Buf tot False rc err req rsp s = batch_loop lc fd Buf (tot + k) fin 0 err ?w (if fin then R else rsp) u"
    using less.prems(1) u(1) by (simp add: batch_loop_step Let_def k_def [symmetric] fin_def [symmetric])
  show ?case
  proof (cases fin)
    case True
    then show ?thesis using step u(2) view w ch by (auto simp: batch_loop_end fin_def intro!: exI [of _ u] exI [of _ "[?w]"])
  next
    case False
    then have "tot + k < length Buf" using k by (simp add: fin_def)
    moreover have "batch_req (tot + k) ?q"
      using batch_req_next [OF less.prems(2,1), folded k_def] False by (simp add: fin_def)
    ultimately obtain t qs where "batch_loop lc fd Buf (tot + k) False 0 err ?q rsp u = Some ((0, err, R), t)"
      "writes t = writes u @ qs" "map batch_view qs = batch_spec False (chunks ?M (drop (tot + k) Buf))" "list_all (is_send fd Flags) qs"
      using less.hyps [of "tot + k" ?q 0 rsp u] k is_send_next [OF less.prems(3)] less.prems(1) by (auto simp: diff_less_mono2)
    then show ?thesis using False step u(2) view w ch by (auto simp: fin_def intro!: exI [of _ t] exI [of _ "?w # qs"])
  qed
qed

lemma concat_chunks: "0 < n \<Longrightarrow> concat (chunks n xs) = xs"
  by (induction n xs rule: chunks.induct) (subst chunks.simps, simp)

lemma send_ok:
  assumes dev: "device_ok lc R" and fd: "0 \<le> fd" and buf: "Buf \<noteq> []"
  obtains t qs where "send lc fd Buf Flags s = Some (if send_count R > 0 then int (unat (send_count R)) else -1, t)"
    and "writes t = writes s @ qs"
    and "map batch_view qs = batch_spec True (chunks MESSAGE_TYPE_MAX_PAYLOAD_LEN Buf)" and "list_all (is_send fd Flags) qs"
proof -
  let ?q = "(mwcomms_init_request MtRequestSocketSend MT_REQUEST_SOCKET_SEND_SIZE fd)
      \<lparr>send_rq_flags := word_of_int Flags,
       rq_base := (rq_base (mwcomms_init_request MtRequestSocketSend MT_REQUEST_SOCKET_SEND_SIZE fd))
         \<lparr>rq_flags := MT_FLAGS_BATCH_SEND_INIT OR MT_FLAGS_BATCH_SEND\<rparr>\<rparr>"
  define u where "u = snd (ldo lc (LVerify fd) s)"
  have m: "mwcomms_is_mwsocket lc fd s = (True, u)"
    using dev fd by (auto simp: mwcomms_is_mwsocket_def device_ok_def ldo_fst u_def split_beta not_less)
  have "batch_req 0 ?q" by (auto simp: batch_req_def batch_flags_def or.commute intro!: exI [of _ True])
  moreover have "is_send fd Flags ?q" by (simp add: is_send_def mwcomms_init_request_def rq_type_is_def)
  ultimately obtain t qs where t: "batch_loop lc fd Buf 0 False 0 0 ?q rs_zero u = Some ((0, 0, R), t)" "writes t = writes u @ qs"
    "map batch_view qs = batch_spec True (chunks MESSAGE_TYPE_MAX_PAYLOAD_LEN Buf)" "list_all (is_send fd Flags) qs"
    using batch_loop_ok [OF dev, of 0 Buf ?q fd Flags 0 0 rs_zero u] buf by auto
  have "writes u = writes s" by (simp add: u_def writes_ldo)
  then show thesis
    using t m dev by (intro that [of "set_errno 0 t" qs]) (auto simp: send_def device_ok_def)
qed

lemma batch_spec_Nil [simp]: "batch_spec first cs = [] \<longleftrightarrow> cs = []"
  by (cases cs) simp_all

lemma batch_spec_payloads: "map batch_view qs = batch_spec first cs \<Longrightarrow> map payload qs = cs"
  by (induction cs arbitrary: first qs) (auto simp: batch_view_def)

text \<open>
  C28 (equivalence): with a device that takes every request, \<open>send\<close> returns, and the requests it writes are those
  of the reference chunking: one per piece of at most 1985 bytes, in order, each a send request for
  the descriptor with its piece as payload; all are marked as part of a batch, the first as its
  beginning, the last as its end, and only the last asks for a response. The pieces make up the buffer.
\<close>

theorem send_is_chunking:
  assumes "device_ok lc R" and "0 \<le> fd" and "Buf \<noteq> []"
  shows "\<exists>rc t qs. send lc fd Buf Flags s = Some (rc, t) \<and> writes t = writes s @ qs
    \<and> map batch_view qs = batch_spec True (chunks MESSAGE_TYPE_MAX_PAYLOAD_LEN Buf)
    \<and> list_all (is_send fd Flags) qs \<and> concat (map payload qs) = Buf"
  by (rule send_ok [OF assms, of Flags s]) (auto simp: batch_spec_payloads concat_chunks payload_bound)

section \<open>The count of a batch\<close>

text \<open>The responses of a batch as the driver post-processes them, one after the other.\<close>

fun drive_batch :: "mt_response_generic list \<Rightarrow> mwsocket_instance \<Rightarrow> mt_response_generic list \<times> mwsocket_instance" where
  "drive_batch [] i = ([], i)"
| "drive_batch (r # rs) i =
    (case postproc_batch r i of (r', i') \<Rightarrow> case drive_batch rs i' of (rs', i'') \<Rightarrow> (r' # rs', i''))"

text \<open>A response to a send request of which the INS has sent all bytes; it carries the flags of the request.\<close>

definition fully_sent :: "mt_request_generic \<Rightarrow> mt_response_generic \<Rightarrow> bool" where
  "fully_sent q r \<longleftrightarrow> rs_type_is MtRequestSocketSend r \<and> unat (send_count r) = length (payload q)
     \<and> flag MT_FLAGS_BATCH_SEND (rs_flags (rs_base r)) = flag MT_FLAGS_BATCH_SEND (rq_flags (rq_base q))
     \<and> flag MT_FLAGS_BATCH_SEND_FINI (rs_flags (rs_base r)) = flag MT_FLAGS_BATCH_SEND_FINI (rq_flags (rq_base q))"

lemma flags_of_batch:
  "flag MT_FLAGS_BATCH_SEND (batch_flags first fin)" "flag MT_FLAGS_BATCH_SEND_FINI (batch_flags first fin) = fin"
  by (cases first; cases fin; simp add: flag_def batch_flags_def mw_consts)+

lemma fully_sent_batch:
  assumes "fully_sent q r" and "batch_view q = (batch_flags first fin, c)"
  shows "rs_type_is MtRequestSocketSend r" and "unat (send_count r) = length c"
    and "flag MT_FLAGS_BATCH_SEND (rs_flags (rs_base r))" and "flag MT_FLAGS_BATCH_SEND_FINI (rs_flags (rs_base r)) = fin"
  using assms flags_of_batch by (auto simp: fully_sent_def batch_view_def)

lemma drive_batch_last:
  "list_all2 fully_sent qs rs \<Longrightarrow> map batch_view qs = batch_spec first cs \<Longrightarrow> cs \<noteq> [] \<Longrightarrow>
    last (fst (drive_batch rs i)) = (last rs)\<lparr>send_count := word_of_int (si_send_tally i + int (length (concat cs)))\<rparr>
      \<and> fst (drive_batch rs i) \<noteq> [] \<and> rs \<noteq> []"
proof (induction cs arbitrary: qs rs first i)
  case (Cons c cs)
  from Cons.prems(2) obtain q qs' where q: "qs = q # qs'" "batch_view q = (batch_flags first (cs = []), c)"
    "map batch_view qs' = batch_spec False cs" by auto
  with Cons.prems(1) obtain r rs' where r: "rs = r # rs'" "fully_sent q r" "list_all2 fully_sent qs' rs'"
    by (auto simp: list_all2_Cons1)
  note f = fully_sent_batch [OF r(2) q(2)]
  have "send_count r = of_nat (unat (send_count r))" by (simp only: of_nat_unat ucast_id)
  then have count: "send_count r = word_of_int (int (length c))" by (simp add: f(2))
  show ?case
  proof (cases "cs = []")
    case True
    then show ?thesis using f q r count by (simp add: postproc_batch_def add.commute)
  next
    case False
    then have p: "postproc_batch r i = (r, i\<lparr>si_send_tally := si_send_tally i + int (length c)\<rparr>)"
      using f by (auto simp: postproc_batch_def word_gt_0 unat_eq_0 [symmetric])
    show ?thesis
      using Cons.IH [OF r(3) q(3) False, of "i\<lparr>si_send_tally := si_send_tally i + int (length c)\<rparr>"] r(1)
      by (auto simp: p split_beta algebra_simps)
  qed
qed simp

lemma type_unique: "rq_type_is ty q \<Longrightarrow> rq_type_is ty' q \<Longrightarrow> ty = ty'"
  by (simp add: rq_type_is_def mt_request_code_inj)

text \<open>Writing the requests of a batch starts a new tally, when no batch is going on.\<close>

lemma preproc_batch:
  assumes "list_all (is_send fd Flags) qs" and "map batch_view qs = batch_spec first cs" and "cs \<noteq> []"
  shows "\<not> flag MT_FLAGS_BATCH_SEND (si_u_flags i) \<Longrightarrow> si_send_tally (fold preproc_by_type qs i) = 0"
    and "flag MT_FLAGS_BATCH_SEND (si_u_flags i) \<Longrightarrow> fold preproc_by_type qs i = i"
proof -
  have on: "flag MT_FLAGS_BATCH_SEND MT_FLAGS_BATCH_SEND" by (simp add: flag_def mw_consts)
  have going: "fold preproc_by_type qs i = i"
    if "list_all (is_send fd Flags) qs" and "flag MT_FLAGS_BATCH_SEND (si_u_flags i)" for qs i
    using that by (induction qs) (auto simp: is_send_def preproc_by_type_def dest: type_unique)
  show "flag MT_FLAGS_BATCH_SEND (si_u_flags i) \<Longrightarrow> fold preproc_by_type qs i = i" by (rule going [OF assms(1)])
  from assms(2,3) obtain q qs' fin c where q: "qs = q # qs'" "batch_view q = (batch_flags first fin, c)"
    by (cases cs) auto
  with assms(1) flags_of_batch(1) [of first fin]
  have p: "\<not> flag MT_FLAGS_BATCH_SEND (si_u_flags i) \<Longrightarrow>
      preproc_by_type q i = i\<lparr>si_u_flags := si_u_flags i OR MT_FLAGS_BATCH_SEND, si_send_tally := 0\<rparr>"
    by (auto simp: is_send_def preproc_by_type_def batch_view_def dest: type_unique)
  show "\<not> flag MT_FLAGS_BATCH_SEND (si_u_flags i) \<Longrightarrow> si_send_tally (fold preproc_by_type qs i) = 0"
    using assms(1) q(1) p going [of qs' "preproc_by_type q i"] on by simp
qed

text \<open>
  C29 (bounds): the count that comes back from a batch send has 16 bits. When the driver sends the
  requests of the batch on an idle socket, the INS sends all bytes, and the library reads the last
  response as the driver has completed it, then \<open>send\<close> returns the length of the buffer modulo 65536; and
  -1, although everything has been sent, when this is 0.
\<close>

theorem batch_send_count:
  assumes dev: "device_ok lc R" and fd: "0 \<le> fd" and buf: "Buf \<noteq> []"
    and sent: "send lc fd Buf Flags s = Some (rc, t)" "writes t = writes s @ qs" "list_all2 fully_sent qs rs"
    and idle: "\<not> flag MT_FLAGS_BATCH_SEND (si_u_flags i)"
    and answer: "R = last (fst (drive_batch rs (fold preproc_by_type qs i)))"
  shows "rc = (if 2 ^ 16 dvd length Buf then -1 else int (length Buf mod 2 ^ 16))"
proof -
  let ?cs = "chunks MESSAGE_TYPE_MAX_PAYLOAD_LEN Buf"
  have cs: "?cs \<noteq> []" "concat ?cs = Buf" using buf concat_chunks [of MESSAGE_TYPE_MAX_PAYLOAD_LEN Buf] payload_bound by auto
  obtain qs' t' where "send lc fd Buf Flags s = Some (if send_count R > 0 then int (unat (send_count R)) else -1, t')"
    "writes t' = writes s @ qs'" "map batch_view qs' = batch_spec True ?cs" "list_all (is_send fd Flags) qs'"
    by (rule send_ok [OF dev fd buf, of Flags s])
  with sent(1,2) have rc: "rc = (if send_count R > 0 then int (unat (send_count R)) else -1)"
    and qs: "map batch_view qs = batch_spec True ?cs" "list_all (is_send fd Flags) qs" by simp_all
  have "send_count R = word_of_int (int (length Buf))"
    using drive_batch_last [OF sent(3) qs(1) cs(1)] preproc_batch(1) [OF qs(2,1) cs(1) idle] cs(2) by (simp add: answer)
  then have "send_count R = (of_nat (length Buf) :: u16)" by simp
  then have n: "unat (send_count R) = length Buf mod 2 ^ 16" by (simp add: unat_of_nat take_bit_eq_mod)
  then show ?thesis using rc by (auto simp: word_gt_0 unat_eq_0 [symmetric] mod_eq_0_iff_dvd)
qed

section \<open>Examples\<close>

text \<open>A device whose reads return a given response.\<close>

fun lc_demo :: "mt_response_generic \<Rightarrow> unit libc" where
  "lc_demo R c w = (\<lparr>lr_ret = int MT_RESPONSE_BASE_SIZE, lr_errno = 0, lr_flag = True, lr_fd = 3, lr_response = R,
     lr_attrib = attr_zero, lr_bytes = [],
     lr_addr = \<lparr>n_sin_len = 0, n_sin_family = 0, n_sin_port = 0, n_sin_addr = 0, n_sin_zero = []\<rparr>\<rparr>, w)"

definition shim_demo :: "unit shim" where
  "shim_demo = \<lparr>sh_errno = 0, lworld = (), ltrace = []\<rparr>"

lemma device_demo: "rs_status (rs_base R) = 0 \<Longrightarrow> device_ok (lc_demo R) R"
  by (simp add: device_ok_def sizes)

theorem send_is_chunking_witness:
  "\<exists>rc t qs. send (lc_demo rs_zero) 3 (replicate 2000 7) 0 shim_demo = Some (rc, t) \<and> writes t = qs
     \<and> map batch_view qs = [(batch_flags True False, replicate 1985 7), (batch_flags False True, replicate 15 7)]"
proof -
  have c: "chunks MESSAGE_TYPE_MAX_PAYLOAD_LEN (replicate 2000 (7::u8)) = [replicate 1985 7, replicate 15 7]"
    by (simp add: chunks.simps sizes)
  have "device_ok (lc_demo rs_zero) rs_zero" by (rule device_demo) (simp add: rs_zero_def rs_base_zero_def)
  from send_is_chunking [OF this, of 3 "replicate 2000 7" 0 shim_demo] show ?thesis
    by (auto simp: c writes_def shim_demo_def)
qed

text \<open>The answer of an INS that has sent everything; the last one of a batch of 65536 bytes.\<close>

definition sent_answer :: "mt_request_generic \<Rightarrow> mt_response_generic" where
  "sent_answer q = rs_zero\<lparr>rs_base := rs_base_zero\<lparr>rs_type := mt_response_code MtRequestSocketSend, rs_flags := rq_flags (rq_base q)\<rparr>,
     send_count := of_nat (length (payload q))\<rparr>"

definition wrapped_answer :: mt_response_generic where
  "wrapped_answer = rs_zero\<lparr>rs_base := rs_base_zero\<lparr>rs_type := mt_response_code MtRequestSocketSend,
     rs_flags := batch_flags False True\<rparr>, send_count := 0\<rparr>"

lemma chunks_length: "c \<in> set (chunks n xs) \<Longrightarrow> length c \<le> n"
  by (induction n xs rule: chunks.induct) (subst (asm) chunks.simps, auto split: if_split_asm)

lemma last_batch_spec: "cs \<noteq> [] \<Longrightarrow> fst (last (batch_spec first cs)) = batch_flags (first \<and> tl cs = []) True"
  by (induction cs arbitrary: first) auto

lemma wrapped_count: "(65536 :: u16) = 0"
  by code_simp

lemma sent_answers:
  assumes "map batch_view qs = batch_spec first (chunks MESSAGE_TYPE_MAX_PAYLOAD_LEN Buf)"
  shows "list_all2 fully_sent qs (map sent_answer qs)"
proof -
  have "length (payload q) \<le> MESSAGE_TYPE_MAX_PAYLOAD_LEN" if "q \<in> set qs" for q
    using that chunks_length batch_spec_payloads [OF assms] by (metis image_eqI list.set_map)
  then have "length (payload q) < 2 ^ 16" if "q \<in> set qs" for q using that payload_bound by fastforce
  then show ?thesis
    by (auto simp: list_all2_map2 list.rel_refl_strong fully_sent_def sent_answer_def rs_type_is_def unat_of_nat_u16 intro!: list.rel_refl_strong)
qed

theorem batch_send_count_witness:
  "\<exists>t. send (lc_demo wrapped_answer) 3 (replicate 65536 0) 0 shim_demo = Some (-1, t)"
proof -
  let ?Buf = "replicate 65536 0 :: u8 list"
  let ?cs = "chunks MESSAGE_TYPE_MAX_PAYLOAD_LEN ?Buf"
  have dev: "device_ok (lc_demo wrapped_answer) wrapped_answer" by (rule device_demo) (simp add: wrapped_answer_def rs_base_zero_def)
  have cs: "?cs \<noteq> []" "tl ?cs \<noteq> []" by (simp_all add: chunks.simps [of _ "replicate _ _"] sizes)
  obtain t qs where t: "send (lc_demo wrapped_answer) 3 ?Buf 0 shim_demo =
      Some (if send_count wrapped_answer > 0 then int (unat (send_count wrapped_answer)) else -1, t)"
    "writes t = writes shim_demo @ qs" "map batch_view qs = batch_spec True ?cs" "list_all (is_send 3 0) qs"
    by (rule send_ok [OF dev, of 3 ?Buf 0 shim_demo]) simp_all
  have idle: "\<not> flag MT_FLAGS_BATCH_SEND (si_u_flags (si_new 1))" by (simp add: si_new_def flag_def)
  note all = sent_answers [OF t(3)]
  have qs: "qs \<noteq> []" using t(3) cs(1) by (cases ?cs) auto
  have "fst (last (map batch_view qs)) = batch_flags False True" unfolding t(3) using last_batch_spec [OF cs(1)] cs(2) by simp
  then have "rq_flags (rq_base (last qs)) = batch_flags False True" using qs by (simp add: last_map batch_view_def)
  then have "wrapped_answer = (last (map sent_answer qs))\<lparr>send_count := 0\<rparr>"
    using qs by (simp add: last_map sent_answer_def wrapped_answer_def)
  moreover have "concat ?cs = ?Buf" by (rule concat_chunks) (simp add: payload_bound)
  ultimately have "wrapped_answer = last (fst (drive_batch (map sent_answer qs) (fold preproc_by_type qs (si_new 1))))"
    using drive_batch_last [OF all t(3) cs(1)] preproc_batch(1) [OF t(4,3) cs(1) idle] by (simp add: wrapped_count)
  from batch_send_count [OF dev _ _ t(1,2) all idle this] t(1) show ?thesis by (simp add: dvd_def)
qed

end
