(* ===== verification/ShimTypes.thy ===== *)
theory ShimTypes
  imports ShimSend
begin

text \<open>
  The requests that the shim library writes are well-formed. The locale \<open>shim_client\<close> states what is
  needed to carry a property of the state through every function of the library.
\<close>

section \<open>Well-formed requests\<close>

text \<open>The size that belongs to a type of request; a request to send has its payload in addition.\<close>

fun size_of_type :: "mt_request_type \<Rightarrow> nat \<Rightarrow> bool" where
  "size_of_type MtRequestSocketBind n \<longleftrightarrow> n = MT_REQUEST_SOCKET_BIND_SIZE"
| "size_of_type MtRequestSocketListen n \<longleftrightarrow> n = MT_REQUEST_SOCKET_LISTEN_SIZE"
| "size_of_type MtRequestSocketAccept n \<longleftrightarrow> n = MT_REQUEST_SOCKET_ACCEPT_SIZE"
| "size_of_type MtRequestSocketConnect n \<longleftrightarrow> n = MT_REQUEST_SOCKET_CONNECT_SIZE"
| "size_of_type MtRequestSocketShutdown n \<longleftrightarrow> n = MT_REQUEST_SOCKET_SHUTDOWN_SIZE"
| "size_of_type MtRequestSocketRecv n \<longleftrightarrow> n = MT_REQUEST_SOCKET_RECV_SIZE"
| "size_of_type MtRequestSocketRecvFrom n \<longleftrightarrow> n = MT_REQUEST_SOCKET_RECV_SIZE"
| "size_of_type MtRequestSocketGetName n \<longleftrightarrow> n = MT_REQUEST_SOCKET_GETNAME_SIZE"
| "size_of_type MtRequestSocketGetPeer n \<longleftrightarrow> n = MT_REQUEST_SOCKET_GETNAME_SIZE"
| "size_of_type MtRequestSocketSend n \<longleftrightarrow>
     MT_REQUEST_SOCKET_SEND_SIZE < n \<and> n \<le> MT_REQUEST_SOCKET_SEND_SIZE + MESSAGE_TYPE_MAX_PAYLOAD_LEN"
| "size_of_type _ n \<longleftrightarrow> False"

definition wf_request :: "mt_request_generic \<Rightarrow> bool" where
  "wf_request q \<longleftrightarrow> MT_IS_REQUEST (rq_base q) \<and> length (send_rq_bytes q) = MESSAGE_TYPE_MAX_PAYLOAD_LEN
     \<and> unat (rq_size (rq_base q)) \<le> sizeof_mt_request_generic
     \<and> (\<exists>ty \<in> set_option (mt_request_of (rq_type (rq_base q))). size_of_type ty (unat (rq_size (rq_base q))))"

text \<open>A request between its initialisation and its use: everything but the size.\<close>

definition raw_send :: "mt_request_generic \<Rightarrow> bool" where
  "raw_send q \<longleftrightarrow> rq_sig (rq_base q) = MT_SIGNATURE_REQUEST \<and> rq_type (rq_base q) = mt_request_code MtRequestSocketSend
     \<and> length (send_rq_bytes q) = MESSAGE_TYPE_MAX_PAYLOAD_LEN"

lemma wf_size_range: "size_of_type ty n \<Longrightarrow> MT_REQUEST_BASE_SIZE \<le> n \<and> n \<le> sizeof_mt_request_generic"
  by (cases "(ty, n)" rule: size_of_type.cases) (auto simp: sizes)

lemma request_mask: "MT_RESPONSE_MASK AND mt_request_code ty = 0"
  by (cases ty) (simp_all add: mt_request_code_val mw_consts)

lemma wf_init:
  assumes "size_of_type ty n"
  shows "wf_request (mwcomms_init_request ty n fd)"
proof -
  have n: "MT_REQUEST_BASE_SIZE \<le> n" "n \<le> sizeof_mt_request_generic" using wf_size_range [OF assms] by auto
  then have "unat (of_nat n :: u16) = n" by (intro unat_of_nat_u16) (simp add: sizeof_request_val)
  then show ?thesis
    using n assms request_mask by (simp add: wf_request_def mwcomms_init_request_def MT_IS_REQUEST_def rq_zero_def sizes)
qed

text \<open>Only the header, and the array of bytes for sends, count.\<close>

lemma wf_request_cong: "rq_base q = rq_base r \<Longrightarrow> send_rq_bytes q = send_rq_bytes r \<Longrightarrow> wf_request q = wf_request r"
  by (simp add: wf_request_def)

lemma wf_request_waits [simp]: "wf_request (set_caller_waits q) = wf_request q"
  by (simp add: wf_request_def set_caller_waits_def MT_IS_REQUEST_def)

lemma raw_send_next:
  assumes "raw_send q" and "tot < length Buf"
  shows "wf_request (next_request Buf tot q)" and "raw_send (next_request Buf tot q)"
proof -
  let ?k = "min MESSAGE_TYPE_MAX_PAYLOAD_LEN (length Buf - tot)"
  have k: "0 < ?k" "MT_REQUEST_SOCKET_SEND_SIZE + ?k < 2 ^ 16" using assms(2) payload_bound by auto
  have "unat (of_nat (MT_REQUEST_SOCKET_SEND_SIZE + ?k) :: u16) = MT_REQUEST_SOCKET_SEND_SIZE + ?k"
    by (rule unat_of_nat_u16 [OF k(2)])
  moreover have sz: "size_of_type MtRequestSocketSend (MT_REQUEST_SOCKET_SEND_SIZE + ?k)" using k(1) by simp
  ultimately show "wf_request (next_request Buf tot q)"
    using assms request_mask wf_size_range [OF sz]
    by (simp add: wf_request_def raw_send_def next_request_def Let_def MT_IS_REQUEST_def del: mt_request_code.simps of_nat_add)
  show "raw_send (next_request Buf tot q)" using assms by (simp add: raw_send_def next_request_def Let_def)
qed

lemma raw_send_waits: "raw_send q \<Longrightarrow> raw_send (set_caller_waits q)"
  by (simp add: raw_send_def set_caller_waits_def)

section \<open>Through every function\<close>

locale shim_client =
  fixes I :: "'w shim \<Rightarrow> bool" and lc :: "'w libc"
  assumes quiet: "I s \<Longrightarrow> (\<And>fd q. c \<noteq> LWriteRequest fd q) \<Longrightarrow> I (snd (ldo lc c s))"
    and request: "I s \<Longrightarrow> wf_request q \<Longrightarrow> I (snd (ldo lc (LWriteRequest fd q) s))"
    and errno: "I s \<Longrightarrow> I (set_errno e s)"
begin

lemma libc_int_keeps: "I s \<Longrightarrow> (\<And>fd q. c \<noteq> LWriteRequest fd q) \<Longrightarrow> I (snd (libc_int lc c s))"
  using quiet [of s c] by (simp add: libc_int_def split_beta)

lemma is_mwsocket_keeps: "I s \<Longrightarrow> I (snd (mwcomms_is_mwsocket lc fd s))"
  using quiet [of s "LVerify fd"] by (simp add: mwcomms_is_mwsocket_def split_beta)

lemma nap: "I s \<Longrightarrow> wf_request q \<Longrightarrow> I (snd (ldo lc LNanosleep (snd (ldo lc (LWriteRequest fd q) s))))"
  by (blast intro: quiet request)

lemma write_loop_keeps:
  assumes "write_loop lc fd q s = Some y" and "I s" and "wf_request q"
  shows "I (snd y)"
proof -
  have "lc = lc \<longrightarrow> I s \<longrightarrow> wf_request q \<longrightarrow> I (snd y)"
    by (rule write_loop.raw_induct [where P = "\<lambda>lc' fd q s y. lc' = lc \<longrightarrow> I s \<longrightarrow> wf_request q \<longrightarrow> I (snd y)", OF _ assms(1)])
      (auto simp: split_beta split: if_split_asm intro: request, (metis nap snd_conv)+)
  with assms show ?thesis by blast
qed

lemma read_loop_keeps:
  assumes "read_loop lc fd rsp s = Some y" and "I s"
  shows "I (snd y)"
proof -
  have "lc = lc \<longrightarrow> I s \<longrightarrow> I (snd y)"
    by (rule read_loop.raw_induct [where P = "\<lambda>lc' fd rsp s y. lc' = lc \<longrightarrow> I s \<longrightarrow> I (snd y)", OF _ assms(1)])
      (auto simp: split_beta split: if_split_asm intro: quiet, metis quiet lcall.distinct snd_conv)
  with assms show ?thesis by blast
qed

lemma write_request_keeps:
  assumes "mwcomms_write_request lc fd W q rsp s = Some y" and "I s" and "wf_request q"
  shows "I (snd y)"
proof -
  have "wf_request (if W then set_caller_waits q else q)" using assms(3) by simp
  then show ?thesis
    using assms(1,2) by (auto simp: mwcomms_write_request_def Let_def Option.bind_eq_Some_conv errno
        split: if_split_asm dest!: write_loop_keeps read_loop_keeps)
qed

lemma write_request_req:
  "mwcomms_write_request lc fd W q rsp s = Some ((rc, q', rsp'), t) \<Longrightarrow> q' = (if W then set_caller_waits q else q)"
  by (auto simp: mwcomms_write_request_def Let_def Option.bind_eq_Some_conv split: if_split_asm)

lemma batch_loop_keeps:
  "batch_loop lc fd Buf tot final rc err q rsp s = Some y \<Longrightarrow> raw_send q \<Longrightarrow> I s \<Longrightarrow> I (snd y)"
proof (induction "2 * (length Buf - tot) + of_bool (\<not> final)" arbitrary: tot final rc err q rsp s rule: less_induct)
  case less
  show ?case
  proof (cases "tot < length Buf")
    case True
    define k where "k = min MESSAGE_TYPE_MAX_PAYLOAD_LEN (length Buf - tot)"
    have k: "0 < k" using True payload_bound by (simp add: k_def)
    note step = batch_loop_step [OF True, of lc fd final rc err q rsp s, unfolded Let_def, folded k_def]
    obtain rc' q' rsp' u where w: "mwcomms_write_request lc fd (final \<or> length Buf = tot + k) (next_request Buf tot q) rsp s = Some ((rc', q', rsp'), u)"
      using less.prems(1) step by (auto simp: Option.bind_eq_Some_conv)
    have u: "I u" using write_request_keeps [OF w less.prems(3) raw_send_next(1) [OF less.prems(2) True]] by simp
    have q': "raw_send q'" using raw_send_next(2) [OF less.prems(2) True] write_request_req [OF w] raw_send_waits by simp
    have again: "batch_loop lc fd Buf tot True rc' e q' rsp' u = Some y \<Longrightarrow> \<not> final \<Longrightarrow> I (snd y)" for e
      by (rule less.hyps [OF _ _ q' u]) simp_all
    have more: "batch_loop lc fd Buf (tot + k) f rc' err q' rsp' u = Some y \<Longrightarrow> I (snd y)" for f
      by (rule less.hyps [OF _ _ q' u]) (use k True in \<open>auto simp: of_bool_def\<close>)
    show ?thesis using less.prems(1) step w u again more by (auto split: if_split_asm)
  next
    case False
    then show ?thesis using less.prems by (auto simp: batch_loop_end)
  qed
qed

text \<open>The functions that only pass a call on or set an attribute.\<close>

lemma ldo_keeps: "ldo lc c s = (r, t) \<Longrightarrow> I s \<Longrightarrow> (\<And>fd q. c \<noteq> LWriteRequest fd q) \<Longrightarrow> I t"
  using quiet [of s c] by simp

lemma fcntl_keeps: "I s \<Longrightarrow> I (snd (fcntl lc fd c arg s))"
  by (auto simp: fcntl_def Let_def split_beta intro!: errno quiet libc_int_keeps is_mwsocket_keeps)

lemma plain_keeps:
  "I s \<Longrightarrow> I (snd (socket lc dm ty pr s))" "I s \<Longrightarrow> I (snd (close lc fd s))"
  "I s \<Longrightarrow> I (snd (getsockopt lc fd lv op n s))" "I s \<Longrightarrow> I (snd (setsockopt lc fd lv op v s))"
  by (auto simp: socket_def close_def getsockopt_def setsockopt_def Let_def split_beta
      intro!: errno quiet libc_int_keeps fcntl_keeps is_mwsocket_keeps split: prod.split)

lemma accept4_parts_keep:
  "I s \<Longrightarrow> I (snd (accept4_flag lc fd b c arg s))" "I s \<Longrightarrow> I (snd (accept4_fail lc fd s))"
  by (auto simp: accept4_flag_def accept4_fail_def Let_def intro!: errno fcntl_keeps plain_keeps(2))

text \<open>The functions that write one request: the first call, then the request.\<close>

lemma one_request:
  assumes "(let (m, s) = mwcomms_is_mwsocket lc fd s in if \<not> m then f s else g s) = Some y" and "I s"
    and "\<And>s. I s \<Longrightarrow> f s = Some y \<Longrightarrow> I (snd y)" and "\<And>s. I s \<Longrightarrow> g s = Some y \<Longrightarrow> I (snd y)"
  shows "I (snd y)"
  using assms is_mwsocket_keeps [OF assms(2), of fd] by (auto simp: split_beta split: if_split_asm)

lemma status_keeps: "I s \<Longrightarrow> I (snd (status_or_errno rsp s))"
  by (simp add: status_or_errno_def errno)

lemmas wf_inits = wf_init [of MtRequestSocketBind MT_REQUEST_SOCKET_BIND_SIZE] wf_init [of MtRequestSocketListen MT_REQUEST_SOCKET_LISTEN_SIZE]
  wf_init [of MtRequestSocketConnect MT_REQUEST_SOCKET_CONNECT_SIZE] wf_init [of MtRequestSocketAccept MT_REQUEST_SOCKET_ACCEPT_SIZE]
  wf_init [of MtRequestSocketRecv MT_REQUEST_SOCKET_RECV_SIZE] wf_init [of MtRequestSocketRecvFrom MT_REQUEST_SOCKET_RECV_SIZE]
  wf_init [of MtRequestSocketShutdown MT_REQUEST_SOCKET_SHUTDOWN_SIZE]

lemma bind_keeps: "bind lc fd sa n s = Some y \<Longrightarrow> I s \<Longrightarrow> I (snd y)"
  unfolding bind_def
  by (erule one_request)
    (auto simp: Let_def Option.bind_eq_Some_conv errno wf_inits wf_request_cong [of "_\<lparr>bind_sockaddr := _\<rparr>"]
      intro: libc_int_keeps split: if_split_asm dest!: write_request_keeps)

lemma listen_keeps: "listen lc fd n s = Some y \<Longrightarrow> I s \<Longrightarrow> I (snd y)"
  unfolding listen_def
  by (erule one_request)
    (auto simp: Let_def Option.bind_eq_Some_conv errno wf_inits wf_request_cong [of "_\<lparr>listen_backlog := _\<rparr>"] status_keeps
      intro: libc_int_keeps split: if_split_asm dest!: write_request_keeps)

lemma connect_keeps: "connect lc fd sa n s = Some y \<Longrightarrow> I s \<Longrightarrow> I (snd y)"
  unfolding connect_def
  by (erule one_request)
    (auto simp: Let_def Option.bind_eq_Some_conv errno wf_inits wf_request_cong [of "_\<lparr>connect_sockaddr := _\<rparr>"] status_keeps
      intro: libc_int_keeps split: if_split_asm dest!: write_request_keeps)

lemma accept_keeps: "accept lc fd sa s = Some y \<Longrightarrow> I s \<Longrightarrow> I (snd y)"
  unfolding accept_def
  by (erule one_request)
    (auto simp: Let_def split_beta Option.bind_eq_Some_conv errno wf_inits intro: quiet split: if_split_asm dest!: write_request_keeps)

lemma accept4_keeps: "accept4 lc fd sa fl s = Some y \<Longrightarrow> I s \<Longrightarrow> I (snd y)"
  unfolding accept4_def
  by (erule one_request)
    (auto simp: Let_def split_beta Option.bind_eq_Some_conv errno accept4_parts_keep intro: quiet
      split: if_split_asm dest!: accept_keeps)

lemma recvfrom_keeps: "recvfrom lc fd n fl b s = Some y \<Longrightarrow> I s \<Longrightarrow> I (snd y)"
  unfolding recvfrom_def
  by (erule one_request)
    (auto simp: Let_def split_beta Option.bind_eq_Some_conv errno wf_inits wf_request_cong [of "_\<lparr>recv_rq_flags := _, recv_requested := _\<rparr>"]
      intro: quiet split: if_split_asm dest!: write_request_keeps)

lemma read_keeps: "read lc fd n s = Some y \<Longrightarrow> I s \<Longrightarrow> I (snd y)"
  unfolding read_def by (erule one_request) (auto simp: Let_def split_beta intro!: errno quiet dest: recvfrom_keeps split: if_split_asm)

lemma readv_loop_keeps: "readv_loop lc fd ns tot bufs s = Some y \<Longrightarrow> I s \<Longrightarrow> I (snd y)"
  by (induction ns arbitrary: tot bufs s) (auto simp: Option.bind_eq_Some_conv errno split: if_split_asm dest!: recvfrom_keeps)

lemma readv_keeps: "readv lc fd ns s = Some y \<Longrightarrow> I s \<Longrightarrow> I (snd y)"
  unfolding readv_def by (erule one_request) (auto simp: Let_def split_beta intro: quiet dest: readv_loop_keeps)

lemma send_keeps: "send lc fd buf fl s = Some y \<Longrightarrow> I s \<Longrightarrow> I (snd y)"
  unfolding send_def
  by (erule one_request)
    (auto simp: Let_def Option.bind_eq_Some_conv errno raw_send_def mwcomms_init_request_def rq_zero_def sizes
      intro: libc_int_keeps split: if_split_asm dest!: batch_loop_keeps)

lemma write_keeps: "shim_write lc fd buf s = Some y \<Longrightarrow> I s \<Longrightarrow> I (snd y)"
  unfolding shim_write_def by (erule one_request) (auto intro: libc_int_keeps dest: send_keeps)

lemma writev_loop_keeps: "writev_loop lc fd bs tot s = Some y \<Longrightarrow> I s \<Longrightarrow> I (snd y)"
  by (induction bs arbitrary: tot s) (auto simp: Option.bind_eq_Some_conv errno split: if_split_asm dest!: send_keeps)

lemma writev_keeps: "writev lc fd bs s = Some y \<Longrightarrow> I s \<Longrightarrow> I (snd y)"
  unfolding writev_def by (erule one_request) (auto intro: libc_int_keeps dest: writev_loop_keeps)

lemma shutdown_keeps: "shutdown lc fd how s = Some y \<Longrightarrow> I s \<Longrightarrow> I (snd y)"
  unfolding shutdown_def
  by (erule one_request)
    (auto simp: Let_def Option.bind_eq_Some_conv errno wf_inits wf_request_cong [of "_\<lparr>shutdown_how := _\<rparr>"]
      intro: libc_int_keeps split: if_split_asm dest!: write_request_keeps)

lemma get_name_keeps:
  "get_name ty lc fd sa n s = Some y \<Longrightarrow> size_of_type ty MT_REQUEST_SOCKET_GETNAME_SIZE \<Longrightarrow> I s \<Longrightarrow> I (snd y)"
  by (auto simp: get_name_def Let_def Option.bind_eq_Some_conv errno wf_init wf_request_cong [of "_\<lparr>getname_maxlen := _\<rparr>"]
      split: if_split_asm dest!: write_request_keeps)

lemma names_keep:
  "getsockname lc fd sa n s = Some y \<Longrightarrow> I s \<Longrightarrow> I (snd y)" "getpeername lc fd sa n s = Some y \<Longrightarrow> I s \<Longrightarrow> I (snd y)"
  unfolding getsockname_def getpeername_def
  by (erule one_request; auto simp: Let_def split_beta intro!: errno quiet dest: get_name_keeps)+

end

section \<open>A process with the library\<close>

text \<open>What a process does: calls of the library, one after the other.\<close>

inductive shim_step :: "'w libc \<Rightarrow> 'w shim \<Rightarrow> 'w shim \<Rightarrow> bool" for lc where
  socket: "shim_step lc s (snd (socket lc dm ty pr s))"
| close: "shim_step lc s (snd (close lc fd s))"
| fcntl: "shim_step lc s (snd (fcntl lc fd c arg s))"
| getsockopt: "shim_step lc s (snd (getsockopt lc fd lv op n s))"
| setsockopt: "shim_step lc s (snd (setsockopt lc fd lv op v s))"
| bind: "bind lc fd sa n s = Some (rc, t) \<Longrightarrow> shim_step lc s t"
| listen: "listen lc fd n s = Some (rc, t) \<Longrightarrow> shim_step lc s t"
| connect: "connect lc fd sa n s = Some (rc, t) \<Longrightarrow> shim_step lc s t"
| accept: "accept lc fd osa s = Some (r, t) \<Longrightarrow> shim_step lc s t"
| accept4: "accept4 lc fd osa fl s = Some (r, t) \<Longrightarrow> shim_step lc s t"
| recvfrom: "recvfrom lc fd n fl b s = Some (r', t) \<Longrightarrow> shim_step lc s t"
| recv: "recv lc fd n fl s = Some (r', t) \<Longrightarrow> shim_step lc s t"
| read: "read lc fd n s = Some (r', t) \<Longrightarrow> shim_step lc s t"
| readv: "readv lc fd ns s = Some (bufs, t) \<Longrightarrow> shim_step lc s t"
| send: "send lc fd buf fl s = Some (rc, t) \<Longrightarrow> shim_step lc s t"
| write_fd: "shim_write lc fd buf s = Some (rc, t) \<Longrightarrow> shim_step lc s t"
| writev: "writev lc fd bs s = Some (rc, t) \<Longrightarrow> shim_step lc s t"
| shutdown: "shutdown lc fd how s = Some (rc, t) \<Longrightarrow> shim_step lc s t"
| getsockname: "getsockname lc fd sa n s = Some (r'', t) \<Longrightarrow> shim_step lc s t"
| getpeername: "getpeername lc fd sa n s = Some (r'', t) \<Longrightarrow> shim_step lc s t"

inductive shim_run :: "'w libc \<Rightarrow> 'w shim \<Rightarrow> 'w shim \<Rightarrow> bool" for lc where
  refl: "shim_run lc s s"
| step: "shim_run lc s t \<Longrightarrow> shim_step lc t u \<Longrightarrow> shim_run lc s u"

context shim_client begin

lemma step_keeps: "shim_step lc s t \<Longrightarrow> I s \<Longrightarrow> I t"
  by (induction rule: shim_step.induct)
    (auto simp: plain_keeps fcntl_keeps recv_def dest: bind_keeps listen_keeps connect_keeps accept_keeps accept4_keeps recvfrom_keeps
      read_keeps readv_keeps send_keeps write_keeps writev_keeps shutdown_keeps names_keep)

lemma run_keeps: "shim_run lc s t \<Longrightarrow> I s \<Longrightarrow> I t"
  by (induction rule: shim_run.induct) (auto dest: step_keeps)

end

interpretation wf_writes: shim_client "\<lambda>s. list_all wf_request (writes s)" lc for lc
proof
  fix s :: "'a shim" and c
  assume "list_all wf_request (writes s)" and "\<And>fd q. c \<noteq> LWriteRequest fd q"
  then show "list_all wf_request (writes (snd (ldo lc c s)))" by (cases c) (auto simp: writes_ldo)
qed (simp_all add: writes_ldo)

text \<open>
  C30 (type): every request that a process writes through the library, whatever functions it calls and
  whatever the calls below return, is well-formed: it has the signature of a request, a type that
  exists, exactly the size that belongs to the type (for a send with 1 to 1985 bytes of payload), and
  fits the structure that the driver reads it into.
\<close>

theorem shim_requests_well_formed:
  assumes "shim_run lc s t" and "ltrace s = []"
  shows "list_all wf_request (writes t)"
  by (rule wf_writes.run_keeps [OF assms(1)]) (simp add: writes_def assms(2))

theorem shim_requests_well_formed_witness:
  "\<exists>t. send (lc_demo rs_zero) 3 [1, 2, 3] 0 shim_demo = Some (-1, t) \<and> length (writes t) = 1 \<and> list_all wf_request (writes t)"
proof -
  have dev: "device_ok (lc_demo rs_zero) rs_zero" by (rule device_demo) (simp add: rs_zero_def rs_base_zero_def)
  obtain t qs where t: "send (lc_demo rs_zero) 3 [1, 2, 3] 0 shim_demo = Some (-1, t)"
    "writes t = qs" "map batch_view qs = batch_spec True (chunks MESSAGE_TYPE_MAX_PAYLOAD_LEN [1, 2, 3])"
    by (rule send_ok [OF dev, of 3 "[1, 2, 3]" 0 shim_demo]) (auto simp: rs_zero_def writes_def shim_demo_def)
  have "length (map batch_view qs) = 1" unfolding t(3) by (simp add: chunks.simps sizes)
  moreover have "list_all wf_request (writes t)"
    by (rule shim_requests_well_formed [OF shim_run.step [OF shim_run.refl shim_step.send [OF t(1)]]]) (simp add: shim_demo_def)
  ultimately show ?thesis using t(1,2) by auto
qed

end
