(* ===== verification/ShimErrors.thy ===== *)
theory ShimErrors
  imports ShimSend
begin

text \<open>
  What the shim library tells a process when something goes wrong below it, and three results that it
  takes from the wrong place.
\<close>

section \<open>A response that cannot be read\<close>

text \<open>A device that takes requests for the mwsocket \<open>fd\<close> and refuses to hand out the response, with the error \<open>e\<close>.\<close>

definition unreadable :: "'w libc \<Rightarrow> int \<Rightarrow> int \<Rightarrow> bool" where
  "unreadable lc fd e \<longleftrightarrow> 0 \<le> fd \<and> e \<noteq> EINTR
     \<and> (\<forall>w. lr_flag (fst (lc (LVerify fd) w)) \<and> 0 \<le> lr_ret (fst (lc (LVerify fd) w)))
     \<and> (\<forall>q w. 0 \<le> lr_ret (fst (lc (LWriteRequest fd q) w)))
     \<and> (\<forall>n w. lr_ret (fst (lc (LReadResponse fd n) w)) = -1 \<and> lr_errno (fst (lc (LReadResponse fd n) w)) = e)"

lemma unreadable_verify:
  assumes "unreadable lc fd e"
  obtains u where "mwcomms_is_mwsocket lc fd s = (True, u)"
  using assms by (auto simp: mwcomms_is_mwsocket_def unreadable_def ldo_fst split_beta not_less)

lemma errno_ldo: "sh_errno (snd (ldo lc c s)) = lr_errno (fst (ldo lc c s))"
  by (simp add: ldo_def split_beta)

lemma rs_zero_fields [simp]:
  "rs_status (rs_base rs_zero) = 0" "recv_count rs_zero = 0" "recvfrom_count rs_zero = 0" "send_count rs_zero = 0"
  by (simp_all add: rs_zero_def rs_base_zero_def)

lemma minus_one_size: "\<not> unat (- 1 :: u64) < MT_RESPONSE_BASE_SIZE"
  by (simp add: sizes unsigned_minus_1_eq_mask mask_eq_exp_minus_1)

lemma unreadable_request:
  assumes dev: "unreadable lc fd e"
  obtains t q where "mwcomms_write_request lc fd True req rs_zero s = Some ((0, q, rs_zero), t)" and "sh_errno t = e"
proof -
  define q where "q = set_caller_waits req"
  define u where "u = snd (ldo lc (LWriteRequest fd q) s)"
  define v where "v = snd (ldo lc (LReadResponse fd sizeof_mt_response_generic) u)"
  have w0: "0 \<le> lr_ret (fst (ldo lc (LWriteRequest fd q) s))" using dev by (simp add: unreadable_def ldo_fst)
  then have wl: "write_loop lc fd q s = Some (lr_ret (fst (ldo lc (LWriteRequest fd q) s)), u)"
    by (simp add: write_loop.simps [of lc fd q s] u_def split_beta)
  have r: "lr_ret (fst (ldo lc (LReadResponse fd sizeof_mt_response_generic) u)) = -1" and v: "sh_errno v = e" and e: "e \<noteq> EINTR"
    using dev by (auto simp: unreadable_def ldo_fst v_def errno_ldo)
  then have rl: "read_loop lc fd rs_zero u = Some ((-1, rs_zero), v)"
    by (simp add: read_loop.simps [of lc fd rs_zero u] v_def split_beta)
  have "mwcomms_write_request lc fd True req rs_zero s = Some ((0, q, rs_zero), v)"
    using wl w0 rl by (simp add: mwcomms_write_request_def q_def [symmetric] Let_def IS_CRITICAL_ERROR_def mw_consts minus_one_size)
  with v show thesis by (rule that [rotated])
qed

text \<open>
  C31 (error): a response that cannot be read counts as a success. The number of bytes read, -1, is
  compared as an unsigned number with the size of a header, so that the library goes on with the zeroed
  response: bind, listen and connect return 0, and recv returns 0 as at the end of the stream,
  whatever the error was.
\<close>

theorem unread_response_is_success:
  assumes "unreadable lc fd e" and "n_sin_family sa = AF_INET"
  shows "(\<exists>t. bind lc fd sa 16 s = Some (0, t) \<and> sh_errno t = e)
    \<and> (\<exists>t. listen lc fd n s = Some (0, t) \<and> sh_errno t = e)
    \<and> (\<exists>t. connect lc fd sa 16 s = Some (0, t) \<and> sh_errno t = e)
    \<and> (\<exists>t. recv lc fd len fl s = Some ((0, ro_none), t))"
proof -
  obtain u where u: "mwcomms_is_mwsocket lc fd s = (True, u)" by (rule unreadable_verify [OF assms(1)])
  have req: "\<exists>q t. mwcomms_write_request lc fd True req rs_zero u = Some ((0, q, rs_zero), t) \<and> sh_errno t = e" for req
    by (rule unreadable_request [OF assms(1), of req u]) blast
  have "\<exists>t. bind lc fd sa 16 s = Some (0, t) \<and> sh_errno t = e"
    using req [of "(mwcomms_init_request MtRequestSocketBind MT_REQUEST_SOCKET_BIND_SIZE fd)\<lparr>bind_sockaddr := populate_mt_sockaddr_in
        (bind_sockaddr (mwcomms_init_request MtRequestSocketBind MT_REQUEST_SOCKET_BIND_SIZE fd)) sa\<rparr>"] u assms(2)
    by (auto simp: bind_def)
  moreover have "\<exists>t. listen lc fd n s = Some (0, t) \<and> sh_errno t = e"
    using req [of "(mwcomms_init_request MtRequestSocketListen MT_REQUEST_SOCKET_LISTEN_SIZE fd)\<lparr>listen_backlog := n\<rparr>"] u
    by (auto simp: listen_def status_or_errno_def)
  moreover have "\<exists>t. connect lc fd sa 16 s = Some (0, t) \<and> sh_errno t = e"
    using req [of "(mwcomms_init_request MtRequestSocketConnect MT_REQUEST_SOCKET_CONNECT_SIZE fd)\<lparr>connect_sockaddr := populate_mt_sockaddr_in
        (connect_sockaddr (mwcomms_init_request MtRequestSocketConnect MT_REQUEST_SOCKET_CONNECT_SIZE fd)) sa\<rparr>"] u
    by (auto simp: connect_def status_or_errno_def)
  moreover have "\<exists>t. recv lc fd len fl s = Some ((0, ro_none), t)"
    using req [of "(mwcomms_init_request MtRequestSocketRecv MT_REQUEST_SOCKET_RECV_SIZE fd)\<lparr>recv_rq_flags := word_of_int fl,
        recv_requested := of_nat (min MESSAGE_TYPE_MAX_PAYLOAD_LEN len)\<rparr>"] u
    by (auto simp: recv_def recvfrom_def received_def)
  ultimately show ?thesis by blast
qed

text \<open>A device that answers every read with the error EPIPE.\<close>

fun lc_broken :: "unit libc" where
  "lc_broken (LReadResponse fd n) w = ((fst (lc_demo rs_zero LNanosleep ()))\<lparr>lr_ret := -1, lr_errno := EPIPE\<rparr>, w)"
| "lc_broken c w = lc_demo rs_zero c w"

definition any_address :: sockaddr_in where
  "any_address = \<lparr>n_sin_len = 16, n_sin_family = AF_INET, n_sin_port = 80, n_sin_addr = 0, n_sin_zero = replicate 8 0\<rparr>"

theorem unread_response_is_success_witness:
  "unreadable lc_broken 3 EPIPE \<and> (\<exists>t. bind lc_broken 3 any_address 16 shim_demo = Some (0, t) \<and> sh_errno t = EPIPE)"
proof -
  have dev: "unreadable lc_broken 3 EPIPE" by (simp add: unreadable_def)
  moreover have "n_sin_family any_address = AF_INET" by (simp add: any_address_def)
  ultimately show ?thesis using unread_response_is_success [of lc_broken 3 EPIPE any_address shim_demo 0 0 0] by blast
qed

section \<open>Results from the wrong place\<close>

text \<open>
  For recvfrom with an address the library copies from the place where the response to recv has its
  bytes: the buffer starts with 28 bytes of the header, the address and the counts.
\<close>

lemma length_le_bytes [simp]: "length (le_bytes k n) = k"
  by (induction k arbitrary: n) simp_all

lemma recvfrom_copies_header:
  assumes dev: "device_ok lc R" and "0 \<le> fd" and R: "rs_type_is MtRequestSocketRecvFrom R" "0 < recvfrom_count R"
    and zero: "length (sin_zero (recvfrom_src_addr R)) = 8"
  shows "\<exists>out t. recvfrom lc fd len fl True s = Some ((int (unat (recvfrom_count R)), out), t)
    \<and> take 28 (ro_buf out) = take (unat (recvfrom_count R)) (drop 2 (sockaddr_bytes (recvfrom_src_addr R)
        @ le_bytes 4 (unat (recvfrom_addrlen R)) @ le_bytes 2 (unat (recvfrom_count R))))"
proof -
  define u where "u = snd (ldo lc (LVerify fd) s)"
  have m: "mwcomms_is_mwsocket lc fd s = (True, u)"
    using dev assms(2) by (auto simp: mwcomms_is_mwsocket_def device_ok_def ldo_fst u_def split_beta not_less)
  let ?q = "(mwcomms_init_request MtRequestSocketRecvFrom MT_REQUEST_SOCKET_RECV_SIZE fd)\<lparr>recv_rq_flags := word_of_int fl,
      recv_requested := of_nat (min MESSAGE_TYPE_MAX_PAYLOAD_LEN len)\<rparr>"
  obtain t where "mwcomms_write_request lc fd True ?q rs_zero u = Some ((0, set_caller_waits ?q, R), t)"
    using write_request_ok [OF dev, of fd True ?q rs_zero u] by auto
  moreover have "rs_status (rs_base R) = 0" using dev by (simp add: device_ok_def)
  moreover have "take 28 (take n (drop 2 (H @ B))) = take n (drop 2 H)" if "length H = 30" for n and H B :: "u8 list"
    using that by (cases "n \<le> 28") (simp_all add: min_def)
  from this [of "sockaddr_bytes (recvfrom_src_addr R) @ le_bytes 4 (unat (recvfrom_addrlen R)) @ le_bytes 2 (unat (recvfrom_count R))"]
  have "take 28 (take n (drop 2 (recvfrom_body R))) = take n (drop 2 (sockaddr_bytes (recvfrom_src_addr R)
      @ le_bytes 4 (unat (recvfrom_addrlen R)) @ le_bytes 2 (unat (recvfrom_count R))))" for n
    using zero by (simp add: recvfrom_body_def sockaddr_bytes_def)
  ultimately show ?thesis using m R by (auto simp: recvfrom_def received_def socket_recv_bytes_def Let_def)
qed

text \<open>On a descriptor that is not an mwsocket, readv returns 0 whatever has been read.\<close>

lemma readv_returns_nothing:
  "fd < 0 \<or> \<not> lr_flag (fst (lc (LVerify fd) (lworld s))) \<Longrightarrow> \<exists>bufs t. readv lc fd iov s = Some ((0, bufs), t)"
  by (auto simp: readv_def mwcomms_is_mwsocket_def ldo_fst split_beta Let_def)

text \<open>
  A query of an option returns zeros when the driver hands the attributes back as they came, which it
  does (\<open>handle_query\<close> for the driver).
\<close>

lemma le_bytes_zero: "le_bytes k 0 = replicate k 0"
  by (induction k) simp_all

lemma getsockopt_returns_zeros:
  assumes "mwcomms_is_mwsocket lc fd s = (True, u)" and "mwcomms_set_sockattr lv op attr_zero = (0, A)"
    and "lr_ret (fst (lc (LAttrib fd A) (lworld u))) = 0" and "lr_attrib (fst (lc (LAttrib fd A) (lworld u))) = A"
    and "0 < n" and "n \<le> 16"
  shows "\<exists>t m. getsockopt lc fd lv op n s = ((0, replicate m 0, m), t) \<and> n \<le> m"
proof -
  have A: "sa_val A = \<lparr>feat_s = 0, feat_us = 0\<rparr>" "\<not> sa_modify A"
    using assms(2) by (auto simp: mwcomms_set_sockattr_def attr_zero_def split: if_split_asm option.split_asm)
  then have "A\<lparr>sa_modify := False\<rparr> = A" by (cases A) simp
  moreover have "feat_bytes (sa_val A) = replicate 16 0"
    by (simp add: A feat_bytes_def le_bytes_zero flip: replicate_add)
  ultimately show ?thesis
    using assms by (auto simp: getsockopt_def Let_def split_beta ldo_fst min_def)
qed

end
