(* ===== verification/InsDriver.thy ===== *)
theory InsDriver
  imports XenIface "HOL-Library.Monad_Syntax"
begin

text \<open>
  The driver of the INS (libxenevent in the rump kernel: xenevent\_comms.c, xenevent\_device.c,
  xenevent\_minios.c, xenevent\_netbsd.c): XenStore keys, the registration with the PVM, the back end of the
  ring, and the character device /dev/xe that the INS application opens.

  The kernel below it (mini-os, NetBSD and the macros of Xen's ring) is the parameter \<open>drv\<close>, a function
  from a call and a state of the world to a result; \<open>dtrace\<close> records the calls. None is a call that
  does not return or a null pointer that would be dereferenced.
\<close>

section \<open>Constants\<close>

abbreviation "BMK_EBUSY \<equiv> (16::int)"
abbreviation "EPASSTHROUGH \<equiv> (-4::int)"
abbreviation "PAGE_SIZE \<equiv> (4096::nat)"

definition MAX_KEY_VAL_WIDTH :: nat where [mw_consts]: "MAX_KEY_VAL_WIDTH = 32"
definition INS_IP_ADDR_KEY :: string where [mw_consts]: "INS_IP_ADDR_KEY = ''ip_addrs''"
definition INS_SOCKET_PARAMS_KEY :: string where [mw_consts]: "INS_SOCKET_PARAMS_KEY = ''sockopts''"
definition INS_NETWORK_STATS_KEY :: string where [mw_consts]: "INS_NETWORK_STATS_KEY = ''network_stats''"
definition INS_LISTENER_KEY :: string where [mw_consts]: "INS_LISTENER_KEY = ''listening_ports''"
definition SERVER_ID_PATH :: string where [mw_consts]: "SERVER_ID_PATH = XENEVENT_XENSTORE_PVM @ ''/'' @ SERVER_ID_KEY"
definition INS_SOCK_PARAMS_MAX_LEN :: nat where [mw_consts]: "INS_SOCK_PARAMS_MAX_LEN = 512"
definition IP_BUF_SIZE :: nat where [mw_consts]: "IP_BUF_SIZE = 128"

section \<open>Calls and state\<close>

text \<open>
  The calls. A transaction of XenStore has no parameter because only one is open at a time. The ring
  calls have the private index that the macro uses; \<open>DRingPut\<close> is the copy of the first bytes of a
  response into a slot. \<open>DSemDown\<close> blocks until the event channel ups the semaphore, and takes it; its
  result is the number of further events that have arrived by then.
\<close>

datatype dcall =
    DXsStart
  | DXsEnd
  | DXsRead string
  | DXsWrite string string
  | DXsRm string
  | DXsWatch string
  | DXsWait
  | DXsUnwatch string
  | DAlloc
  | DPgAlloc
  | DPgFree
  | DGntmapInit
  | DGntmapMap u16 "u32 list"
  | DGntmapFini
  | DEvtBind u16 int
  | DEvtClear int
  | DEvtUnmask int
  | DEvtMask int
  | DEvtUnbind int
  | DEvtNotify int
  | DRingInit nat
  | DRingHasRequests u32
  | DRingRequest u32
  | DRingPut u32 mt_response_generic nat
  | DRingPush u32
  | DSemDown
  | DRoutes
  | DDevAttach
  | DDevNode

text \<open>
  A result: the return value (0 also for a null error string), the string read, the event port,
  the request in a slot. For a walk over the routes it has for each route the addresses of its
  interface: whether it is an IPv4 address, and its text.
\<close>

record dret =
  dr_ret :: int
  dr_str :: string
  dr_port :: int
  dr_request :: mt_request_generic
  dr_routes :: "(bool \<times> string) list list"

type_synonym 'w drv = "dcall \<Rightarrow> 'w \<Rightarrow> dret \<times> 'w"

text \<open>
  \<open>xen_comm_state_t\<close> and \<open>xen_dev_state_t\<close> with the static variables of the functions. A semaphore is
  its count, a mutex whether it is held; None is a null pointer. Of \<open>shared_ring\<close> and
  \<open>event_channel_mem\<close> only whether they are null is kept.
\<close>

record 'w xe_state =
  local_id :: u16
  grant_refs :: "u32 list"
  shared_ring :: bool
  shared_ring_size :: nat
  req_cons :: u32
  rsp_prod_pvt :: u32
  event_channel_mem :: bool
  local_event_port :: int
  messages_available :: "nat option"
  heartbeat :: int
  heartbeat_path :: string
  stats_path :: string
  listener_path :: string
  sock_init :: bool
  sock_path :: string
  read_lock :: "bool option"
  write_lock :: "bool option"
  open_count :: u32
  ip_found :: bool
  dworld :: 'w
  dtrace :: "(dcall \<times> dret) list"

definition ddo :: "'w drv \<Rightarrow> dcall \<Rightarrow> 'w xe_state \<Rightarrow> dret \<times> 'w xe_state" where
  "ddo drv c s = (let (r, w) = drv c (dworld s) in (r, s\<lparr>dworld := w, dtrace := dtrace s @ [(c, r)]\<rparr>))"

section \<open>Semaphores and mutexes\<close>

definition xenevent_semaphore_init :: "'w drv \<Rightarrow> 'w xe_state \<Rightarrow> int \<times> 'w xe_state" where
  "xenevent_semaphore_init drv s =
    (let (r, s) = ddo drv DAlloc s
     in if dr_ret r \<noteq> 0 then (BMK_ENOMEM, s) else (0, s\<lparr>messages_available := Some 0\<rparr>))"

definition xenevent_semaphore_destroy :: "'w xe_state \<Rightarrow> 'w xe_state" where
  "xenevent_semaphore_destroy s = s\<lparr>messages_available := None\<rparr>"

definition xenevent_semaphore_up :: "'w xe_state \<Rightarrow> 'w xe_state option" where
  "xenevent_semaphore_up s = do { n \<leftarrow> messages_available s; Some (s\<lparr>messages_available := Some (n + 1)\<rparr>) }"

definition xenevent_semaphore_down :: "'w drv \<Rightarrow> 'w xe_state \<Rightarrow> 'w xe_state option" where
  "xenevent_semaphore_down drv s = do {
     n \<leftarrow> messages_available s;
     if n > 0 then Some (s\<lparr>messages_available := Some (n - 1)\<rparr>)
     else let (r, s) = ddo drv DSemDown s in Some (s\<lparr>messages_available := Some (nat (dr_ret r))\<rparr>)
   }"

definition xenevent_mutex_init :: "'w drv \<Rightarrow> bool option \<Rightarrow> 'w xe_state \<Rightarrow> (int \<times> bool option) \<times> 'w xe_state" where
  "xenevent_mutex_init drv Mutex s =
    (let (r, s) = ddo drv DAlloc s in (if dr_ret r \<noteq> 0 then (BMK_ENOMEM, Mutex) else (0, Some False), s))"

definition xenevent_mutex_wait :: "bool option \<Rightarrow> bool option option" where
  "xenevent_mutex_wait Mutex = do { held \<leftarrow> Mutex; if held then None else Some (Some True) }"

definition xenevent_mutex_release :: "bool option \<Rightarrow> bool option option" where
  "xenevent_mutex_release Mutex = do { held \<leftarrow> Mutex; Some (Some False) }"

section \<open>XenStore keys\<close>

text \<open>The transaction is ended whether or not the write succeeded; its end is not checked.\<close>

definition xe_comms_write_str_to_key :: "'w drv \<Rightarrow> string \<Rightarrow> string \<Rightarrow> 'w xe_state \<Rightarrow> int \<times> 'w xe_state" where
  "xe_comms_write_str_to_key drv Path Value s =
    (let (r, s) = ddo drv DXsStart s in
     if dr_ret r \<noteq> 0 then (1, s)
     else
       let (r, s) = ddo drv (DXsWrite Path Value) s
       in (if dr_ret r \<noteq> 0 then 1 else 0, snd (ddo drv DXsEnd s)))"

definition xe_comms_write_int_to_key :: "'w drv \<Rightarrow> string \<Rightarrow> int \<Rightarrow> 'w xe_state \<Rightarrow> int \<times> 'w xe_state" where
  "xe_comms_write_int_to_key drv Path Value s =
     xe_comms_write_str_to_key drv Path (snprintf MAX_KEY_VAL_WIDTH (fmt_u (unat (word_of_int Value :: u32)))) s"

text \<open>\<^verbatim>\<open>bmk_snprintf( path, sizeof( path ), "%s/%d/%s", XENEVENT_XENSTORE_ROOT, g_state.local_id, ... )\<close>\<close>

definition xe_key :: "u16 \<Rightarrow> string \<Rightarrow> string" where
  "xe_key d key = snprintf XENEVENT_PATH_STR_LEN (XENEVENT_XENSTORE_ROOT @ ''/'' @ fmt_u (unat d) @ ''/'' @ key)"

definition xe_comms_publish_ip_addr :: "'w drv \<Rightarrow> string \<Rightarrow> 'w xe_state \<Rightarrow> int \<times> 'w xe_state" where
  "xe_comms_publish_ip_addr drv Ip s = xe_comms_write_str_to_key drv (xe_key (local_id s) INS_IP_ADDR_KEY) Ip s"

definition xe_comms_read_str_from_key ::
  "'w drv \<Rightarrow> string \<Rightarrow> 'w xe_state \<Rightarrow> (int \<times> string option) \<times> 'w xe_state" where
  "xe_comms_read_str_from_key drv Path s =
    (let (r, s) = ddo drv DXsStart s in
     if dr_ret r \<noteq> 0 then ((1, None), s)
     else
       let (r, s) = ddo drv (DXsRead Path) s
       in (if dr_ret r \<noteq> 0 then (1, None) else (0, Some (dr_str r)), snd (ddo drv DXsEnd s)))"

definition xe_comms_remove_directory :: "'w drv \<Rightarrow> string \<Rightarrow> 'w xe_state \<Rightarrow> int \<times> 'w xe_state" where
  "xe_comms_remove_directory drv Path s =
    (let (r, s) = ddo drv DXsStart s in
     if dr_ret r \<noteq> 0 then (1, s)
     else
       let (r, s) = ddo drv (DXsRm Path) s
       in (if dr_ret r \<noteq> 0 then 1 else 0, snd (ddo drv DXsEnd s)))"

text \<open>\<open>bmk_strtoul\<close> returns an unsigned long, which is stored in an int.\<close>

definition xe_comms_read_int_from_key ::
  "'w drv \<Rightarrow> string \<Rightarrow> 'w xe_state \<Rightarrow> ((int \<times> int) \<times> 'w xe_state) option" where
  "xe_comms_read_int_from_key drv Path s =
    (case xe_comms_read_str_from_key drv Path s of
       ((res, None), s) \<Rightarrow> Some ((res, 0), s)
     | ((res, Some str), s) \<Rightarrow> do {
         (n, rest) \<leftarrow> bmk_strtoul str 10;
         Some ((res, sint (ucast n :: u32)), s)
       })"

partial_function (option) wait_for_key :: "'w drv \<Rightarrow> string \<Rightarrow> 'w xe_state \<Rightarrow> ((int \<times> int) \<times> 'w xe_state) option" where
  "wait_for_key drv Path s = do {
     ((rc, OutVal), s) \<leftarrow> xe_comms_read_int_from_key drv Path s;
     if rc \<noteq> 0 \<or> OutVal = 0 then wait_for_key drv Path (snd (ddo drv DXsWait s))
     else Some ((rc, OutVal), s)
   }"

declare wait_for_key.simps [code]

definition xe_comms_wait_and_read_int_from_key ::
  "'w drv \<Rightarrow> string \<Rightarrow> 'w xe_state \<Rightarrow> ((int \<times> int) \<times> 'w xe_state) option" where
  "xe_comms_wait_and_read_int_from_key drv Path s = do {
     (res, s) \<leftarrow> wait_for_key drv Path (snd (ddo drv (DXsWatch Path) s));
     Some (res, snd (ddo drv (DXsUnwatch Path) s))
   }"

section \<open>The ring\<close>

definition send_event :: "'w drv \<Rightarrow> int \<Rightarrow> 'w xe_state \<Rightarrow> int \<times> 'w xe_state" where
  "send_event drv Port s = (let (r, s) = ddo drv (DEvtNotify Port) s in (dr_ret r, s))"

definition xe_comms_event_callback :: "'w xe_state \<Rightarrow> 'w xe_state option" where
  "xe_comms_event_callback s = xenevent_semaphore_up s"

text \<open>The loop of \<open>xe_comms_read_item\<close> until a request is available.\<close>

partial_function (option) wait_for_request :: "'w drv \<Rightarrow> 'w xe_state \<Rightarrow> 'w xe_state option" where
  "wait_for_request drv s =
    (let (r, s) = ddo drv (DRingHasRequests (req_cons s)) s in
     if dr_ret r \<noteq> 0 then Some s
     else do {
       s \<leftarrow> xenevent_semaphore_down drv s;
       wait_for_request drv s
     })"

declare wait_for_request.simps [code]

text \<open>
  The return code, the number of bytes and the request copied to \<open>Memory\<close> (None: nothing copied). The index advances in any case.
\<close>

definition xe_comms_read_item ::
  "'w drv \<Rightarrow> nat \<Rightarrow> 'w xe_state \<Rightarrow> ((int \<times> nat \<times> mt_request_generic option) \<times> 'w xe_state) option" where
  "xe_comms_read_item drv Size s = do {
     s \<leftarrow> wait_for_request drv s;
     let (r, s) = ddo drv (DRingRequest (req_cons s)) s;
     let request = dr_request r;
     let res = (if \<not> MT_IS_REQUEST (rq_base request) \<or> unat (rq_size (rq_base request)) > Size
                then (BMK_EINVAL, 0, None)
                else (0, unat (rq_size (rq_base request)), Some request));
     Some (res, s\<lparr>req_cons := req_cons s + 1\<rparr>)
   }"

text \<open>
  The number of bytes is taken from the header of the response; in the default build it is not
  compared with \<open>Size\<close>.
\<close>

definition xe_comms_write_item ::
  "'w drv \<Rightarrow> mt_response_generic \<Rightarrow> nat \<Rightarrow> 'w xe_state \<Rightarrow> (int \<times> nat) \<times> 'w xe_state" where
  "xe_comms_write_item drv Memory Size s =
    (let BytesWritten = unat (rs_size (rs_base Memory));
         s = snd (ddo drv (DRingPut (rsp_prod_pvt s) Memory BytesWritten) s);
         s = s\<lparr>rsp_prod_pvt := rsp_prod_pvt s + 1\<rparr>;
         s = snd (ddo drv (DRingPush (rsp_prod_pvt s)) s);
         s = snd (send_event drv (local_event_port s) s)
     in ((0, BytesWritten), s))"

section \<open>Registration with the PVM\<close>

text \<open>The wait for the number of chunks, outside a transaction; a value that starts with 0 is not ready.\<close>

partial_function (option) wait_for_chunks :: "'w drv \<Rightarrow> string \<Rightarrow> 'w xe_state \<Rightarrow> 'w xe_state option" where
  "wait_for_chunks drv path s =
    (let (r, s) = ddo drv (DXsRead path) s in
     if dr_ret r \<noteq> 0 \<or> take 1 (dr_str r) = ''0'' then wait_for_chunks drv path (snd (ddo drv DXsWait s))
     else Some s)"

declare wait_for_chunks.simps [code]

text \<open>The loop over the chunks: the return code and the number of references read.\<close>

fun rcv_chunks :: "'w drv \<Rightarrow> nat list \<Rightarrow> nat \<Rightarrow> 'w xe_state \<Rightarrow> ((int \<times> nat) \<times> 'w xe_state) option" where
  "rcv_chunks drv [] gnt_cnt s = Some ((0, gnt_cnt), s)"
| "rcv_chunks drv (gnt # gnts) gnt_cnt s =
    (case xe_comms_read_str_from_key drv (xe_key (local_id s) (GNT_REF_KEY @ ''_'' @ fmt_u gnt)) s of
       ((rc, None), s) \<Rightarrow> Some ((rc, gnt_cnt), s)
     | ((rc, Some gntstr), s) \<Rightarrow> do {
         (rc, gnt_cnt, refs) \<leftarrow> rcv_chunk gntstr gnt_cnt (grant_refs s);
         let s = s\<lparr>grant_refs := refs\<rparr>;
         if rc \<noteq> 0 then Some ((rc, gnt_cnt), s) else rcv_chunks drv gnts gnt_cnt s
       })"

text \<open>The number of chunks is an int: a negative one means no iteration.\<close>

definition xe_comms_rcv_grant_refs :: "'w drv \<Rightarrow> u16 \<Rightarrow> 'w xe_state \<Rightarrow> (int \<times> 'w xe_state) option" where
  "xe_comms_rcv_grant_refs drv RemoteId s = do {
     let path = xe_key (local_id s) GNT_REF_CHUNKS;
     s \<leftarrow> wait_for_chunks drv path (snd (ddo drv (DXsWatch path) s));
     let s = snd (ddo drv (DXsUnwatch path) s);
     case xe_comms_read_str_from_key drv path s of
       ((rc, None), s) \<Rightarrow> Some (rc, s)
     | ((rc, Some refstr), s) \<Rightarrow> do {
         (n, rest) \<leftarrow> bmk_strtoul refstr 10;
         let gnt_ref_chunks = nat (sint (ucast n :: u32));
         ((rc, gnt_cnt), s) \<leftarrow> rcv_chunks drv [1..<gnt_ref_chunks + 1] 0 s;
         if rc \<noteq> 0 then Some (rc, s)
         else do {
           let s = snd (ddo drv DGntmapInit s);
           let (r, s) = ddo drv (DGntmapMap RemoteId (grant_refs s)) s;
           if dr_ret r \<noteq> 0 then Some (BMK_ENOMEM, s\<lparr>shared_ring := False\<rparr>)
           else Some (0, s\<lparr>shared_ring := True, shared_ring_size := XENEVENT_GRANT_REF_COUNT * PAGE_SIZE\<rparr>)
         }
       }
   }"

definition xe_comms_bind_to_interdom_chn :: "'w drv \<Rightarrow> u16 \<Rightarrow> int \<Rightarrow> 'w xe_state \<Rightarrow> int \<times> 'w xe_state" where
  "xe_comms_bind_to_interdom_chn drv Srvr_Id Remote_Prt_Nmbr s =
    (let (r, s) = ddo drv DPgAlloc s;
         s = s\<lparr>event_channel_mem := (dr_ret r = 0)\<rparr>
     in if dr_ret r \<noteq> 0 then (BMK_ENOMEM, s)
        else
          let (r, s) = ddo drv (DEvtBind Srvr_Id Remote_Prt_Nmbr) s in
          if dr_ret r \<noteq> 0 then (dr_ret r, s)
          else
            let s = s\<lparr>local_event_port := dr_port r\<rparr>;
                s = snd (ddo drv (DEvtClear (local_event_port s)) s);
                s = snd (ddo drv (DEvtUnmask (local_event_port s)) s)
            in xe_comms_write_int_to_key drv (xe_key (local_id s) VM_EVT_CHN_BOUND_KEY) 1 s)"

definition xe_comms_init :: "'w drv \<Rightarrow> 'w xe_state \<Rightarrow> (int \<times> 'w xe_state) option" where
  "xe_comms_init drv s =
    (let (rc, s) = xenevent_semaphore_init drv s in
     if rc \<noteq> 0 then Some (rc, s)
     else do {
       ((rc, v), s) \<leftarrow> xe_comms_read_int_from_key drv PRIVATE_ID_PATH s;
       Some (rc, s\<lparr>local_id := word_of_int v\<rparr>)
     })"

text \<open>
  The ids are stored through a pointer to int into a \<open>domid_t\<close>, of which the low 16 bits are kept; the
  wait of \<open>wait_for_key\<close> compares the whole int with 0.
\<close>

definition xe_comms_register :: "'w drv \<Rightarrow> 'w xe_state \<Rightarrow> (int \<times> 'w xe_state) option" where
  "xe_comms_register drv s =
    (let (rc, s) = xe_comms_write_int_to_key drv (xe_key (local_id s) INS_ID_KEY) (int (unat (local_id s))) s in
     if rc \<noteq> 0 then Some (rc, s)
     else do {
       ((rc, remoteId), s) \<leftarrow> xe_comms_wait_and_read_int_from_key drv SERVER_ID_PATH s;
       if rc \<noteq> 0 then Some (rc, s)
       else do {
         (rc, s) \<leftarrow> xe_comms_rcv_grant_refs drv (word_of_int remoteId) s;
         if rc \<noteq> 0 then Some (rc, s)
         else do {
           ((rc, port), s) \<leftarrow> xe_comms_wait_and_read_int_from_key drv (xe_key (local_id s) VM_EVT_CHN_PORT_KEY) s;
           if rc \<noteq> 0 then Some (rc, s)
           else
             let (rc, s) = xe_comms_bind_to_interdom_chn drv (word_of_int remoteId) port s in
             if rc \<noteq> 0 then Some (rc, s)
             else Some (0, (snd (ddo drv (DRingInit (shared_ring_size s)) s))\<lparr>req_cons := 0, rsp_prod_pvt := 0\<rparr>)
         }
       }
     })"

definition xe_comms_fini :: "'w drv \<Rightarrow> 'w xe_state \<Rightarrow> int \<times> 'w xe_state" where
  "xe_comms_fini drv s =
    (let s = snd (ddo drv (DEvtMask (local_event_port s)) s);
         s = snd (ddo drv (DEvtClear (local_event_port s)) s);
         s = snd (ddo drv (DEvtUnbind (local_event_port s)) s);
         s = xenevent_semaphore_destroy s;
         s = (if event_channel_mem s then snd (ddo drv DPgFree s) else s);
         s = snd (ddo drv DGntmapFini s);
         path = snprintf XENEVENT_PATH_STR_LEN (XENEVENT_XENSTORE_ROOT @ ''/'' @ fmt_u (unat (local_id s)))
     in (0, snd (xe_comms_remove_directory drv path s)))"

section \<open>Information for the PVM\<close>

definition xe_comms_get_sock_params :: "'w drv \<Rightarrow> 'w xe_state \<Rightarrow> (int \<times> string) \<times> 'w xe_state" where
  "xe_comms_get_sock_params drv s =
    (let s = (if sock_init s then s
              else s\<lparr>sock_init := True, sock_path := xe_key (local_id s) INS_SOCKET_PARAMS_KEY\<rparr>)
     in case xe_comms_read_str_from_key drv (sock_path s) s of
          ((rc, None), s) \<Rightarrow> ((rc, ''''), s)
        | ((rc, Some params), s) \<Rightarrow> ((rc, take (INS_SOCK_PARAMS_MAX_LEN - 1) params), s))"

definition xe_comms_heartbeat :: "'w drv \<Rightarrow> string \<Rightarrow> 'w xe_state \<Rightarrow> int \<times> 'w xe_state" where
  "xe_comms_heartbeat drv NetworkStats s =
    (let s = (if heartbeat s = 0
              then s\<lparr>heartbeat_path := xe_key (local_id s) INS_HEARTBEAT_KEY,
                     stats_path := xe_key (local_id s) INS_NETWORK_STATS_KEY\<rparr>
              else s);
         (err, s) = xe_comms_write_int_to_key drv (heartbeat_path s) (heartbeat s) s
     in if err \<noteq> 0 then (err, s)
        else xe_comms_write_str_to_key drv (stats_path s) NetworkStats (s\<lparr>heartbeat := heartbeat s + 1\<rparr>))"

definition xe_comms_listeners :: "'w drv \<Rightarrow> string \<Rightarrow> 'w xe_state \<Rightarrow> int \<times> 'w xe_state" where
  "xe_comms_listeners drv Listeners s =
    (let s = (if listener_path s = '''' then s\<lparr>listener_path := xe_key (local_id s) INS_LISTENER_KEY\<rparr> else s)
     in xe_comms_write_str_to_key drv (listener_path s) Listeners s)"

definition xe_comms_get_domid :: "'w drv \<Rightarrow> 'w xe_state \<Rightarrow> (int \<times> 'w xe_state) option" where
  "xe_comms_get_domid drv s = do {
     ((rc, ret), s) \<leftarrow> xe_comms_read_int_from_key drv PRIVATE_ID_PATH s;
     Some (if rc \<noteq> 0 then rc else ret, s)
   }"

section \<open>The character device\<close>

text \<open>
  \<open>xe_dev_iface_callback\<close> for one route: the first IPv4 address of its interface is appended to \<open>buf\<close>
  unless its text occurs there. The text has room for 15 characters.
\<close>

fun xe_dev_iface_callback :: "(bool \<times> string) list \<Rightarrow> string \<Rightarrow> string" where
  "xe_dev_iface_callback [] buf = buf"
| "xe_dev_iface_callback ((is_inet, addr) # ifas) buf =
    (if \<not> is_inet then xe_dev_iface_callback ifas buf
     else
       let ip = snprintf 16 addr in
       if strstr buf ip then buf else snprintf IP_BUF_SIZE (buf @ '' '' @ ip))"

definition xe_dev_publish_ip :: "'w drv \<Rightarrow> 'w xe_state \<Rightarrow> int \<times> 'w xe_state" where
  "xe_dev_publish_ip drv s =
    (if ip_found s then (0, s)
     else
       let (r, s) = ddo drv DAlloc (s\<lparr>ip_found := True\<rparr>) in
       if dr_ret r \<noteq> 0 then (BMK_ENOMEM, s)
       else
         let (r, s) = ddo drv DRoutes s in
         if dr_ret r \<noteq> 0 then (dr_ret r, s)
         else xe_comms_publish_ip_addr drv (fold xe_dev_iface_callback (dr_routes r) '''') s)"

definition xe_dev_init :: "'w drv \<Rightarrow> 'w xe_state \<Rightarrow> (int \<times> 'w xe_state) option" where
  "xe_dev_init drv s = do {
     (rc, s) \<leftarrow> xe_comms_init drv (s\<lparr>read_lock := None, write_lock := None, open_count := 0, ip_found := False\<rparr>);
     if rc \<noteq> 0 then Some (rc, s)
     else
       let (r, s) = ddo drv DDevAttach s in
       if dr_ret r \<noteq> 0 then Some (dr_ret r, s)
       else let (r, s) = ddo drv DDevNode s in Some (dr_ret r, s)
   }"

definition xe_dev_fini :: "'w drv \<Rightarrow> 'w xe_state \<Rightarrow> int \<times> 'w xe_state" where
  "xe_dev_fini drv s = xe_comms_fini drv s"

text \<open>The commands of \<open>xe_dev_ioctl\<close> with their data; the result is the code and the data afterwards.\<close>

datatype ins_ioctl = INS_GET_SOCK_PARAMS_IOCTL | INS_HEARTBEAT_IOCTL | INS_DOMID_IOCTL | INS_PUBLISH_LISTENERS_IOCTL | INS_OTHER_IOCTL

datatype ioctl_data = IoText string | IoDomid u16

definition text_of :: "ioctl_data \<Rightarrow> string" where
  "text_of d = (case d of IoText t \<Rightarrow> t | IoDomid n \<Rightarrow> '''')"

definition xe_dev_ioctl ::
  "'w drv \<Rightarrow> ins_ioctl \<Rightarrow> ioctl_data \<Rightarrow> 'w xe_state \<Rightarrow> ((int \<times> ioctl_data) \<times> 'w xe_state) option" where
  "xe_dev_ioctl drv Cmd Data s =
    (case Cmd of
       INS_GET_SOCK_PARAMS_IOCTL \<Rightarrow>
         (case xe_comms_get_sock_params drv s of ((rc, t), s) \<Rightarrow> Some ((rc, IoText t), s))
     | INS_HEARTBEAT_IOCTL \<Rightarrow>
         let (rc, s) = xe_comms_heartbeat drv (text_of Data) s
         in Some ((if rc \<noteq> 0 then EPASSTHROUGH else 0, Data), s)
     | INS_DOMID_IOCTL \<Rightarrow> do {
         (rc, s) \<leftarrow> xe_comms_get_domid drv s;
         Some (if rc \<le> 0 then (EPASSTHROUGH, Data) else (0, IoDomid (word_of_int rc)), s)
       }
     | INS_PUBLISH_LISTENERS_IOCTL \<Rightarrow>
         let (rc, s) = xe_comms_listeners drv (text_of Data) s in Some ((rc, Data), s)
     | INS_OTHER_IOCTL \<Rightarrow> Some ((BMK_EINVAL, Data), s))"

definition xe_dev_open :: "'w drv \<Rightarrow> 'w xe_state \<Rightarrow> (int \<times> 'w xe_state) option" where
  "xe_dev_open drv s =
    (let s = s\<lparr>open_count := open_count s + 1\<rparr> in
     if open_count s > 1 then Some (BMK_EBUSY, s)
     else
       let ((rc, m), s) = xenevent_mutex_init drv (read_lock s) s;
           s = s\<lparr>read_lock := m\<rparr>
       in if rc \<noteq> 0 then Some (rc, s)
       else
         let ((rc, m), s) = xenevent_mutex_init drv (write_lock s) s;
             s = s\<lparr>write_lock := m\<rparr>
         in if rc \<noteq> 0 then Some (rc, s)
         else do {
           (rc, s) \<leftarrow> xe_comms_register drv s;
           if rc \<noteq> 0 then Some (rc, s) else Some (xe_dev_publish_ip drv s)
         })"

definition xe_dev_close :: "'w drv \<Rightarrow> 'w xe_state \<Rightarrow> int \<times> 'w xe_state" where
  "xe_dev_close drv s =
    (let s = s\<lparr>open_count := open_count s - 1\<rparr> in
     if open_count s \<noteq> 0 then (0, s)
     else xe_dev_fini drv (s\<lparr>read_lock := None, write_lock := None\<rparr>))"

text \<open>
  The loops of \<open>xe_dev_read\<close> and \<open>xe_dev_write\<close> over the buffers of a \<open>struct uio\<close>; the result has the
  return code, the number of bytes moved (by which \<open>uio_offset\<close> grows and \<open>uio_resid\<close> shrinks) and, for read,
  what was copied into each buffer.
\<close>

fun read_iovs ::
  "'w drv \<Rightarrow> nat list \<Rightarrow> nat \<Rightarrow> 'w xe_state \<Rightarrow> ((int \<times> nat \<times> mt_request_generic list) \<times> 'w xe_state) option" where
  "read_iovs drv [] moved s = Some ((0, moved, []), s)"
| "read_iovs drv (iov_len # iovs) moved s = do {
     ((rc, bytes_read, req), s) \<leftarrow> xe_comms_read_item drv iov_len s;
     case req of
       None \<Rightarrow> Some ((rc, moved, []), s)
     | Some q \<Rightarrow> do {
         ((rc, moved, qs), s) \<leftarrow> read_iovs drv iovs (moved + bytes_read) s;
         Some ((rc, moved, q # qs), s)
       }
   }"

definition xe_dev_read ::
  "'w drv \<Rightarrow> nat list \<Rightarrow> 'w xe_state \<Rightarrow> ((int \<times> nat \<times> mt_request_generic list) \<times> 'w xe_state) option" where
  "xe_dev_read drv Uio s = do {
     m \<leftarrow> xenevent_mutex_wait (read_lock s);
     (res, s) \<leftarrow> read_iovs drv Uio 0 (s\<lparr>read_lock := m\<rparr>);
     m \<leftarrow> xenevent_mutex_release (read_lock s);
     Some (res, s\<lparr>read_lock := m\<rparr>)
   }"

fun write_iovs :: "'w drv \<Rightarrow> (mt_response_generic \<times> nat) list \<Rightarrow> nat \<Rightarrow> 'w xe_state \<Rightarrow> (int \<times> nat) \<times> 'w xe_state" where
  "write_iovs drv [] moved s = ((0, moved), s)"
| "write_iovs drv ((iov_base, iov_len) # iovs) moved s =
    (let ((rc, bytes_written), s) = xe_comms_write_item drv iov_base iov_len s in
     if rc \<noteq> 0 then ((rc, moved), s) else write_iovs drv iovs (moved + bytes_written) s)"

definition xe_dev_write ::
  "'w drv \<Rightarrow> (mt_response_generic \<times> nat) list \<Rightarrow> 'w xe_state \<Rightarrow> ((int \<times> nat) \<times> 'w xe_state) option" where
  "xe_dev_write drv Uio s = do {
     m \<leftarrow> xenevent_mutex_wait (write_lock s);
     let (res, s) = write_iovs drv Uio 0 (s\<lparr>write_lock := m\<rparr>);
     m \<leftarrow> xenevent_mutex_release (write_lock s);
     Some (res, s\<lparr>write_lock := m\<rparr>)
   }"

end
