(* ===== verification/Handshake.thy ===== *)
theory Handshake
  imports InsDriver InsTable
begin

text \<open>
  The handshake between the PVM and an INS over XenStore, with both sides as they are coded:
  \<open>ins_handshake\<close> of the Xen interface of the PVM and \<open>xe_comms_register\<close> of the INS driver; and the
  heartbeats by which the INS stays registered.
\<close>

section \<open>States of the driver that differ by calls only\<close>

definition ext :: "'w xe_state \<Rightarrow> 'w \<Rightarrow> (dcall \<times> dret) list \<Rightarrow> 'w xe_state" where
  "ext s w tr = s\<lparr>dworld := w, dtrace := dtrace s @ tr\<rparr>"

lemma ddo_ext: "ddo drv c s = (fst (drv c (dworld s)), ext s (snd (drv c (dworld s))) [(c, fst (drv c (dworld s)))])"
  by (simp add: ddo_def ext_def split_beta)

lemma ext_simps [simp]:
  "ext (ext s w tr) w' tr' = ext s w' (tr @ tr')"
  "local_id (ext s w tr) = local_id s" "grant_refs (ext s w tr) = grant_refs s" "dworld (ext s w tr) = w"
  "shared_ring_size (ext s w tr) = shared_ring_size s" "local_event_port (ext s w tr) = local_event_port s"
  "dtrace (ext s w tr) = dtrace s @ tr" "req_cons (ext s w tr) = req_cons s" "read_lock (ext s w tr) = read_lock s"
  "heartbeat (ext s w tr) = heartbeat s" "heartbeat_path (ext s w tr) = heartbeat_path s" "stats_path (ext s w tr) = stats_path s"
  by (simp_all add: ext_def)

lemma ext_upd [simp]:
  "ext (s\<lparr>grant_refs := rs\<rparr>) w tr = (ext s w tr)\<lparr>grant_refs := rs\<rparr>"
  "ext (s\<lparr>shared_ring := b\<rparr>) w tr = (ext s w tr)\<lparr>shared_ring := b\<rparr>"
  "ext (s\<lparr>shared_ring_size := n\<rparr>) w tr = (ext s w tr)\<lparr>shared_ring_size := n\<rparr>"
  "ext (s\<lparr>event_channel_mem := b\<rparr>) w tr = (ext s w tr)\<lparr>event_channel_mem := b\<rparr>"
  "ext (s\<lparr>local_event_port := p\<rparr>) w tr = (ext s w tr)\<lparr>local_event_port := p\<rparr>"
  "ext (s\<lparr>heartbeat := p\<rparr>) w tr = (ext s w tr)\<lparr>heartbeat := p\<rparr>"
  by (simp_all add: ext_def)

text \<open>The calls that other domains notice, and the initialisation of the ring.\<close>

fun setup_of :: "dcall \<times> dret \<Rightarrow> dcall list" where
  "setup_of (DXsWrite p v, r) = [DXsWrite p v]"
| "setup_of (DGntmapMap d refs, r) = [DGntmapMap d refs]"
| "setup_of (DEvtBind d p, r) = [DEvtBind d p]"
| "setup_of (DRingInit n, r) = [DRingInit n]"
| "setup_of (DRingPut i m n, r) = [DRingPut i m n]"
| "setup_of (DXsRm p, r) = [DXsRm p]"
| "setup_of _ = []"

definition setup_calls :: "(dcall \<times> dret) list \<Rightarrow> dcall list" where
  "setup_calls tr = concat (map setup_of tr)"

lemma setup_calls_simps [simp]:
  "setup_calls [] = []" "setup_calls (e # tr) = setup_of e @ setup_calls tr" "setup_calls (tr @ tr') = setup_calls tr @ setup_calls tr'"
  by (simp_all add: setup_calls_def)

section \<open>Keys\<close>

lemma xe_key_eq: "length key \<le> 21 \<Longrightarrow> xe_key d key = ''/mw/'' @ fmt_u (unat d) @ ''/'' @ key"
  using fmt_u_u16 [of d] by (simp add: xe_key_def mw_consts)

lemma xe_key_path: "length key \<le> 21 \<Longrightarrow> key \<noteq> [] \<Longrightarrow> xe_key d key = xs_path (ins_dir d) key"
  by (simp add: xe_key_eq ins_dir_eq xs_path_def)

lemma xe_key_gnt: "j < 1000 \<Longrightarrow> xe_key d (GNT_REF_KEY @ ''_'' @ fmt_u j) = xs_path (ins_dir d) (gnt_key_name j)"
  using fmt_length [of 10 j 3] by (simp add: xe_key_path gnt_key_name_eq mw_consts)

lemma xe_key_keys:
  "xe_key d GNT_REF_CHUNKS = xs_path (ins_dir d) GNT_REF_CHUNKS"
  "xe_key d VM_EVT_CHN_PORT_KEY = xs_path (ins_dir d) VM_EVT_CHN_PORT_KEY"
  by (simp_all add: xe_key_path mw_consts)

lemma strtoul_fmt_u: "n < 2 ^ 64 \<Longrightarrow> bmk_strtoul (fmt_u n) 10 = Some (of_nat n, [])"
  using strtoul_reads_printed [of 10 n "[]" 0] by simp

section \<open>A XenStore that serves keys\<close>

text \<open>
  XenStore as the INS sees it: transactions start, writes succeed, and a key of \<open>m\<close> is read with
  its value.
\<close>

definition xs_serves :: "'w drv \<Rightarrow> (string \<rightharpoonup> string) \<Rightarrow> bool" where
  "xs_serves drv m \<longleftrightarrow> (\<forall>w. dr_ret (fst (drv DXsStart w)) = 0 \<and> (\<forall>p v. dr_ret (fst (drv (DXsWrite p v) w)) = 0)
     \<and> (\<forall>p v. m p = Some v \<longrightarrow> dr_ret (fst (drv (DXsRead p) w)) = 0 \<and> dr_str (fst (drv (DXsRead p) w)) = v))"

lemma xs_servesD:
  assumes "xs_serves drv m"
  shows "dr_ret (fst (drv DXsStart w)) = 0" "dr_ret (fst (drv (DXsWrite p v) w)) = 0"
    "m p = Some v \<Longrightarrow> dr_ret (fst (drv (DXsRead p) w)) = 0" "m p = Some v \<Longrightarrow> dr_str (fst (drv (DXsRead p) w)) = v"
  using assms by (simp_all add: xs_serves_def)

lemma read_str_served:
  assumes "xs_serves drv m" and "m p = Some v"
  obtains w tr where "xe_comms_read_str_from_key drv p s = ((0, Some v), ext s w tr)" "setup_calls tr = []"
  using xs_servesD [OF assms(1)] assms(2) by (simp add: xe_comms_read_str_from_key_def ddo_ext)

lemma write_str_served:
  assumes "xs_serves drv m"
  obtains w tr where "xe_comms_write_str_to_key drv p v s = (0, ext s w tr)" "setup_calls tr = [DXsWrite p v]"
  using xs_servesD [OF assms] by (simp add: xe_comms_write_str_to_key_def ddo_ext)

lemma write_int_served:
  assumes "xs_serves drv m" and "0 \<le> n" and "n < 2 ^ 32"
  obtains w tr where "xe_comms_write_int_to_key drv p n s = (0, ext s w tr)" "setup_calls tr = [DXsWrite p (fmt_u (nat n))]"
proof -
  have u: "unat (word_of_int n :: u32) = nat n" using assms(2,3) by (simp add: unat_eq_nat_uint uint_word_of_int_eq take_bit_int_eq_self)
  have "length (fmt_u (nat n)) \<le> 10" using assms(2,3) by (intro fmt_length) (auto simp: nat_less_iff)
  then have "snprintf MAX_KEY_VAL_WIDTH (fmt_u (nat n)) = fmt_u (nat n)" by (simp add: mw_consts)
  with u show thesis
    using write_str_served [OF assms(1), of p "fmt_u (nat n)" s] that by (metis xe_comms_write_int_to_key_def)
qed

lemma wait_int_served:
  assumes "xs_serves drv m" and "m p = Some (fmt_u n)" and "0 < n" and "n < 2 ^ 31"
  obtains w tr where "xe_comms_wait_and_read_int_from_key drv p s = Some ((0, int n), ext s w tr)" "setup_calls tr = []"
proof -
  let ?s = "snd (ddo drv (DXsWatch p) s)"
  obtain w tr where rd: "xe_comms_read_str_from_key drv p ?s = ((0, Some (fmt_u n)), ext ?s w tr)" "setup_calls tr = []"
    by (rule read_str_served [OF assms(1,2)])
  have "sint (ucast (of_nat n :: u64) :: u32) = int n"
    using assms(4) by (simp add: sint_uint unsigned_ucast_eq unsigned_of_nat take_bit_nat_eq_self signed_take_bit_int_eq_self)
  then have "xe_comms_read_int_from_key drv p ?s = Some ((0, int n), ext ?s w tr)"
    using assms(4) rd strtoul_fmt_u [of n] by (simp add: xe_comms_read_int_from_key_def)
  then have "wait_for_key drv p ?s = Some ((0, int n), ext ?s w tr)"
    using assms(3) by (subst wait_for_key.simps) simp
  then show thesis using rd(2) that by (simp add: xe_comms_wait_and_read_int_from_key_def ddo_ext)
qed

section \<open>The grant references\<close>

lemma rcv_chunks_toks:
  assumes "xs_serves drv x" and "\<forall>k \<in> set ks. k \<noteq> []" and "m + length ks < 1000" and "cnt + length (concat ks) \<le> length (grant_refs s)"
    and "\<And>i. i < length ks \<Longrightarrow> x (xs_path (ins_dir (local_id s)) (gnt_key_name (m + i))) = Some (end_chunk (toks (ks ! i)))"
  shows "\<exists>w tr. rcv_chunks drv [m..<m + length ks] cnt s = Some ((0, cnt + length (concat ks)),
       (ext s w tr)\<lparr>grant_refs := take cnt (grant_refs s) @ concat ks @ drop (cnt + length (concat ks)) (grant_refs s)\<rparr>)
     \<and> setup_calls tr = []"
  using assms(2-)
proof (induction ks arbitrary: m cnt s)
  case Nil
  have "s = (ext s (dworld s) [])\<lparr>grant_refs := grant_refs s\<rparr>" by (simp add: ext_def)
  then show ?case by (auto intro!: exI [of _ "dworld s"] exI [of _ "[]"])
next
  case (Cons k ks)
  let ?refs = "take cnt (grant_refs s) @ k @ drop (cnt + length k) (grant_refs s)"
  have "x (xs_path (ins_dir (local_id s)) (gnt_key_name m)) = Some (end_chunk (toks k))"
    using Cons.prems(4) [of 0] by simp
  then obtain w tr where rd: "xe_comms_read_str_from_key drv (xs_path (ins_dir (local_id s)) (gnt_key_name m)) s
      = ((0, Some (end_chunk (toks k))), ext s w tr)" "setup_calls tr = []"
    by (rule read_str_served [OF assms(1)])
  have chunk: "rcv_chunk (end_chunk (toks k)) cnt (grant_refs s) = Some (0, cnt + length k, ?refs)"
    using rcv_chunk_toks [of k cnt "grant_refs s" 0] Cons.prems by simp
  have upt: "[m..<m + length (k # ks)] = m # [Suc m..<Suc m + length ks]"
    using upt_conv_Cons [of m "m + length (k # ks)"] by (simp del: upt_Suc)
  have len: "length ?refs = length (grant_refs s)" using Cons.prems(3) by simp
  have "\<exists>w' tr'. rcv_chunks drv [Suc m..<Suc m + length ks] (cnt + length k) ((ext s w tr)\<lparr>grant_refs := ?refs\<rparr>)
     = Some ((0, cnt + length k + length (concat ks)), (ext ((ext s w tr)\<lparr>grant_refs := ?refs\<rparr>) w' tr')\<lparr>grant_refs :=
         take (cnt + length k) (grant_refs ((ext s w tr)\<lparr>grant_refs := ?refs\<rparr>)) @ concat ks
           @ drop (cnt + length k + length (concat ks)) (grant_refs ((ext s w tr)\<lparr>grant_refs := ?refs\<rparr>))\<rparr>)
     \<and> setup_calls tr' = []"
  proof (rule Cons.IH)
    show "cnt + length k + length (concat ks) \<le> length (grant_refs ((ext s w tr)\<lparr>grant_refs := ?refs\<rparr>))"
      using Cons.prems(3) len by simp
    show "x (xs_path (ins_dir (local_id ((ext s w tr)\<lparr>grant_refs := ?refs\<rparr>))) (gnt_key_name (Suc m + j))) = Some (end_chunk (toks (ks ! j)))"
      if "j < length ks" for j using Cons.prems(4) [of "Suc j"] that by simp
  qed (use Cons.prems in simp_all)
  then obtain w' tr' where rest: "rcv_chunks drv [Suc m..<Suc m + length ks] (cnt + length k) ((ext s w tr)\<lparr>grant_refs := ?refs\<rparr>)
     = Some ((0, cnt + length k + length (concat ks)), (ext ((ext s w tr)\<lparr>grant_refs := ?refs\<rparr>) w' tr')\<lparr>grant_refs :=
         take (cnt + length k) ?refs @ concat ks @ drop (cnt + length k + length (concat ks)) ?refs\<rparr>)" "setup_calls tr' = []"
    by auto
  have key: "xe_key (local_id s) (GNT_REF_KEY @ ''_'' @ fmt_u m) = xs_path (ins_dir (local_id s)) (gnt_key_name m)"
    using Cons.prems by (intro xe_key_gnt) simp
  have "rcv_chunks drv (m # [Suc m..<Suc m + length ks]) cnt s = Some ((0, cnt + length k + length (concat ks)),
      (ext ((ext s w tr)\<lparr>grant_refs := ?refs\<rparr>) w' tr')\<lparr>grant_refs :=
         take (cnt + length k) ?refs @ concat ks @ drop (cnt + length k + length (concat ks)) ?refs\<rparr>)"
    using rd(1) chunk rest(1) by (simp only: rcv_chunks.simps key) simp
  then show ?case unfolding upt using Cons.prems(3) rd(2) rest(2)
    by (intro exI [of _ w'] exI [of _ "tr @ tr'"]) (simp add: ac_simps del: upt_Suc rcv_chunks.simps)
qed

text \<open>What the INS finds in XenStore when the PVM has written the references \<open>refs\<close> for the domain \<open>d\<close>.\<close>

definition refs_published :: "(string \<rightharpoonup> string) \<Rightarrow> u16 \<Rightarrow> u32 list \<Rightarrow> bool" where
  "refs_published m d refs \<longleftrightarrow> (\<exists>ks. concat ks = refs \<and> length ks = 4 \<and> (\<forall>k \<in> set ks. k \<noteq> [])
     \<and> (\<forall>j<4. m (xs_path (ins_dir d) (gnt_key_name (1 + j))) = Some (end_chunk (toks (ks ! j))))
     \<and> m (xs_path (ins_dir d) GNT_REF_CHUNKS) = Some ''4'')"

lemma published_refs:
  assumes "mw_xen_write_grant_refs_to_key ker i s = (0, t)"
    and "length (id_grant_refs (ins s ! i)) = XENEVENT_GRANT_REF_COUNT"
  shows "refs_published (xs_store (ktrace t)) (id_domid (ins s ! i)) (id_grant_refs (ins s ! i))"
  using write_grant_refs_store [OF assms] by (auto simp: refs_published_def)

text \<open>Mapping of grants, pages and event channels works.\<close>

definition setup_ok :: "'w drv \<Rightarrow> bool" where
  "setup_ok drv \<longleftrightarrow> (\<forall>w. dr_ret (fst (drv DPgAlloc w)) = 0 \<and> (\<forall>d rs. dr_ret (fst (drv (DGntmapMap d rs) w)) = 0)
     \<and> (\<forall>d p. dr_ret (fst (drv (DEvtBind d p) w)) = 0))"

lemma wait_for_chunks_served:
  assumes "xs_serves drv m" and "m p = Some v" and "take 1 v \<noteq> ''0''"
  obtains w tr where "wait_for_chunks drv p s = Some (ext s w tr)" "setup_calls tr = []"
  using assms(3) xs_servesD(3,4) [OF assms(1,2)] by (simp add: wait_for_chunks.simps [of drv p s] ddo_ext)

lemma rcv_grant_refs_served:
  assumes "xs_serves drv m" and "setup_ok drv" and "refs_published m (local_id s) refs"
    and "length refs = XENEVENT_GRANT_REF_COUNT" and "length (grant_refs s) = XENEVENT_GRANT_REF_COUNT"
  obtains w tr where "xe_comms_rcv_grant_refs drv d s = Some (0, (ext s w tr)\<lparr>grant_refs := refs, shared_ring := True,
      shared_ring_size := XENEVENT_GRANT_REF_COUNT * PAGE_SIZE\<rparr>)" "setup_calls tr = [DGntmapMap d refs]"
proof -
  let ?p = "xe_key (local_id s) GNT_REF_CHUNKS"
  obtain ks where ks: "concat ks = refs" "length ks = 4" "\<forall>k \<in> set ks. k \<noteq> []"
    "\<And>j. j < 4 \<Longrightarrow> m (xs_path (ins_dir (local_id s)) (gnt_key_name (1 + j))) = Some (end_chunk (toks (ks ! j)))"
    "m ?p = Some ''4''"
    using assms(3) by (auto simp: refs_published_def xe_key_keys)
  obtain w1 tr1 where s1: "wait_for_chunks drv ?p (snd (ddo drv (DXsWatch ?p) s)) = Some (ext s w1 tr1)" "setup_calls tr1 = []"
    by (rule wait_for_chunks_served [OF assms(1) ks(5), of "snd (ddo drv (DXsWatch ?p) s)"]) (simp_all add: ddo_ext)
  obtain w2 tr2 where s2: "xe_comms_read_str_from_key drv ?p (snd (ddo drv (DXsUnwatch ?p) (ext s w1 tr1)))
      = ((0, Some ''4''), ext s w2 tr2)" "setup_calls tr2 = []"
    by (rule read_str_served [OF assms(1) ks(5), of "snd (ddo drv (DXsUnwatch ?p) (ext s w1 tr1))"]) (simp_all add: ddo_ext s1(2))
  obtain w3 tr3 where s3: "rcv_chunks drv [1..<5] 0 (ext s w2 tr2)
      = Some ((0, 256), (ext s w3 tr3)\<lparr>grant_refs := refs\<rparr>)" "setup_calls tr3 = []"
    using rcv_chunks_toks [OF assms(1) ks(3), of 1 0 "ext s w2 tr2"] ks assms(4,5) s2(2) by (auto simp: mw_consts)
  have n: "bmk_strtoul ''4'' 10 = Some (4, [])" by code_simp
  show thesis
    using s1(1) s2(1) s3 n assms(2) that by (simp add: xe_comms_rcv_grant_refs_def Let_def setup_ok_def ddo_ext del: upt_rec_numeral upt_Suc)
qed

lemma bind_served:
  assumes "xs_serves drv m" and "setup_ok drv"
  obtains w tr port where "xe_comms_bind_to_interdom_chn drv d p s = (0, (ext s w tr)\<lparr>event_channel_mem := True, local_event_port := port\<rparr>)"
    "setup_calls tr = [DEvtBind d p, DXsWrite (xe_key (local_id s) VM_EVT_CHN_BOUND_KEY) ''1'']"
proof -
  have f1: "fmt_u (nat 1) = ''1''" by (simp add: fmt_base.simps hex_digits_def)
  define port where "port = dr_port (fst (ddo drv (DEvtBind d p) ((snd (ddo drv DPgAlloc s))\<lparr>event_channel_mem := True\<rparr>)))"
  define u where "u = snd (ddo drv (DEvtUnmask port) (snd (ddo drv (DEvtClear port)
     ((snd (ddo drv (DEvtBind d p) ((snd (ddo drv DPgAlloc s))\<lparr>event_channel_mem := True\<rparr>)))\<lparr>local_event_port := port\<rparr>))))"
  obtain w tr where wr: "xe_comms_write_int_to_key drv (xe_key (local_id s) VM_EVT_CHN_BOUND_KEY) 1 u = (0, ext u w tr)"
    "setup_calls tr = [DXsWrite (xe_key (local_id s) VM_EVT_CHN_BOUND_KEY) ''1'']"
    using write_int_served [OF assms(1), of 1 "xe_key (local_id s) VM_EVT_CHN_BOUND_KEY" u] f1 by auto
  have "\<exists>w' tr'. u = (ext s w' tr')\<lparr>event_channel_mem := True, local_event_port := port\<rparr> \<and> setup_calls tr' = [DEvtBind d p]"
    by (simp add: u_def ddo_ext) (intro exI conjI, rule refl, simp)
  moreover have "xe_comms_bind_to_interdom_chn drv d p s = (0, ext u w tr)"
    using wr(1) assms(2) by (simp add: xe_comms_bind_to_interdom_chn_def u_def port_def setup_ok_def ddo_ext Let_def)
  ultimately show thesis using wr(2) that by fastforce
qed

section \<open>The INS registers\<close>

lemma register_served:
  assumes "xs_serves drv m" and "setup_ok drv" and "refs_published m (local_id s) refs"
    and "length refs = XENEVENT_GRANT_REF_COUNT" and "length (grant_refs s) = XENEVENT_GRANT_REF_COUNT"
    and "m SERVER_ID_PATH = Some (fmt_u (unat (my :: u16)))" and "my \<noteq> 0"
    and "m (xs_path (ins_dir (local_id s)) VM_EVT_CHN_PORT_KEY) = Some (fmt_u p)" and "0 < p" and "p < 2 ^ 31"
  obtains t tr where "xe_comms_register drv s = Some (0, t)" "dtrace t = dtrace s @ tr" "grant_refs t = refs"
    "setup_calls tr = [DXsWrite (xe_key (local_id s) INS_ID_KEY) (fmt_u (unat (local_id s))), DGntmapMap my refs,
       DEvtBind my (int p), DXsWrite (xe_key (local_id s) VM_EVT_CHN_BOUND_KEY) ''1'',
       DRingInit (XENEVENT_GRANT_REF_COUNT * PAGE_SIZE)]"
    "req_cons t = 0" "rsp_prod_pvt t = 0" "local_id t = local_id s"
proof -
  have id: "(0::int) \<le> int (unat (local_id s))" "int (unat (local_id s)) < 2 ^ 32" using unsigned_less [of "local_id s", where ?'a = nat] by simp_all
  have my: "0 < unat my" "unat my < 2 ^ 31" using assms(7) unsigned_less [of my, where ?'a = nat] by (simp_all add: unat_gt_0)
  let ?k = "xe_key (local_id s) INS_ID_KEY"
  obtain w1 tr1 where r1: "xe_comms_write_int_to_key drv ?k (int (unat (local_id s))) s = (0, ext s w1 tr1)"
    "setup_calls tr1 = [DXsWrite ?k (fmt_u (unat (local_id s)))]"
    by (rule write_int_served [OF assms(1) id]) simp
  obtain w2 tr2 where r2: "xe_comms_wait_and_read_int_from_key drv SERVER_ID_PATH (ext s w1 tr1) = Some ((0, int (unat my)), ext (ext s w1 tr1) w2 tr2)"
    "setup_calls tr2 = []"
    by (rule wait_int_served [OF assms(1,6) my])
  let ?s2 = "ext s w2 (tr1 @ tr2)"
  obtain w3 tr3 where r3: "xe_comms_rcv_grant_refs drv my ?s2 = Some (0, (ext ?s2 w3 tr3)\<lparr>grant_refs := refs, shared_ring := True,
      shared_ring_size := XENEVENT_GRANT_REF_COUNT * PAGE_SIZE\<rparr>)" "setup_calls tr3 = [DGntmapMap my refs]"
    by (rule rcv_grant_refs_served [OF assms(1,2), of ?s2 refs my]) (simp_all add: assms(3-5))
  let ?s3 = "(ext ?s2 w3 tr3)\<lparr>grant_refs := refs, shared_ring := True, shared_ring_size := XENEVENT_GRANT_REF_COUNT * PAGE_SIZE\<rparr>"
  obtain w4 tr4 where r4: "xe_comms_wait_and_read_int_from_key drv (xe_key (local_id s) VM_EVT_CHN_PORT_KEY) ?s3 = Some ((0, int p), ext ?s3 w4 tr4)"
    "setup_calls tr4 = []"
    by (rule wait_int_served [OF assms(1) _ assms(9,10), of "xe_key (local_id s) VM_EVT_CHN_PORT_KEY" ?s3]) (simp_all add: assms(8) xe_key_keys)
  obtain w5 tr5 port where r5: "xe_comms_bind_to_interdom_chn drv my (int p) (ext ?s3 w4 tr4)
      = (0, (ext (ext ?s3 w4 tr4) w5 tr5)\<lparr>event_channel_mem := True, local_event_port := port\<rparr>)"
    "setup_calls tr5 = [DEvtBind my (int p), DXsWrite (xe_key (local_id s) VM_EVT_CHN_BOUND_KEY) ''1'']"
    by (rule bind_served [OF assms(1,2), of my "int p" "ext ?s3 w4 tr4"]) simp
  have my_eq: "word_of_int (int (unat my)) = my" by (simp add: of_nat_unat)
  define u where "u = (ext (ext ?s3 w4 tr4) w5 tr5)\<lparr>event_channel_mem := True, local_event_port := port\<rparr>"
  define t where "t = (snd (ddo drv (DRingInit (shared_ring_size u)) u))\<lparr>req_cons := 0, rsp_prod_pvt := 0\<rparr>"
  have "xe_comms_register drv s = Some (0, t)"
    using r1(1) r2(1) r3(1) r4(1) r5(1) my_eq by (simp add: xe_comms_register_def t_def u_def)
  moreover have "dtrace t = dtrace s @ tr1 @ tr2 @ tr3 @ tr4 @ tr5 @ [(DRingInit (shared_ring_size u), fst (ddo drv (DRingInit (shared_ring_size u)) u))]"
    by (simp add: t_def u_def ddo_ext)
  ultimately show thesis
    by (rule that) (simp_all add: t_def u_def ddo_ext r1(2) r2(2) r3(2) r4(2) r5(2))
qed

section \<open>The PVM's part\<close>

text \<open>What the steps of \<open>ins_handshake\<close> that write no keys leave alone.\<close>

definition keeps_keys :: "nat \<Rightarrow> ('w, 'm) mw_xen_scheme \<Rightarrow> ('w, 'm) mw_xen_scheme \<Rightarrow> bool" where
  "keeps_keys i s t \<longleftrightarrow> xs_store (ktrace t) = xs_store (ktrace s) \<and> my_domid t = my_domid s \<and> length (ins t) = length (ins s)
     \<and> id_domid (ins t ! i) = id_domid (ins s ! i) \<and> id_common_evtchn (ins t ! i) = id_common_evtchn (ins s ! i)
     \<and> length (id_grant_refs (ins t ! i)) = length (id_grant_refs (ins s ! i))"

lemma keeps_keys_trans: "keeps_keys i s t \<Longrightarrow> keeps_keys i t u \<Longrightarrow> keeps_keys i s u"
  by (simp add: keeps_keys_def)

lemma store_kdo:
  "(\<And>d n v. c \<noteq> KXsWrite d n v) \<Longrightarrow> xs_store (ktrace (snd (kdo ker c s))) = xs_store (ktrace s)"
  by (cases c) (auto simp: kdo_def xs_store_append split: prod.splits)

lemma keeps_keys_kdo: "(\<And>d n v. c \<noteq> KXsWrite d n v) \<Longrightarrow> keeps_keys i s (snd (kdo ker c s))"
  by (simp add: keeps_keys_def store_kdo)

lemma keeps_keys_upd:
  assumes "id_domid (f (ins s ! i)) = id_domid (ins s ! i)" "id_common_evtchn (f (ins s ! i)) = id_common_evtchn (ins s ! i)"
    "length (id_grant_refs (f (ins s ! i))) = length (id_grant_refs (ins s ! i))"
  shows "keeps_keys i s (upd_ins i f s)"
  using assms by (cases "i < length (ins s)") (simp_all add: keeps_keys_def upd_ins_def list_update_beyond)

lemma keeps_keys_offer: "offer_grant_loop ker i k n s = (rc, t) \<Longrightarrow> keeps_keys i s t"
proof (induction n arbitrary: k s)
  case 0
  then show ?case by (simp add: keeps_keys_def)
next
  case (Suc n)
  let ?r = "kdo ker (KGrant (id_domid (ins s ! i)) k) s"
  let ?u = "upd_ins i (\<lambda>d. d\<lparr>id_grant_refs := (id_grant_refs d)[k := word_of_int (kr_ret (fst ?r))]\<rparr>) (snd ?r)"
  have first: "keeps_keys i s (snd ?r)" by (rule keeps_keys_kdo) simp
  have upd: "keeps_keys i (snd ?r) ?u" by (rule keeps_keys_upd) simp_all
  show ?case
  proof (cases "kr_ret (fst ?r) < 0")
    case True
    with Suc.prems first show ?thesis by (simp add: split_beta Let_def)
  next
    case False
    then have "offer_grant_loop ker i (Suc k) n ?u = (rc, t)" using Suc.prems by (simp add: split_beta Let_def)
    then show ?thesis using Suc.IH keeps_keys_trans [OF keeps_keys_trans [OF first upd]] by blast
  qed
qed

text \<open>Writing keys leaves the table alone.\<close>

definition same_table :: "('w, 'm) mw_xen_scheme \<Rightarrow> ('w, 'm) mw_xen_scheme \<Rightarrow> bool" where
  "same_table s t \<longleftrightarrow> ins t = ins s \<and> my_domid t = my_domid s"

lemma same_table_refl: "same_table s s"
  by (simp add: same_table_def)

lemma same_table_trans [trans]: "same_table s t \<Longrightarrow> same_table t u \<Longrightarrow> same_table s u"
  by (simp add: same_table_def)

lemma same_table_write: "mw_xen_write_to_key ker d n v s = (rc, t) \<Longrightarrow> same_table s t"
  by (drule write_to_key_frame) (metis same_table_def mw_xen.select_convs(1,5) mw_xen.surjective mw_xen.update_convs(8,9))

lemma same_table_refs_loop: "grant_refs_loop ker p refs c k a s = (rc, c', k', a', t) \<Longrightarrow> same_table s t"
proof (induction ker p refs c k a s rule: grant_refs_loop.induct)
  case (2 ker path ref refs c k a s)
  then show ?case
    by (auto simp: Let_def split: if_splits prod.splits intro: same_table_refl same_table_write same_table_trans)
qed (simp add: same_table_refl)

lemma same_table_refs:
  assumes "mw_xen_write_grant_refs_to_key ker i s = (rc, t)"
  shows "same_table s t"
proof -
  obtain r s0 where k: "kdo ker KAlloc s = (r, s0)" by fastforce
  obtain rc1 cnt chunk acc s1 where
    l: "grant_refs_loop ker (ins_dir (id_domid (ins s ! i))) (id_grant_refs (ins s ! i)) 0 1 [] s0 = (rc1, cnt, chunk, acc, s1)"
    using prod_cases5 by blast
  have a: "same_table s s0" using k kdo_sel [of ker KAlloc s] by (simp add: same_table_def)
  have b: "same_table s s1" by (rule same_table_trans [OF a same_table_refs_loop [OF l]])
  show ?thesis
    using assms a b unfolding mw_xen_write_grant_refs_to_key_def Let_def k prod.case kdo_ins [OF k] l
    by (auto split: if_splits prod.splits dest!: same_table_write intro: same_table_trans)
qed

lemma server_path_other: "SERVER_ID_PATH \<noteq> xs_path (ins_dir d) key"
proof -
  obtain c cs where c: "fmt_u (unat d) = c # cs" by (cases "fmt_u (unat d)") simp_all
  then have "c \<noteq> CHR ''p''" using fmt_base_digits [of 10 "unat d"] by (auto simp: strtoul_digit_def)
  then show ?thesis using c by (auto simp: xs_path_def ins_dir_eq mw_consts)
qed

lemma port_key_other:
  "j < 1000 \<Longrightarrow> xs_path p VM_EVT_CHN_PORT_KEY \<noteq> xs_path p (gnt_key_name j)"
  "xs_path p VM_EVT_CHN_PORT_KEY \<noteq> xs_path p GNT_REF_CHUNKS"
  by (simp_all add: xs_path_def gnt_key_name_eq mw_consts)

lemma keeps_keys_block: "mw_xen_init_ring_block ker i s = (e, t) \<Longrightarrow> keeps_keys i s t"
  using keeps_keys_trans [OF keeps_keys_kdo [of "KPages XENEVENT_GRANT_REF_ORDER" i s ker] keeps_keys_upd]
  by (force simp: mw_xen_init_ring_block_def Let_def split: prod.splits)

text \<open>The new event channel, stored and written under its key.\<close>

lemma evtchn_published:
  assumes "mw_xen_create_unbound_evt_chn ker i s = (0, t)" and "id_domid (ins s ! i) \<noteq> 0" and "i < length (ins s)"
  shows "\<exists>port. ins t = (ins s)[i := (ins s ! i)\<lparr>id_common_evtchn := port\<rparr>] \<and> my_domid t = my_domid s
    \<and> xs_store (ktrace t) = (xs_store (ktrace s))(xs_path (ins_dir (id_domid (ins s ! i))) VM_EVT_CHN_PORT_KEY
         \<mapsto> snprintf MAX_GNT_REF_WIDTH (fmt_u (unat (word_of_int port :: u32))))
    \<and> (\<exists>w. port = kr_port (fst (ker (KEvtchnAllocUnbound (my_domid s) (id_domid (ins s ! i))) w)))"
proof -
  let ?c = "KEvtchnAllocUnbound (my_domid s) (id_domid (ins s ! i))"
  obtain r s1 where k: "kdo ker ?c s = (r, s1)" by fastforce
  have s1: "ins s1 = ins s" "my_domid s1 = my_domid s" "xs_store (ktrace s1) = xs_store (ktrace s)"
    using kdo_sel(1,4) [of ker ?c s] store_kdo [of ?c ker s] by (simp_all add: k)
  let ?u = "upd_ins i (\<lambda>d. d\<lparr>id_common_evtchn := kr_port r\<rparr>) s1"
  have u: "ins ?u = (ins s)[i := (ins s ! i)\<lparr>id_common_evtchn := kr_port r\<rparr>]" "my_domid ?u = my_domid s"
    "xs_store (ktrace ?u) = xs_store (ktrace s)" by (simp_all add: upd_ins_def s1)
  have "kr_ret r = 0" using assms k by (auto simp: mw_xen_create_unbound_evt_chn_def split: if_splits)
  with assms k s1(1) have w: "mw_xen_write_to_key ker (ins_dir (id_domid (ins s ! i))) VM_EVT_CHN_PORT_KEY
      (snprintf MAX_GNT_REF_WIDTH (fmt_u (unat (word_of_int (kr_port r) :: u32)))) ?u = (0, t)"
    by (simp add: mw_xen_create_unbound_evt_chn_def Let_def)
  have "kr_port r = kr_port (fst (ker ?c (kworld s)))" using kdo_sel(7) [of ker ?c s] k by simp
  then show ?thesis using same_table_write [OF w] write_to_key_store(1) [OF w] u by (auto simp: same_table_def)
qed

text \<open>Everything the INS needs is in XenStore after a successful handshake.\<close>

lemma handshake_publishes:
  assumes "ins_handshake ker i s = (0, t)" and "i < length (ins s)" and "id_domid (ins s ! i) \<noteq> 0"
    and "length (id_grant_refs (ins s ! i)) = XENEVENT_GRANT_REF_COUNT"
  shows "refs_published (xs_store (ktrace t)) (id_domid (ins s ! i)) (id_grant_refs (ins t ! i))"
    and "length (id_grant_refs (ins t ! i)) = XENEVENT_GRANT_REF_COUNT"
    and "xs_store (ktrace t) (xs_path (ins_dir (id_domid (ins s ! i))) VM_EVT_CHN_PORT_KEY)
      = Some (snprintf MAX_GNT_REF_WIDTH (fmt_u (unat (word_of_int (id_common_evtchn (ins t ! i)) :: u32))))"
    and "xs_store (ktrace t) SERVER_ID_PATH = xs_store (ktrace s) SERVER_ID_PATH"
    and "my_domid t = my_domid s" and "id_domid (ins t ! i) = id_domid (ins s ! i)"
    and "\<exists>w. id_common_evtchn (ins t ! i) = kr_port (fst (ker (KEvtchnAllocUnbound (my_domid s) (id_domid (ins s ! i))) w))"
proof -
  let ?p = "ins_dir (id_domid (ins s ! i))"
  obtain e1 s1 where 1: "mw_xen_init_ring_block ker i s = (e1, s1)" by fastforce
  obtain e2 s2 where 2: "mw_xen_create_unbound_evt_chn ker i s1 = (e2, s2)" by fastforce
  obtain e3 s3 where 3: "mw_xen_offer_grant ker i s2 = (e3, s3)" by fastforce
  obtain e4 s4 where 4: "mw_xen_init_ring ker i s3 = (e4, s4)" by fastforce
  obtain e5 s5 where 5: "mw_xen_write_grant_refs_to_key ker i s4 = (e5, s5)" by fastforce
  note run = assms(1) [unfolded ins_handshake_def 1 2 3 4 5 Let_def prod.case]
  have e: "e1 = 0" "e2 = 0" "e3 = 0" "e4 = 0" "e5 = 0" using run by (auto split: if_splits)
  have k1: "keeps_keys i s s1" by (rule keeps_keys_block [OF 1])
  then have d1: "id_domid (ins s1 ! i) = id_domid (ins s ! i)" "i < length (ins s1)" using assms(2) by (simp_all add: keeps_keys_def)
  obtain port where s2: "ins s2 = (ins s1)[i := (ins s1 ! i)\<lparr>id_common_evtchn := port\<rparr>]" "my_domid s2 = my_domid s1"
    "xs_store (ktrace s2) = (xs_store (ktrace s1))(xs_path ?p VM_EVT_CHN_PORT_KEY \<mapsto> snprintf MAX_GNT_REF_WIDTH (fmt_u (unat (word_of_int port :: u32))))"
    "\<exists>w. port = kr_port (fst (ker (KEvtchnAllocUnbound (my_domid s) (id_domid (ins s ! i))) w))"
    using evtchn_published [OF 2 [unfolded e]] d1 assms(3) k1 by (auto simp: keeps_keys_def)
  have k4: "keeps_keys i s2 s4"
    using keeps_keys_trans [OF keeps_keys_offer [OF 3 [unfolded mw_xen_offer_grant_def]] keeps_keys_kdo [of "KRingInit i" i s3 ker]] 4
    by (auto simp: mw_xen_init_ring_def)
  have refs: "length (id_grant_refs (ins s4 ! i)) = XENEVENT_GRANT_REF_COUNT" "id_domid (ins s4 ! i) = id_domid (ins s ! i)"
    "id_common_evtchn (ins s4 ! i) = port" "my_domid s4 = my_domid s" "i < length (ins s4)"
    using k1 k4 s2 d1 assms(4) by (simp_all add: keeps_keys_def)
  have tab: "ins s5 = ins s4" "my_domid s5 = my_domid s4" using same_table_refs [OF 5] by (simp_all add: same_table_def)
  have k6: "keeps_keys i s5 t" "id_grant_refs (ins t ! i) = id_grant_refs (ins s5 ! i)"
    using run e refs(5) tab by (auto simp: keeps_keys_def mw_xen_ins_alive_def store_kdo upd_ins_def split_beta)
  have st: "xs_store (ktrace t) = xs_store (ktrace s5)" using k6(1) by (simp add: keeps_keys_def)
  have other: "xs_store (ktrace t) k = xs_store (ktrace s4) k"
    if "\<forall>j. j < 1000 \<longrightarrow> k \<noteq> xs_path ?p (gnt_key_name j)" "k \<noteq> xs_path ?p GNT_REF_CHUNKS" for k
    using write_grant_refs_store [OF 5 [unfolded e] refs(1)] that st by (auto simp: refs(2))
  show "refs_published (xs_store (ktrace t)) (id_domid (ins s ! i)) (id_grant_refs (ins t ! i))"
    using published_refs [OF 5 [unfolded e] refs(1)] st tab refs(2) k6(2) by simp
  show "length (id_grant_refs (ins t ! i)) = XENEVENT_GRANT_REF_COUNT" using k6(2) tab refs(1) by simp
  show "xs_store (ktrace t) (xs_path ?p VM_EVT_CHN_PORT_KEY)
      = Some (snprintf MAX_GNT_REF_WIDTH (fmt_u (unat (word_of_int (id_common_evtchn (ins t ! i)) :: u32))))"
    using other [of "xs_path ?p VM_EVT_CHN_PORT_KEY"] port_key_other k4 s2(3) k6(1) tab refs(3) by (simp add: keeps_keys_def)
  show "xs_store (ktrace t) SERVER_ID_PATH = xs_store (ktrace s) SERVER_ID_PATH"
    using other [of SERVER_ID_PATH] server_path_other k4 s2(3) k1 by (simp add: keeps_keys_def)
  show "my_domid t = my_domid s" "id_domid (ins t ! i) = id_domid (ins s ! i)"
    using k6(1) tab refs by (simp_all add: keeps_keys_def)
  show "\<exists>w. id_common_evtchn (ins t ! i) = kr_port (fst (ker (KEvtchnAllocUnbound (my_domid s) (id_domid (ins s ! i))) w))"
    using k6(1) tab refs(3) s2(4) by (simp add: keeps_keys_def)
qed

section \<open>From the start of the PVM to a registered INS\<close>

text \<open>\<open>kstrtoint\<close> reads what \<open>%u\<close> prints.\<close>

definition strtol_ok :: "'w ker \<Rightarrow> bool" where
  "strtol_ok ker \<longleftrightarrow> (\<forall>n w. n < 2 ^ 31 \<longrightarrow> kr_ret (fst (ker (KStrtol (fmt_u n)) w)) = 0 \<and> kr_port (fst (ker (KStrtol (fmt_u n)) w)) = int n)"

lemma strtol_u16:
  assumes "strtol_ok ker"
  shows "kr_ret (fst (ker (KStrtol (fmt_u (unat (d :: u16)))) w)) = 0" "kr_port (fst (ker (KStrtol (fmt_u (unat d))) w)) = int (unat d)"
proof -
  have "unat d < 2 ^ 31" using unsigned_less [of d, where ?'a = nat] by simp
  then show "kr_ret (fst (ker (KStrtol (fmt_u (unat (d :: u16)))) w)) = 0" "kr_port (fst (ker (KStrtol (fmt_u (unat d))) w)) = int (unat d)"
    using assms by (simp_all add: strtol_ok_def)
qed

lemma same_table_kdo: "same_table s (snd (kdo ker c s))"
  by (simp add: same_table_def)

lemma read_key_frame:
  "same_table s (snd (mw_xen_read_from_key ker d n s)) \<and> xs_store (ktrace (snd (mw_xen_read_from_key ker d n s))) = xs_store (ktrace s)"
  by (simp add: mw_xen_read_from_key_def Let_def split_beta same_table_def store_kdo)

lemma read_key_str:
  "mw_xen_read_from_key ker d n s = (Some v, t) \<Longrightarrow> \<exists>w. kr_str (fst (ker (KXsRead d n) w)) = Some v"
  by (auto simp: mw_xen_read_from_key_def Let_def split_beta split: if_splits)

lemma mkdir_frame: "same_table s (snd (mw_xen_mkdir ker d n s))"
  by (simp add: mw_xen_mkdir_def Let_def split_beta same_table_def)

lemma keystore_frame: "same_table s (snd (mw_xen_initialize_keystore ker s))"
  by (simp add: mw_xen_initialize_keystore_def split_beta Let_def mkdir_frame same_table_trans [OF mkdir_frame mkdir_frame])

lemma init_result:
  assumes "mw_xen_init ker s = (0, t)" and "strtol_ok ker"
    and "\<And>w. kr_str (fst (ker (KXsRead PRIVATE_ID_PATH '''') w)) = Some (fmt_u (unat (my :: u16)))"
  shows "ins t = replicate MAX_INS_COUNT ins_zeroed" "my_domid t = my" "xs_store (ktrace t) SERVER_ID_PATH = Some (fmt_u (unat my))"
proof -
  let ?s0 = "s\<lparr>my_domid := 0, xenbus_watch_active := False, xen_pending_exit := False, ins_count := 0,
               ins := replicate MAX_INS_COUNT ins_zeroed\<rparr>"
  obtain e1 s1 where 1: "mw_xen_initialize_keystore ker ?s0 = (e1, s1)" by fastforce
  obtain e2 s2 where 2: "mw_xen_initialize_keys ker s1 = (e2, s2)" by fastforce
  obtain e3 s3 where 3: "mw_xen_write_server_id_to_key ker s2 = (e3, s3)" by fastforce
  note run = assms(1) [unfolded mw_xen_init_def Let_def 1 2 3 prod.case]
  have e: "e1 = 0" "e2 = 0" "e3 = 0" using run by (auto split: if_splits)
  have "same_table ?s0 s1"
    using 1 keystore_frame [of ?s0 ker] by simp
  moreover have "same_table s1 s2" using 2 by (auto simp: mw_xen_initialize_keys_def intro: same_table_write)
  ultimately have s2: "ins s2 = replicate MAX_INS_COUNT ins_zeroed" by (simp add: same_table_def)
  obtain v u where rd: "mw_xen_read_from_key ker PRIVATE_ID_PATH '''' s2 = (v, u)" by fastforce
  have v: "v = Some (fmt_u (unat my))"
    using 3 e(3) rd assms(3) read_key_str [of ker PRIVATE_ID_PATH "''''" s2] by (cases v) (fastforce simp: mw_xen_write_server_id_to_key_def)+
  obtain e' x where w: "mw_xen_write_to_key ker XENEVENT_XENSTORE_PVM SERVER_ID_KEY (fmt_u (unat my)) u = (e', x)" by fastforce
  have e': "e' = 0" and s3: "s3 = (snd (kdo ker (KStrtol (fmt_u (unat my))) x))\<lparr>my_domid := my\<rparr>"
    using 3 e(3) strtol_u16(2) [OF assms(2), of my] by (auto simp: mw_xen_write_server_id_to_key_def rd v w split_beta Let_def of_nat_unat split: if_splits)
  have u: "ins u = ins s2" using read_key_frame [of s2 ker PRIVATE_ID_PATH "''''"] rd by (simp add: same_table_def)
  have x: "ins x = ins u" using same_table_write [OF w] by (simp add: same_table_def)
  have t: "t = (snd (kdo ker KXsWatch s3))\<lparr>xenbus_watch_active := True\<rparr>" using run e by (auto split: if_splits prod.splits)
  show "ins t = replicate MAX_INS_COUNT ins_zeroed" "my_domid t = my" using t s3 s2 u x by simp_all
  have "xs_path XENEVENT_XENSTORE_PVM SERVER_ID_KEY = SERVER_ID_PATH" by (simp add: xs_path_def mw_consts)
  then show "xs_store (ktrace t) SERVER_ID_PATH = Some (fmt_u (unat my))"
    using t s3 write_to_key_store(1) [OF w [unfolded e']] by (simp add: store_kdo)
qed

lemma fmt_u_0: "fmt_u n = ''0'' \<Longrightarrow> n = 0"
  using fmt_base_inj [of 10 n 0] by (simp add: fmt_base.simps [of 10 0] hex_digits_def)

text \<open>The claim of the first free entry by \<open>mw_xen_ins_found\<close>, for the first INS.\<close>

lemma found_handshake:
  assumes "mw_xen_ins_found ker p s = (0, t)" and "strtol_ok ker" and "ins s = replicate MAX_INS_COUNT ins_zeroed"
    and "\<And>w. kr_str (fst (ker (KXsRead p '''') w)) = Some (fmt_u (unat (d :: u16)))" and "d \<noteq> 0"
  obtains u where "ins_handshake ker 0 u = (0, t)" "id_domid (ins u ! 0) = d" "0 < length (ins u)"
    "length (id_grant_refs (ins u ! 0)) = XENEVENT_GRANT_REF_COUNT" "my_domid u = my_domid s" "xs_store (ktrace u) = xs_store (ktrace s)"
proof -
  obtain v x where rd: "mw_xen_read_from_key ker p '''' s = (v, x)" by fastforce
  have v: "v = Some (fmt_u (unat d))"
    using assms(1,4) rd read_key_str [of ker p "''''" s] by (cases v) (fastforce simp: mw_xen_ins_found_def)+
  have x: "ins x = replicate 3 ins_zeroed" "my_domid x = my_domid s" "xs_store (ktrace x) = xs_store (ktrace s)"
    using read_key_frame [of s ker p "''''"] rd assms(3) by (simp_all add: same_table_def mw_consts)
  have first: "first_idx (\<lambda>d. id_in_use d = 0) (ins x) = Some 0" by (simp add: x(1) ins_zeroed_def numeral_3_eq_3)
  have nz: "fmt_u (unat d) \<noteq> ''0''" using fmt_u_0 [of "unat d"] assms(5) by (auto simp: unat_eq_0)
  let ?k = "kdo ker (KStrtol (fmt_u (unat d))) (upd_ins 0 (\<lambda>d. d\<lparr>id_in_use := 1\<rparr>) x)"
  define u where "u = upd_ins 0 (\<lambda>e. e\<lparr>id_domid := d\<rparr>) (snd ?k)"
  have "ins_handshake ker 0 u = (0, t)"
    using assms(1) nz first strtol_u16(2) [OF assms(2), of d] by (simp add: mw_xen_ins_found_def rd v u_def split_beta Let_def of_nat_unat)
  moreover have "ins u = (replicate 3 ins_zeroed)[0 := ins_zeroed\<lparr>id_in_use := 1, id_domid := d\<rparr>]" "my_domid u = my_domid s"
    "xs_store (ktrace u) = xs_store (ktrace s)"
    by (simp_all add: u_def upd_ins_def x store_kdo numeral_3_eq_3)
  ultimately show thesis using that by (simp add: ins_zeroed_def)
qed

lemma port_text:
  assumes "0 < p" and "p < 2 ^ 31"
  shows "snprintf MAX_GNT_REF_WIDTH (fmt_u (unat (word_of_int p :: u32))) = fmt_u (nat p)"
proof -
  have "unat (word_of_int p :: u32) = nat p" using assms by (simp add: unat_eq_nat_uint uint_word_of_int_eq take_bit_int_eq_self)
  moreover have "length (fmt_u (nat p)) \<le> 10" using assms by (intro fmt_length) (auto simp: nat_less_iff)
  ultimately show ?thesis by (simp add: mw_consts)
qed

text \<open>
  C16 (liveness): the handshake completes. After the start of the PVM with the domain id \<open>my\<close>, when the PVM has
  handled the key with which the INS with the domain id \<open>d\<close> announces itself, and XenStore serves what the PVM
  has written, the registration of the INS does not wait for ever: it returns 0, and the calls that others notice are, in
  this order: its id is written; exactly the pages that the PVM has granted are mapped from the domain \<open>my\<close>, in the order
  of the ring; the PVM's port of the event channel is bound; this is announced to the PVM; and the ring is
  set up over all 256 pages.
\<close>

theorem handshake_completes:
  assumes start: "mw_xen_init ker s0 = (0, s)" and found: "mw_xen_ins_found ker (xe_key d INS_ID_KEY) s = (0, t)"
    and ids: "strtol_ok ker" "\<And>w. kr_str (fst (ker (KXsRead PRIVATE_ID_PATH '''') w)) = Some (fmt_u (unat (my :: u16)))"
      "\<And>w. kr_str (fst (ker (KXsRead (xe_key d INS_ID_KEY) '''') w)) = Some (fmt_u (unat d))" "my \<noteq> 0" "d \<noteq> 0"
    and ports: "\<And>a b w. 0 < kr_port (fst (ker (KEvtchnAllocUnbound a b) w))" "\<And>a b w. kr_port (fst (ker (KEvtchnAllocUnbound a b) w)) < 2 ^ 31"
    and ins: "local_id g = d" "length (grant_refs g) = XENEVENT_GRANT_REF_COUNT"
    and env: "xs_serves drv (xs_store (ktrace t))" "setup_ok drv"
  shows "\<exists>g' tr. xe_comms_register drv g = Some (0, g') \<and> dtrace g' = dtrace g @ tr
    \<and> setup_calls tr = [DXsWrite (xe_key d INS_ID_KEY) (fmt_u (unat d)), DGntmapMap my (id_grant_refs (ins t ! 0)),
         DEvtBind my (id_common_evtchn (ins t ! 0)), DXsWrite (xe_key d VM_EVT_CHN_BOUND_KEY) ''1'',
         DRingInit (XENEVENT_GRANT_REF_COUNT * PAGE_SIZE)]
    \<and> grant_refs g' = id_grant_refs (ins t ! 0) \<and> req_cons g' = 0 \<and> rsp_prod_pvt g' = 0"
proof -
  note init = init_result [OF start ids(1,2)]
  obtain u where u: "ins_handshake ker 0 u = (0, t)" "id_domid (ins u ! 0) = d" "0 < length (ins u)"
    "length (id_grant_refs (ins u ! 0)) = XENEVENT_GRANT_REF_COUNT" "my_domid u = my_domid s" "xs_store (ktrace u) = xs_store (ktrace s)"
    by (rule found_handshake [OF found ids(1) init(1) ids(3,5)])
  have "id_domid (ins u ! 0) \<noteq> 0" using u(2) ids(5) by simp
  note pub = handshake_publishes [OF u(1,3) this u(4)]
  have port: "0 < id_common_evtchn (ins t ! 0)" "id_common_evtchn (ins t ! 0) < 2 ^ 31" using pub(7) ports by auto
  have srv: "xs_store (ktrace t) SERVER_ID_PATH = Some (fmt_u (unat my))" using pub(4) u(6) init(3) by simp
  have chn: "xs_store (ktrace t) (xs_path (ins_dir (local_id g)) VM_EVT_CHN_PORT_KEY) = Some (fmt_u (nat (id_common_evtchn (ins t ! 0))))"
    using pub(3) port_text [OF port] u(2) ins(1) by simp
  have refs: "refs_published (xs_store (ktrace t)) (local_id g) (id_grant_refs (ins t ! 0))" using pub(1) u(2) ins(1) by simp
  show ?thesis
    by (rule register_served [OF env refs pub(2) ins(2) srv ids(4) chn]) (use port ins(1) in auto)
qed

section \<open>An environment for the handshake\<close>

text \<open>A PVM with domain id 1 and an INS with domain id 7; page \<open>k\<close> of the ring is granted as \<open>1000 + k\<close>, the event channel is 5.\<close>

definition ker_hs :: "unit ker" where
  "ker_hs c w = ((case c of
       KAlloc \<Rightarrow> kret0\<lparr>kr_ret := 1\<rparr>
     | KXsExists _ _ \<Rightarrow> kret0\<lparr>kr_ret := 1\<rparr>
     | KXsRead p _ \<Rightarrow> kret0\<lparr>kr_str := Some (fmt_u (if p = PRIVATE_ID_PATH then 1 else 7))\<rparr>
     | KStrtol str \<Rightarrow> kret0\<lparr>kr_port := (case bmk_strtoul str 10 of Some (n, _) \<Rightarrow> uint n | None \<Rightarrow> 0)\<rparr>
     | KPages _ \<Rightarrow> kret0\<lparr>kr_ret := 1\<rparr>
     | KEvtchnAllocUnbound _ _ \<Rightarrow> kret0\<lparr>kr_port := 5\<rparr>
     | KGrant _ k \<Rightarrow> kret0\<lparr>kr_ret := 1000 + int (k mod 256)\<rparr>
     | _ \<Rightarrow> kret0), w)"

definition drv_hs :: "(string \<rightharpoonup> string) \<Rightarrow> unit drv" where
  "drv_hs m c w = (\<lparr>dr_ret = 0, dr_str = (case c of DXsRead p \<Rightarrow> (case m p of Some v \<Rightarrow> v | None \<Rightarrow> '''') | _ \<Rightarrow> ''''),
     dr_port = 9, dr_request = rq_zero, dr_routes = []\<rparr>, w)"

definition xe_zero :: "u16 \<Rightarrow> unit xe_state" where
  "xe_zero d = \<lparr>local_id = d, grant_refs = replicate XENEVENT_GRANT_REF_COUNT 0, shared_ring = False, shared_ring_size = 0,
     req_cons = 0, rsp_prod_pvt = 0, event_channel_mem = False, local_event_port = 0, messages_available = Some 0,
     heartbeat = 0, heartbeat_path = '''', stats_path = '''', listener_path = '''', sock_init = False, sock_path = '''',
     read_lock = None, write_lock = None, open_count = 0, ip_found = False, dworld = (), dtrace = []\<rparr>"

lemma drv_hs_serves: "xs_serves (drv_hs m) m" "setup_ok (drv_hs m)"
  by (simp_all add: xs_serves_def setup_ok_def drv_hs_def)

lemma ker_hs_strtol: "strtol_ok ker_hs"
  by (simp add: strtol_ok_def ker_hs_def kret0_def strtoul_fmt_u uint_nat unsigned_of_nat take_bit_nat_eq_self)

lemma ker_hs_cooperates: "xs_cooperates ker_hs"
  by (simp add: xs_cooperates_def ker_hs_def kret0_def)

text \<open>With small references every offer succeeds.\<close>

lemma offer_small:
  assumes "\<And>d k w. 0 \<le> kr_ret (fst (ker (KGrant d k) w)) \<and> kr_ret (fst (ker (KGrant d k) w)) < 2 ^ 28"
    and "\<forall>r \<in> set (id_grant_refs (ins s ! i)). unat r < 2 ^ 28" and "i < length (ins s)"
  shows "fst (offer_grant_loop ker i k n s) = 0 \<and> (\<forall>r \<in> set (id_grant_refs (ins (snd (offer_grant_loop ker i k n s)) ! i)). unat r < 2 ^ 28)"
  using assms(2,3)
proof (induction n arbitrary: k s)
  case (Suc n)
  let ?r = "kdo ker (KGrant (id_domid (ins s ! i)) k) s"
  let ?u = "upd_ins i (\<lambda>d. d\<lparr>id_grant_refs := (id_grant_refs d)[k := word_of_int (kr_ret (fst ?r))]\<rparr>) (snd ?r)"
  have v: "0 \<le> kr_ret (fst ?r)" "kr_ret (fst ?r) < 2 ^ 28" using assms(1) by simp_all
  then have "unat (word_of_int (kr_ret (fst ?r)) :: u32) < 2 ^ 28"
    by (simp add: unat_eq_nat_uint uint_word_of_int_eq take_bit_int_eq_self nat_less_iff)
  then have "\<forall>r \<in> set (id_grant_refs (ins ?u ! i)). unat r < 2 ^ 28"
    using Suc.prems by (auto dest!: set_update_subset_insert [THEN subsetD])
  then show ?case using Suc.IH [of ?u "Suc k"] Suc.prems(2) v(1) by (simp add: split_beta Let_def)
qed simp

lemma handshake_succeeds:
  assumes coop: "xs_cooperates ker" and grants: "\<And>d k w. 0 \<le> kr_ret (fst (ker (KGrant d k) w)) \<and> kr_ret (fst (ker (KGrant d k) w)) < 2 ^ 28"
    and mem: "\<And>n w. kr_ret (fst (ker (KPages n) w)) \<noteq> 0" and chn: "\<And>a b w. kr_ret (fst (ker (KEvtchnAllocUnbound a b) w)) = 0"
    and refs: "\<forall>r \<in> set (id_grant_refs (ins s ! i)). unat r < 2 ^ 28" and i: "i < length (ins s)"
  shows "fst (ins_handshake ker i s) = 0"
proof -
  obtain e1 s1 where 1: "mw_xen_init_ring_block ker i s = (e1, s1)" by fastforce
  obtain e2 s2 where 2: "mw_xen_create_unbound_evt_chn ker i s1 = (e2, s2)" by fastforce
  obtain e3 s3 where 3: "mw_xen_offer_grant ker i s2 = (e3, s3)" by fastforce
  obtain e4 s4 where 4: "mw_xen_init_ring ker i s3 = (e4, s4)" by fastforce
  obtain e5 s5 where 5: "mw_xen_write_grant_refs_to_key ker i s4 = (e5, s5)" by fastforce
  have s1: "e1 = 0" "id_grant_refs (ins s1 ! i) = id_grant_refs (ins s ! i)" "length (ins s1) = length (ins s)"
    using 1 mem i by (auto simp: mw_xen_init_ring_block_def Let_def split_beta)
  have "e2 = 0 \<and> id_grant_refs (ins s2 ! i) = id_grant_refs (ins s1 ! i) \<and> length (ins s2) = length (ins s1)"
  proof (cases "id_domid (ins s1 ! i) = 0")
    case True
    then show ?thesis using 2 by (simp add: mw_xen_create_unbound_evt_chn_def)
  next
    case False
    let ?k = "kdo ker (KEvtchnAllocUnbound (my_domid s1) (id_domid (ins s1 ! i))) s1"
    let ?u = "upd_ins i (\<lambda>d. d\<lparr>id_common_evtchn := kr_port (fst ?k)\<rparr>) (snd ?k)"
    obtain x y z where w: "mw_xen_write_to_key ker x y z ?u = (e2, s2)"
      using 2 False chn by (auto simp: mw_xen_create_unbound_evt_chn_def Let_def split_beta)
    have "e2 = 0" "ins s2 = ins ?u"
      using write_to_key_ok [OF coop, of x y z ?u] same_table_write [OF w] w by (simp_all add: same_table_def)
    then show ?thesis using i s1(3) by simp
  qed
  then have s2: "e2 = 0" "\<forall>r \<in> set (id_grant_refs (ins s2 ! i)). unat r < 2 ^ 28" "i < length (ins s2)" using s1 refs i by simp_all
  have s3: "e3 = 0" "\<forall>r \<in> set (id_grant_refs (ins s3 ! i)). unat r < 2 ^ 28"
    using offer_small [of ker s2 i 0 "id_pagect (ins s2 ! i)"] grants s2(2,3) 3 by (simp_all add: mw_xen_offer_grant_def)
  have s4: "e4 = 0" "ins s4 = ins s3" using 4 by (auto simp: mw_xen_init_ring_def)
  have "e5 = 0" using write_grant_refs_ok_iff [OF coop, of i s4] 5 s3(2) s4(2) by simp
  then show ?thesis by (simp add: ins_handshake_def 1 2 3 4 5 s1(1) s2(1) s3(1) s4(1) Let_def)
qed

lemma start_hs: "fst (mw_xen_init ker_hs xen_example) = 0"
  by (simp add: mw_xen_init_def mw_xen_initialize_keystore_def mw_xen_mkdir_def mw_xen_initialize_keys_def
      mw_xen_write_server_id_to_key_def mw_xen_write_to_key_def mw_xen_read_from_key_def kdo_def ker_hs_def kret0_def Let_def)

lemma grant_hs: "0 \<le> kr_ret (fst (ker_hs (KGrant d k) w))" "kr_ret (fst (ker_hs (KGrant d k) w)) < 2 ^ 28"
proof -
  have "int (k mod 256) < 256" by (simp add: zmod_int)
  then show "0 \<le> kr_ret (fst (ker_hs (KGrant d k) w))" "kr_ret (fst (ker_hs (KGrant d k) w)) < 2 ^ 28"
    by (simp_all add: ker_hs_def kret0_def)
qed

lemma other_hs: "kr_ret (fst (ker_hs (KPages n) w)) = 1" "kr_ret (fst (ker_hs (KEvtchnAllocUnbound a b) w)) = 0"
  by (simp_all add: ker_hs_def kret0_def)

lemma port_hs: "kr_port (fst (ker_hs (KStrtol ''7'') w)) = 7"
  using strtol_u16(2) [OF ker_hs_strtol, of 7 w] by (simp add: fmt_base.simps hex_digits_def)

theorem handshake_completes_witness:
  "\<exists>s t g'. mw_xen_init ker_hs xen_example = (0, s) \<and> mw_xen_ins_found ker_hs (xe_key 7 INS_ID_KEY) s = (0, t)
     \<and> xe_comms_register (drv_hs (xs_store (ktrace t))) (xe_zero 7) = Some (0, g') \<and> grant_refs g' = id_grant_refs (ins t ! 0)"
proof -
  obtain s where s: "mw_xen_init ker_hs xen_example = (0, s)" using start_hs by (metis prod.collapse)
  have key: "xe_key 7 INS_ID_KEY \<noteq> PRIVATE_ID_PATH" by (simp add: xe_key_eq mw_consts)
  have ids: "kr_str (fst (ker_hs (KXsRead PRIVATE_ID_PATH '''') w)) = Some (fmt_u (unat (1::u16)))"
    "kr_str (fst (ker_hs (KXsRead (xe_key 7 INS_ID_KEY) '''') w)) = Some (fmt_u (unat (7::u16)))" for w
    using key by (simp_all add: ker_hs_def)
  note init = init_result [OF s ker_hs_strtol ids(1)]
  let ?u = "upd_ins 0 (\<lambda>d. d\<lparr>id_domid := 7\<rparr>) (snd (kdo ker_hs (KStrtol ''7'') (upd_ins 0 (\<lambda>d. d\<lparr>id_in_use := 1\<rparr>)
      (snd (mw_xen_read_from_key ker_hs (xe_key 7 INS_ID_KEY) '''' s)))))"
  have rd: "ins (snd (mw_xen_read_from_key ker_hs (xe_key 7 INS_ID_KEY) '''' s)) = replicate 3 ins_zeroed"
    using read_key_frame [of s ker_hs "xe_key 7 INS_ID_KEY" "''''"] init(1) by (simp add: same_table_def mw_consts)
  have "fst (mw_xen_read_from_key ker_hs (xe_key 7 INS_ID_KEY) '''' s) = Some ''7''"
    using key by (simp add: mw_xen_read_from_key_def Let_def split_beta) (simp add: ker_hs_def kret0_def fmt_base.simps hex_digits_def)
  with port_hs have found: "mw_xen_ins_found ker_hs (xe_key 7 INS_ID_KEY) s = ins_handshake ker_hs 0 ?u"
    using rd by (simp add: mw_xen_ins_found_def split_beta Let_def numeral_3_eq_3 ins_zeroed_def)
  have "fst (ins_handshake ker_hs 0 ?u) = 0"
    by (rule handshake_succeeds [OF ker_hs_cooperates]) (simp_all add: grant_hs grant_hs(2) [simplified] other_hs rd ins_zeroed_def numeral_3_eq_3)
  then obtain t where t: "mw_xen_ins_found ker_hs (xe_key 7 INS_ID_KEY) s = (0, t)" using found by (metis prod.collapse)
  have "\<exists>g' tr. xe_comms_register (drv_hs (xs_store (ktrace t))) (xe_zero 7) = Some (0, g') \<and> dtrace g' = dtrace (xe_zero 7) @ tr
    \<and> setup_calls tr = [DXsWrite (xe_key 7 INS_ID_KEY) (fmt_u (unat (7::u16))), DGntmapMap 1 (id_grant_refs (ins t ! 0)),
         DEvtBind 1 (id_common_evtchn (ins t ! 0)), DXsWrite (xe_key 7 VM_EVT_CHN_BOUND_KEY) ''1'',
         DRingInit (XENEVENT_GRANT_REF_COUNT * PAGE_SIZE)]
    \<and> grant_refs g' = id_grant_refs (ins t ! 0) \<and> req_cons g' = 0 \<and> rsp_prod_pvt g' = 0"
    by (rule handshake_completes [OF s t ker_hs_strtol ids _ _ _ _ _ _ drv_hs_serves])
      (simp_all add: ker_hs_def kret0_def xe_zero_def)
  then show ?thesis using s t by blast
qed

end
