(* ===== verification/DriverProps.thy ===== *)
theory DriverProps
  imports Handshake
begin

text \<open>
  Properties of the INS driver in operation: its heartbeats reach the entry of the INS in the table of the
  PVM, and the device hands out the requests of the ring in order.
\<close>

section \<open>Keys and the watch of the PVM\<close>

lemma strstr_set: "strstr hay needle \<Longrightarrow> set needle \<subseteq> set hay"
  unfolding strstr_def by (metis set_drop_subset set_take_subset subset_trans)

lemma strstr_suffix: "strstr (xs @ needle) needle"
  unfolding strstr_def by (intro exI [of _ "length xs"]) simp

lemma xe_key_chars: "length key \<le> 21 \<Longrightarrow> set (xe_key d key) \<subseteq> set (''/mw0123456789'' @ key)"
proof -
  assume "length key \<le> 21"
  then have "set (xe_key d key) = set ''/mw/'' \<union> (set (fmt_u (unat d)) \<union> (set ''/'' \<union> set key))" by (simp only: xe_key_eq set_append)
  moreover have "set ''/mw/'' \<subseteq> set ''/mw0123456789''" "set ''/'' \<subseteq> set ''/mw0123456789''" "set ''0123456789'' \<subseteq> set ''/mw0123456789''" by simp_all
  ultimately show ?thesis using fmt_u_chars [of "unat d"] unfolding set_append by blast
qed

text \<open>A key with a character that the path does not have does not occur in it.\<close>

lemma key_absent: "length key \<le> 21 \<Longrightarrow> c \<in> set needle \<Longrightarrow> c \<notin> set (''/mw0123456789'' @ key) \<Longrightarrow> \<not> strstr (xe_key d key) needle"
  using strstr_set xe_key_chars by blast

lemma heartbeat_routed:
  "mw_xen_xenstore_state_changed ker (xe_key d INS_HEARTBEAT_KEY) s = snd (mw_xen_ins_heartbeat ker (xe_key d INS_HEARTBEAT_KEY) s)"
proof -
  have "\<not> strstr (xe_key d INS_HEARTBEAT_KEY) INS_ID_KEY" by (rule key_absent [of _ "CHR ''i''"]) (simp_all add: mw_consts)
  moreover have "\<not> strstr (xe_key d INS_HEARTBEAT_KEY) VM_EVT_CHN_BOUND_KEY" by (rule key_absent [of _ "CHR ''v''"]) (simp_all add: mw_consts)
  moreover have "strstr (xe_key d INS_HEARTBEAT_KEY) INS_HEARTBEAT_KEY"
    using strstr_suffix [of "''/mw/'' @ fmt_u (unat d) @ ''/''" INS_HEARTBEAT_KEY] by (simp add: xe_key_eq mw_consts)
  ultimately show ?thesis by (simp add: mw_xen_xenstore_state_changed_def)
qed

lemma stats_ignored: "mw_xen_xenstore_state_changed ker (xe_key d INS_NETWORK_STATS_KEY) s = s"
proof -
  have "\<not> strstr (xe_key d INS_NETWORK_STATS_KEY) INS_ID_KEY" by (rule key_absent [of _ "CHR ''i''"]) (simp_all add: mw_consts)
  moreover have "\<not> strstr (xe_key d INS_NETWORK_STATS_KEY) VM_EVT_CHN_BOUND_KEY" by (rule key_absent [of _ "CHR ''v''"]) (simp_all add: mw_consts)
  moreover have "\<not> strstr (xe_key d INS_NETWORK_STATS_KEY) INS_HEARTBEAT_KEY" by (rule key_absent [of _ "CHR ''h''"]) (simp_all add: mw_consts)
  ultimately show ?thesis by (simp add: mw_xen_xenstore_state_changed_def)
qed

text \<open>The PVM reads the domain id back from the path.\<close>

lemma path_domid:
  assumes "strtol_ok ker" and "\<And>w. kr_ret (fst (ker KAlloc w)) \<noteq> 0" and "length key \<le> 21"
    and "first_idx (\<lambda>e. id_domid e = d) (ins s) = Some i"
  obtains t where "mw_xen_get_ins_from_xs_path ker (xe_key d key) s = ((0, Some i), t)" "ins t = ins s"
proof -
  have copy: "take XENEVENT_PATH_STR_LEN (xe_key d key) = xe_key d key"
    using assms(3) fmt_u_u16 [of d] by (simp add: xe_key_eq mw_consts)
  have "c \<noteq> CHR ''/''" if "c \<in> set (fmt_u (unat d))" for c using fmt_u_chars [of "unat d"] that by auto
  then have "takeWhile (\<lambda>c. c \<noteq> CHR ''/'') (fmt_u (unat d) @ ''/'' @ key) = fmt_u (unat d)" by (subst takeWhile_append2) auto
  then have str: "takeWhile (\<lambda>c. c \<noteq> CHR ''/'') (drop (length XENEVENT_XENSTORE_ROOT + 1) (xe_key d key)) = fmt_u (unat d)"
    using assms(3) by (simp add: xe_key_eq mw_consts)
  have "first_idx (\<lambda>e. unat (id_domid e) = unat d) (ins s) = Some i" using assms(4) by (simp add: word_unat_eq_iff)
  then have "mw_xen_get_ins_from_xs_path ker (xe_key d key) s = ((0, Some i), snd (kdo ker (KStrtol (fmt_u (unat d))) (snd (kdo ker KAlloc s))))"
    using assms(2) strtol_u16 [OF assms(1), of d] by (simp add: mw_xen_get_ins_from_xs_path_def copy str [simplified] split_beta Let_def)
  then show thesis by (rule that) simp
qed

section \<open>Heartbeats\<close>

text \<open>The counter has not overflown, and once it has moved the paths are set.\<close>

definition hb_inv :: "'w xe_state \<Rightarrow> bool" where
  "hb_inv g \<longleftrightarrow> 0 \<le> heartbeat g \<and> (heartbeat g \<noteq> 0 \<longrightarrow>
     heartbeat_path g = xe_key (local_id g) INS_HEARTBEAT_KEY \<and> stats_path g = xe_key (local_id g) INS_NETWORK_STATS_KEY)"

text \<open>
  C33 (safety): heartbeats keep the INS alive. Each call of \<open>xe_comms_heartbeat\<close> succeeds, writes the counter and then the
  statistics, and stays in the state in which the next call does the same. The watch of the PVM finds the
  entry of exactly this INS from the key of the first write, sets its time of last contact to the current time
  and its missed heartbeats to 0, and changes no other entry; the second write changes nothing.
\<close>

theorem heartbeat_reaches_table:
  assumes drv: "xs_serves drv m" and g: "hb_inv g" "heartbeat g < 2 ^ 31 - 1"
    and ker: "strtol_ok ker" "\<And>w. kr_ret (fst (ker KAlloc w)) \<noteq> 0"
    and entry: "first_idx (\<lambda>e. id_domid e = local_id g) (ins s) = Some i" "id_in_use (ins s ! i) = 1"
  shows "\<exists>g' tr p q w. xe_comms_heartbeat drv stats g = (0, g') \<and> hb_inv g' \<and> heartbeat g' = heartbeat g + 1
    \<and> dtrace g' = dtrace g @ tr \<and> setup_calls tr = [DXsWrite p (fmt_u (nat (heartbeat g))), DXsWrite q stats]
    \<and> ins (mw_xen_xenstore_state_changed ker p s)
      = (ins s)[i := (ins s ! i)\<lparr>id_last_seen_time := kr_jiffies (fst (ker KJiffies w)), id_missed_heartbeats := 0\<rparr>]
    \<and> mw_xen_xenstore_state_changed ker q s = s"
proof -
  let ?p = "xe_key (local_id g) INS_HEARTBEAT_KEY" and ?q = "xe_key (local_id g) INS_NETWORK_STATS_KEY"
  define g0 where "g0 = (if heartbeat g = 0 then g\<lparr>heartbeat_path := ?p, stats_path := ?q\<rparr> else g)"
  have g0: "heartbeat_path g0 = ?p" "stats_path g0 = ?q" "heartbeat g0 = heartbeat g" "dtrace g0 = dtrace g" "local_id g0 = local_id g"
    using g(1) by (simp_all add: g0_def hb_inv_def)
  have hb: "0 \<le> heartbeat g" "heartbeat g < 2 ^ 32" using g by (simp_all add: hb_inv_def)
  obtain w1 tr1 where w1: "xe_comms_write_int_to_key drv ?p (heartbeat g) g0 = (0, ext g0 w1 tr1)"
    "setup_calls tr1 = [DXsWrite ?p (fmt_u (nat (heartbeat g)))]" by (rule write_int_served [OF drv hb])
  let ?g1 = "(ext g0 w1 tr1)\<lparr>heartbeat := heartbeat g + 1\<rparr>"
  obtain w2 tr2 where w2: "xe_comms_write_str_to_key drv ?q stats ?g1 = (0, ext ?g1 w2 tr2)" "setup_calls tr2 = [DXsWrite ?q stats]"
    by (rule write_str_served [OF drv])
  have run: "xe_comms_heartbeat drv stats g = (0, ext ?g1 w2 tr2)"
    using w1(1) w2(1) g0 unfolding xe_comms_heartbeat_def by (simp add: g0_def [symmetric])
  obtain u where u: "mw_xen_get_ins_from_xs_path ker ?p s = ((0, Some i), u)" "ins u = ins s"
    by (rule path_domid [OF ker _ entry(1), of INS_HEARTBEAT_KEY]) (simp_all add: mw_consts)
  have "ins (mw_xen_xenstore_state_changed ker ?p s)
      = (ins s)[i := (ins s ! i)\<lparr>id_last_seen_time := kr_jiffies (fst (ker KJiffies (kworld u))), id_missed_heartbeats := 0\<rparr>]"
    using u entry(2) by (simp add: heartbeat_routed mw_xen_ins_heartbeat_def mw_xen_ins_alive_def split_beta)
  moreover have "hb_inv (ext ?g1 w2 tr2)" "heartbeat (ext ?g1 w2 tr2) = heartbeat g + 1" using hb(1) g0 by (simp_all add: hb_inv_def)
  ultimately show ?thesis
    using run w1(2) w2(2) g0(4) stats_ignored [of ker "local_id g" s]
    by (intro exI [of _ "ext ?g1 w2 tr2"] exI [of _ "tr1 @ tr2"] exI [of _ ?p] exI [of _ ?q] exI [of _ "kworld u"]) simp
qed

lemma heard_hs:
  "strtol_ok ker_hs" "kr_ret (fst (ker_hs KAlloc w)) \<noteq> 0" "hb_inv (xe_zero 7)"
  "first_idx (\<lambda>e. id_domid e = local_id (xe_zero 7)) (ins xen_example) = Some 0" "id_in_use (ins xen_example ! 0) = 1"
  by (simp_all add: ker_hs_strtol ker_hs_def kret0_def hb_inv_def xe_zero_def xen_example_def ins_example_def)

theorem heartbeat_reaches_table_witness:
  "\<exists>g'. xe_comms_heartbeat (drv_hs Map.empty) ''32:0:0:0'' (xe_zero 7) = (0, g') \<and> heartbeat g' = 1"
  using heartbeat_reaches_table [OF drv_hs_serves(1) heard_hs(3) _ heard_hs(1,2,4,5), of Map.empty "''32:0:0:0''"]
  by (auto simp: xe_zero_def)

section \<open>Requests\<close>

text \<open>The ring holds the requests \<open>qs\<close> from the index \<open>k\<close> on.\<close>

definition ring_holds :: "'w drv \<Rightarrow> u32 \<Rightarrow> mt_request_generic list \<Rightarrow> bool" where
  "ring_holds drv k qs \<longleftrightarrow> (\<forall>j < length qs. \<forall>w. dr_ret (fst (drv (DRingHasRequests (k + of_nat j)) w)) \<noteq> 0
     \<and> dr_request (fst (drv (DRingRequest (k + of_nat j)) w)) = qs ! j)"

lemma ring_holds_Cons:
  assumes "ring_holds drv k (q # qs)"
  shows "dr_ret (fst (drv (DRingHasRequests k) w)) \<noteq> 0" "dr_request (fst (drv (DRingRequest k) w)) = q" "ring_holds drv (k + 1) qs"
proof -
  show "dr_ret (fst (drv (DRingHasRequests k) w)) \<noteq> 0" "dr_request (fst (drv (DRingRequest k) w)) = q"
    using assms by (auto simp: ring_holds_def dest: spec [of _ 0])
  have "dr_ret (fst (drv (DRingHasRequests (k + 1 + of_nat j)) w)) \<noteq> 0 \<and> dr_request (fst (drv (DRingRequest (k + 1 + of_nat j)) w)) = qs ! j"
    if "j < length qs" for j w
    using assms that unfolding ring_holds_def by (force simp: ac_simps dest: spec [of _ "Suc j"])
  then show "ring_holds drv (k + 1) qs" by (simp add: ring_holds_def)
qed

text \<open>What one read with a buffer of \<open>Size\<close> bytes returns for a request.\<close>

definition read_result :: "nat \<Rightarrow> mt_request_generic \<Rightarrow> int \<times> nat \<times> mt_request_generic list" where
  "read_result Size q = (if MT_IS_REQUEST (rq_base q) \<and> unat (rq_size (rq_base q)) \<le> Size
     then (0, unat (rq_size (rq_base q)), [q]) else (BMK_EINVAL, 0, []))"

fun dev_reads :: "'w drv \<Rightarrow> nat \<Rightarrow> nat \<Rightarrow> 'w xe_state \<Rightarrow> ((int \<times> nat \<times> mt_request_generic list) list \<times> 'w xe_state) option" where
  "dev_reads drv Size 0 s = Some ([], s)"
| "dev_reads drv Size (Suc n) s = do {
     (res, s) \<leftarrow> xe_dev_read drv [Size] s;
     (rs, s) \<leftarrow> dev_reads drv Size n s;
     Some (res # rs, s)
   }"

lemma dev_read_one:
  assumes "dr_ret (fst (drv (DRingHasRequests (req_cons s)) (dworld s))) \<noteq> 0" and "read_lock s = Some False"
    and "\<And>w. dr_request (fst (drv (DRingRequest (req_cons s)) w)) = q"
  obtains w tr where "xe_dev_read drv [Size] s = Some (read_result Size q, (ext s w tr)\<lparr>req_cons := req_cons s + 1\<rparr>)" "setup_calls tr = []"
proof -
  let ?s = "s\<lparr>read_lock := Some True\<rparr>"
  obtain w tr where wt: "wait_for_request drv ?s = Some (ext ?s w tr)" "setup_calls tr = []"
    using assms(1) by (simp add: wait_for_request.simps [of drv ?s] ddo_ext)
  show thesis
    using assms(2,3) wt
    by (intro that [of "snd (drv (DRingRequest (req_cons s)) w)" "tr @ [(DRingRequest (req_cons s), fst (drv (DRingRequest (req_cons s)) w))]"])
      (simp_all add: xe_dev_read_def xe_comms_read_item_def xenevent_mutex_wait_def xenevent_mutex_release_def read_result_def ddo_ext ext_def not_le)
qed

text \<open>
  C34 (functional): the device hands out the requests of the ring in order and each once. With requests \<open>qs\<close> on the ring,
  as many reads of one buffer each all return, the reads give exactly the requests of \<open>qs\<close> one after the other, and the index
  of the next request has advanced by their number, modulo \<open>2 ^ 32\<close>. A request without the signature or
  longer than the buffer gives the error EINVAL; it is consumed as well and the driver puts no response for it on the ring.
\<close>

theorem device_reads_in_order:
  assumes "ring_holds drv (req_cons s) qs" and "read_lock s = Some False"
  shows "\<exists>t tr. dev_reads drv Size (length qs) s = Some (map (read_result Size) qs, t)
    \<and> req_cons t = req_cons s + of_nat (length qs) \<and> dtrace t = dtrace s @ tr \<and> setup_calls tr = []"
  using assms
proof (induction qs arbitrary: s)
  case Nil
  then show ?case by simp
next
  case (Cons q qs)
  note ring = ring_holds_Cons [OF Cons.prems(1)]
  obtain w tr where one: "xe_dev_read drv [Size] s = Some (read_result Size q, (ext s w tr)\<lparr>req_cons := req_cons s + 1\<rparr>)" "setup_calls tr = []"
    by (rule dev_read_one [OF ring(1) Cons.prems(2) ring(2)])
  obtain t tr' where "dev_reads drv Size (length qs) ((ext s w tr)\<lparr>req_cons := req_cons s + 1\<rparr>) = Some (map (read_result Size) qs, t)"
    "req_cons t = req_cons s + 1 + of_nat (length qs)" "dtrace t = dtrace s @ tr @ tr'" "setup_calls tr' = []"
    using Cons.IH [of "(ext s w tr)\<lparr>req_cons := req_cons s + 1\<rparr>"] ring(3) Cons.prems(2) by auto
  with one show ?case by (intro exI [of _ t] exI [of _ "tr @ tr'"]) simp
qed

text \<open>A ring with a listen request and a request without signature, from the index \<open>2 ^ 32 - 1\<close> on.\<close>

definition rq_listen :: mt_request_generic where
  "rq_listen = rq_zero\<lparr>rq_base := (rq_base rq_zero)\<lparr>rq_sig := MT_SIGNATURE_REQUEST, rq_type := 3, rq_size := 40\<rparr>\<rparr>"

definition drv_ring :: "unit drv" where
  "drv_ring c w = (\<lparr>dr_ret = 1, dr_str = '''', dr_port = 0,
     dr_request = (case c of DRingRequest k \<Rightarrow> if k = -1 then rq_listen else rq_zero | _ \<Rightarrow> rq_zero), dr_routes = []\<rparr>, w)"

theorem device_reads_in_order_witness:
  "\<exists>t. dev_reads drv_ring 2048 2 ((xe_zero 7)\<lparr>req_cons := -1, read_lock := Some False\<rparr>) = Some ([(0, 40, [rq_listen]), (BMK_EINVAL, 0, [])], t)
     \<and> req_cons t = 1"
proof -
  have "MT_IS_REQUEST (rq_base rq_listen)" "\<not> MT_IS_REQUEST (rq_base rq_zero)" by code_simp+
  then have r: "read_result 2048 rq_listen = (0, 40, [rq_listen])" "read_result 2048 rq_zero = (BMK_EINVAL, 0, [])"
    by (simp_all add: read_result_def rq_listen_def)
  have "ring_holds drv_ring (-1) [rq_listen, rq_zero]" by (auto simp: ring_holds_def drv_ring_def less_Suc_eq)
  then show ?thesis
    using device_reads_in_order [of drv_ring "(xe_zero 7)\<lparr>req_cons := -1, read_lock := Some False\<rparr>" "[rq_listen, rq_zero]" 2048] r
    by (auto simp: numeral_2_eq_2)
qed

end
