(* ===== verification/InsSystem.thy ===== *)
theory InsSystem
  imports DriverProps Assignment
begin

text \<open>
  The INS as a whole: the application of \<open>Dispatcher\<close> on top of the driver of \<open>InsDriver\<close>. Reading and writing the device
  goes to \<open>xe_dev_read\<close> and \<open>xe_dev_write\<close>, all other calls to the rest of NetBSD.
\<close>

section \<open>The application on the driver\<close>

text \<open>
  The world of the application is the state of the driver with the world of the rest. A call that fails
  returns -1 with the error number of the driver, as NetBSD does when nothing was transferred. A call of the driver that does
  not return is no case of the theorems.
\<close>

definition ins_os :: "'w drv \<Rightarrow> 'v os \<Rightarrow> ('w xe_state \<times> 'v) os" where
  "ins_os drv os c w =
    (case c of
       SysRead fd n \<Rightarrow>
         (case xe_dev_read drv [n] (fst w) of
            None \<Rightarrow> (sysres0\<lparr>sr_ret := -1\<rparr>, w)
          | Some ((rc, moved, qs), x) \<Rightarrow>
              (sysres0\<lparr>sr_ret := (if rc = 0 then int moved else -1), sr_errno := rc,
                 sr_request := (case qs of [] \<Rightarrow> rq_zero | q # _ \<Rightarrow> q)\<rparr>, x, snd w))
     | SysWrite fd p n \<Rightarrow>
         (case xe_dev_write drv [(p, n)] (fst w) of
            None \<Rightarrow> (sysres0\<lparr>sr_ret := -1\<rparr>, w)
          | Some ((rc, moved), x) \<Rightarrow> (sysres0\<lparr>sr_ret := (if rc = 0 then int moved else -1), sr_errno := rc\<rparr>, x, snd w))
     | _ \<Rightarrow> let (r, v) = os c (snd w) in (r, fst w, v))"

text \<open>The responses that the driver has put on the ring, each with the index of its slot and its size.\<close>

fun put_of :: "dcall \<times> dret \<Rightarrow> (u32 \<times> mt_response_generic \<times> nat) list" where
  "put_of (DRingPut k p n, r) = [(k, p, n)]"
| "put_of _ = []"

definition ring_puts :: "(dcall \<times> dret) list \<Rightarrow> (u32 \<times> mt_response_generic \<times> nat) list" where
  "ring_puts tr = concat (map put_of tr)"

lemma ring_puts_simps [simp]:
  "ring_puts [] = []" "ring_puts (e # tr) = put_of e @ ring_puts tr" "ring_puts (tr @ tr') = ring_puts tr @ ring_puts tr'"
  by (simp_all add: ring_puts_def)

lemma dev_read_head:
  assumes ring: "ring_holds drv (req_cons x) [q]" and lock: "read_lock x = Some False"
  obtains x' where "xe_dev_read drv [n] x = Some (read_result n q, x')" "req_cons x' = req_cons x + 1"
    "ring_puts (dtrace x') = ring_puts (dtrace x)" "rsp_prod_pvt x' = rsp_prod_pvt x" "write_lock x' = write_lock x" "read_lock x' = read_lock x"
proof -
  note head = ring_holds_Cons [OF ring]
  have wait: "wait_for_request drv y = Some (snd (ddo drv (DRingHasRequests (req_cons y)) y))" if "req_cons y = req_cons x" for y
    using head(1) that by (subst wait_for_request.simps) (simp add: ddo_ext Let_def)
  let ?w = "snd (drv (DRingHasRequests (req_cons x)) (dworld x))"
  let ?tr = "[(DRingHasRequests (req_cons x), fst (drv (DRingHasRequests (req_cons x)) (dworld x))), (DRingRequest (req_cons x), fst (drv (DRingRequest (req_cons x)) ?w))]"
  show thesis
    by (rule that [of "(ext x (snd (drv (DRingRequest (req_cons x)) ?w)) ?tr)\<lparr>req_cons := req_cons x + 1\<rparr>"])
      (use head(2) lock in \<open>simp_all add: xe_dev_read_def xenevent_mutex_wait_def xenevent_mutex_release_def xe_comms_read_item_def wait
         read_result_def ddo_ext ext_def Let_def not_le\<close>)
qed

lemma dev_write_puts:
  assumes lock: "write_lock x = Some False"
  obtains x' where "xe_dev_write drv [(p, n)] x = Some ((0, unat (rs_size (rs_base p))), x')" "req_cons x' = req_cons x"
    "ring_puts (dtrace x') = ring_puts (dtrace x) @ [(rsp_prod_pvt x, p, unat (rs_size (rs_base p)))]"
    "rsp_prod_pvt x' = rsp_prod_pvt x + 1" "write_lock x' = write_lock x" "read_lock x' = read_lock x"
proof -
  obtain m x' where w: "xe_dev_write drv [(p, n)] x = Some (m, x')"
    using lock by (simp add: xe_dev_write_def xenevent_mutex_wait_def xenevent_mutex_release_def xe_comms_write_item_def send_event_def ddo_ext ext_def Let_def)
  show thesis
    by (rule that [of x']) (use w lock in \<open>auto simp: xe_dev_write_def xenevent_mutex_wait_def xenevent_mutex_release_def xe_comms_write_item_def
        send_event_def ddo_ext ext_def Let_def\<close>)
qed

section \<open>A request from the ring\<close>

text \<open>A request that the driver and the dispatcher accept.\<close>

definition request_fits :: "mt_request_generic \<Rightarrow> bool" where
  "request_fits q \<longleftrightarrow> MT_IS_REQUEST (rq_base q) \<and> MT_REQUEST_BASE_SIZE \<le> unat (rq_size (rq_base q))
     \<and> unat (rq_size (rq_base q)) \<le> ONE_REQUEST_REGION_SIZE"

lemma choose_failed_same:
  assumes "choose_thread q s = Some (rc, th, u)" and "rc \<noteq> 0" and "worker_threads s' = worker_threads s"
  shows "choose_thread q s' = Some (rc, None, s')"
  using assms by (auto simp: choose_thread_def get_worker_thread_for_fd_def thread_def Let_def
      split: placement.splits if_splits option.splits)

lemma sys_read_head:
  assumes "ring_holds drv (req_cons x) [q]" and "read_lock x = Some False" and "fst (world s) = x"
  obtains r t where "do_sys (ins_os drv os) (SysRead fd n) s = (r, t)" "worker_threads t = worker_threads s" "buffer_items t = buffer_items s"
    "sr_ret r = (if MT_IS_REQUEST (rq_base q) \<and> unat (rq_size (rq_base q)) \<le> n then int (unat (rq_size (rq_base q))) else -1)"
    "MT_IS_REQUEST (rq_base q) \<and> unat (rq_size (rq_base q)) \<le> n \<Longrightarrow> sr_request r = q"
    "req_cons (fst (world t)) = req_cons x + 1" "ring_puts (dtrace (fst (world t))) = ring_puts (dtrace x)"
    "rsp_prod_pvt (fst (world t)) = rsp_prod_pvt x" "write_lock (fst (world t)) = write_lock x" "read_lock (fst (world t)) = read_lock x"
proof -
  obtain x' where x': "xe_dev_read drv [n] x = Some (read_result n q, x')" "req_cons x' = req_cons x + 1"
    "ring_puts (dtrace x') = ring_puts (dtrace x)" "rsp_prod_pvt x' = rsp_prod_pvt x" "write_lock x' = write_lock x" "read_lock x' = read_lock x"
    by (rule dev_read_head [OF assms(1,2)])
  show thesis
    by (rule that [OF do_sys_eq]) (use x' assms(3) in \<open>auto simp: ins_os_def read_result_def\<close>)
qed

lemma error_response_on_ring:
  assumes "write_lock (fst (world s)) = Some False"
  obtains rc t resp where "send_dispatch_error_response (ins_os drv os) q s = (rc, t)" "answers q resp"
    "rs_status (rs_base resp) = MT_STATUS_INTERNAL_ERROR" "worker_threads t = worker_threads s" "buffer_items t = buffer_items s"
    "ring_puts (dtrace (fst (world t))) = ring_puts (dtrace (fst (world s))) @ [(rsp_prod_pvt (fst (world s)), resp, MT_RESPONSE_BASE_SIZE)]"
    "req_cons (fst (world t)) = req_cons (fst (world s))" "rsp_prod_pvt (fst (world t)) = rsp_prod_pvt (fst (world s)) + 1"
    "write_lock (fst (world t)) = Some False" "read_lock (fst (world t)) = read_lock (fst (world s))"
proof -
  let ?p = "set_response_to_internal_error q rs_zero"
  have p: "unat (rs_size (rs_base ?p)) = MT_RESPONSE_BASE_SIZE" "answers q ?p" "rs_status (rs_base ?p) = MT_STATUS_INTERNAL_ERROR"
    by (simp_all add: set_response_to_internal_error_def answers_def sizes)
  obtain x' where x': "xe_dev_write drv [(?p, unat (rs_size (rs_base ?p)))] (fst (world s)) = Some ((0, unat (rs_size (rs_base ?p))), x')"
    "req_cons x' = req_cons (fst (world s))"
    "ring_puts (dtrace x') = ring_puts (dtrace (fst (world s))) @ [(rsp_prod_pvt (fst (world s)), ?p, unat (rs_size (rs_base ?p)))]"
    "rsp_prod_pvt x' = rsp_prod_pvt (fst (world s)) + 1" "write_lock x' = write_lock (fst (world s))" "read_lock x' = read_lock (fst (world s))"
    by (rule dev_write_puts [OF assms])
  obtain rc t where t: "send_dispatch_error_response (ins_os drv os) q s = (rc, t)" by fastforce
  show thesis
    by (rule that [OF t p(2,3)])
      (use assms t x' p(1) in \<open>auto simp: send_dispatch_error_response_def do_sys_eq ins_os_def Let_def\<close>)
qed

lemma reserved_buffer:
  assumes "reserve_available_buffer_item s = (rc, Some i, s1)"
  shows "rc = 0" and "i < length (buffer_items s1)" and "bi_in_use (buffer s1 i) = 1" and "worker_threads s1 = worker_threads s"
    and "world s1 = world s"
proof -
  let ?P = "\<lambda>b. fst (atomic_cas_32 (bi_in_use b) 0 1) = 0"
  have s1: "first_idx ?P (buffer_items s) = Some i" "rc = 0"
    "s1 = upd_buffer i (\<lambda>b. b\<lparr>bi_in_use := snd (atomic_cas_32 (bi_in_use b) 0 1)\<rparr>) s"
    using assms by (auto simp: reserve_available_buffer_item_def split: option.splits)
  with first_idx_SomeD(1,2) [OF s1(1)] show "rc = 0" "i < length (buffer_items s1)" "bi_in_use (buffer s1 i) = 1"
    "worker_threads s1 = worker_threads s" "world s1 = world s"
    by (auto simp: atomic_cas_32_def upd_buffer_def buffer_def split: if_splits)
qed

text \<open>An INS that is ready for the next request: a buffer is free and nobody holds the locks of the device.\<close>

definition ready :: "('w xe_state \<times> 'v) ins_state \<Rightarrow> bool" where
  "ready s \<longleftrightarrow> (\<exists>i < length (buffer_items s). bi_in_use (buffer s i) = 0)
     \<and> read_lock (fst (world s)) = Some False \<and> write_lock (fst (world s)) = Some False"

lemma ready_reserves:
  assumes "ready s"
  obtains i s1 where "reserve_available_buffer_item s = (0, Some i, s1)"
proof -
  let ?P = "\<lambda>b. fst (atomic_cas_32 (bi_in_use b) 0 1) = 0"
  from assms obtain i where "i < length (buffer_items s)" "?P (buffer_items s ! i)"
    by (auto simp: ready_def buffer_def atomic_cas_32_def)
  from first_idx_Some_ex [of i _ ?P, OF this] obtain j where "first_idx ?P (buffer_items s) = Some j" by blast
  with that show thesis by (simp add: reserve_available_buffer_item_def)
qed

text \<open>The head of the ring has been read into the buffer \<open>i\<close>, and the state is \<open>t\<close>.\<close>

lemma head_read:
  assumes "ready s" and "ring_holds drv (req_cons (fst (world s))) [q]"
  obtains i and r :: sysres and t where "worker_threads t = worker_threads s" "bi_in_use (buffer t i) = 1" "i < length (buffer_items t)"
    "bi_request (buffer t i) = sr_request r"
    "sr_ret r = (if MT_IS_REQUEST (rq_base q) \<and> unat (rq_size (rq_base q)) \<le> ONE_REQUEST_REGION_SIZE then int (unat (rq_size (rq_base q))) else -1)"
    "MT_IS_REQUEST (rq_base q) \<and> unat (rq_size (rq_base q)) \<le> ONE_REQUEST_REGION_SIZE \<Longrightarrow> sr_request r = q"
    "req_cons (fst (world t)) = req_cons (fst (world s)) + 1" "ring_puts (dtrace (fst (world t))) = ring_puts (dtrace (fst (world s)))"
    "rsp_prod_pvt (fst (world t)) = rsp_prod_pvt (fst (world s))" "write_lock (fst (world t)) = Some False" "read_lock (fst (world t)) = Some False"
    "dispatch_once (ins_os drv os) s =
      (if sr_ret r < int MT_REQUEST_BASE_SIZE \<or> unat (rq_size (rq_base (sr_request r))) > ONE_REQUEST_REGION_SIZE
       then Some (Stop (if sr_ret r = 0 then 0 else EINVAL) t)
       else case assign_work_to_thread (ins_os drv os) i t of None \<Rightarrow> None
        | Some (rc, assigned_thread, more_processing, s) \<Rightarrow> if rc \<noteq> 0 \<or> \<not> more_processing then Some (Next s)
           else (case assigned_thread of None \<Rightarrow> None
             | Some w \<Rightarrow> Some (Next (upd_thread w (\<lambda>t. t\<lparr>ti_awaiting_work_sem := ti_awaiting_work_sem t + 1\<rparr>) s))))"
proof -
  obtain i s1 where s1: "reserve_available_buffer_item s = (0, Some i, s1)" by (rule ready_reserves [OF assms(1)])
  note res = reserved_buffer [OF s1]
  have lock: "read_lock (fst (world s)) = Some False" "write_lock (fst (world s)) = Some False" using assms(1) by (simp_all add: ready_def)
  obtain r s2 where rd: "do_sys (ins_os drv os) (SysRead (input_fd s1) ONE_REQUEST_REGION_SIZE) s1 = (r, s2)"
    and s2: "worker_threads s2 = worker_threads s1" "buffer_items s2 = buffer_items s1"
    and ret: "sr_ret r = (if MT_IS_REQUEST (rq_base q) \<and> unat (rq_size (rq_base q)) \<le> ONE_REQUEST_REGION_SIZE then int (unat (rq_size (rq_base q))) else -1)"
      "MT_IS_REQUEST (rq_base q) \<and> unat (rq_size (rq_base q)) \<le> ONE_REQUEST_REGION_SIZE \<Longrightarrow> sr_request r = q"
    and w2: "req_cons (fst (world s2)) = req_cons (fst (world s)) + 1" "ring_puts (dtrace (fst (world s2))) = ring_puts (dtrace (fst (world s)))"
      "rsp_prod_pvt (fst (world s2)) = rsp_prod_pvt (fst (world s))" "write_lock (fst (world s2)) = Some False" "read_lock (fst (world s2)) = Some False"
    using sys_read_head [OF assms(2) lock(1), of s1 os "input_fd s1" ONE_REQUEST_REGION_SIZE] lock res(5) by metis
  define t where "t = upd_buffer i (\<lambda>b. b\<lparr>bi_request := sr_request r\<rparr>) s2"
  have t: "worker_threads t = worker_threads s" "world t = world s2" "bi_request (buffer t i) = sr_request r" "bi_in_use (buffer t i) = 1"
    "i < length (buffer_items t)"
    using s2 res by (simp_all add: t_def buffer_upd_buffer upd_buffer_def buffer_def)
  show thesis
    by (rule that [of t i r, OF t(1,4,5,3) ret, unfolded t(2), OF _ w2])
      (use s1 rd t(3) in \<open>simp_all add: dispatch_once_def Let_def flip: t_def\<close>)
qed

lemma bad_head_stops:
  assumes "ready s" and "ring_holds drv (req_cons (fst (world s))) [q]" and "\<not> request_fits q"
  shows "\<exists>e t. dispatch_once (ins_os drv os) s = Some (Stop e t) \<and> req_cons (fst (world t)) = req_cons (fst (world s)) + 1
     \<and> ring_puts (dtrace (fst (world t))) = ring_puts (dtrace (fst (world s)))"
proof (rule head_read [OF assms(1,2), where os = os], goal_cases)
  case (1 i r t)
  from 1(5) assms(3) have "sr_ret r < int MT_REQUEST_BASE_SIZE" by (auto simp: request_fits_def sizes)
  with 1 show ?case by simp
qed

text \<open>A request for which no thread can be chosen, and its response.\<close>

definition refused :: "('w ins_state) \<Rightarrow> mt_request_generic \<Rightarrow> bool" where
  "refused s q \<longleftrightarrow> request_fits q \<and> (\<exists>rc th u. choose_thread q s = Some (rc, th, u) \<and> rc \<noteq> 0)"

definition refusal :: "mt_request_generic \<Rightarrow> mt_response_generic \<Rightarrow> bool" where
  "refusal q resp \<longleftrightarrow> answers q resp \<and> rs_status (rs_base resp) = MT_STATUS_INTERNAL_ERROR"

lemma refused_head_answered:
  assumes "ready s" and "ring_holds drv (req_cons (fst (world s))) [q]" and "refused s q"
  obtains t resp where "dispatch_once (ins_os drv os) s = Some (Next t)" "ready t" "worker_threads t = worker_threads s" "refusal q resp"
    "req_cons (fst (world t)) = req_cons (fst (world s)) + 1" "rsp_prod_pvt (fst (world t)) = rsp_prod_pvt (fst (world s)) + 1"
    "ring_puts (dtrace (fst (world t))) = ring_puts (dtrace (fst (world s))) @ [(rsp_prod_pvt (fst (world s)), resp, MT_RESPONSE_BASE_SIZE)]"
proof (rule head_read [OF assms(1,2), where os = os], goal_cases)
  case (1 i r t)
  from assms(3) obtain rc th u where ch: "request_fits q" "choose_thread q s = Some (rc, th, u)" "rc \<noteq> 0" by (auto simp: refused_def)
  then have fits: "\<not> (sr_ret r < int MT_REQUEST_BASE_SIZE \<or> unat (rq_size (rq_base (sr_request r))) > ONE_REQUEST_REGION_SIZE)" "sr_request r = q"
    using 1(6,7) by (auto simp: request_fits_def)
  obtain e v resp where v: "send_dispatch_error_response (ins_os drv os) q t = (e, v)" "answers q resp"
    "rs_status (rs_base resp) = MT_STATUS_INTERNAL_ERROR" "worker_threads v = worker_threads t" "buffer_items v = buffer_items t"
    "ring_puts (dtrace (fst (world v))) = ring_puts (dtrace (fst (world t))) @ [(rsp_prod_pvt (fst (world t)), resp, MT_RESPONSE_BASE_SIZE)]"
    "req_cons (fst (world v)) = req_cons (fst (world t))" "rsp_prod_pvt (fst (world v)) = rsp_prod_pvt (fst (world t)) + 1"
    "write_lock (fst (world v)) = Some False" "read_lock (fst (world v)) = read_lock (fst (world t))"
    by (rule error_response_on_ring [OF 1(11)])
  let ?v = "release_buffer_item i v"
  have rel: "bi_in_use (buffer ?v i) = 0" "worker_threads ?v = worker_threads s" "world ?v = world v" "i < length (buffer_items ?v)"
    using buffer_release(1,2) [of i v] v(4,5) 1(2-4) by (simp_all add: buffer_def release_buffer_item_eq)
  have "assign_work_to_thread (ins_os drv os) i t = Some (rc, None, False, ?v)"
    using choose_failed_same [OF ch(2,3) 1(2)] ch(3) 1(5) fits(2) v(1) by (simp add: assign_work_to_thread_def assign_exit_def)
  with fits ch(3) 1(13) have "dispatch_once (ins_os drv os) s = Some (Next ?v)" by simp
  moreover have "ready ?v" unfolding ready_def rel(3) using rel(1,4) v(9,10) 1(12) by auto
  ultimately show ?case
    using rel(2,3) v 1(8-10) by (intro 1(1) [of ?v resp]) (simp_all add: refusal_def)
qed

text \<open>
  C18 (functional). The INS application on its driver: a ring with requests that are acceptable but for which no thread can be chosen, as for an unknown type or a
  descriptor that is not open, and then one without signature, longer than a buffer or shorter than a header. The dispatcher returns. It has answered each
  of the first requests with exactly one response, in order and in consecutive slots of the ring, with the id of the request and the status of an internal error,
  changing no thread. The last request has ended it, and with it the INS, without a response.
\<close>

theorem dispatcher_serves_ring:
  assumes "ready s" and "ring_holds drv (req_cons (fst (world s))) (qs @ [q])" and "list_all (refused s) qs" and "\<not> request_fits q"
  shows "\<exists>e t resps. message_dispatcher (ins_os drv os) s = Some (e, t) \<and> list_all2 refusal qs resps
    \<and> ring_puts (dtrace (fst (world t))) = ring_puts (dtrace (fst (world s)))
        @ map (\<lambda>(k, resp). (rsp_prod_pvt (fst (world s)) + of_nat k, resp, MT_RESPONSE_BASE_SIZE)) (enumerate 0 resps)
    \<and> req_cons (fst (world t)) = req_cons (fst (world s)) + of_nat (length qs) + 1"
  using assms(1-3)
proof (induction qs arbitrary: s)
  case Nil
  with bad_head_stops [OF _ _ assms(4), of s drv os] obtain e t where "dispatch_once (ins_os drv os) s = Some (Stop e t)"
    "req_cons (fst (world t)) = req_cons (fst (world s)) + 1" "ring_puts (dtrace (fst (world t))) = ring_puts (dtrace (fst (world s)))" by auto
  then show ?case by (subst message_dispatcher.simps) auto
next
  case (Cons q' qs)
  have ring: "ring_holds drv (req_cons (fst (world s))) [q']" "ring_holds drv (req_cons (fst (world s)) + 1) (qs @ [q])"
    using ring_holds_Cons [OF Cons.prems(2) [unfolded append_Cons]] by (simp_all add: ring_holds_def)
  obtain t resp where t: "dispatch_once (ins_os drv os) s = Some (Next t)" "ready t" "worker_threads t = worker_threads s" "refusal q' resp"
    "req_cons (fst (world t)) = req_cons (fst (world s)) + 1" "rsp_prod_pvt (fst (world t)) = rsp_prod_pvt (fst (world s)) + 1"
    "ring_puts (dtrace (fst (world t))) = ring_puts (dtrace (fst (world s))) @ [(rsp_prod_pvt (fst (world s)), resp, MT_RESPONSE_BASE_SIZE)]"
    using refused_head_answered [OF Cons.prems(1) ring(1), of os] Cons.prems(3) by auto
  have "list_all (refused t) qs"
    using Cons.prems(3) choose_failed_same [OF _ _ t(3)] by (fastforce simp: list_all_iff refused_def)
  from Cons.IH [OF t(2) _ this] ring(2) t(5) obtain e v resps where v: "message_dispatcher (ins_os drv os) t = Some (e, v)" "list_all2 refusal qs resps"
    "ring_puts (dtrace (fst (world v))) = ring_puts (dtrace (fst (world t)))
        @ map (\<lambda>(k, resp). (rsp_prod_pvt (fst (world t)) + of_nat k, resp, MT_RESPONSE_BASE_SIZE)) (enumerate 0 resps)"
    "req_cons (fst (world v)) = req_cons (fst (world t)) + of_nat (length qs) + 1" by auto
  have "message_dispatcher (ins_os drv os) s = Some (e, v)" using t(1) v(1) by (subst message_dispatcher.simps) simp
  then show ?case using t v
    by (intro exI [of _ e] exI [of _ v] exI [of _ "resp # resps"]) (simp add: enumerate_Suc_eq ac_simps comp_def split_beta)
qed

text \<open>
  An INS with the ring of the driver's example: its first request is a listen on a socket that is not open, its second has no signature.
\<close>

definition ins_ring :: "(unit xe_state \<times> unit) ins_state" where
  "ins_ring = ins_zero rs_zero sa_zero ((xe_zero 7)\<lparr>req_cons := -1, read_lock := Some False, write_lock := Some False\<rparr>, ())"

theorem dispatcher_serves_ring_witness:
  "\<exists>e t resp. message_dispatcher (ins_os drv_ring (\<lambda>c w. (sysres0, w))) ins_ring = Some (e, t)
      \<and> ring_puts (dtrace (fst (world t))) = [(0, resp, MT_RESPONSE_BASE_SIZE)] \<and> refusal rq_listen resp"
proof -
  have w: "req_cons (fst (world ins_ring)) = -1" "rsp_prod_pvt (fst (world ins_ring)) = 0" "dtrace (fst (world ins_ring)) = []"
    by (simp_all add: ins_ring_def ins_zero_def xe_zero_def)
  have "ready ins_ring"
    by (auto simp: ready_def ins_ring_def ins_zero_def buffer_def buffer_zero_def mw_consts intro!: exI [of _ 0])
  moreover have "ring_holds drv_ring (-1) ([rq_listen] @ [rq_zero])" by (auto simp: ring_holds_def drv_ring_def less_Suc_eq)
  moreover have "request_fits rq_listen" "\<not> request_fits rq_zero" by code_simp+
  moreover have "choose_thread rq_listen ins_ring = Some (EINVAL, None, ins_ring)" by code_simp
  ultimately show ?thesis
    using dispatcher_serves_ring [of ins_ring drv_ring "[rq_listen]" rq_zero "\<lambda>c w. (sysres0, w)"] w
    by (auto simp: refused_def list_all2_Cons1)
qed

end
