(* ===== verification/RingSystem.thy ===== *)
theory RingSystem
  imports InsSystem PvmErrors
begin

text \<open>
  The ring between the PVM and an INS: the request slots and responses of \<open>XenIface\<close> on one side, the reads and writes of
  the device of \<open>InsDriver\<close> on the other, interleaved in any order. The macros of the ring belong to Xen; what is used of them is the
  contract \<open>front_ring\<close> and \<open>back_ring\<close>. Both directions share the same slots, so that the theorem rests on the way both sides count.
\<close>

section \<open>The macros of the ring\<close>

text \<open>
  The memory of a ring with the private indices of the PVM. A slot is used for a request and then for a response. An index
  runs modulo \<open>2 ^ 32\<close>; its slot is the remainder modulo the number of slots.
\<close>

datatype ring_slot = FreeSlot | ReqSlot mt_request_generic | RspSlot mt_response_generic

record mw_ring =
  rg_req_prod :: u32
  rg_rsp_prod :: u32
  rg_req_prod_pvt :: u32
  rg_rsp_cons :: u32
  rg_slot :: "nat \<Rightarrow> ring_slot"

definition slot_at :: "nat \<Rightarrow> mw_ring \<Rightarrow> u32 \<Rightarrow> ring_slot" where
  "slot_at n rg k = rg_slot rg (unat k mod n)"

definition set_slot :: "nat \<Rightarrow> u32 \<Rightarrow> ring_slot \<Rightarrow> mw_ring \<Rightarrow> mw_ring" where
  "set_slot n k v rg = rg\<lparr>rg_slot := (rg_slot rg)(unat k mod n := v)\<rparr>"

text \<open>
  What the macros do for the ring of the INS \<open>h\<close>, where \<open>rv\<close> is the ring in a state of the world: RING\_FULL,
  RING\_GET\_REQUEST with RING\_PUSH\_REQUESTS, RING\_HAS\_UNCONSUMED\_RESPONSES, RING\_GET\_RESPONSE, and the step of \<open>rsp_cons\<close>. All other
  calls leave the ring alone.
\<close>

fun moves_front :: "nat \<Rightarrow> kcall \<Rightarrow> bool" where
  "moves_front h (KRingInit i) = (i = h)"
| "moves_front h (KRingPush i q) = (i = h)"
| "moves_front h (KRingConsume i) = (i = h)"
| "moves_front h _ = False"

definition front_ring :: "'w ker \<Rightarrow> ('w \<Rightarrow> mw_ring) \<Rightarrow> nat \<Rightarrow> nat \<Rightarrow> bool" where
  "front_ring ker rv h n \<longleftrightarrow>
     (\<forall>w. (kr_ret (fst (ker (KRingFull h) w)) = 0 \<longleftrightarrow> rg_req_prod_pvt (rv w) - rg_rsp_cons (rv w) \<noteq> of_nat n))
   \<and> (\<forall>q w. rv (snd (ker (KRingPush h q) w)) = (set_slot n (rg_req_prod_pvt (rv w)) (ReqSlot q) (rv w))
        \<lparr>rg_req_prod_pvt := rg_req_prod_pvt (rv w) + 1, rg_req_prod := rg_req_prod_pvt (rv w) + 1\<rparr>)
   \<and> (\<forall>w. (kr_ret (fst (ker (KRingHasResponse h) w)) = 0 \<longleftrightarrow> rg_rsp_prod (rv w) = rg_rsp_cons (rv w)))
   \<and> (\<forall>w p. slot_at n (rv w) (rg_rsp_cons (rv w)) = RspSlot p \<longrightarrow> kr_response (fst (ker (KRingResponse h) w)) = p)
   \<and> (\<forall>w. rv (snd (ker (KRingConsume h) w)) = (rv w)\<lparr>rg_rsp_cons := rg_rsp_cons (rv w) + 1\<rparr>)
   \<and> (\<forall>c w. \<not> moves_front h c \<longrightarrow> rv (snd (ker c w)) = rv w)"

text \<open>
  On the side of the INS: RING\_HAS\_UNCONSUMED\_REQUESTS, which takes the smaller of the requests not yet consumed and of the slots without
  an unanswered request, RING\_GET\_REQUEST, RING\_GET\_RESPONSE with the copy of a response, and RING\_PUSH\_RESPONSES. The driver
  pushes each response at once, so the private index of its responses is the shared one. A response is read as it was written; what a slot holds beyond
  the size of its response is not looked at.
\<close>

fun moves_back :: "dcall \<Rightarrow> bool" where
  "moves_back (DRingInit n) = True"
| "moves_back (DRingPut k p n) = True"
| "moves_back (DRingPush k) = True"
| "moves_back _ = False"

definition back_ring :: "'w drv \<Rightarrow> ('w \<Rightarrow> mw_ring) \<Rightarrow> nat \<Rightarrow> bool" where
  "back_ring drv rv n \<longleftrightarrow>
     (\<forall>k w. (dr_ret (fst (drv (DRingHasRequests k) w)) = 0
        \<longleftrightarrow> min (rg_req_prod (rv w) - k) (of_nat n - (k - rg_rsp_prod (rv w))) = 0))
   \<and> (\<forall>k q w. slot_at n (rv w) k = ReqSlot q \<longrightarrow> dr_request (fst (drv (DRingRequest k) w)) = q)
   \<and> (\<forall>k p m w. rv (snd (drv (DRingPut k p m) w)) = set_slot n k (RspSlot p) (rv w))
   \<and> (\<forall>k w. rv (snd (drv (DRingPush k) w)) = (rv w)\<lparr>rg_rsp_prod := k\<rparr>)
   \<and> (\<forall>c w. \<not> moves_back c \<longrightarrow> rv (snd (drv c w)) = rv w)"

lemmas front_ringD = front_ring_def [THEN iffD1, THEN conjunct1, rule_format]
  front_ring_def [THEN iffD1, THEN conjunct2, THEN conjunct1, rule_format]
  front_ring_def [THEN iffD1, THEN conjunct2, THEN conjunct2, THEN conjunct1, rule_format]
  front_ring_def [THEN iffD1, THEN conjunct2, THEN conjunct2, THEN conjunct2, THEN conjunct1, rule_format]
  front_ring_def [THEN iffD1, THEN conjunct2, THEN conjunct2, THEN conjunct2, THEN conjunct2, THEN conjunct1, rule_format]
  front_ring_def [THEN iffD1, THEN conjunct2, THEN conjunct2, THEN conjunct2, THEN conjunct2, THEN conjunct2, rule_format]

lemmas back_ringD = back_ring_def [THEN iffD1, THEN conjunct1, rule_format]
  back_ring_def [THEN iffD1, THEN conjunct2, THEN conjunct1, rule_format]
  back_ring_def [THEN iffD1, THEN conjunct2, THEN conjunct2, THEN conjunct1, rule_format]
  back_ring_def [THEN iffD1, THEN conjunct2, THEN conjunct2, THEN conjunct2, THEN conjunct1, rule_format]
  back_ring_def [THEN iffD1, THEN conjunct2, THEN conjunct2, THEN conjunct2, THEN conjunct2, rule_format]

section \<open>The ring as two queues\<close>

text \<open>
  The requests \<open>S\<close> have been put on the ring and \<open>R\<close> of them have been read; the responses \<open>W\<close> have been put on the ring and \<open>T\<close> of them have
  been taken. The slots hold what is still to be read and to be taken.
\<close>

definition ring_ok :: "nat \<Rightarrow> mw_ring \<Rightarrow> mt_request_generic list \<Rightarrow> nat \<Rightarrow> mt_response_generic list \<Rightarrow> nat \<Rightarrow> bool" where
  "ring_ok n rg S R W T \<longleftrightarrow> T \<le> length W \<and> length W \<le> R \<and> R \<le> length S \<and> length S \<le> T + n
     \<and> rg_req_prod rg = of_nat (length S) \<and> rg_req_prod_pvt rg = of_nat (length S)
     \<and> rg_rsp_prod rg = of_nat (length W) \<and> rg_rsp_cons rg = of_nat T
     \<and> (\<forall>k. R \<le> k \<and> k < length S \<longrightarrow> slot_at n rg (of_nat k) = ReqSlot (S ! k))
     \<and> (\<forall>k. T \<le> k \<and> k < length W \<longrightarrow> slot_at n rg (of_nat k) = RspSlot (W ! k))"

text \<open>The number of slots is a power of 2, so that the wrap-around of an index does not change its slot.\<close>

definition slots_ok :: "nat \<Rightarrow> bool" where
  "slots_ok n \<longleftrightarrow> (\<exists>m < 32. n = 2 ^ m)"

lemma slots_pos: "slots_ok n \<Longrightarrow> 0 < n \<and> n < 2 ^ 32"
  using power_strict_increasing [of _ 32 "2::nat"] by (fastforce simp: slots_ok_def)

lemma index_mod:
  assumes "slots_ok n"
  shows "unat (of_nat k :: u32) mod n = k mod n"
proof -
  obtain m where m: "m < 32" "n = 2 ^ m" using assms by (auto simp: slots_ok_def)
  have "n dvd 2 ^ 32" unfolding m(2) by (rule le_imp_power_dvd) (use m(1) in simp)
  then show ?thesis using mod_mod_cancel [of n "2 ^ 32" k] by (simp add: unat_of_nat)
qed

lemma slot_neq:
  assumes "slots_ok n" and "j < k" and "k < j + n"
  shows "unat (of_nat j :: u32) mod n \<noteq> unat (of_nat k :: u32) mod n"
proof
  assume "unat (of_nat j :: u32) mod n = unat (of_nat k :: u32) mod n"
  then have "(j + 0) mod n = (j + (k - j)) mod n" using assms(1,2) by (simp add: index_mod)
  moreover have "k - j < n" using assms(2,3) by linarith
  ultimately have "0 = k - j" using add_mod_inj slots_pos [OF assms(1)] by blast
  then show False using assms(2) by simp
qed

lemma of_nat_u32_eq: "j < 2 ^ 32 \<Longrightarrow> k < 2 ^ 32 \<Longrightarrow> (of_nat j :: u32) = of_nat k \<longleftrightarrow> j = k"
  by (simp add: word_unat_eq_iff unat_of_nat)

lemma slot_at_set: "slot_at n (set_slot n k v rg) i = (if unat i mod n = unat k mod n then v else slot_at n rg i)"
  by (simp add: slot_at_def set_slot_def)

lemma ring_sels [simp]:
  "rg_req_prod (set_slot n k v rg) = rg_req_prod rg" "rg_rsp_prod (set_slot n k v rg) = rg_rsp_prod rg"
  "rg_req_prod_pvt (set_slot n k v rg) = rg_req_prod_pvt rg" "rg_rsp_cons (set_slot n k v rg) = rg_rsp_cons rg"
  "slot_at n (rg\<lparr>rg_req_prod := a\<rparr>) i = slot_at n rg i" "slot_at n (rg\<lparr>rg_rsp_prod := a\<rparr>) i = slot_at n rg i"
  "slot_at n (rg\<lparr>rg_req_prod_pvt := a\<rparr>) i = slot_at n rg i" "slot_at n (rg\<lparr>rg_rsp_cons := a\<rparr>) i = slot_at n rg i"
  by (simp_all add: set_slot_def slot_at_def)

text \<open>A ring that is not full takes a request; the slot is one that holds nothing any more.\<close>

lemma ring_push:
  assumes ok: "ring_ok n rg S R W T" and n: "slots_ok n" and free: "rg_req_prod_pvt rg - rg_rsp_cons rg \<noteq> of_nat n"
  shows "ring_ok n ((set_slot n (rg_req_prod_pvt rg) (ReqSlot q) rg)\<lparr>rg_req_prod_pvt := rg_req_prod_pvt rg + 1, rg_req_prod := rg_req_prod_pvt rg + 1\<rparr>)
    (S @ [q]) R W T"
proof -
  have ord: "T \<le> length W" "length W \<le> R" "R \<le> length S" "length S \<le> T + n"
    and ix: "rg_req_prod_pvt rg = of_nat (length S)" "rg_rsp_cons rg = of_nat T" using ok by (auto simp: ring_ok_def)
  have "(of_nat (length S - T) :: u32) \<noteq> of_nat n" using free ord by (simp add: ix of_nat_diff)
  then have room: "length S < T + n" using ord by (cases "length S = T + n") auto
  let ?rg = "set_slot n (of_nat (length S)) (ReqSlot q) rg"
  have other: "slot_at n ?rg (of_nat k) = slot_at n rg (of_nat k)" if "T \<le> k" "k < length S" for k
    using slot_neq [OF n that(2)] room that by (simp add: slot_at_set)
  have "slot_at n ?rg (of_nat k) = ReqSlot ((S @ [q]) ! k)" if "R \<le> k" "k < length (S @ [q])" for k
    using that other [of k] ord ok by (cases "k = length S") (auto simp: slot_at_set ring_ok_def nth_append)
  moreover have "slot_at n ?rg (of_nat k) = RspSlot (W ! k)" if "T \<le> k" "k < length W" for k
    using that other [of k] ord ok by (auto simp: ring_ok_def)
  moreover have "rg_rsp_prod rg = of_nat (length W)" using ok by (simp add: ring_ok_def)
  ultimately show ?thesis using ord room unfolding ring_ok_def by (simp add: ix)
qed

lemma ring_unread:
  assumes ok: "ring_ok n rg S R W T" and n: "slots_ok n"
    and unread: "min (rg_req_prod rg - of_nat R) (of_nat n - (of_nat R - rg_rsp_prod rg)) \<noteq> 0"
  shows "R < length S" and "slot_at n rg (of_nat R) = ReqSlot (S ! R)" and "ring_ok n rg S (R + 1) W T"
proof -
  have ord: "T \<le> length W" "length W \<le> R" "R \<le> length S" "length S \<le> T + n" "rg_req_prod rg = of_nat (length S)" using ok by (auto simp: ring_ok_def)
  have "rg_req_prod rg - of_nat R \<noteq> 0" using unread by (metis min_def word_zero_le)
  then show R: "R < length S" using ord by (cases "R = length S") auto
  then show "slot_at n rg (of_nat R) = ReqSlot (S ! R)" "ring_ok n rg S (R + 1) W T" using ok by (auto simp: ring_ok_def)
qed

lemma ring_has_unread:
  assumes ok: "ring_ok n rg S R W T" and n: "slots_ok n" and R: "R < length S"
  shows "min (rg_req_prod rg - of_nat R) (of_nat n - (of_nat R - rg_rsp_prod rg)) \<noteq> 0"
proof -
  have ord: "T \<le> length W" "length W \<le> R" "R \<le> length S" "length S \<le> T + n"
    and ix: "rg_req_prod rg = of_nat (length S)" "rg_rsp_prod rg = of_nat (length W)" using ok by (auto simp: ring_ok_def)
  have pos: "0 < n" "n < 2 ^ 32" using slots_pos [OF n] by auto
  have "rg_req_prod rg - of_nat R = of_nat (length S - R)" "of_nat n - (of_nat R - rg_rsp_prod rg) = (of_nat (n - (R - length W)) :: u32)"
    using ord R by (simp_all add: ix of_nat_diff)
  moreover have "(of_nat (length S - R) :: u32) \<noteq> of_nat 0" "(of_nat (n - (R - length W)) :: u32) \<noteq> of_nat 0"
    using of_nat_u32_eq [of "length S - R" 0] of_nat_u32_eq [of "n - (R - length W)" 0] ord R pos by linarith+
  ultimately show ?thesis by (simp add: min_def)
qed

lemma ring_put:
  assumes ok: "ring_ok n rg S R W T" and n: "slots_ok n" and owed: "length W < R"
  shows "ring_ok n ((set_slot n (of_nat (length W)) (RspSlot p) rg)\<lparr>rg_rsp_prod := of_nat (length W) + 1\<rparr>) S R (W @ [p]) T"
proof -
  have ord: "T \<le> length W" "length W \<le> R" "R \<le> length S" "length S \<le> T + n" using ok by (auto simp: ring_ok_def)
  have "slot_at n (set_slot n (of_nat (length W)) (RspSlot p) rg) (of_nat k) = slot_at n rg (of_nat k)"
    if "T \<le> k" "k < length S" "k \<noteq> length W" for k
    using that slot_neq [OF n, of k "length W"] slot_neq [OF n, of "length W" k] ord owed by (cases "k < length W") (auto simp: slot_at_set)
  moreover have "slot_at n (set_slot n (of_nat (length W)) (RspSlot p) rg) (of_nat (length W)) = RspSlot p" by (simp add: slot_at_set)
  ultimately show ?thesis
    using ok owed unfolding ring_ok_def by (auto simp: nth_append less_Suc_eq)
qed

lemma ring_take:
  assumes ok: "ring_ok n rg S R W T" and n: "slots_ok n" and some: "rg_rsp_prod rg \<noteq> rg_rsp_cons rg"
  shows "T < length W" and "slot_at n rg (rg_rsp_cons rg) = RspSlot (W ! T)" and "ring_ok n (rg\<lparr>rg_rsp_cons := rg_rsp_cons rg + 1\<rparr>) S R W (T + 1)"
proof -
  have "T \<noteq> length W" using some ok by (auto simp: ring_ok_def)
  then show T: "T < length W" using ok by (auto simp: ring_ok_def)
  then show "slot_at n rg (rg_rsp_cons rg) = RspSlot (W ! T)" "ring_ok n (rg\<lparr>rg_rsp_cons := rg_rsp_cons rg + 1\<rparr>) S R W (T + 1)"
    using ok by (auto simp: ring_ok_def)
qed

section \<open>Operations on the ring\<close>

text \<open>The PVM, while it looks for a slot, leaves the ring alone, and succeeds only if the ring is not full and the INS is in use.\<close>

lemma kworld_upd_ins [simp]: "kworld (upd_ins i f s) = kworld s"
  by (simp add: upd_ins_def)

lemma view_end_grants: "front_ring ker rv h n \<Longrightarrow> rv (kworld (end_grants ker gs s)) = rv (kworld s)"
  by (induction ker gs s rule: end_grants.induct) (simp_all add: kdo_sel front_ringD(6))

lemma view_release_ins: "front_ring ker rv h n \<Longrightarrow> rv (kworld (mw_xen_release_ins ker i s)) = rv (kworld s)"
  by (simp add: mw_xen_release_ins_def mw_xen_is_evt_chn_closed_def mw_xen_free_unbound_evt_chn_def Let_def split_beta kdo_sel front_ringD(6) view_end_grants)

lemma view_ring_wait:
  assumes ret: "ring_wait ker W i s = Some y" and ring: "front_ring ker rv h n"
  shows "rv (kworld (snd y)) = rv (kworld s) \<and> (fst y = 0 \<longrightarrow> id_in_use (ins (snd y) ! i) \<noteq> 0
    \<and> (i = h \<longrightarrow> rg_req_prod_pvt (rv (kworld s)) - rg_rsp_cons (rv (kworld s)) \<noteq> of_nat n))"
proof -
  have "front_ring ker rv h n \<longrightarrow> rv (kworld (snd y)) = rv (kworld s) \<and> (fst y = 0 \<longrightarrow> id_in_use (ins (snd y) ! i) \<noteq> 0
    \<and> (i = h \<longrightarrow> rg_req_prod_pvt (rv (kworld s)) - rg_rsp_cons (rv (kworld s)) \<noteq> of_nat n))"
    by (rule ring_wait.raw_induct [where P = "\<lambda>ker W i s y. front_ring ker rv h n \<longrightarrow> rv (kworld (snd y)) = rv (kworld s)
        \<and> (fst y = 0 \<longrightarrow> id_in_use (ins (snd y) ! i) \<noteq> 0 \<and> (i = h \<longrightarrow> rg_req_prod_pvt (rv (kworld s)) - rg_rsp_cons (rv (kworld s)) \<noteq> of_nat n))", OF _ ret])
      (auto simp: Let_def split_beta kdo_sel front_ringD(1,6) view_release_ins split: if_split_asm, (fastforce simp: front_ringD(6) view_release_ins)+)
  then show ?thesis using ring by blast
qed

text \<open>What a successful search for a slot gives.\<close>

lemma new_socket_rr_world: "mw_xen_new_socket_rr s = Some (d, t) \<Longrightarrow> kworld t = kworld s"
  by (drule new_socket_rr_result) auto

lemma slot_view:
  assumes "mw_xen_get_next_request_slot ker W d s = Some ((rc, g), t)" and ring: "front_ring ker rv h n"
  shows "rv (kworld t) = rv (kworld s) \<and> (rc = 0 \<longrightarrow> g = Some i \<longrightarrow> i < length (ins t) \<and> id_in_use (ins t ! i) \<noteq> 0
      \<and> (i = h \<longrightarrow> rg_req_prod_pvt (rv (kworld s)) - rg_rsp_cons (rv (kworld s)) \<noteq> of_nat n))"
proof -
  from assms(1) obtain d' u where du: "(if d = DOMID_INVALID \<or> d = - 1 then mw_xen_new_socket_rr s else Some (d, s)) = Some (d', u)"
    unfolding mw_xen_get_next_request_slot_def Option.bind_eq_Some_conv by auto
  then have u: "kworld u = kworld s" using new_socket_rr_world [of s] by (auto split: if_split_asm)
  obtain rc' g' where look: "mw_xen_get_ins_from_domid d' u = (rc', g')" by fastforce
  show ?thesis
  proof (cases "rc' = 0 \<and> g' \<noteq> None \<and> id_is_ring_ready (ins u ! the g')")
    case False
    then show ?thesis using assms(1) du look u by (auto simp: mw_xen_get_next_request_slot_def split: option.split_asm if_split_asm)
  next
    case True
    then obtain j where j: "g' = Some j" "j < length (ins u)" using look ins_from_domid_index by blast
    with True assms(1) du look have "\<not> id_locked (ins u ! j)" by (auto simp: mw_xen_get_next_request_slot_def split: if_split_asm)
    with True assms(1) du look j obtain rc1 v where w: "ring_wait ker W j (upd_ins j (\<lambda>d. d\<lparr>id_locked := True, id_curr_req := None\<rparr>) u) = Some (rc1, v)"
      and fin: "(if rc1 \<noteq> 0 then Some ((rc1, Some j), v) else let (r, s) = kdo ker (KRingSlot j) v
           in Some ((0, Some j), upd_ins j (\<lambda>d. d\<lparr>id_curr_req := Some (kr_request r)\<rparr>) s)) = Some ((rc, g), t)"
      by (auto simp: mw_xen_get_next_request_slot_def split: option.split_asm)
    show ?thesis
      using view_ring_wait [OF w ring] ring_wait_result [OF w] fin j u
      by (auto simp: Let_def split_beta front_ringD(6) [OF ring] nth_list_update upd_ins_def split: if_split_asm)
  qed
qed

text \<open>A request that is released into its slot is put on the ring.\<close>

lemma release_view:
  assumes "mw_xen_release_request ker (Some i) True (put_request i q s) = Some (rc, t)" and ring: "front_ring ker rv h n"
    and "i < length (ins s)" and "id_in_use (ins s ! i) \<noteq> 0" and "MT_IS_REQUEST (rq_base q)"
  shows "rv (kworld t) = (if i = h then (set_slot n (rg_req_prod_pvt (rv (kworld s))) (ReqSlot q) (rv (kworld s)))
      \<lparr>rg_req_prod_pvt := rg_req_prod_pvt (rv (kworld s)) + 1, rg_req_prod := rg_req_prod_pvt (rv (kworld s)) + 1\<rparr> else rv (kworld s))"
  using assms
  by (auto simp: mw_xen_release_request_def release_request_exit_def put_request_def mw_xen_send_event_def Let_def split_beta
      front_ringD(2,6) upd_ins_def)

lemma unsent_view:
  assumes "mw_xen_release_request ker g False s = Some (rc, t)"
  shows "kworld t = kworld s"
  using assms by (auto simp: mw_xen_release_request_def release_request_exit_def split: option.split_asm if_split_asm)

lemma response_available_view:
  assumes "mw_xen_response_available ker s = (Some i, t)" and ring: "front_ring ker rv h n"
  shows "rv (kworld t) = rv (kworld s)" and "i = h \<Longrightarrow> rg_rsp_prod (rv (kworld s)) \<noteq> rg_rsp_cons (rv (kworld s))"
proof -
  have "response_available_loop ker m s = (Some i, t) \<Longrightarrow> rv (kworld t) = rv (kworld s)
      \<and> (i = h \<longrightarrow> rg_rsp_prod (rv (kworld s)) \<noteq> rg_rsp_cons (rv (kworld s)))" for m and s :: "('a, 'b) mw_xen_scheme"
  proof (induction m arbitrary: s)
    case (Suc m)
    obtain j u where u: "mw_xen_get_next_index_rr s = (j, u)" by fastforce
    then have w: "kworld u = kworld s" by (auto simp: mw_xen_get_next_index_rr_def Let_def)
    from Suc.prems u w front_ringD(3,6) [OF ring] Suc.IH [of u] Suc.IH [of "snd (kdo ker (KRingHasResponse j) u)"] show ?case
      by (auto simp: Let_def split_beta split: if_split_asm)
  qed simp
  from this [OF assms(1) [unfolded mw_xen_response_available_def]]
  show "rv (kworld t) = rv (kworld s)" "i = h \<Longrightarrow> rg_rsp_prod (rv (kworld s)) \<noteq> rg_rsp_cons (rv (kworld s))" by auto
qed

text \<open>The driver returns from its wait only when there is a request; a read returns the request of its index.\<close>

lemma wait_view:
  assumes ret: "wait_for_request drv x = Some y" and ring: "back_ring drv rv n"
  shows "rv (dworld y) = rv (dworld x) \<and> req_cons y = req_cons x \<and> rsp_prod_pvt y = rsp_prod_pvt x \<and> read_lock y = read_lock x
    \<and> write_lock y = write_lock x
    \<and> min (rg_req_prod (rv (dworld x)) - req_cons x) (of_nat n - (req_cons x - rg_rsp_prod (rv (dworld x)))) \<noteq> 0"
proof -
  let ?P = "\<lambda>x y. rv (dworld y) = rv (dworld x) \<and> req_cons y = req_cons x \<and> rsp_prod_pvt y = rsp_prod_pvt x \<and> read_lock y = read_lock x
    \<and> write_lock y = write_lock x
    \<and> min (rg_req_prod (rv (dworld x)) - req_cons x) (of_nat n - (req_cons x - rg_rsp_prod (rv (dworld x)))) \<noteq> 0"
  have "back_ring drv rv n \<longrightarrow> ?P x y"
  proof (rule wait_for_request.raw_induct [where P = "\<lambda>drv x y. back_ring drv rv n \<longrightarrow> ?P x y", OF _ ret], rule impI, goal_cases)
    case (1 f drv x y)
    note ring = \<open>back_ring drv rv n\<close>
    let ?x = "ext x (snd (drv (DRingHasRequests (req_cons x)) (dworld x))) [(DRingHasRequests (req_cons x), fst (drv (DRingHasRequests (req_cons x)) (dworld x)))]"
    have x: "rv (dworld ?x) = rv (dworld x)" "rsp_prod_pvt ?x = rsp_prod_pvt x" "write_lock ?x = write_lock x"
      by (simp_all add: ext_def back_ringD(5) [OF ring])
    show ?case
    proof (cases "dr_ret (fst (drv (DRingHasRequests (req_cons x)) (dworld x))) = 0")
      case True
      with 1 obtain z where z: "xenevent_semaphore_down drv ?x = Some z" "f drv z = Some y" by (auto simp: ddo_ext Let_def Option.bind_eq_Some_conv)
      from z(1) have "rv (dworld z) = rv (dworld x) \<and> req_cons z = req_cons x \<and> rsp_prod_pvt z = rsp_prod_pvt x \<and> read_lock z = read_lock x
          \<and> write_lock z = write_lock x"
        by (auto simp: xenevent_semaphore_down_def Option.bind_eq_Some_conv ddo_ext ext_def Let_def back_ringD(5) [OF ring] split: if_split_asm)
      with 1(1) [OF z(2)] ring show ?thesis by simp
    next
      case False
      with 1 have "y = ?x" by (simp add: ddo_ext)
      with x False back_ringD(1) [OF ring, of "req_cons x" "dworld x"] show ?thesis by simp
    qed
  qed
  then show ?thesis using ring by blast
qed

lemma dev_read_view:
  assumes read: "xe_dev_read drv [sz] x = Some (res, y)" and ring: "back_ring drv rv n"
  shows "min (rg_req_prod (rv (dworld x)) - req_cons x) (of_nat n - (req_cons x - rg_rsp_prod (rv (dworld x)))) \<noteq> 0"
    and "slot_at n (rv (dworld x)) (req_cons x) = ReqSlot q \<Longrightarrow> res = read_result sz q"
    and "rv (dworld y) = rv (dworld x)" and "req_cons y = req_cons x + 1" and "rsp_prod_pvt y = rsp_prod_pvt x"
    and "read_lock x = Some False \<and> read_lock y = Some False" and "write_lock y = write_lock x"
proof -
  from read have lock: "read_lock x = Some False"
    by (auto simp: xe_dev_read_def xenevent_mutex_wait_def Option.bind_eq_Some_conv split: if_split_asm)
  with read obtain z where z: "wait_for_request drv (x\<lparr>read_lock := Some True\<rparr>) = Some z"
    by (auto simp: xe_dev_read_def xenevent_mutex_wait_def xe_comms_read_item_def Option.bind_eq_Some_conv)
  note v = wait_view [OF z ring]
  let ?r = "fst (drv (DRingRequest (req_cons x)) (dworld z))"
  have y: "y = (ext z (snd (drv (DRingRequest (req_cons x)) (dworld z))) [(DRingRequest (req_cons x), ?r)])\<lparr>req_cons := req_cons x + 1, read_lock := Some False\<rparr>"
    and res: "res = read_result sz (dr_request ?r)"
    using read lock z v
    by (auto simp: xe_dev_read_def xenevent_mutex_wait_def xenevent_mutex_release_def xe_comms_read_item_def read_result_def ddo_ext ext_def
        Let_def not_le split: if_split_asm)
  show "min (rg_req_prod (rv (dworld x)) - req_cons x) (of_nat n - (req_cons x - rg_rsp_prod (rv (dworld x)))) \<noteq> 0" using v by simp
  show "res = read_result sz q" if "slot_at n (rv (dworld x)) (req_cons x) = ReqSlot q"
    using back_ringD(2) [OF ring, of "dworld z" "req_cons x" q] v that res by simp
  show "rv (dworld y) = rv (dworld x)" "req_cons y = req_cons x + 1" "rsp_prod_pvt y = rsp_prod_pvt x"
    "read_lock x = Some False \<and> read_lock y = Some False" "write_lock y = write_lock x"
    using v lock by (simp_all add: y ext_def back_ringD(5) [OF ring])
qed

lemma dev_write_view:
  assumes wr: "xe_dev_write drv [(p, sz)] x = Some (res, y)" and ring: "back_ring drv rv n"
  shows "rv (dworld y) = (set_slot n (rsp_prod_pvt x) (RspSlot p) (rv (dworld x)))\<lparr>rg_rsp_prod := rsp_prod_pvt x + 1\<rparr>"
    and "req_cons y = req_cons x" and "rsp_prod_pvt y = rsp_prod_pvt x + 1" and "read_lock y = read_lock x" and "write_lock y = Some False"
proof -
  from wr have "write_lock x = Some False"
    by (auto simp: xe_dev_write_def xenevent_mutex_wait_def Option.bind_eq_Some_conv split: if_split_asm)
  with wr show "rv (dworld y) = (set_slot n (rsp_prod_pvt x) (RspSlot p) (rv (dworld x)))\<lparr>rg_rsp_prod := rsp_prod_pvt x + 1\<rparr>"
    "req_cons y = req_cons x" "rsp_prod_pvt y = rsp_prod_pvt x + 1" "read_lock y = read_lock x" "write_lock y = Some False"
    by (auto simp: xe_dev_write_def xenevent_mutex_wait_def xenevent_mutex_release_def xe_comms_write_item_def send_event_def ddo_ext ext_def Let_def
        back_ringD(3-5) [OF ring])
qed

section \<open>Both sides together\<close>

text \<open>
  The PVM and the INS \<open>h\<close> with their common world; \<open>owed\<close> counts the requests that the INS has read and not answered. The PVM may use
  other rings as well. The INS writes at most one response for each request it has read, which the theory \<open>Processing\<close> shows of its application.
\<close>

record 'w ring_sys =
  pvm_side :: "'w pvm"
  ins_side :: "'w xe_state"
  owed :: nat

datatype ring_act =
    Sent nat mt_request_generic
  | Unsent
  | DevRead "int \<times> nat \<times> mt_request_generic list"
  | DevWritten mt_response_generic
  | Taken nat mt_response_generic

definition set_pvm :: "'w pvm \<Rightarrow> 'w ring_sys \<Rightarrow> 'w ring_sys" where
  "set_pvm p s = s\<lparr>pvm_side := p, ins_side := (ins_side s)\<lparr>dworld := kworld p\<rparr>\<rparr>"

definition set_ins :: "'w xe_state \<Rightarrow> nat \<Rightarrow> 'w ring_sys \<Rightarrow> 'w ring_sys" where
  "set_ins x k s = s\<lparr>ins_side := x, pvm_side := (pvm_side s)\<lparr>kworld := dworld x\<rparr>, owed := k\<rparr>"

inductive ring_step :: "'w ker \<Rightarrow> 'w drv \<Rightarrow> nat \<Rightarrow> 'w ring_sys \<Rightarrow> ring_act \<Rightarrow> 'w ring_sys \<Rightarrow> bool" for ker drv sz where
  send: "ring_step ker drv sz s (Sent i q) (set_pvm p' s)"
    if "mw_xen_get_next_request_slot ker W d (pvm_side s) = Some ((0, Some i), p)" and "MT_IS_REQUEST (rq_base q)"
      and "mw_xen_release_request ker (Some i) True (put_request i q p) = Some (rc, p')"
| no_slot: "ring_step ker drv sz s Unsent (set_pvm p' s)"
    if "mw_xen_get_next_request_slot ker W d (pvm_side s) = Some ((rc, g), p)" and "rc \<noteq> 0"
      and "mw_xen_release_request ker g False p = Some (rc', p')"
| dev_read: "ring_step ker drv sz s (DevRead res) (set_ins x (owed s + 1) s)"
    if "xe_dev_read drv [sz] (ins_side s) = Some (res, x)"
| dev_write: "ring_step ker drv sz s (DevWritten p) (set_ins x (owed s - 1) s)"
    if "0 < owed s" and "xe_dev_write drv [(p, m)] (ins_side s) = Some (res, x)"
| take: "ring_step ker drv sz s (Taken i rsp) (set_pvm p3 s)"
    if "mw_xen_response_available ker (pvm_side s) = (Some i, p1)" and "mw_xen_get_next_response ker i p1 = ((0, rsp), p2)"
      and "mw_xen_mark_response_consumed ker (Some i) p2 = (rc, p3)"

inductive ring_run :: "'w ker \<Rightarrow> 'w drv \<Rightarrow> nat \<Rightarrow> 'w ring_sys \<Rightarrow> ring_act list \<Rightarrow> 'w ring_sys \<Rightarrow> bool" for ker drv sz s where
  start: "ring_run ker drv sz s [] s"
| more: "ring_run ker drv sz s (acts @ [a]) u" if "ring_run ker drv sz s acts t" and "ring_step ker drv sz t a u"

text \<open>The history of a run, as far as it concerns the ring of the INS \<open>h\<close>.\<close>

fun sent_by :: "nat \<Rightarrow> ring_act \<Rightarrow> mt_request_generic list" where
  "sent_by h (Sent i q) = (if i = h then [q] else [])" | "sent_by h _ = []"

fun read_by :: "ring_act \<Rightarrow> (int \<times> nat \<times> mt_request_generic list) list" where
  "read_by (DevRead res) = [res]" | "read_by _ = []"

fun written_by :: "ring_act \<Rightarrow> mt_response_generic list" where
  "written_by (DevWritten p) = [p]" | "written_by _ = []"

fun taken_by :: "nat \<Rightarrow> ring_act \<Rightarrow> mt_response_generic list" where
  "taken_by h (Taken i rsp) = (if i = h then [rsp] else [])" | "taken_by h _ = []"

definition history :: "(ring_act \<Rightarrow> 'a list) \<Rightarrow> ring_act list \<Rightarrow> 'a list" where
  "history f acts = concat (map f acts)"

lemma history_simps [simp]: "history f [] = []" "history f (acts @ [a]) = history f acts @ f a"
  by (simp_all add: history_def)

definition ring_fresh :: "('w \<Rightarrow> mw_ring) \<Rightarrow> 'w ring_sys \<Rightarrow> bool" where
  "ring_fresh rv s \<longleftrightarrow> kworld (pvm_side s) = dworld (ins_side s) \<and> owed s = 0 \<and> req_cons (ins_side s) = 0 \<and> rsp_prod_pvt (ins_side s) = 0
     \<and> read_lock (ins_side s) = Some False \<and> write_lock (ins_side s) = Some False
     \<and> (let rg = rv (dworld (ins_side s)) in rg_req_prod rg = 0 \<and> rg_req_prod_pvt rg = 0 \<and> rg_rsp_prod rg = 0 \<and> rg_rsp_cons rg = 0)"

definition ring_inv :: "('w \<Rightarrow> mw_ring) \<Rightarrow> nat \<Rightarrow> nat \<Rightarrow> nat \<Rightarrow> ring_act list \<Rightarrow> 'w ring_sys \<Rightarrow> bool" where
  "ring_inv rv h n sz acts s \<longleftrightarrow>
    (let S = history (sent_by h) acts; R = history read_by acts; W = history written_by acts; T = history (taken_by h) acts; x = ins_side s
     in ring_ok n (rv (dworld x)) S (length R) W (length T) \<and> R = map (read_result sz) (take (length R) S) \<and> T = take (length T) W
       \<and> kworld (pvm_side s) = dworld x \<and> req_cons x = of_nat (length R) \<and> rsp_prod_pvt x = of_nat (length W)
       \<and> owed s = length R - length W \<and> read_lock x = Some False \<and> write_lock x = Some False)"

lemma take_Suc_snoc: "k < length xs \<Longrightarrow> ys = take k xs \<Longrightarrow> ys @ [xs ! k] = take (Suc k) xs"
  by (simp add: take_Suc_conv_app_nth)

lemma ring_inv_take:
  assumes inv: "ring_inv rv h n sz acts s" and front: "front_ring ker rv h n" and n: "slots_ok n"
    and avail: "mw_xen_response_available ker (pvm_side s) = (Some i, p1)" and got: "mw_xen_get_next_response ker i p1 = ((0, rsp), p2)"
    and mark: "mw_xen_mark_response_consumed ker (Some i) p2 = (rc, p3)"
  shows "ring_inv rv h n sz (acts @ [Taken i rsp]) (set_pvm p3 s)"
proof -
  let ?S = "history (sent_by h) acts" and ?R = "history read_by acts" and ?W = "history written_by acts" and ?T = "history (taken_by h) acts"
  have ok: "ring_ok n (rv (dworld (ins_side s))) ?S (length ?R) ?W (length ?T)" and T: "?T = take (length ?T) ?W"
    and w: "kworld (pvm_side s) = dworld (ins_side s)" using inv by (simp_all add: ring_inv_def Let_def)
  note a = response_available_view [OF avail front]
  have p2: "rv (kworld p2) = rv (kworld p1)" "i = h \<Longrightarrow> slot_at n (rv (kworld p1)) (rg_rsp_cons (rv (kworld p1))) = RspSlot p \<Longrightarrow> rsp = p" for p
    using got front_ringD(4) [OF front, of "kworld p1" p] front_ringD(6) [OF front]
    by (auto simp: mw_xen_get_next_response_def Let_def split_beta split: if_split_asm)
  have p3: "rv (kworld p3) = (if i = h then (rv (kworld p2))\<lparr>rg_rsp_cons := rg_rsp_cons (rv (kworld p2)) + 1\<rparr> else rv (kworld p2))"
    using mark front_ringD(5,6) [OF front] by (auto simp: mw_xen_mark_response_consumed_def)
  show ?thesis
  proof (cases "i = h")
    case True
    note t = ring_take [OF ok n a(2) [OF True, unfolded w]]
    have "rsp = ?W ! length ?T" using p2(2) [OF True] t(2) a(1) w by simp
    then have "?T @ [rsp] = take (Suc (length ?T)) ?W" using T t(1) by (metis take_Suc_snoc)
    then show ?thesis using inv t a(1) p2(1) p3 True w by (simp add: ring_inv_def Let_def set_pvm_def)
  next
    case False
    then show ?thesis using inv a(1) p2(1) p3 w by (simp add: ring_inv_def Let_def set_pvm_def)
  qed
qed

lemma ring_inv_step:
  assumes step: "ring_step ker drv sz s a t" and inv: "ring_inv rv h n sz acts s"
    and front: "front_ring ker rv h n" and bk: "back_ring drv rv n" and n: "slots_ok n"
  shows "ring_inv rv h n sz (acts @ [a]) t"
proof -
  let ?S = "history (sent_by h) acts" and ?R = "history read_by acts" and ?W = "history written_by acts" and ?T = "history (taken_by h) acts"
  let ?rg = "rv (dworld (ins_side s))"
  have ok: "ring_ok n ?rg ?S (length ?R) ?W (length ?T)" and hist: "?R = map (read_result sz) (take (length ?R) ?S)" "?T = take (length ?T) ?W"
    and w: "kworld (pvm_side s) = dworld (ins_side s)" and ix: "req_cons (ins_side s) = of_nat (length ?R)" "rsp_prod_pvt (ins_side s) = of_nat (length ?W)"
    and ow: "owed s = length ?R - length ?W" and lock: "read_lock (ins_side s) = Some False" "write_lock (ins_side s) = Some False"
    using inv by (simp_all add: ring_inv_def Let_def)
  show ?thesis
    using step
  proof cases
    case (send W d i p q rc p')
    note v = slot_view [OF send(3) front, of i]
    have "rv (kworld p') = (if i = h then (set_slot n (rg_req_prod_pvt ?rg) (ReqSlot q) ?rg)
        \<lparr>rg_req_prod_pvt := rg_req_prod_pvt ?rg + 1, rg_req_prod := rg_req_prod_pvt ?rg + 1\<rparr> else ?rg)"
      using release_view [OF send(5) front _ _ send(4)] v w by simp
    moreover have "i = h \<Longrightarrow> rg_req_prod_pvt ?rg - rg_rsp_cons ?rg \<noteq> of_nat n" using v w by simp
    ultimately show ?thesis
      using ok ring_push [OF ok n] hist ix ow lock send(1,2) by (auto simp: ring_inv_def Let_def set_pvm_def ring_ok_def)
  next
    case (no_slot W d rc g p rc' p')
    have "rv (kworld p') = ?rg" using slot_view [OF no_slot(3) front] unsent_view [OF no_slot(5)] w by simp
    then show ?thesis using ok hist ix ow lock no_slot(1,2) by (simp add: ring_inv_def Let_def set_pvm_def)
  next
    case (dev_read res x)
    note v = dev_read_view [OF dev_read(3) bk]
    note u = ring_unread [OF ok n v(1) [unfolded ix(1)]]
    have "res = read_result sz (?S ! length ?R)" using v(2) u(2) by (simp add: ix)
    then have "?R @ [res] = map (read_result sz) (take (Suc (length ?R)) ?S)" using hist(1) u(1) by (simp add: take_Suc_conv_app_nth)
    then show ?thesis
      using u v(3-7) hist(2) ix ow lock dev_read(1,2) ok by (simp add: ring_inv_def Let_def set_ins_def ring_ok_def Suc_diff_le)
  next
    case (dev_write p m res x)
    note v = dev_write_view [OF dev_write(4) bk]
    have "length ?W < length ?R" using dev_write(3) ow by simp
    from ring_put [OF ok n this, of p] show ?thesis
      using v hist ix ow lock dev_write(1,2) ok by (auto simp: ring_inv_def Let_def set_ins_def ring_ok_def)
  next
    case (take i p1 rsp p2 rc p3)
    from ring_inv_take [OF inv front n take(3-5)] show ?thesis by (simp add: take(1,2))
  qed
qed

lemma ring_inv_fresh: "ring_fresh rv s \<Longrightarrow> ring_inv rv h n sz [] s"
  by (simp add: ring_fresh_def ring_inv_def ring_ok_def Let_def)

lemma ring_inv_run:
  assumes "ring_run ker drv sz s acts t" and "ring_fresh rv s" and "front_ring ker rv h n" and "back_ring drv rv n" and "slots_ok n"
  shows "ring_inv rv h n sz acts t"
  using assms(1) by induction (auto intro: ring_inv_fresh ring_inv_step assms)

text \<open>A request that has been put on the ring and not been read is what the next read returns, without waiting.\<close>

lemma unread_is_read:
  assumes ok: "ring_ok n (rv (dworld x)) S R W T" and n: "slots_ok n" and bk: "back_ring drv rv n" and R: "R < length S" "req_cons x = of_nat R"
    and lock: "read_lock x = Some False"
  shows "\<exists>y. xe_dev_read drv [sz] x = Some (read_result sz (S ! R), y)"
proof -
  have slot: "slot_at n (rv (dworld x)) (req_cons x) = ReqSlot (S ! R)" using ok R by (simp add: ring_ok_def)
  have "dr_ret (fst (drv (DRingHasRequests (req_cons x)) (dworld x))) \<noteq> 0"
    using back_ringD(1) [OF bk] ring_has_unread [OF ok n R(1)] R(2) by simp
  then have "wait_for_request drv (x\<lparr>read_lock := Some True\<rparr>)
      = Some (snd (ddo drv (DRingHasRequests (req_cons x)) (x\<lparr>read_lock := Some True\<rparr>)))"
    by (subst wait_for_request.simps) (simp add: ddo_ext Let_def)
  then have "xe_dev_read drv [sz] x \<noteq> None"
    using lock by (simp add: xe_dev_read_def xenevent_mutex_wait_def xenevent_mutex_release_def xe_comms_read_item_def ddo_ext ext_def Let_def)
  then obtain res y where "xe_dev_read drv [sz] x = Some (res, y)" by auto
  with dev_read_view(2) [OF this bk slot] show ?thesis by blast
qed

lemma untaken_is_next:
  assumes ok: "ring_ok n (rv (kworld p)) S R W T" and front: "front_ring ker rv h n" and T: "T < length W"
  shows "snd (fst (mw_xen_get_next_response ker h p)) = W ! T"
proof -
  have "slot_at n (rv (kworld p)) (rg_rsp_cons (rv (kworld p))) = RspSlot (W ! T)" using ok T by (simp add: ring_ok_def)
  then show ?thesis using front_ringD(4) [OF front] by (simp add: mw_xen_get_next_response_def Let_def split_beta)
qed

text \<open>
  C17 (refinement). The ring carries requests and responses as two queues. In any interleaving of what the PVM and the INS do, from a new ring on, the reads of the
  INS have returned the requests that the PVM has put on the ring, in order, each once and unchanged, and the PVM has taken the responses that the INS has put on the ring, in order, each once
  and unchanged, although both use the same slots. There are never more than \<open>n\<close> requests whose response has not been taken. And nothing gets stuck: the next read returns the first request not yet read,
  and the next response is the first not yet taken. This holds however often the indices of 32 bits wrap around.
\<close>

theorem ring_carries_messages:
  assumes "front_ring ker rv h n" and "back_ring drv rv n" and "slots_ok n" and "ring_fresh rv s" and "ring_run ker drv sz s acts t"
    and "S = history (sent_by h) acts" and "R = history read_by acts" and "W = history written_by acts" and "T = history (taken_by h) acts"
  shows "R = map (read_result sz) (take (length R) S) \<and> T = take (length T) W
    \<and> length T \<le> length W \<and> length W \<le> length R \<and> length R \<le> length S \<and> length S \<le> length T + n
    \<and> (length R < length S \<longrightarrow> (\<exists>x. xe_dev_read drv [sz] (ins_side t) = Some (read_result sz (S ! length R), x)))
    \<and> (length T < length W \<longrightarrow> snd (fst (mw_xen_get_next_response ker h (pvm_side t))) = W ! length T)"
proof -
  have inv: "ring_ok n (rv (dworld (ins_side t))) S (length R) W (length T)" "R = map (read_result sz) (take (length R) S)" "T = take (length T) W"
    "kworld (pvm_side t) = dworld (ins_side t)" "req_cons (ins_side t) = of_nat (length R)" "read_lock (ins_side t) = Some False"
    using ring_inv_run [OF assms(5,4,1-3)] assms(6-9) by (simp_all add: ring_inv_def Let_def)
  then have "length T \<le> length W \<and> length W \<le> length R \<and> length R \<le> length S \<and> length S \<le> length T + n" by (simp add: ring_ok_def)
  moreover have "snd (fst (mw_xen_get_next_response ker h (pvm_side t))) = W ! length T" if "length T < length W"
    using untaken_is_next [of n rv "pvm_side t" S "length R" W "length T", OF _ assms(1) that] inv(1,4) by simp
  ultimately show ?thesis using inv(2,3) unread_is_read [OF inv(1) assms(3,2) _ inv(5,6)] by blast
qed

section \<open>An example\<close>

text \<open>A ring of four slots for the INS with index 0. The world is the ring, and no call waits.\<close>

definition ker_ring :: "mw_ring ker" where
  "ker_ring c rg = (case c of
       KRingFull i \<Rightarrow> (kret0\<lparr>kr_ret := of_bool (i = 0 \<and> rg_req_prod_pvt rg - rg_rsp_cons rg = 4)\<rparr>, rg)
     | KRingPush i q \<Rightarrow> (kret0, if i = 0 then (set_slot 4 (rg_req_prod_pvt rg) (ReqSlot q) rg)
          \<lparr>rg_req_prod_pvt := rg_req_prod_pvt rg + 1, rg_req_prod := rg_req_prod_pvt rg + 1\<rparr> else rg)
     | KRingHasResponse i \<Rightarrow> (kret0\<lparr>kr_ret := of_bool (i = 0 \<and> rg_rsp_prod rg \<noteq> rg_rsp_cons rg)\<rparr>, rg)
     | KRingResponse i \<Rightarrow> (kret0\<lparr>kr_response := (case slot_at 4 rg (rg_rsp_cons rg) of RspSlot p \<Rightarrow> p | _ \<Rightarrow> rs_zero)\<rparr>, rg)
     | KRingConsume i \<Rightarrow> (kret0, if i = 0 then rg\<lparr>rg_rsp_cons := rg_rsp_cons rg + 1\<rparr> else rg)
     | _ \<Rightarrow> (kret0, rg))"

definition drv_slots :: "mw_ring drv" where
  "drv_slots c rg = (let r = \<lparr>dr_ret = 0, dr_str = '''', dr_port = 0, dr_request = rq_zero, dr_routes = []\<rparr> in case c of
       DRingHasRequests k \<Rightarrow> (r\<lparr>dr_ret := of_bool (min (rg_req_prod rg - k) (4 - (k - rg_rsp_prod rg)) \<noteq> 0)\<rparr>, rg)
     | DRingRequest k \<Rightarrow> (r\<lparr>dr_request := (case slot_at 4 rg k of ReqSlot q \<Rightarrow> q | _ \<Rightarrow> rq_zero)\<rparr>, rg)
     | DRingPut k p m \<Rightarrow> (r, set_slot 4 k (RspSlot p) rg)
     | DRingPush k \<Rightarrow> (r, rg\<lparr>rg_rsp_prod := k\<rparr>)
     | _ \<Rightarrow> (r, rg))"

lemma ker_ring_front: "front_ring ker_ring id 0 4"
proof -
  have "id (snd (ker_ring c w)) = id w" if "\<not> moves_front 0 c" for c w using that by (cases c) (auto simp: ker_ring_def)
  then show ?thesis unfolding front_ring_def by (simp add: ker_ring_def kret0_def)
qed

lemma drv_slots_back: "back_ring drv_slots id 4"
proof -
  have "id (snd (drv_slots c w)) = id w" if "\<not> moves_back c" for c w using that by (cases c) (auto simp: drv_slots_def Let_def)
  then show ?thesis unfolding back_ring_def by (simp add: drv_slots_def Let_def)
qed

definition ring_new :: mw_ring where
  "ring_new = \<lparr>rg_req_prod = 0, rg_rsp_prod = 0, rg_req_prod_pvt = 0, rg_rsp_cons = 0, rg_slot = (\<lambda>_. FreeSlot)\<rparr>"

definition ring_start :: "mw_ring ring_sys" where
  "ring_start = \<lparr>pvm_side = pvm_demo ring_new,
     ins_side = \<lparr>local_id = 5, grant_refs = [], shared_ring = True, shared_ring_size = 4, req_cons = 0, rsp_prod_pvt = 0,
       event_channel_mem = True, local_event_port = 0, messages_available = Some 0, heartbeat = 0, heartbeat_path = '''', stats_path = '''',
       listener_path = '''', sock_init = False, sock_path = '''', read_lock = Some False, write_lock = Some False, open_count = 1,
       ip_found = True, dworld = ring_new, dtrace = []\<rparr>,
     owed = 0\<rparr>"

definition rs_listen :: mt_response_generic where
  "rs_listen = rs_zero\<lparr>rs_base := rs_base_zero\<lparr>rs_sig := MT_SIGNATURE_RESPONSE, rs_type := mt_response_code MtRequestSocketListen, rs_size := 40\<rparr>\<rparr>"

text \<open>An exchange: a request is sent, read, answered, and its response is taken.\<close>

definition slot_found :: "mw_ring pvm" where
  "slot_found = snd (the (mw_xen_get_next_request_slot ker_ring True 5 (pvm_side ring_start)))"

definition ring_sent :: "mw_ring ring_sys" where
  "ring_sent = set_pvm (snd (the (mw_xen_release_request ker_ring (Some 0) True (put_request 0 rq_listen slot_found)))) ring_start"

lemma fst_some: "map_option fst m = Some a \<Longrightarrow> m = Some (a, snd (the m))"
  by (cases m) auto

lemma ring_start_facts: "ring_fresh id ring_start" "slots_ok 4"
proof -
  show "slots_ok 4" unfolding slots_ok_def by (rule exI [of _ 2]) simp
qed (simp add: ring_start_def ring_fresh_def ring_new_def pvm_demo_def)

lemma ring_sent_facts:
  "MT_IS_REQUEST (rq_base rq_listen)" "MT_IS_RESPONSE (rs_base rs_listen)"
  "map_option fst (mw_xen_get_next_request_slot ker_ring True 5 (pvm_side ring_start)) = Some (0, Some 0)"
  "map_option fst (mw_xen_release_request ker_ring (Some 0) True (put_request 0 rq_listen slot_found)) = Some 0"
  "rr_next (pvm_side ring_sent) = 0" "id_is_ring_ready (ins (pvm_side ring_sent) ! 0)"
  by code_simp+

lemma sent_run: "ring_run ker_ring drv_slots 2048 ring_start [Sent 0 rq_listen] ring_sent"
  using ring_run.more [OF ring_run.start ring_step.send [OF fst_some [OF ring_sent_facts(3)] ring_sent_facts(1)
      fst_some [OF ring_sent_facts(4) [unfolded slot_found_def]]], of drv_slots 2048]
  by (simp add: ring_sent_def slot_found_def)

lemma dev_write_some: "write_lock x = Some False \<Longrightarrow> \<exists>res y. xe_dev_write drv [(p, m)] x = Some (res, y)"
  by (simp add: xe_dev_write_def xenevent_mutex_wait_def xenevent_mutex_release_def xe_comms_write_item_def send_event_def ddo_ext ext_def Let_def)

lemma first_available:
  assumes "rr_next s = 0" and "id_is_ring_ready (ins s ! 0)" and "kr_ret (fst (ker (KRingHasResponse 0) (kworld s))) \<noteq> 0"
  shows "\<exists>t. mw_xen_response_available ker s = (Some 0, t)"
proof -
  have "MAX_INS_COUNT = Suc (MAX_INS_COUNT - 1)" by (simp add: MAX_INS_COUNT_def)
  then have "mw_xen_response_available ker s = response_available_loop ker (Suc (MAX_INS_COUNT - 1)) s"
    unfolding mw_xen_response_available_def by (rule arg_cong)
  then show ?thesis using assms by (auto simp: mw_xen_get_next_index_rr_def kdo_def Let_def split_beta)
qed

lemmas ring_inv_demo = ring_inv_run [OF _ ring_start_facts(1) ker_ring_front drv_slots_back ring_start_facts(2)]

lemma exchange_run:
  "\<exists>rsp t. ring_run ker_ring drv_slots 2048 ring_start [Sent 0 rq_listen, DevRead (read_result 2048 rq_listen), DevWritten rs_listen, Taken 0 rsp] t"
proof -
  note inv = ring_inv_demo [OF sent_run, unfolded ring_inv_def history_def Let_def, simplified]
  obtain x where x: "xe_dev_read drv_slots [2048] (ins_side ring_sent) = Some (read_result 2048 rq_listen, x)"
    using unread_is_read [of 4 id "ins_side ring_sent" "[rq_listen]" 0 "[]" 0, OF _ ring_start_facts(2) drv_slots_back] inv by auto
  let ?t = "set_ins x (Suc 0) ring_sent"
  have t: "ring_run ker_ring drv_slots 2048 ring_start [Sent 0 rq_listen, DevRead (read_result 2048 rq_listen)] ?t"
    using ring_run.more [OF sent_run ring_step.dev_read [OF x]] inv by simp
  note inv2 = ring_inv_demo [OF t, unfolded ring_inv_def history_def Let_def, simplified]
  obtain res y where y: "xe_dev_write drv_slots [(rs_listen, 40)] (ins_side ?t) = Some (res, y)"
    using dev_write_some inv2 by blast
  let ?u = "set_ins y 0 ?t"
  have u: "ring_run ker_ring drv_slots 2048 ring_start [Sent 0 rq_listen, DevRead (read_result 2048 rq_listen), DevWritten rs_listen] ?u"
    using ring_run.more [OF t ring_step.dev_write [OF _ y]] inv2 by simp
  note inv3 = ring_inv_demo [OF u, unfolded ring_inv_def history_def Let_def, simplified]
  have "pvm_side ?u = (pvm_side ring_sent)\<lparr>kworld := dworld y\<rparr>" by (simp add: set_ins_def)
  moreover have "kr_ret (fst (ker_ring (KRingHasResponse 0) (dworld y))) \<noteq> 0"
    using inv3 by (simp add: ring_ok_def ker_ring_def set_ins_def)
  ultimately obtain p1 where p1: "mw_xen_response_available ker_ring (pvm_side ?u) = (Some 0, p1)"
    using first_available [of "pvm_side ?u" ker_ring] ring_sent_facts(5,6) by auto
  obtain rc rsp p2 where p2: "mw_xen_get_next_response ker_ring 0 p1 = ((rc, rsp), p2)" by (metis surj_pair)
  have "ring_ok 4 (kworld p1) [rq_listen] (Suc 0) [rs_listen] 0"
    using response_available_view(1) [OF p1 ker_ring_front] inv3 by (simp add: set_ins_def)
  then have "rsp = rs_listen" using untaken_is_next [of 4 id p1 _ _ _ 0, OF _ ker_ring_front] p2 by fastforce
  then have "rc = 0" using p2 ring_sent_facts(2) by (auto simp: mw_xen_get_next_response_def Let_def split_beta)
  then have "ring_step ker_ring drv_slots 2048 ?u (Taken 0 rsp) (set_pvm (snd (mw_xen_mark_response_consumed ker_ring (Some 0) p2)) ?u)"
    using p2 by (intro ring_step.take [OF p1]) (simp_all add: mw_xen_mark_response_consumed_def)
  from ring_run.more [OF u this] show ?thesis by auto
qed

theorem ring_carries_messages_witness:
  "\<exists>rsp t. ring_run ker_ring drv_slots 2048 ring_start [Sent 0 rq_listen, DevRead (read_result 2048 rq_listen), DevWritten rs_listen, Taken 0 rsp] t
     \<and> rsp = rs_listen"
proof -
  obtain rsp t where run: "ring_run ker_ring drv_slots 2048 ring_start
      [Sent 0 rq_listen, DevRead (read_result 2048 rq_listen), DevWritten rs_listen, Taken 0 rsp] t" using exchange_run by blast
  have "[rsp] = take (length [rsp]) [rs_listen]"
    using ring_carries_messages [OF ker_ring_front drv_slots_back ring_start_facts(2,1) run refl refl refl refl] by (simp add: history_def)
  then show ?thesis using run by auto
qed

end
