(* ===== verification/Netflow.thy ===== *)
theory Netflow
  imports PvmSocket
begin

text \<open>
  The netflow channel of the PVM (mwcomms-netflow.c, with the messages of exports/imports/mw\_netflow\_iface.h): a
  TCP server in the kernel module to which an analytics engine connects, to observe the sockets and to
  read or change their features. The network of the kernel is the parameter \<open>net\<close>, a function
  from a call and a state of the world to a result; \<open>ntrace\<close> records the calls. Operations on sockets go to the socket
  layer, with its state \<open>'w pvm\<close> and its parameter \<open>ker\<close>.
\<close>

section \<open>Messages\<close>

text \<open>Conversions between network and host byte order, on a little-endian host.\<close>

definition bswap16 :: "u16 \<Rightarrow> u16" where
  "bswap16 w = push_bit 8 w OR drop_bit 8 w"

definition bswap32 :: "u32 \<Rightarrow> u32" where
  "bswap32 w = push_bit 16 (ucast (bswap16 (ucast w))) OR ucast (bswap16 (ucast (drop_bit 16 w)))"

definition bswap64 :: "u64 \<Rightarrow> u64" where
  "bswap64 w = push_bit 32 (ucast (bswap32 (ucast w))) OR ucast (bswap32 (ucast (drop_bit 32 w)))"

definition MW_SIG :: "u16 \<Rightarrow> u16" where "MW_SIG x = push_bit 8 0xd3 OR x"
definition MW_MESSAGE_SIG_FEATURE_RESPONSE :: u16 where [mw_consts]: "MW_MESSAGE_SIG_FEATURE_RESPONSE = MW_SIG 0x2f"
definition MW_FEATURE_FLAG_WRITE :: u16 where [mw_consts]: "MW_FEATURE_FLAG_WRITE = 1"
definition MW_FEATURE_FLAG_BY_SOCK :: u16 where [mw_consts]: "MW_FEATURE_FLAG_BY_SOCK = 2"
definition MtChannelTrafficMonitorOn :: u16 where [mw_consts]: "MtChannelTrafficMonitorOn = 0x0001"
definition MtChannelTrafficMonitorOff :: u16 where [mw_consts]: "MtChannelTrafficMonitorOff = 0x0002"
definition MtSockAttribIsOpen :: u16 where [mw_consts]: "MtSockAttribIsOpen = 0x0101"
definition MtSockAttribOwnerRunning :: u16 where [mw_consts]: "MtSockAttribOwnerRunning = 0x0102"
definition MtSockAttribAddrBlock :: u16 where [mw_consts]: "MtSockAttribAddrBlock = 0x1103"
definition NETFLOW_CH_NONE :: u32 where [mw_consts]: "NETFLOW_CH_NONE = 0"
definition NETFLOW_CH_NO_MONITOR :: u32 where [mw_consts]: "NETFLOW_CH_NO_MONITOR = 1"
definition SERVER_NETFLOW_PORT_KEY :: string where [mw_consts]: "SERVER_NETFLOW_PORT_KEY = ''netflow''"

text \<open>\<open>mw_feature_request_t\<close>; the union \<open>ident\<close> is its 20 bytes.\<close>

record mw_feature_request =
  fq_sig :: u16
  fq_id :: u32
  fq_flags :: u16
  fq_name :: u16
  fq_val :: mt_sockfeat_arg
  fq_ident :: "u8 list"

record mw_feature_response =
  fs_sig :: u16
  fs_id :: u32
  fs_status :: u32
  fs_val :: mt_sockfeat_arg

definition sizeof_mw_feature_request :: nat where [sizes]: "sizeof_mw_feature_request = sum_list [2, 4, 2, 2, 16, 20]"
definition sizeof_mw_feature_response :: nat where [sizes]: "sizeof_mw_feature_response = sum_list [2, 4, 4, 16]"

definition fs_zero :: mw_feature_response where
  "fs_zero = \<lparr>fs_sig = 0, fs_id = 0, fs_status = 0, fs_val = \<lparr>feat_s = 0, feat_us = 0\<rparr>\<rparr>"

text \<open>
  \<open>mw_netflow_info_t\<close> with \<open>mw_endpoint_t\<close>; the fields hold what is on the network, read as little-endian words. Of an
  endpoint \<open>ep_a\<close> are the 16 bytes of its address.
\<close>

record mw_endpoint =
  ep_af :: u32
  ep_a :: "u8 list"
  ep_port :: u16

record mw_netflow_info =
  ni_sig :: u16
  ni_id :: u32
  ni_obs :: u16
  ni_session_sec :: u64
  ni_session_ns :: u64
  ni_curr_sec :: u64
  ni_curr_ns :: u64
  ni_sockfd :: u64
  ni_pvm :: mw_endpoint
  ni_remote :: mw_endpoint
  ni_bytes_in :: u64
  ni_bytes_out :: u64
  ni_extra :: u64

text \<open>The member \<open>sockfd\<close> of \<open>ident\<close>, and the member \<open>remote.a\<close> as a C string.\<close>

definition ident_sockfd :: "u8 list \<Rightarrow> mw_socket_fd" where
  "ident_sockfd bs = foldr (\<lambda>b acc. ucast b OR push_bit 8 acc) (take 8 bs) 0"

definition ident_remote :: "u8 list \<Rightarrow> string" where
  "ident_remote bs = map (\<lambda>b. char_of (unat b)) (takeWhile (\<lambda>b. b \<noteq> 0) (take 16 (drop 4 bs)))"

text \<open>The conversion of the first \<open>n\<close> bytes of \<open>ident\<close> from network order.\<close>

definition swap_ident :: "nat \<Rightarrow> u8 list \<Rightarrow> u8 list" where
  "swap_ident n bs = rev (take n bs) @ drop n bs"

section \<open>Calls and state\<close>

datatype nf_message = NfFeature mw_feature_response | NfInfo mw_netflow_info | NfBytes "u8 list"

datatype ncall =
    NImport
  | NRecv nat
  | NSend nat nf_message nat
  | NAccept
  | NGetpeer nat
  | NPoll nat
  | NShutdown nat
  | NRelease nat
  | NAlloc
  | NSockCreate
  | NGetPort
  | NListen
  | NGetname
  | NSockFile
  | NLookup
  | NThread
  | NWaitThread
  | NReleaseListener
  | NSleep

text \<open>A result: the return value, the request received, the new connection, the events, the port, the text of an address.\<close>

record nret =
  nr_ret :: int
  nr_request :: mw_feature_request
  nr_conn :: nat
  nr_events :: u32
  nr_port :: u16
  nr_text :: string

type_synonym 'v net = "ncall \<Rightarrow> 'v \<Rightarrow> nret \<times> 'v"

record mwcomms_netflow_channel =
  ch_active :: bool
  ch_peer :: string
  ch_id :: int
  ch_flags :: u32
  ch_conn :: nat

text \<open>
  \<open>mwcomms_netflow_state_t\<close>. Of the local address the family and the text are kept, of the listening socket and
  the thread whether they exist.
\<close>

record 'v netflow =
  nf_initialized :: bool
  conn_list :: "mwcomms_netflow_channel list"
  active_conns :: int
  conn_ct :: int
  local_ip_family :: u16
  local_ip_text :: string
  listen_port :: u16
  listen_sock :: bool
  nf_exit_pending :: bool
  listen_thread :: bool
  nworld :: 'v
  ntrace :: "(ncall \<times> nret) list"

definition ndo :: "'v net \<Rightarrow> ncall \<Rightarrow> 'v netflow \<Rightarrow> nret \<times> 'v netflow" where
  "ndo net c s = (let (r, w) = net c (nworld s) in (r, s\<lparr>nworld := w, ntrace := ntrace s @ [(c, r)]\<rparr>))"

section \<open>Reading and writing a channel\<close>

text \<open>The return code, the number of bytes read and the message.\<close>

definition mw_netflow_read ::
  "'v net \<Rightarrow> mwcomms_netflow_channel \<Rightarrow> 'v netflow \<Rightarrow> (int \<times> nat \<times> mw_feature_request) \<times> mwcomms_netflow_channel \<times> 'v netflow" where
  "mw_netflow_read net Channel s =
    (let (r, s) = ndo net NImport s in
     if nr_ret r \<noteq> 0 then ((nr_ret r, sizeof_mw_feature_request, nr_request r), Channel, s)
     else
       let (r, s) = ndo net (NRecv (ch_conn Channel)) s; rc = nr_ret r in
       if rc = 0 then ((- EPIPE, sizeof_mw_feature_request, nr_request r), Channel\<lparr>ch_active := False\<rparr>, s)
       else if rc = - L_EAGAIN then ((rc, sizeof_mw_feature_request, nr_request r), Channel, s)
       else if rc < 0 then ((rc, sizeof_mw_feature_request, nr_request r), Channel\<lparr>ch_active := False\<rparr>, s)
       else ((0, nat rc, nr_request r), Channel, s))"

definition mw_netflow_write_one ::
  "'v net \<Rightarrow> mwcomms_netflow_channel \<Rightarrow> nf_message \<Rightarrow> nat \<Rightarrow> 'v netflow \<Rightarrow> int \<times> mwcomms_netflow_channel \<times> 'v netflow" where
  "mw_netflow_write_one net Channel Message Len s =
    (let (r, s) = ndo net NImport s in
     if nr_ret r \<noteq> 0 then (nr_ret r, Channel, s)
     else
       let (r, s) = ndo net (NSend (ch_conn Channel) Message Len) s; rc = nr_ret r in
       if rc = int Len then (0, Channel, s)
       else if rc > 0 then (- L_EAGAIN, Channel, s)
       else (rc, Channel\<lparr>ch_active := False\<rparr>, s))"

text \<open>The loop over the channels; a failure is remembered and the loop goes on.\<close>

fun write_channels ::
  "'v net \<Rightarrow> nf_message \<Rightarrow> nat \<Rightarrow> mwcomms_netflow_channel list \<Rightarrow> int \<Rightarrow> 'v netflow
     \<Rightarrow> int \<times> mwcomms_netflow_channel list \<times> 'v netflow" where
  "write_channels net Message Len [] rc s = (rc, [], s)"
| "write_channels net Message Len (ch # chs) rc s =
    (if ch_flags ch AND NETFLOW_CH_NO_MONITOR \<noteq> 0
     then let (rc, chs, s) = write_channels net Message Len chs rc s in (rc, ch # chs, s)
     else
       let (rc2, ch, s) = mw_netflow_write_one net ch Message Len s;
           (rc, chs, s) = write_channels net Message Len chs (if rc2 \<noteq> 0 then rc2 else rc) s
       in (rc, ch # chs, s))"

definition mw_netflow_write_all :: "'v net \<Rightarrow> nf_message \<Rightarrow> nat \<Rightarrow> 'v netflow \<Rightarrow> int \<times> 'v netflow" where
  "mw_netflow_write_all net Message Len s =
    (let (rc, chs, s) = write_channels net Message Len (conn_list s) 0 s in (rc, s\<lparr>conn_list := chs\<rparr>))"

text \<open>
  \<open>mw_netflow_write_msg\<close> with the formatted text. The length passed on is the length of the whole text, also
  when the buffer of 128 bytes holds only a part of it.
\<close>

definition mw_netflow_write_msg :: "'v net \<Rightarrow> string \<Rightarrow> 'v netflow \<Rightarrow> int \<times> 'v netflow" where
  "mw_netflow_write_msg net text s =
     mw_netflow_write_all net (NfBytes (map (\<lambda>c. of_nat (of_char c)) (snprintf 128 text))) (length text) s"

definition mw_netflow_consumer_exists :: "'v netflow \<Rightarrow> bool" where
  "mw_netflow_consumer_exists s \<longleftrightarrow> active_conns s > 0"

section \<open>Feature requests\<close>

text \<open>
  The value that \<open>mtres.val\<close> has after \<open>mwsocket_send_bare_request\<close> has copied the contents of the active request
  into it. When this is still the request (50 bytes), the member \<open>val\<close> of a response, from byte 42 on, lies
  over the second half of the \<open>val\<close> of the request and the zeros beyond its end.
\<close>

fun copied_val :: "rr \<Rightarrow> mt_sockfeat_arg" where
  "copied_val (RrRequest q) = \<lparr>feat_s = feat_us (attrib_rq_val q), feat_us = 0\<rparr>"
| "copied_val (RrResponse r) = attrib_rs_val r"

abbreviation "SIGINT \<equiv> (2::int)"

text \<open>The request that is sent to the INS for a feature.\<close>

definition feature_mtreq :: "mw_feature_request \<Rightarrow> mt_request_generic" where
  "feature_mtreq Request =
     (set_rq_sockfd (ident_sockfd (fq_ident Request)) (new_request MtRequestSocketAttrib MT_REQUEST_SOCKET_ATTRIB_SIZE))
       \<lparr>attrib_modify := of_bool (fq_flags Request AND MW_FEATURE_FLAG_WRITE \<noteq> 0), attrib_rq_name := fq_name Request,
        attrib_rq_val := fq_val Request\<rparr>"

definition is_sent_feature :: "u16 \<Rightarrow> bool" where
  "is_sent_feature nm \<longleftrightarrow> nm \<in> {MtSockAttribSndTimeo, MtSockAttribRcvTimeo, MtSockAttribSndBuf, MtSockAttribRcvBuf,
     MtSockAttribSndLoWat, MtSockAttribRcvLoWat, MtSockAttribGlobalCongctl, MtSockAttribGlobalDelackTicks}"

text \<open>The switch of \<open>mw_netflow_process_feat_req\<close>: the return code with the value of the response.\<close>

definition process_by_name ::
  "'w ker \<Rightarrow> mw_feature_request \<Rightarrow> mw_feature_response \<Rightarrow> 'w pvm \<Rightarrow> ((int \<times> mt_sockfeat_arg) \<times> 'w pvm) option" where
  "process_by_name ker Request Response p =
    (let nm = fq_name Request; modify = (fq_flags Request AND MW_FEATURE_FLAG_WRITE \<noteq> 0);
         true32 = (fs_val Response)\<lparr>feat_s := (feat_s (fs_val Response) AND push_bit 32 (-1)) OR 1\<rparr> in
     if nm = MtChannelTrafficMonitorOn \<or> nm = MtChannelTrafficMonitorOff then Some ((0, true32), p)
     else if nm = MtSockAttribOwnerRunning then
       if modify then do {
         (rc, p) \<leftarrow> mwsocket_signal_owner_by_remote_fd ker (ident_sockfd (fq_ident Request)) SIGINT p;
         Some ((rc, true32), p)
       } else Some ((0, true32), p)
     else if nm = MtSockAttribIsOpen then
       if modify then do {
         (rc, p) \<leftarrow> mwsocket_close_by_remote_fd ker (ident_sockfd (fq_ident Request)) True p;
         Some ((rc, true32), p)
       } else Some ((0, true32), p)
     else if is_sent_feature nm then do {
       ((rc, out), p) \<leftarrow> mwsocket_send_bare_request ker (feature_mtreq Request) (of_nat MT_RESPONSE_SOCKET_ATTRIB_SIZE) p;
       Some ((rc, if \<not> modify \<and> rc = 0 then (case out of Some o1 \<Rightarrow> copied_val o1 | None \<Rightarrow> fs_val Response)
                  else fs_val Response), p)
     }
     else if nm = MtSockAttribAddrBlock then do {
       (rc, p) \<leftarrow> mw_xen_for_each_live_ins (\<lambda>d. mwsocket_block_ip_mitigation ker d
                    (ucast (bswap64 (feat_s (fq_val Request))), ident_remote (fq_ident Request))) p;
       Some ((rc, fs_val Response), p)
     }
     else Some ((- EINVAL, fs_val Response), p))"

definition mw_netflow_process_feat_req ::
  "'w ker \<Rightarrow> mw_feature_request \<Rightarrow> mwcomms_netflow_channel \<Rightarrow> mw_feature_response \<Rightarrow> 'w pvm
     \<Rightarrow> ((int \<times> mwcomms_netflow_channel \<times> mw_feature_response) \<times> 'w pvm) option" where
  "mw_netflow_process_feat_req ker Request Channel Response p = do {
     let Channel = Channel\<lparr>ch_flags :=
           (if fq_name Request = MtChannelTrafficMonitorOn then ch_flags Channel AND NOT NETFLOW_CH_NO_MONITOR
            else if fq_name Request = MtChannelTrafficMonitorOff then ch_flags Channel OR NETFLOW_CH_NO_MONITOR
            else ch_flags Channel)\<rparr>;
     ((rc, v), p) \<leftarrow> process_by_name ker Request Response p;
     let Response = Response\<lparr>fs_val := v\<rparr>;
     let Response = (if rc \<noteq> 0 \<and> fs_status Response = 0 then Response\<lparr>fs_status := word_of_int rc\<rparr> else Response);
     Some ((rc, Channel, Response), p)
   }"

text \<open>The conversion of a request from network order, which leaves \<open>val\<close> as it is, and of a response to it.\<close>

definition req_to_host :: "mw_feature_request \<Rightarrow> mw_feature_request" where
  "req_to_host req =
    (let flags = bswap16 (fq_flags req)
     in req\<lparr>fq_sig := bswap16 (fq_sig req), fq_id := bswap32 (fq_id req), fq_flags := flags, fq_name := bswap16 (fq_name req),
            fq_ident := swap_ident (if flags AND MW_FEATURE_FLAG_BY_SOCK \<noteq> 0 then 8 else 4) (fq_ident req)\<rparr>)"

definition res_to_net :: "u32 \<Rightarrow> mw_feature_response \<Rightarrow> mw_feature_response" where
  "res_to_net rid res =
     \<lparr>fs_sig = bswap16 MW_MESSAGE_SIG_FEATURE_RESPONSE, fs_id = bswap32 rid, fs_status = bswap32 (fs_status res),
      fs_val = \<lparr>feat_s = bswap64 (feat_s (fs_val res)), feat_us = bswap64 (feat_us (fs_val res))\<rparr>\<rparr>"

text \<open>
  \<open>mw_netflow_handle_feat_req\<close>. The zeroed response is converted from network order, which does not change it. The result has the return
  code and the channel.
\<close>

partial_function (option) mw_netflow_handle_feat_req ::
  "'w ker \<Rightarrow> 'v net \<Rightarrow> mwcomms_netflow_channel \<Rightarrow> 'v netflow \<Rightarrow> 'w pvm \<Rightarrow> (int \<times> mwcomms_netflow_channel \<times> 'v netflow \<times> 'w pvm) option" where
  "mw_netflow_handle_feat_req ker net Channel s p =
    (case mw_netflow_read net Channel s of ((rc, sz, req), Channel, s) \<Rightarrow>
       if rc \<noteq> 0 \<or> sz \<noteq> sizeof_mw_feature_request then Some (rc, Channel, s, p)
       else
         (case mw_netflow_process_feat_req ker (req_to_host req) Channel fs_zero p of
            None \<Rightarrow> None
          | Some ((rc, Channel, res), p) \<Rightarrow>
              (case mw_netflow_write_one net Channel (NfFeature (res_to_net (fq_id (req_to_host req)) res)) sizeof_mw_feature_response s of
                 (rc, Channel, s) \<Rightarrow>
                   if rc \<noteq> 0 then Some (rc, Channel, s, p) else mw_netflow_handle_feat_req ker net Channel s p)))"

declare mw_netflow_handle_feat_req.simps [code]

section \<open>Connections\<close>

text \<open>A connection whose peer cannot be named is counted, but not added to the list.\<close>

definition mw_netflow_add_conn :: "'v net \<Rightarrow> nat \<Rightarrow> 'v netflow \<Rightarrow> int \<times> 'v netflow" where
  "mw_netflow_add_conn net AcceptedSock s =
    (let (r, s) = ndo net NAlloc s in
     if nr_ret r \<noteq> 0 then (- ENOMEM, s)
     else
       let s = s\<lparr>active_conns := active_conns s + 1, conn_ct := conn_ct s + 1\<rparr>;
           (r, s) = ndo net (NGetpeer AcceptedSock) s
       in if nr_ret r \<noteq> 0 then (nr_ret r, s)
          else
            let channel = \<lparr>ch_active = True, ch_peer = snprintf 64 (nr_text r), ch_id = conn_ct s, ch_flags = NETFLOW_CH_NONE,
                           ch_conn = AcceptedSock\<rparr>
            in (0, s\<lparr>conn_list := channel # conn_list s\<rparr>))"

text \<open>
  The key that the listening port is published under; the number is printed with \<open>%hu\<close>. A failure leaves the state as
  far as it got.
\<close>

definition mw_netflow_init_listen_port ::
  "'w ker \<Rightarrow> 'v net \<Rightarrow> 'v netflow \<Rightarrow> 'w pvm \<Rightarrow> int \<times> 'v netflow \<times> 'w pvm" where
  "mw_netflow_init_listen_port ker net s p =
    (let (r, s) = ndo net NSockCreate s in
     if nr_ret r \<noteq> 0 then (nr_ret r, s, p)
     else
       let s = s\<lparr>listen_sock := True\<rparr>; (r, s) = ndo net NGetPort s in
       if nr_ret r \<noteq> 0 then (- L_EAGAIN, s, p)
       else
         let port = nr_port r; s = s\<lparr>listen_port := port\<rparr>; (r, s) = ndo net NListen s in
         if nr_ret r \<noteq> 0 then (nr_ret r, s, p)
         else
           let (r, s) = ndo net NGetname s in
           if nr_ret r \<noteq> 0 then (nr_ret r, s, p)
           else
             let listenstr = snprintf 32 (if local_ip_family s \<noteq> 2 \<and> local_ip_family s \<noteq> 10 then ''PVM's IP not found!''
                                          else local_ip_text s @ '':'' @ fmt_u (unat port));
                 (r, s) = ndo net NSockFile s
             in if nr_ret r \<noteq> 0 then (- ENOMEM, s, p)
                else let (rc, p) = mw_xen_write_to_key ker XENEVENT_XENSTORE_PVM SERVER_NETFLOW_PORT_KEY listenstr p in (rc, s, p))"

abbreviation "L_POLLIN \<equiv> (0x1::u32)"
abbreviation "L_POLLHUP \<equiv> (0x10::u32)"
abbreviation "L_POLLRDHUP \<equiv> (0x2000::u32)"

text \<open>The two loops of a pass of \<open>mw_netflow_monitor\<close> over the connections.\<close>

fun poll_channels ::
  "'w ker \<Rightarrow> 'v net \<Rightarrow> mwcomms_netflow_channel list \<Rightarrow> 'v netflow \<Rightarrow> 'w pvm
     \<Rightarrow> (mwcomms_netflow_channel list \<times> 'v netflow \<times> 'w pvm) option" where
  "poll_channels ker net [] s p = Some ([], s, p)"
| "poll_channels ker net (ch # chs) s p = do {
     let (r, s) = ndo net (NPoll (ch_conn ch)) s;
     (ch, s, p) \<leftarrow> (if nr_events r AND (L_POLLHUP OR L_POLLRDHUP) \<noteq> 0 then Some (ch\<lparr>ch_active := False\<rparr>, s, p)
                    else if nr_events r AND L_POLLIN \<noteq> 0 then map_option snd (mw_netflow_handle_feat_req ker net ch s p)
                    else Some (ch, s, p));
     (chs, s, p) \<leftarrow> poll_channels ker net chs s p;
     Some (ch # chs, s, p)
   }"

fun purge_channels :: "'v net \<Rightarrow> mwcomms_netflow_channel list \<Rightarrow> 'v netflow \<Rightarrow> mwcomms_netflow_channel list \<times> 'v netflow" where
  "purge_channels net [] s = ([], s)"
| "purge_channels net (ch # chs) s =
    (if ch_active ch then let (chs, s) = purge_channels net chs s in (ch # chs, s)
     else
       let s = snd (ndo net (NShutdown (ch_conn ch)) s); s = snd (ndo net (NRelease (ch_conn ch)) s)
       in purge_channels net chs (s\<lparr>active_conns := active_conns s - 1\<rparr>))"

text \<open>One pass of the loop of \<open>mw_netflow_monitor\<close>; the result tells whether the thread ends. Nobody reads its return code.\<close>

definition mw_netflow_monitor_pass ::
  "'w ker \<Rightarrow> 'v net \<Rightarrow> 'v netflow \<Rightarrow> 'w pvm \<Rightarrow> (bool \<times> 'v netflow \<times> 'w pvm) option" where
  "mw_netflow_monitor_pass ker net s p =
    (if nf_exit_pending s then Some (True, s, p)
     else do {
       let (r, s) = ndo net NAccept s;
       let (rc, s) = (if nr_ret r = 0 then mw_netflow_add_conn net (nr_conn r) s
                      else (if nr_ret r = - L_EAGAIN then 0 else nr_ret r, s));
       if rc \<noteq> 0 then Some (True, s, p)
       else do {
         (chs, s, p) \<leftarrow> poll_channels ker net (conn_list s) s p;
         let (chs, s) = purge_channels net chs s;
         let s = snd (ndo net NSleep (s\<lparr>conn_list := chs\<rparr>));
         Some (False, s, p)
       }
     })"

section \<open>Start and end\<close>

definition mw_netflow_fini :: "'v net \<Rightarrow> 'v netflow \<Rightarrow> 'v netflow" where
  "mw_netflow_fini net s =
    (if \<not> nf_initialized s then s
     else
       let s = s\<lparr>nf_exit_pending := True\<rparr>;
           s = (if listen_thread s then snd (ndo net NWaitThread s) else s);
           s = fold (\<lambda>ch s. if ch_active ch then snd (ndo net (NRelease (ch_conn ch)) s) else s) (conn_list s) s;
           s = s\<lparr>conn_list := []\<rparr>
       in if listen_port s \<noteq> 0 then (snd (ndo net NReleaseListener s))\<lparr>listen_sock := False\<rparr> else s)"

definition mw_netflow_init :: "'w ker \<Rightarrow> 'v net \<Rightarrow> u16 \<Rightarrow> string \<Rightarrow> 'v netflow \<Rightarrow> 'w pvm \<Rightarrow> int \<times> 'v netflow \<times> 'w pvm" where
  "mw_netflow_init ker net fam ip_text s p =
    (let s = \<lparr>nf_initialized = True, conn_list = [], active_conns = 0, conn_ct = 0, local_ip_family = fam, local_ip_text = ip_text,
              listen_port = 0, listen_sock = False, nf_exit_pending = False, listen_thread = False,
              nworld = nworld s, ntrace = ntrace s\<rparr>;
         (r, s) = ndo net NLookup s
     in if nr_ret r \<noteq> 0 then (- ENXIO, mw_netflow_fini net s, p)
        else
          let (rc, s, p) = mw_netflow_init_listen_port ker net s p in
          if rc \<noteq> 0 then (rc, mw_netflow_fini net s, p)
          else
            let (r, s) = ndo net NThread s in
            if nr_ret r \<noteq> 0 then (- 3, mw_netflow_fini net s, p)
            else (0, s\<lparr>listen_thread := True\<rparr>, p))"

end
