(* ===== verification/NetflowProps.thy ===== *)
theory NetflowProps
  imports Netflow PvmInv
begin

text \<open>
  Properties of the netflow channel: byte order, one response for each feature request, and the count of connections.
\<close>

section \<open>Byte order\<close>

lemma bswap16_twice [simp]: "bswap16 (bswap16 w) = w"
  by (rule bit_word_eqI) (auto simp: bswap16_def bit_simps)

lemma bswap32_twice [simp]: "bswap32 (bswap32 w) = w"
proof -
  have lo: "(ucast (bswap32 w) :: u16) = bswap16 (ucast (drop_bit 16 w))"
    by (rule bit_word_eqI) (auto simp: bswap32_def bit_simps)
  have hi: "(ucast (drop_bit 16 (bswap32 w)) :: u16) = bswap16 (ucast w)"
    by (rule bit_word_eqI) (auto simp: bswap32_def bit_simps dest: bit_imp_le_length)
  have "bswap32 (bswap32 w) = push_bit 16 (ucast (ucast (drop_bit 16 w) :: u16)) OR ucast (ucast w :: u16)"
    unfolding bswap32_def [of "bswap32 w"] lo hi by simp
  also have "\<dots> = w" by (rule bit_word_eqI) (auto simp: bit_simps)
  finally show ?thesis .
qed

section \<open>Requests and responses\<close>

text \<open>The complete requests that were received, and the responses that were written, in the order of the calls.\<close>

fun request_of :: "ncall \<times> nret \<Rightarrow> mw_feature_request list" where
  "request_of (NRecv c, r) = (if nr_ret r = int sizeof_mw_feature_request then [nr_request r] else [])"
| "request_of _ = []"

fun response_of :: "ncall \<times> nret \<Rightarrow> mw_feature_response list" where
  "response_of (NSend c (NfFeature m) n, r) = [m]"
| "response_of _ = []"

definition requests_in :: "(ncall \<times> nret) list \<Rightarrow> mw_feature_request list" where
  "requests_in tr = concat (map request_of tr)"

definition responses_in :: "(ncall \<times> nret) list \<Rightarrow> mw_feature_response list" where
  "responses_in tr = concat (map response_of tr)"

lemma in_simps [simp]:
  "requests_in [] = []" "requests_in (e # tr) = request_of e @ requests_in tr" "requests_in (tr @ tr') = requests_in tr @ requests_in tr'"
  "responses_in [] = []" "responses_in (e # tr) = response_of e @ responses_in tr" "responses_in (tr @ tr') = responses_in tr @ responses_in tr'"
  by (simp_all add: requests_in_def responses_in_def)

definition answers_feature :: "mw_feature_request \<Rightarrow> mw_feature_response \<Rightarrow> bool" where
  "answers_feature q m \<longleftrightarrow> fs_id m = fq_id q \<and> fs_sig m = bswap16 MW_MESSAGE_SIG_FEATURE_RESPONSE"

lemma answers_res_to_net: "answers_feature q (res_to_net (fq_id (req_to_host q)) res)"
  by (simp add: answers_feature_def res_to_net_def req_to_host_def Let_def)

text \<open>
  A network in which kernel buffers can be imported and requests come from \<open>Q\<close> and are finitely many: \<open>pend\<close> bounds those
  that are still to come.
\<close>

definition net_queue :: "'v net \<Rightarrow> ('v \<Rightarrow> nat) \<Rightarrow> mw_feature_request set \<Rightarrow> bool" where
  "net_queue net pend Q \<longleftrightarrow> (\<forall>w. nr_ret (fst (net NImport w)) = 0 \<and> pend (snd (net NImport w)) \<le> pend w)
     \<and> (\<forall>c m n w. pend (snd (net (NSend c m n) w)) \<le> pend w)
     \<and> (\<forall>c w. nr_ret (fst (net (NRecv c) w)) = int sizeof_mw_feature_request
           \<longrightarrow> nr_request (fst (net (NRecv c) w)) \<in> Q \<and> pend (snd (net (NRecv c) w)) < pend w)"

text \<open>The socket layer, in the states \<open>P\<close>, returns from each of the requests \<open>Q\<close> and stays in these states.\<close>

definition pvm_handles :: "'w ker \<Rightarrow> ('w pvm \<Rightarrow> bool) \<Rightarrow> mw_feature_request set \<Rightarrow> bool" where
  "pvm_handles ker P Q \<longleftrightarrow> (\<forall>q \<in> Q. \<forall>ch p. P p \<longrightarrow>
     (\<exists>r p'. mw_netflow_process_feat_req ker (req_to_host q) ch fs_zero p = Some (r, p') \<and> P p'))"

lemma ndo_sel: "ndo net c s = (fst (net c (nworld s)), s\<lparr>nworld := snd (net c (nworld s)), ntrace := ntrace s @ [(c, fst (net c (nworld s)))]\<rparr>)"
  by (simp add: ndo_def split_beta)

lemma read_queue:
  assumes "net_queue net pend Q" and "mw_netflow_read net ch s = ((rc, sz, req), ch', t)"
  obtains tr where "ntrace t = ntrace s @ tr" "responses_in tr = []" "pend (nworld t) \<le> pend (nworld s) \<or> rc \<noteq> 0 \<or> sz \<noteq> sizeof_mw_feature_request"
    "rc = 0 \<and> sz = sizeof_mw_feature_request \<Longrightarrow> requests_in tr = [req] \<and> req \<in> Q \<and> pend (nworld t) < pend (nworld s)"
    "\<not> (rc = 0 \<and> sz = sizeof_mw_feature_request) \<Longrightarrow> requests_in tr = []"
proof -
  let ?w = "snd (net NImport (nworld s))" and ?r = "fst (net (NRecv (ch_conn ch)) (snd (net NImport (nworld s))))"
  let ?tr = "[(NImport, fst (net NImport (nworld s))), (NRecv (ch_conn ch), ?r)]"
  have imp: "nr_ret (fst (net NImport (nworld s))) = 0" "pend ?w \<le> pend (nworld s)" using assms(1) by (simp_all add: net_queue_def)
  have recv: "nr_ret ?r = int sizeof_mw_feature_request \<Longrightarrow> nr_request ?r \<in> Q \<and> pend (snd (net (NRecv (ch_conn ch)) ?w)) < pend ?w"
    using assms(1) by (simp add: net_queue_def)
  have t: "nworld t = snd (net (NRecv (ch_conn ch)) ?w)" "ntrace t = ntrace s @ ?tr" and req: "req = nr_request ?r"
    and res: "rc = 0 \<and> sz = sizeof_mw_feature_request \<longleftrightarrow> nr_ret ?r = int sizeof_mw_feature_request"
    using assms(2) imp(1) by (auto simp: mw_netflow_read_def ndo_sel Let_def sizes split: if_splits)
  show thesis
    by (rule that [OF t(2)]) (use imp(2) recv res req t(1) in auto)
qed

lemma write_queue:
  assumes "net_queue net pend Q" and "mw_netflow_write_one net ch (NfFeature m) n s = (rc, ch', t)"
  obtains tr where "ntrace t = ntrace s @ tr" "requests_in tr = []" "responses_in tr = [m]" "pend (nworld t) \<le> pend (nworld s)"
proof -
  let ?w = "snd (net NImport (nworld s))"
  have imp: "nr_ret (fst (net NImport (nworld s))) = 0" "pend ?w \<le> pend (nworld s)"
    "pend (snd (net (NSend (ch_conn ch) (NfFeature m) n) ?w)) \<le> pend ?w" using assms(1) by (simp_all add: net_queue_def)
  show thesis
    by (rule that [of "[(NImport, fst (net NImport (nworld s))), (NSend (ch_conn ch) (NfFeature m) n, fst (net (NSend (ch_conn ch) (NfFeature m) n) ?w))]"])
      (use assms(2) imp in \<open>auto simp: mw_netflow_write_one_def ndo_sel Let_def split: if_splits\<close>)
qed

text \<open>
  C35 (functional): on a channel whose requests are finitely many, and with a socket layer that returns from them, the handling of feature requests
  ends, and it has answered every complete request exactly once: the responses written are, in order, responses to the requests received,
  with the signature of a response and the id of the request, as they are on the network.
\<close>

theorem feature_requests_answered:
  assumes "net_queue net pend Q" and "pvm_handles ker P Q" and "P p"
  shows "\<exists>rc ch' t p' tr. mw_netflow_handle_feat_req ker net ch s p = Some (rc, ch', t, p') \<and> P p' \<and> ntrace t = ntrace s @ tr
    \<and> list_all2 answers_feature (requests_in tr) (responses_in tr)"
  using assms(3)
proof (induction "pend (nworld s)" arbitrary: ch s p rule: less_induct)
  case less
  obtain rc sz req ch1 s1 where rd: "mw_netflow_read net ch s = ((rc, sz, req), ch1, s1)" by (cases "mw_netflow_read net ch s") auto
  obtain tr1 where tr1: "ntrace s1 = ntrace s @ tr1" "responses_in tr1 = []"
    "rc = 0 \<and> sz = sizeof_mw_feature_request \<Longrightarrow> requests_in tr1 = [req] \<and> req \<in> Q \<and> pend (nworld s1) < pend (nworld s)"
    "\<not> (rc = 0 \<and> sz = sizeof_mw_feature_request) \<Longrightarrow> requests_in tr1 = []"
    using read_queue [OF assms(1) rd] by metis
  show ?case
  proof (cases "rc = 0 \<and> sz = sizeof_mw_feature_request")
    case False
    then show ?thesis using rd tr1 less.prems by (subst mw_netflow_handle_feat_req.simps) auto
  next
    case True
    note req = tr1(3) [OF True]
    obtain rc2 ch2 res p2 where pr: "mw_netflow_process_feat_req ker (req_to_host req) ch1 fs_zero p = Some ((rc2, ch2, res), p2)" "P p2"
      using assms(2) req less.prems unfolding pvm_handles_def by (metis prod_cases3)
    let ?m = "res_to_net (fq_id (req_to_host req)) res"
    obtain rc3 ch3 s3 where wr: "mw_netflow_write_one net ch2 (NfFeature ?m) sizeof_mw_feature_response s1 = (rc3, ch3, s3)" by (metis prod_cases3)
    obtain tr3 where tr3: "ntrace s3 = ntrace s1 @ tr3" "requests_in tr3 = []" "responses_in tr3 = [?m]" "pend (nworld s3) \<le> pend (nworld s1)"
      by (rule write_queue [OF assms(1) wr])
    have both: "list_all2 answers_feature (requests_in (tr1 @ tr3)) (responses_in (tr1 @ tr3))" "ntrace s3 = ntrace s @ tr1 @ tr3"
      using tr1 tr3 req answers_res_to_net by simp_all
    have step: "mw_netflow_handle_feat_req ker net ch s p
        = (if rc3 \<noteq> 0 then Some (rc3, ch3, s3, p2) else mw_netflow_handle_feat_req ker net ch3 s3 p2)"
      using rd True pr(1) wr by (subst mw_netflow_handle_feat_req.simps) simp
    show ?thesis
    proof (cases "rc3 = 0")
      case False
      then show ?thesis using step pr(2) both by auto
    next
      case True
      obtain rc' ch' t p' tr where "mw_netflow_handle_feat_req ker net ch3 s3 p2 = Some (rc', ch', t, p')" "P p'" "ntrace t = ntrace s3 @ tr"
        "list_all2 answers_feature (requests_in tr) (responses_in tr)"
        using less.hyps [OF _ pr(2), of s3 ch3] req tr3(4) by auto
      then show ?thesis using step True both
        by (intro exI [of _ rc'] exI [of _ ch'] exI [of _ t] exI [of _ p'] exI [of _ "(tr1 @ tr3) @ tr"]) (simp add: req tr1(2) tr3(2,3) answers_res_to_net)
    qed
  qed
qed

section \<open>The count of connections\<close>

text \<open>
  As long as the monitor thread runs, \<open>active_conns\<close> is the number of listed connections, so \<open>mw_netflow_consumer_exists\<close> tells whether there is one.
  A connection that cannot be named ends the thread, and the count stays one too high.
\<close>

definition conns_counted :: "'v netflow \<Rightarrow> bool" where
  "conns_counted s \<longleftrightarrow> active_conns s = int (length (conn_list s))"

lemma ndo_keeps [simp]:
  "active_conns (snd (ndo net c s)) = active_conns s" "conn_list (snd (ndo net c s)) = conn_list s"
  by (simp_all add: ndo_sel)

lemma netflow_read_keeps: "mw_netflow_read net ch s = (r, ch', t) \<Longrightarrow> active_conns t = active_conns s"
  by (auto simp: mw_netflow_read_def ndo_sel Let_def split: if_splits)

lemma write_one_keeps: "mw_netflow_write_one net ch m n s = (rc, ch', t) \<Longrightarrow> active_conns t = active_conns s"
  by (auto simp: mw_netflow_write_one_def ndo_sel Let_def split: if_splits)

lemma handle_feat_req_keeps:
  assumes ret: "mw_netflow_handle_feat_req ker net ch s p = Some y"
  shows "active_conns (fst (snd (snd y))) = active_conns s"
  by (rule mw_netflow_handle_feat_req.raw_induct [where P = "\<lambda>ker net ch s p y. active_conns (fst (snd (snd y))) = active_conns s", OF _ ret])
    (auto split: prod.split_asm if_split_asm option.split_asm dest!: netflow_read_keeps write_one_keeps)

lemma poll_channels_keeps:
  "poll_channels ker net chs s p = Some (chs', t, p') \<Longrightarrow> length chs' = length chs \<and> active_conns t = active_conns s"
  by (induction chs arbitrary: s p chs')
     (auto simp: ndo_sel Let_def split: Option.bind_splits if_splits dest!: handle_feat_req_keeps)

lemma purge_channels_counts:
  "purge_channels net chs s = (chs', t) \<Longrightarrow> active_conns t - int (length chs') = active_conns s - int (length chs)"
  by (induction net chs s arbitrary: chs' t rule: purge_channels.induct) (auto simp: Let_def split: if_splits prod.splits)

lemma add_conn_counts:
  assumes "mw_netflow_add_conn net c s = (0, t)" and "conns_counted s"
  shows "conns_counted t"
  using assms by (auto simp: mw_netflow_add_conn_def conns_counted_def ndo_sel Let_def split: if_splits)

lemma monitor_pass_counts:
  assumes "mw_netflow_monitor_pass ker net s p = Some (False, t, p')" and "conns_counted s"
  shows "conns_counted t" and "mw_netflow_consumer_exists t \<longleftrightarrow> conn_list t \<noteq> []"
proof -
  obtain r s0 where acc: "ndo net NAccept s = (r, s0)" by fastforce
  obtain rc s1 where add: "(if nr_ret r = 0 then mw_netflow_add_conn net (nr_conn r) s0
    else (if nr_ret r = - L_EAGAIN then 0 else nr_ret r, s0)) = (rc, s1)" by fastforce
  have "conns_counted s0" using assms(2) ndo_keeps [of net NAccept s] acc by (simp add: conns_counted_def)
  then have s1: "rc = 0 \<Longrightarrow> conns_counted s1" using add add_conn_counts by (auto split: if_splits)
  have rc: "rc = 0" using assms(1) acc add by (auto simp: mw_netflow_monitor_pass_def split: if_splits)
  obtain chs1 s2 p2 chs2 s3 where poll: "poll_channels ker net (conn_list s1) s1 p = Some (chs1, s2, p2)"
    and purge: "purge_channels net chs1 s2 = (chs2, s3)" and t: "t = snd (ndo net NSleep (s3\<lparr>conn_list := chs2\<rparr>))"
    using assms(1) acc add rc by (auto simp: mw_netflow_monitor_pass_def Let_def split: if_splits Option.bind_splits prod.splits)
  show counted: "conns_counted t"
    using s1 [OF rc] poll_channels_keeps [OF poll] purge_channels_counts [OF purge] t by (auto simp: conns_counted_def)
  show "mw_netflow_consumer_exists t \<longleftrightarrow> conn_list t \<noteq> []"
    using counted by (auto simp: conns_counted_def mw_netflow_consumer_exists_def)
qed

section \<open>An example\<close>

text \<open>A channel with \<open>n\<close> requests to stop the monitoring, each with its number as id; the state of the network is \<open>n\<close>.\<close>

definition stop_request :: "nat \<Rightarrow> mw_feature_request" where
  "stop_request n = \<lparr>fq_sig = bswap16 (MW_SIG 0x20), fq_id = of_nat n, fq_flags = 0, fq_name = bswap16 MtChannelTrafficMonitorOff,
     fq_val = \<lparr>feat_s = 0, feat_us = 0\<rparr>, fq_ident = replicate 20 0\<rparr>"

definition nret_of :: "int \<Rightarrow> mw_feature_request \<Rightarrow> nret" where
  "nret_of rc q = \<lparr>nr_ret = rc, nr_request = q, nr_conn = 0, nr_events = 0, nr_port = 0, nr_text = ''''\<rparr>"

definition net_demo :: "nat net" where
  "net_demo c n = (case c of
       NRecv x \<Rightarrow> if n = 0 then (nret_of (- L_EAGAIN) (stop_request 0), 0) else (nret_of 46 (stop_request n), n - 1)
     | NSend x m k \<Rightarrow> (nret_of (int k) (stop_request 0), n)
     | _ \<Rightarrow> (nret_of 0 (stop_request 0), n))"

lemma net_demo_queue: "net_queue net_demo id (range stop_request)"
  by (simp add: net_queue_def net_demo_def nret_of_def sizes)

lemma stop_handled: "pvm_handles ker (\<lambda>p. True) (range stop_request)"
  by (auto simp: pvm_handles_def mw_netflow_process_feat_req_def process_by_name_def req_to_host_def stop_request_def Let_def)

definition netflow_demo :: "nat \<Rightarrow> nat netflow" where
  "netflow_demo n = \<lparr>nf_initialized = True, conn_list = [], active_conns = 1, conn_ct = 1, local_ip_family = 2, local_ip_text = ''10.0.0.1'',
     listen_port = 4000, listen_sock = True, nf_exit_pending = False, listen_thread = True, nworld = n, ntrace = []\<rparr>"

definition ch_demo :: mwcomms_netflow_channel where
  "ch_demo = \<lparr>ch_active = True, ch_peer = ''10.0.0.2:5000'', ch_id = 1, ch_flags = 0, ch_conn = 1\<rparr>"

lemma demo_responses:
  "map_option (\<lambda>(rc, ch, t, p). (ch_flags ch, map fs_id (responses_in (ntrace t))))
     (mw_netflow_handle_feat_req ker_demo net_demo ch_demo (netflow_demo 2) (pvm_demo ())) = Some (1, [2, 1])"
  by code_simp

theorem feature_requests_answered_witness:
  "\<exists>rc ch t p'. mw_netflow_handle_feat_req ker_demo net_demo ch_demo (netflow_demo 2) (pvm_demo ()) = Some (rc, ch, t, p')
     \<and> list_all2 answers_feature (requests_in (ntrace t)) (responses_in (ntrace t)) \<and> map fs_id (responses_in (ntrace t)) = [2, 1]"
  using feature_requests_answered [OF net_demo_queue stop_handled TrueI, of ker_demo ch_demo "netflow_demo 2" "pvm_demo ()"] demo_responses
  by (auto simp: netflow_demo_def)

end
