(* ===== verification/NetflowInfo.thy ===== *)
theory NetflowInfo
  imports NetflowProps
begin

text \<open>
  The notifications of the netflow channel (\<open>mwsocket_populate_netflow_ip\<close>, \<open>mwsocket_populate_netflow\<close> and
  \<open>mwsocket_postproc_emit_netflow\<close> of mwcomms-socket.c): which response is reported to the connected engines and with what
  content, and that an engine cannot use the descriptor in a notification to request a feature of its socket.
\<close>

section \<open>Content of a notification\<close>

definition MW_MESSAGE_SIG_NETFLOW_INFO :: u16 where [mw_consts]: "MW_MESSAGE_SIG_NETFLOW_INFO = MW_SIG 0x10"

definition sizeof_mw_netflow_info :: nat where [sizes]:
  "sizeof_mw_netflow_info = sum_list [6, 2, 16, 16, 8, 22, 22, 8, 8, 8]"

datatype mw_observation =
    MwObservationNone
  | MwObservationCreate
  | MwObservationBind
  | MwObservationAccept
  | MwObservationConnect
  | MwObservationRecv
  | MwObservationSend
  | MwObservationClose

primrec mw_observation_code :: "mw_observation \<Rightarrow> u16" where
  "mw_observation_code MwObservationNone = 0"
| "mw_observation_code MwObservationCreate = 1"
| "mw_observation_code MwObservationBind = 2"
| "mw_observation_code MwObservationAccept = 3"
| "mw_observation_code MwObservationConnect = 4"
| "mw_observation_code MwObservationRecv = 5"
| "mw_observation_code MwObservationSend = 6"
| "mw_observation_code MwObservationClose = 7"

text \<open>
  A \<open>struct sockaddr\<close>: its family and its 14 bytes of data, and the members of a socket instance that only notifications
  use. \<open>sin_port\<close> are the first two bytes of the data, \<open>sin_addr\<close> the next four.
\<close>

record k_sockaddr =
  ks_family :: u16
  ks_data :: "u8 list"

record mwsocket_session =
  ss_est_sec :: u64
  ss_est_ns :: u64
  ss_local_bind :: k_sockaddr
  ss_peer :: k_sockaddr

definition ks_port :: "k_sockaddr \<Rightarrow> u16" where
  "ks_port sa = ucast (ks_data sa ! 0) OR push_bit 8 (ucast (ks_data sa ! 1))"

definition ep_zero :: mw_endpoint where
  "ep_zero = \<lparr>ep_af = 0, ep_a = replicate 16 0, ep_port = 0\<rparr>"

text \<open>An IPv6 address does not fit into a \<open>struct sockaddr\<close>; reading it is undefined.\<close>

definition mwsocket_populate_netflow_ip :: "k_sockaddr \<Rightarrow> mw_endpoint \<Rightarrow> mw_endpoint option" where
  "mwsocket_populate_netflow_ip SockAddr Endpoint =
    (if ks_family SockAddr = 2
     then Some \<lparr>ep_af = bswap32 4, ep_a = take 4 (drop 2 (ks_data SockAddr)) @ drop 4 (ep_a Endpoint), ep_port = ks_port SockAddr\<rparr>
     else if ks_family SockAddr = 10 then None
     else Some ep_zero)"

text \<open>The descriptor is converted with the function for 32 bits. \<open>ts\<close> is the current time.\<close>

definition mwsocket_populate_netflow ::
  "u64 \<times> u64 \<Rightarrow> mwsocket_session \<Rightarrow> mwsocket_instance \<Rightarrow> mw_netflow_info \<Rightarrow> mw_netflow_info option" where
  "mwsocket_populate_netflow ts ss sockinst Netflow = do {
     pvm \<leftarrow> mwsocket_populate_netflow_ip (ss_local_bind ss) (ni_pvm Netflow);
     remote \<leftarrow> mwsocket_populate_netflow_ip (ss_peer ss) (ni_remote Netflow);
     Some (Netflow\<lparr>ni_sig := bswap16 MW_MESSAGE_SIG_NETFLOW_INFO,
       ni_session_sec := bswap64 (ss_est_sec ss), ni_session_ns := bswap64 (ss_est_ns ss),
       ni_curr_sec := bswap64 (fst ts), ni_curr_ns := bswap64 (snd ts),
       ni_sockfd := ucast (bswap32 (ucast (si_remote_fd sockinst))), ni_pvm := pvm, ni_remote := remote,
       ni_bytes_in := bswap64 (si_tot_recv sockinst), ni_bytes_out := bswap64 (si_tot_sent sockinst)\<rparr>)
   }"

definition observation :: "mt_response_generic \<Rightarrow> mw_observation option" where
  "observation Response =
    (if rs_type_is MtRequestSocketCreate Response then Some MwObservationCreate
     else if rs_type_is MtRequestSocketClose Response then Some MwObservationClose
     else if rs_type_is MtRequestSocketConnect Response then Some MwObservationConnect
     else if rs_type_is MtRequestSocketBind Response then Some MwObservationBind
     else if rs_type_is MtRequestSocketAccept Response then Some MwObservationAccept
     else if rs_type_is MtRequestSocketSend Response then Some MwObservationSend
     else if rs_type_is MtRequestSocketRecv Response \<or> rs_type_is MtRequestSocketRecvFrom Response then Some MwObservationRecv
     else None)"

definition ni_zero :: mw_netflow_info where
  "ni_zero = \<lparr>ni_sig = 0, ni_id = 0, ni_obs = 0, ni_session_sec = 0, ni_session_ns = 0, ni_curr_sec = 0, ni_curr_ns = 0,
     ni_sockfd = 0, ni_pvm = ep_zero, ni_remote = ep_zero, ni_bytes_in = 0, ni_bytes_out = 0, ni_extra = 0\<rparr>"

text \<open>The bytes of a 64-bit word in memory.\<close>

definition mem_bytes64 :: "u64 \<Rightarrow> u8 list" where
  "mem_bytes64 w = map (\<lambda>k. ucast (drop_bit (8 * k) w)) [0..<8]"

text \<open>The remote endpoint of an accept is that in the response; its address has 8 bytes there.\<close>

definition accept_endpoint :: "mt_response_generic \<Rightarrow> mw_endpoint \<Rightarrow> mw_endpoint" where
  "accept_endpoint Response ep =
     \<lparr>ep_af = bswap32 4, ep_a = mem_bytes64 (sin_addr (accept_sockaddr Response)) @ drop 8 (ep_a ep),
      ep_port = sin_port (accept_sockaddr Response)\<rparr>"

definition mwsocket_postproc_emit_netflow ::
  "'v net \<Rightarrow> u64 \<times> u64 \<Rightarrow> mwsocket_session \<Rightarrow> mwsocket_instance \<Rightarrow> mt_response_generic \<Rightarrow> 'v netflow \<Rightarrow> 'v netflow option" where
  "mwsocket_postproc_emit_netflow net ts ss sockinst Response s =
    (if \<not> mw_netflow_consumer_exists s then Some s
     else case observation Response of
       None \<Rightarrow> Some s
     | Some obs \<Rightarrow> do {
         let nf = ni_zero\<lparr>ni_obs := bswap16 (mw_observation_code obs), ni_extra := bswap64 (rs_sockfd (rs_base Response))\<rparr>;
         nf \<leftarrow> mwsocket_populate_netflow ts ss sockinst nf;
         let nf = (if rs_type_is MtRequestSocketAccept Response then nf\<lparr>ni_remote := accept_endpoint Response (ni_remote nf)\<rparr> else nf);
         Some (snd (mw_netflow_write_all net (NfInfo nf) sizeof_mw_netflow_info s))
       })"

section \<open>Who is notified\<close>

fun info_of :: "ncall \<times> nret \<Rightarrow> (nat \<times> mw_netflow_info) list" where
  "info_of (NSend c (NfInfo m) n, r) = [(c, m)]"
| "info_of _ = []"

definition infos_in :: "(ncall \<times> nret) list \<Rightarrow> (nat \<times> mw_netflow_info) list" where
  "infos_in tr = concat (map info_of tr)"

definition monitored :: "mwcomms_netflow_channel \<Rightarrow> bool" where
  "monitored ch \<longleftrightarrow> ch_flags ch AND NETFLOW_CH_NO_MONITOR = 0"

text \<open>The kernel can always set up the buffer of a message.\<close>

definition import_ok :: "'v net \<Rightarrow> bool" where
  "import_ok net \<longleftrightarrow> (\<forall>w. nr_ret (fst (net NImport w)) = 0)"

lemma write_one_infos:
  assumes "import_ok net" and "mw_netflow_write_one net ch (NfInfo m) n s = (rc, ch', t)"
  shows "infos_in (ntrace t) = infos_in (ntrace s) @ [(ch_conn ch, m)]"
  using assms by (auto simp: import_ok_def mw_netflow_write_one_def ndo_sel Let_def infos_in_def split: if_splits)

lemma write_channels_infos:
  assumes "import_ok net"
  shows "write_channels net (NfInfo m) n chs rc s = (rc', chs', t)
    \<Longrightarrow> infos_in (ntrace t) = infos_in (ntrace s) @ map (\<lambda>ch. (ch_conn ch, m)) (filter monitored chs)"
  by (induction chs arbitrary: rc s chs')
     (auto simp: monitored_def Let_def split: if_splits prod.splits dest!: write_one_infos [OF assms])

lemma emit_notifies:
  assumes "import_ok net" and "mw_netflow_consumer_exists s" and "observation rsp = Some ob"
    and "ks_family (ss_local_bind ss) = 2" and "ks_family (ss_peer ss) = 2"
  obtains m t where "mwsocket_postproc_emit_netflow net ts ss i rsp s = Some t"
    "infos_in (ntrace t) = infos_in (ntrace s) @ map (\<lambda>ch. (ch_conn ch, m)) (filter monitored (conn_list s))"
    "ni_obs m = bswap16 (mw_observation_code ob)" "ni_sockfd m = ucast (bswap32 (ucast (si_remote_fd i)))"
    "ni_bytes_in m = bswap64 (si_tot_recv i)" "ni_bytes_out m = bswap64 (si_tot_sent i)"
proof -
  let ?nf = "ni_zero\<lparr>ni_obs := bswap16 (mw_observation_code ob), ni_extra := bswap64 (rs_sockfd (rs_base rsp))\<rparr>"
  obtain nf where nf: "mwsocket_populate_netflow ts ss i ?nf = Some nf"
    "ni_obs nf = bswap16 (mw_observation_code ob)" "ni_sockfd nf = ucast (bswap32 (ucast (si_remote_fd i)))"
    "ni_bytes_in nf = bswap64 (si_tot_recv i)" "ni_bytes_out nf = bswap64 (si_tot_sent i)"
    using assms(4,5) by (simp add: mwsocket_populate_netflow_def mwsocket_populate_netflow_ip_def)
  define m where "m = (if rs_type_is MtRequestSocketAccept rsp then nf\<lparr>ni_remote := accept_endpoint rsp (ni_remote nf)\<rparr> else nf)"
  obtain rc chs u where w: "write_channels net (NfInfo m) sizeof_mw_netflow_info (conn_list s) 0 s = (rc, chs, u)" by (metis prod_cases3)
  have "mwsocket_postproc_emit_netflow net ts ss i rsp s = Some (u\<lparr>conn_list := chs\<rparr>)"
    using assms(2,3) nf(1) w by (simp add: mwsocket_postproc_emit_netflow_def mw_netflow_write_all_def flip: m_def)
  from that [OF this, of m] write_channels_infos [OF assms(1) w] nf show thesis by (simp add: m_def)
qed

section \<open>The descriptor in a notification\<close>

text \<open>An engine that asks to close the socket of a notification: it sends the descriptor as it has received it.\<close>

definition close_request :: "u32 \<Rightarrow> mw_netflow_info \<Rightarrow> mw_feature_request" where
  "close_request rid m = \<lparr>fq_sig = bswap16 (MW_SIG 0x20), fq_id = rid, fq_flags = bswap16 (MW_FEATURE_FLAG_WRITE OR MW_FEATURE_FLAG_BY_SOCK),
     fq_name = bswap16 MtSockAttribIsOpen, fq_val = \<lparr>feat_s = 0, feat_us = 0\<rparr>, fq_ident = mem_bytes64 (ni_sockfd m) @ replicate 12 0\<rparr>"

text \<open>The descriptors of the sockets of the PVM are unset or made by an INS.\<close>

definition fds_ok :: "'w pvm \<Rightarrow> bool" where
  "fds_ok p \<longleftrightarrow> list_all (\<lambda>x. \<exists>i. si_heap p x = Some i \<and> (si_remote_fd i = MT_INVALID_SOCKET_FD \<or> MW_SOCKET_IS_FD (si_remote_fd i)))
     (sockinst_list p)"

lemma ident_notified:
  "ident_sockfd (swap_ident 8 (mem_bytes64 (ucast (bswap32 x)) @ bs)) = push_bit 32 (ucast x)"
proof -
  have "list_all (\<lambda>n. bit (ident_sockfd (swap_ident 8 (mem_bytes64 (ucast (bswap32 x)) @ bs))) n \<longleftrightarrow> bit (push_bit 32 (ucast x) :: u64) n) [0..<64]"
    by (simp add: upt_rec ident_sockfd_def swap_ident_def mem_bytes64_def bswap32_def bswap16_def bit_simps) (simp add: numeral_eq_Suc)
  then show ?thesis by (intro bit_word_eqI) (simp add: list_all_iff)
qed

lemma not_fd_notified:
  assumes "0 \<le> n" and "n < 2 ^ 24"
  shows "\<not> MW_SOCKET_IS_FD (push_bit 32 (ucast (ucast (MW_SOCKET_CREATE c n) :: u32)))"
    and "push_bit 32 (ucast (ucast (MW_SOCKET_CREATE c n) :: u32)) \<noteq> MT_INVALID_SOCKET_FD"
proof -
  let ?w = "push_bit 32 (ucast (ucast (MW_SOCKET_CREATE c n) :: u32)) :: u64"
  have n: "n = take_bit 24 n" using assms by (simp add: take_bit_int_eq_self)
  have "\<not> bit n 24" by (subst n) (simp add: bit_take_bit_iff)
  then have "\<not> bit ?w 56" by (simp add: bit_simps create_bit)
  moreover have "bit (MW_SOCKET_PREFIX :: u64) 0" by (simp add: MW_SOCKET_PREFIX_def)
  ultimately show "\<not> MW_SOCKET_IS_FD ?w" by (auto simp: MW_SOCKET_IS_FD_def MW_SOCKET_PREFIX_SHIFT_def bit_drop_bit_eq dest!: arg_cong [where f = "\<lambda>v. bit v 0"])
  have "\<not> bit ?w 0" by (simp add: bit_simps)
  then show "?w \<noteq> MT_INVALID_SOCKET_FD" by (auto simp: MT_INVALID_SOCKET_FD_def)
qed

lemma find_no_fd:
  assumes "fds_ok p" and "\<not> MW_SOCKET_IS_FD fd" and "fd \<noteq> MT_INVALID_SOCKET_FD"
  shows "mwsocket_find_sockinst_by_remote_fd fd p = Some (- EBADF, None)"
proof -
  have "list_all (\<lambda>x. \<exists>i. si_heap p x = Some i \<and> si_remote_fd i \<noteq> fd) xs \<Longrightarrow> find_by_remote_fd p fd xs = Some None" for xs
    by (induction xs) auto
  moreover have "list_all (\<lambda>x. \<exists>i. si_heap p x = Some i \<and> si_remote_fd i \<noteq> fd) (sockinst_list p)"
    using assms by (fastforce simp: fds_ok_def list_all_iff)
  ultimately show ?thesis by (simp add: mwsocket_find_sockinst_by_remote_fd_def)
qed

lemma close_request_fails:
  assumes "ni_sockfd m = ucast (bswap32 (ucast (MW_SOCKET_CREATE c n)))" and "0 \<le> n" and "n < 2 ^ 24" and "fds_ok p"
  shows "mw_netflow_process_feat_req ker (req_to_host (close_request rid m)) ch fs_zero p
    = Some ((- EBADF, ch, fs_zero\<lparr>fs_status := word_of_int (- EBADF), fs_val := \<lparr>feat_s = 1, feat_us = 0\<rparr>\<rparr>), p)"
  using find_no_fd [OF assms(4) not_fd_notified [OF assms(2,3), of c]]
  by (simp add: mw_netflow_process_feat_req_def process_by_name_def req_to_host_def close_request_def assms(1) ident_notified
      mwsocket_close_by_remote_fd_def fs_zero_def Let_def mw_consts)

text \<open>
  C36 (safety). With a connected engine, the response to a create, bind, accept, connect, send, receive or close is reported once to every connection that
  has not switched monitoring off, with the kind of operation and the bytes received and sent so far in network order. But an engine that sends the
  descriptor of the notification back, to close the socket, gets an error and no socket is closed: the descriptor, of 64 bits, was converted as one of 32 bits, so it
  names no socket.
\<close>

theorem notified_socket_not_addressable:
  assumes "import_ok net" and "mw_netflow_consumer_exists s" and "observation rsp = Some ob"
    and "ks_family (ss_local_bind ss) = 2" and "ks_family (ss_peer ss) = 2"
    and "si_remote_fd i = MW_SOCKET_CREATE c n" and "0 \<le> n" and "n < 2 ^ 24" and "fds_ok p"
  shows "\<exists>m t res. mwsocket_postproc_emit_netflow net ts ss i rsp s = Some t
    \<and> infos_in (ntrace t) = infos_in (ntrace s) @ map (\<lambda>ch. (ch_conn ch, m)) (filter monitored (conn_list s))
    \<and> ni_obs m = bswap16 (mw_observation_code ob) \<and> ni_bytes_in m = bswap64 (si_tot_recv i) \<and> ni_bytes_out m = bswap64 (si_tot_sent i)
    \<and> mw_netflow_process_feat_req ker (req_to_host (close_request rid m)) ch fs_zero p = Some ((- EBADF, ch, res), p)
    \<and> fs_status res \<noteq> 0"
proof -
  obtain m t where m: "mwsocket_postproc_emit_netflow net ts ss i rsp s = Some t"
    "infos_in (ntrace t) = infos_in (ntrace s) @ map (\<lambda>ch. (ch_conn ch, m)) (filter monitored (conn_list s))"
    "ni_obs m = bswap16 (mw_observation_code ob)" "ni_sockfd m = ucast (bswap32 (ucast (si_remote_fd i)))"
    "ni_bytes_in m = bswap64 (si_tot_recv i)" "ni_bytes_out m = bswap64 (si_tot_sent i)"
    by (rule emit_notifies [OF assms(1-5)])
  from close_request_fails [OF m(4) [unfolded assms(6)] assms(7-9)] m show ?thesis by fastforce
qed

text \<open>A socket on the INS of domain 5 with the descriptor 3 receives 100 bytes; one engine is connected.\<close>

definition si_recv :: mwsocket_instance where
  "si_recv = (si_new 1)\<lparr>si_remote_fd := MW_SOCKET_CREATE 5 3, si_tot_recv := 100\<rparr>"

definition ss_demo :: mwsocket_session where
  "ss_demo = \<lparr>ss_est_sec = 10, ss_est_ns = 0, ss_local_bind = \<lparr>ks_family = 2, ks_data = replicate 14 0\<rparr>,
     ss_peer = \<lparr>ks_family = 2, ks_data = replicate 14 0\<rparr>\<rparr>"

definition rsp_recv :: mt_response_generic where
  "rsp_recv = rs_zero\<lparr>rs_base := rs_base_zero\<lparr>rs_type := mt_response_code MtRequestSocketRecv\<rparr>\<rparr>"

theorem notified_socket_not_addressable_witness:
  "\<exists>m t res. mwsocket_postproc_emit_netflow net_demo (11, 0) ss_demo si_recv rsp_recv ((netflow_demo 0)\<lparr>conn_list := [ch_demo]\<rparr>) = Some t
    \<and> infos_in (ntrace t) = [(1, m)] \<and> ni_obs m = bswap16 5 \<and> ni_bytes_in m = bswap64 100
    \<and> mw_netflow_process_feat_req ker_demo (req_to_host (close_request 1 m)) ch_demo fs_zero
        ((pvm_demo ())\<lparr>si_heap := [1 \<mapsto> si_recv], sockinst_list := [1]\<rparr>)
        = Some ((- EBADF, ch_demo, res), (pvm_demo ())\<lparr>si_heap := [1 \<mapsto> si_recv], sockinst_list := [1]\<rparr>)"
proof -
  have "observation rsp_recv = Some MwObservationRecv" by code_simp
  moreover have "import_ok net_demo" by (simp add: import_ok_def net_demo_def nret_of_def)
  moreover have "fds_ok ((pvm_demo ())\<lparr>si_heap := [1 \<mapsto> si_recv], sockinst_list := [1]\<rparr>)"
    by (simp add: fds_ok_def si_recv_def create_is_fd)
  ultimately show ?thesis
    using notified_socket_not_addressable [of net_demo "(netflow_demo 0)\<lparr>conn_list := [ch_demo]\<rparr>" rsp_recv MwObservationRecv ss_demo si_recv 5 3
        "(pvm_demo ())\<lparr>si_heap := [1 \<mapsto> si_recv], sockinst_list := [1]\<rparr>" "(11, 0)" ker_demo 1 ch_demo]
    by (auto simp: netflow_demo_def mw_netflow_consumer_exists_def ss_demo_def si_recv_def si_new_def ch_demo_def monitored_def infos_in_def)
qed

end
