(* ===== verification/PvmBase.thy ===== *)
theory PvmBase
  imports Netflow PvmMonitor
begin

text \<open>
  The device of the kernel module of the PVM (mwcomms-base.c): the search for the external address, the start and the end of the
  module with all its parts, and the device through which a process creates sockets and asks whether a descriptor is one.
  The registration of the device with Linux and the memory of the process are the parameter \<open>lin\<close>.
\<close>

section \<open>Calls and state\<close>

text \<open>
  \<open>BNetDevices\<close> returns the network devices: whether a device is the external interface, and its IPv4 and IPv6 addresses
  (None for a null pointer). \<open>BFget\<close> looks up the open file of a descriptor.
\<close>

datatype bcall =
    BRegisterChrdev
  | BClassCreate
  | BDeviceCreate int
  | BNetDevices
  | BDeviceDestroy int
  | BClassDestroy
  | BUnregisterChrdev int
  | BCopyFromUser
  | BCopyFdToUser int
  | BCopyAnswerToUser bool
  | BFget int

record bret =
  br_ret :: int
  br_devices :: "(bool \<times> string list option \<times> string list option) list"
  br_domain :: u32
  br_type :: u32
  br_protocol :: u32
  br_fd :: int
  br_file :: "nat option"

type_synonym 'u lin = "bcall \<Rightarrow> 'u \<Rightarrow> bret \<times> 'u"

text \<open>
  \<open>mwcomms_base_globals_t\<close> with the states of the socket layer and of the netflow channel. A class and a device are
  null, an error pointer or valid.
\<close>

datatype kptr = Null | ErrPtr int | Valid

record ('u, 'v, 'w) kmod =
  dev_major_num :: int
  dev_class :: kptr
  dev_device :: kptr
  ip_family :: u16
  ip_text :: string
  user_ct :: int
  km_netflow :: "'v netflow"
  km_pvm :: "'w pvm"
  bworld :: 'u
  btrace :: "(bcall \<times> bret) list"

definition bdo :: "'u lin \<Rightarrow> bcall \<Rightarrow> ('u, 'v, 'w) kmod \<Rightarrow> bret \<times> ('u, 'v, 'w) kmod" where
  "bdo lin c s = (let (r, w) = lin c (bworld s) in (r, s\<lparr>bworld := w, btrace := btrace s @ [(c, r)]\<rparr>))"

section \<open>The external address\<close>

abbreviation "EADDRINUSE \<equiv> (98::int)"
abbreviation "L_AF_INET \<equiv> (2::u16)"
abbreviation "L_AF_INET6 \<equiv> (10::u16)"

text \<open>
  The loop over the devices, for one address family: the result is whether an address was found, the return code, the address,
  and whether the loop was left at a second address.
\<close>

fun find_ip_loop :: "string list option list \<Rightarrow> (bool \<times> int \<times> string) \<Rightarrow> (bool \<times> int \<times> string) \<times> bool" where
  "find_ip_loop [] st = (st, False)"
| "find_ip_loop (None # devs) st = find_ip_loop devs st"
| "find_ip_loop (Some [] # devs) st = find_ip_loop devs st"
| "find_ip_loop (Some (ifa # ifas) # devs) (found, rc, ip) =
    (if found then ((found, - EADDRINUSE, ip), True) else find_ip_loop (Some ifas # devs) (True, 0, ifa))"

definition mwbase_find_extern_ip :: "'u lin \<Rightarrow> ('u, 'v, 'w) kmod \<Rightarrow> int \<times> ('u, 'v, 'w) kmod" where
  "mwbase_find_extern_ip lin s =
    (let (r, s) = bdo lin BNetDevices (s\<lparr>ip_family := 0, ip_text := ''''\<rparr>);
         v4 = map (\<lambda>(ext, ip4, ip6). if ext then ip4 else None) (br_devices r);
         v6 = map (\<lambda>(ext, ip4, ip6). if ext then ip6 else None) (br_devices r)
     in case find_ip_loop v4 (False, - ENOENT, '''') of
          ((True, rc, ip), left) \<Rightarrow> (rc, s\<lparr>ip_family := L_AF_INET, ip_text := ip\<rparr>)
        | ((False, rc, ip), left) \<Rightarrow>
            (case find_ip_loop v6 (False, rc, '''') of
               ((True, rc, ip), left) \<Rightarrow> (rc, s\<lparr>ip_family := L_AF_INET6, ip_text := ip\<rparr>)
             | ((False, rc, ip), left) \<Rightarrow> (rc, s)))"

text \<open>With one address on the external interface it is found; with more, the first is kept and the code is an error.\<close>

lemma find_ip_result:
  "find_ip_loop devs (False, rc, ip) =
    (case concat (map (\<lambda>d. case d of None \<Rightarrow> [] | Some as \<Rightarrow> as) devs) of
       [] \<Rightarrow> ((False, rc, ip), False) | [a] \<Rightarrow> ((True, 0, a), False) | a # b # as \<Rightarrow> ((True, - EADDRINUSE, a), True))"
proof -
  have found: "find_ip_loop devs (True, 0, a) =
    (case concat (map (\<lambda>d. case d of None \<Rightarrow> [] | Some as \<Rightarrow> as) devs) of
       [] \<Rightarrow> ((True, 0, a), False) | b # as \<Rightarrow> ((True, - EADDRINUSE, a), True))" for devs a
    by (induction devs "(True, 0::int, a)" rule: find_ip_loop.induct) simp_all
  have "find_ip_loop (Some ifas # devs) (True, 0, a) =
    (case ifas @ concat (map (\<lambda>d. case d of None \<Rightarrow> [] | Some as \<Rightarrow> as) devs) of
       [] \<Rightarrow> ((True, 0, a), False) | b # as \<Rightarrow> ((True, - EADDRINUSE, a), True))" for ifas devs a
    using found [of "Some ifas # devs" a] by simp
  then show ?thesis
    by (induction devs "(False, rc, ip)" rule: find_ip_loop.induct) (auto split: list.splits)
qed

section \<open>Start and end of the module\<close>

text \<open>The pointer that a call returns, from its return code: 0 is success, a negative code an error pointer.\<close>

definition kptr_of :: "int \<Rightarrow> kptr" where
  "kptr_of rc = (if rc = 0 then Valid else ErrPtr rc)"

definition mwbase_dev_fini ::
  "'u lin \<Rightarrow> 'v net \<Rightarrow> 'w ker \<Rightarrow> ('u, 'v, 'w) kmod \<Rightarrow> ('u, 'v, 'w) kmod" where
  "mwbase_dev_fini lin net ker s =
    (let s = s\<lparr>km_pvm := mwsocket_fini (km_pvm s)\<rparr>;
         s = s\<lparr>km_pvm := mw_xen_fini ker (km_pvm s)\<rparr>;
         s = s\<lparr>km_netflow := mw_netflow_fini net (km_netflow s)\<rparr>;
         s = (if dev_major_num s \<ge> 0 then snd (bdo lin (BDeviceDestroy (dev_major_num s)) s) else s);
         s = (if dev_class s \<noteq> Null then snd (bdo lin BClassDestroy s) else s)
     in if dev_device s \<noteq> Null then snd (bdo lin (BUnregisterChrdev (dev_major_num s)) s) else s)"

text \<open>The steps of the start up to the first failure; a missing external address is no failure.\<close>

definition dev_init_steps ::
  "'u lin \<Rightarrow> 'v net \<Rightarrow> 'w ker \<Rightarrow> ('u, 'v, 'w) kmod \<Rightarrow> int \<times> ('u, 'v, 'w) kmod" where
  "dev_init_steps lin net ker s =
    (let s = s\<lparr>dev_major_num := 0, dev_class := Null, dev_device := Null, ip_family := 0, ip_text := '''', user_ct := 0\<rparr>;
         (r, s) = bdo lin BRegisterChrdev s;
         s = s\<lparr>dev_major_num := br_ret r\<rparr>
     in if br_ret r < 0 then (br_ret r, s)
     else
       let (r, s) = bdo lin BClassCreate s; s = s\<lparr>dev_class := kptr_of (br_ret r)\<rparr> in
       if br_ret r \<noteq> 0 then (br_ret r, s)
       else
         let (r, s) = bdo lin (BDeviceCreate (dev_major_num s)) s; s = s\<lparr>dev_device := kptr_of (br_ret r)\<rparr> in
         if br_ret r \<noteq> 0 then (br_ret r, s)
         else
           let s = snd (mwbase_find_extern_ip lin s);
               (rc, p) = mwsocket_init ker (km_pvm s);
               s = s\<lparr>km_pvm := p\<rparr>
           in if rc \<noteq> 0 then (rc, s)
           else
             let (rc, p) = mw_xen_init ker (km_pvm s); s = s\<lparr>km_pvm := p\<rparr> in
             if rc \<noteq> 0 then (rc, s)
             else
               let (rc, n, p) = mw_netflow_init ker net (ip_family s) (ip_text s) (km_netflow s) (km_pvm s)
               in (rc, s\<lparr>km_netflow := n, km_pvm := p\<rparr>))"

definition mwbase_dev_init ::
  "'u lin \<Rightarrow> 'v net \<Rightarrow> 'w ker \<Rightarrow> ('u, 'v, 'w) kmod \<Rightarrow> int \<times> ('u, 'v, 'w) kmod" where
  "mwbase_dev_init lin net ker s =
    (let (rc, s) = dev_init_steps lin net ker s in (rc, if rc \<noteq> 0 then mwbase_dev_fini lin net ker s else s))"

definition mwbase_client_ready_cb :: "'w ker \<Rightarrow> u16 \<Rightarrow> ('u, 'v, 'w) kmod \<Rightarrow> ('u, 'v, 'w) kmod" where
  "mwbase_client_ready_cb ker Domid s = s\<lparr>km_pvm := mwsocket_notify_ring_ready ker Domid (km_pvm s)\<rparr>"

section \<open>The device\<close>

definition mwbase_dev_open :: "('u, 'v, 'w) kmod \<Rightarrow> int \<times> ('u, 'v, 'w) kmod" where
  "mwbase_dev_open s = (0, s\<lparr>user_ct := user_ct s + 1\<rparr>)"

definition mwbase_dev_release :: "('u, 'v, 'w) kmod \<Rightarrow> int \<times> ('u, 'v, 'w) kmod" where
  "mwbase_dev_release s = (0, s\<lparr>user_ct := user_ct s - 1\<rparr>)"

text \<open>A file with the operations of a socket is one that the socket layer has created.\<close>

definition mwsocket_verify :: "nat \<Rightarrow> 'w pvm \<Rightarrow> bool" where
  "mwsocket_verify File p \<longleftrightarrow> file_private p File \<noteq> None"

datatype mw_ioctl = MW_IOCTL_CREATE_SOCKET | MW_IOCTL_IS_MWSOCKET | MW_IOCTL_OTHER

text \<open>A socket that has been created stays open when its descriptor cannot be copied to the user.\<close>

definition mwbase_dev_ioctl ::
  "'u lin \<Rightarrow> 'w ker \<Rightarrow> mw_ioctl \<Rightarrow> ('u, 'v, 'w) kmod \<Rightarrow> (int \<times> ('u, 'v, 'w) kmod) option" where
  "mwbase_dev_ioctl lin ker Cmd s =
    (case Cmd of
       MW_IOCTL_CREATE_SOCKET \<Rightarrow>
         (let (r, s) = bdo lin BCopyFromUser s in
          if br_ret r \<noteq> 0 then Some (- EFAULT, s)
          else do {
            ((rc, outfd), p) \<leftarrow> mwsocket_create ker (br_domain r) (br_type r) (br_protocol r) (km_pvm s);
            let s = s\<lparr>km_pvm := p\<rparr>;
            if rc \<noteq> 0 then Some (rc, s)
            else let (r, s) = bdo lin (BCopyFdToUser outfd) s in Some (if br_ret r \<noteq> 0 then - EFAULT else 0, s)
          })
     | MW_IOCTL_IS_MWSOCKET \<Rightarrow>
         (let (r, s) = bdo lin BCopyFromUser s in
          if br_ret r \<noteq> 0 then Some (- EFAULT, s)
          else
            let (r, s) = bdo lin (BFget (br_fd r)) s in
            case br_file r of
              None \<Rightarrow> Some (- EBADFD, s)
            | Some f \<Rightarrow>
                let (r, s) = bdo lin (BCopyAnswerToUser (mwsocket_verify f (km_pvm s))) s
                in Some (if br_ret r \<noteq> 0 then - EFAULT else 0, s))
     | MW_IOCTL_OTHER \<Rightarrow> Some (- EINVAL, s))"

end
