(* ===== verification/Debugfs.thy ===== *)
theory Debugfs
  imports Format Messages
begin

text \<open>
  The statistics of the kernel module, src/protvm/kernel/mwcomms/mwcomms-debugfs.c: the counters of requests and responses with the table that
  a read of \<^verbatim>\<open>message_counts\<close> returns, and the trace of requests that a read of \<^verbatim>\<open>request_trace\<close> returns, with the places in
  mwcomms-socket.c that fill it. The text buffers are arrays of characters; an access outside an array is \<open>None\<close>. The calls into debugfs and \<open>simple_read_from_buffer\<close> belong
  to Linux and are arguments.
\<close>

section \<open>State\<close>

text \<open>\<open>mt_dbg_count_t\<close>\<close>

record mt_dbg_count =
  dc_invalid :: u64
  dc_create :: u64
  dc_shutdown :: u64
  dc_close :: u64
  dc_connect :: u64
  dc_bind :: u64
  dc_listen :: u64
  dc_accept :: u64
  dc_send :: u64
  dc_recv :: u64
  dc_recvfrom :: u64
  dc_getname :: u64
  dc_getpeer :: u64
  dc_attrib :: u64
  dc_pollsetquery :: u64
  dc_unknown :: u64
  dc_total :: u64

definition count_zero :: mt_dbg_count where
  "count_zero = \<lparr>dc_invalid = 0, dc_create = 0, dc_shutdown = 0, dc_close = 0, dc_connect = 0, dc_bind = 0, dc_listen = 0, dc_accept = 0,
     dc_send = 0, dc_recv = 0, dc_recvfrom = 0, dc_getname = 0, dc_getpeer = 0, dc_attrib = 0, dc_pollsetquery = 0, dc_unknown = 0, dc_total = 0\<rparr>"

text \<open>\<open>mwsocket_trace_buffer_t\<close>; the three fields of type \<open>int\<close> are printed as unsigned numbers.\<close>

record mwsocket_trace_buffer =
  tb_index :: u64
  tb_pid :: u32
  tb_fops :: u32
  tb_type :: u32
  tb_t_mw1 :: u64
  tb_t_mw2 :: u64
  tb_t_mw3 :: u64
  tb_t_mw4 :: u64
  tb_t_mw5 :: u64
  tb_t_mw6 :: u64
  tb_t_ins :: u64

definition tb_zero :: mwsocket_trace_buffer where
  "tb_zero = \<lparr>tb_index = 0, tb_pid = 0, tb_fops = 0, tb_type = 0, tb_t_mw1 = 0, tb_t_mw2 = 0, tb_t_mw3 = 0, tb_t_mw4 = 0, tb_t_mw5 = 0,
     tb_t_mw6 = 0, tb_t_ins = 0\<rparr>"

definition MW_DEBUGFS_BUFF_SIZE :: nat where [mw_consts]: "MW_DEBUGFS_BUFF_SIZE = 2048"
definition MW_DEBUGFS_LINE_SIZE :: nat where [mw_consts]: "MW_DEBUGFS_LINE_SIZE = 256"
definition MW_DEBUGFS_RT_LINE_SIZE :: nat where [mw_consts]: "MW_DEBUGFS_RT_LINE_SIZE = 256"
definition MW_DEBUGFS_TRACE_BUF_MAX :: nat where [mw_consts]: "MW_DEBUGFS_TRACE_BUF_MAX = 500"

definition MW_DEBUGFS_RT_BUFF_SIZE :: nat where
  [mw_consts]: "MW_DEBUGFS_RT_BUFF_SIZE = MW_DEBUGFS_RT_LINE_SIZE * MW_DEBUGFS_TRACE_BUF_MAX"

text \<open>The globals of the file. The directory entry is a number that Linux chooses.\<close>

record mw_debugfs =
  mw_debugfs_dir :: "nat option"
  mw_debugfs_tracing_on :: u64
  mw_debugfs_buffer :: string
  g_mw_debugfs_req_count :: mt_dbg_count
  g_mw_debugfs_resp_count :: mt_dbg_count
  mw_debugfs_rt_buffer :: string
  g_mw_trace_cur :: u64
  g_mw_trace_buf :: "mwsocket_trace_buffer list"

definition debugfs_loaded :: mw_debugfs where
  "debugfs_loaded = \<lparr>mw_debugfs_dir = None, mw_debugfs_tracing_on = 0, mw_debugfs_buffer = replicate MW_DEBUGFS_BUFF_SIZE NUL,
     g_mw_debugfs_req_count = count_zero, g_mw_debugfs_resp_count = count_zero, mw_debugfs_rt_buffer = replicate MW_DEBUGFS_RT_BUFF_SIZE NUL,
     g_mw_trace_cur = 0, g_mw_trace_buf = replicate MW_DEBUGFS_TRACE_BUF_MAX tb_zero\<rparr>"

section \<open>Text in an array\<close>

definition strnlen :: "string \<Rightarrow> nat \<Rightarrow> nat" where
  "strnlen a n = length (takeWhile (\<lambda>c. c \<noteq> NUL) (take n a))"

text \<open>\<open>strncat\<close> onto the text in an array: it needs a terminator in the array, and writes one after the copied characters.\<close>

definition strncat :: "string \<Rightarrow> string \<Rightarrow> nat \<Rightarrow> string option" where
  "strncat a src n =
    (let k = length (takeWhile (\<lambda>c. c \<noteq> NUL) a); piece = take n (takeWhile (\<lambda>c. c \<noteq> NUL) src) in
     if length a < k + length piece + 1 then None
     else Some (take k a @ piece @ [NUL] @ drop (k + length piece + 1) a))"

text \<open>The two functions that append a line differ in the array; the room left is converted to \<open>size_t\<close>.\<close>

definition buff_append :: "nat \<Rightarrow> nat \<Rightarrow> string \<Rightarrow> string \<Rightarrow> string option" where
  "buff_append buf_size line_size str a =
    (let line = snprintf (line_size - 1) str;
         remain = int buf_size - int (strnlen a buf_size) - 1
     in strncat a line (nat (remain mod 2 ^ 64)))"

definition mw_debugfs_buff_append :: "string \<Rightarrow> mw_debugfs \<Rightarrow> mw_debugfs option" where
  "mw_debugfs_buff_append str s =
    map_option (\<lambda>a. s\<lparr>mw_debugfs_buffer := a\<rparr>) (buff_append MW_DEBUGFS_BUFF_SIZE MW_DEBUGFS_LINE_SIZE str (mw_debugfs_buffer s))"

definition mw_debugfs_rt_buff_append :: "string \<Rightarrow> mw_debugfs \<Rightarrow> mw_debugfs option" where
  "mw_debugfs_rt_buff_append str s =
    map_option (\<lambda>a. s\<lparr>mw_debugfs_rt_buffer := a\<rparr>) (buff_append MW_DEBUGFS_RT_BUFF_SIZE MW_DEBUGFS_RT_LINE_SIZE str (mw_debugfs_rt_buffer s))"

section \<open>The table of counts\<close>

text \<open>The conversion \<open>%-15lu\<close> and the lines of the table.\<close>

definition fmt_left :: "nat \<Rightarrow> u64 \<Rightarrow> string" where
  "fmt_left w v = fmt_u (unat v) @ replicate (w - length (fmt_u (unat v))) (CHR '' '')"

definition newline :: string where "newline = [CHR 0x0A]"

definition count_row :: "string \<Rightarrow> u64 \<Rightarrow> u64 \<Rightarrow> string" where
  "count_row name a b = name @ fmt_left 15 a @ fmt_left 15 b @ newline"

definition rule_row :: string where
  "rule_row = ''--------------------------------------------------'' @ newline"

text \<open>The lines in the order of the calls. The row of the send requests shows the responses to accept requests, and the last number adds the requests twice.\<close>

definition count_lines :: "mt_dbg_count \<Rightarrow> mt_dbg_count \<Rightarrow> string list" where
  "count_lines req resp =
    [newline @ newline,
     ''Message Type                   Request        Response'' @ newline,
     count_row ''MtRequestSocketInvalid         '' (dc_invalid req) (dc_invalid resp),
     count_row ''MtRequestSocketCreate          '' (dc_create req) (dc_create resp),
     count_row ''MtRequestSocketShutdown        '' (dc_shutdown req) (dc_shutdown resp),
     count_row ''MtRequestSocketClose           '' (dc_close req) (dc_close resp),
     count_row ''MtRequestSocketConnect         '' (dc_connect req) (dc_connect resp),
     count_row ''MtRequestSocketBind            '' (dc_bind req) (dc_bind resp),
     count_row ''MtRequestSocketListen          '' (dc_listen req) (dc_listen resp),
     count_row ''MtRequestSocketAccept          '' (dc_accept req) (dc_accept resp),
     count_row ''MtRequestSocketSend            '' (dc_send req) (dc_accept resp),
     count_row ''MtRequestSocketRecv            '' (dc_recv req) (dc_recv resp),
     count_row ''MtRequestSocketRecvFrom        '' (dc_recvfrom req) (dc_recvfrom resp),
     count_row ''MtRequestSocketGetName         '' (dc_getname req) (dc_getname resp),
     count_row ''MtRequestSocketGetPeer         '' (dc_getpeer req) (dc_getpeer resp),
     count_row ''MtRequestSocketAttrib          '' (dc_attrib req) (dc_attrib resp),
     count_row ''MtRequestSocketPollSetQuery    '' (dc_pollsetquery req) (dc_pollsetquery resp),
     count_row ''Unknown                        '' (dc_unknown req) (dc_unknown resp),
     rule_row,
     count_row ''Total                          '' (dc_total req) (dc_total resp),
     rule_row,
     rule_row,
     ''Cumulative total:     '' @ fmt_u (unat (dc_total req + dc_total req)) @ newline,
     newline @ newline]"

fun append_lines :: "(string \<Rightarrow> mw_debugfs \<Rightarrow> mw_debugfs option) \<Rightarrow> string list \<Rightarrow> mw_debugfs \<Rightarrow> mw_debugfs option" where
  "append_lines app [] s = Some s"
| "append_lines app (l # ls) s = Option.bind (app l s) (append_lines app ls)"

definition mw_debugfs_make_count_buffer :: "mw_debugfs \<Rightarrow> mw_debugfs option" where
  "mw_debugfs_make_count_buffer s =
    append_lines mw_debugfs_buff_append (count_lines (g_mw_debugfs_req_count s) (g_mw_debugfs_resp_count s))
      (s\<lparr>mw_debugfs_buffer := replicate MW_DEBUGFS_BUFF_SIZE NUL\<rparr>)"

definition mw_debugfs_reset_stats :: "mw_debugfs \<Rightarrow> mw_debugfs" where
  "mw_debugfs_reset_stats s = s\<lparr>g_mw_debugfs_req_count := count_zero, g_mw_debugfs_resp_count := count_zero\<rparr>"

text \<open>
  \<open>simple_read_from_buffer\<close>: with the number of bytes that the user asks for, the position, an array and the number of its bytes that can be read, it gives the
  result of the call, the bytes for the user and the new position.
\<close>

type_synonym sread = "nat \<Rightarrow> int \<Rightarrow> string \<Rightarrow> nat \<Rightarrow> int \<times> string \<times> int"

definition mw_debugfs_buffer_reader :: "sread \<Rightarrow> nat \<Rightarrow> int \<Rightarrow> mw_debugfs \<Rightarrow> ((int \<times> string \<times> int) \<times> mw_debugfs) option" where
  "mw_debugfs_buffer_reader sread count position s =
    map_option (\<lambda>s. (sread count position (mw_debugfs_buffer s) MW_DEBUGFS_BUFF_SIZE, s)) (mw_debugfs_make_count_buffer s)"

definition mw_debugfs_reset :: "nat \<Rightarrow> mw_debugfs \<Rightarrow> nat \<times> mw_debugfs" where
  "mw_debugfs_reset count s = (count, mw_debugfs_reset_stats s)"

section \<open>The trace of requests\<close>

text \<open>An index of the trace: the remainder is that of a signed number of 64 bits, and a negative one is outside the array.\<close>

definition trace_index :: "u64 \<Rightarrow> nat option" where
  "trace_index c = (let r = c_rem (sint c) (int MW_DEBUGFS_TRACE_BUF_MAX)
     in if r < 0 then None else Some (nat r))"

definition trace_line :: "mwsocket_trace_buffer \<Rightarrow> string" where
  "trace_line tb = fmt_u (unat (tb_index tb)) @ '':'' @ fmt_u (unat (tb_pid tb)) @ '':'' @ fmt_u (unat (tb_fops tb)) @ '':'' @ fmt_u (unat (tb_type tb))
     @ '':'' @ fmt_u (unat (tb_t_mw1 tb)) @ '':'' @ fmt_u (unat (tb_t_mw2 tb)) @ '':'' @ fmt_u (unat (tb_t_mw3 tb)) @ '':'' @ fmt_u (unat (tb_t_mw4 tb))
     @ '':'' @ fmt_u (unat (tb_t_mw5 tb)) @ '':'' @ fmt_u (unat (tb_t_mw6 tb)) @ '':'' @ fmt_u (unat (tb_t_ins tb)) @ newline"

fun rt_loop :: "nat \<Rightarrow> nat \<Rightarrow> mw_debugfs \<Rightarrow> mw_debugfs option" where
  "rt_loop 0 cur s = Some s"
| "rt_loop (Suc n) cur s =
    Option.bind (mw_debugfs_rt_buff_append (trace_line (g_mw_trace_buf s ! cur)) s)
      (rt_loop n (if cur = 0 then MW_DEBUGFS_TRACE_BUF_MAX - 1 else cur - 1))"

definition mw_debugfs_make_rt_buffer :: "mw_debugfs \<Rightarrow> mw_debugfs option" where
  "mw_debugfs_make_rt_buffer s =
    Option.bind (trace_index (g_mw_trace_cur s))
      (\<lambda>cur. rt_loop MW_DEBUGFS_TRACE_BUF_MAX cur (s\<lparr>mw_debugfs_rt_buffer := replicate MW_DEBUGFS_RT_BUFF_SIZE NUL\<rparr>))"

definition mw_debugfs_rt_reader :: "sread \<Rightarrow> nat \<Rightarrow> int \<Rightarrow> mw_debugfs \<Rightarrow> ((int \<times> string \<times> int) \<times> mw_debugfs) option" where
  "mw_debugfs_rt_reader sread count position s =
    map_option (\<lambda>s. (sread count position (mw_debugfs_rt_buffer s) (strnlen (mw_debugfs_rt_buffer s) MW_DEBUGFS_RT_BUFF_SIZE), s))
      (mw_debugfs_make_rt_buffer s)"

text \<open>
  The places in mwcomms-socket.c that write the trace: the creation of a request takes the next entry, whose index the request keeps as its \<open>tb\<close>; the search for a slot,
  the sending, the response and the destruction write into that entry. The time is an argument.
\<close>

definition trace_create :: "u32 \<Rightarrow> u32 \<Rightarrow> u64 \<Rightarrow> u64 \<Rightarrow> mw_debugfs \<Rightarrow> (nat \<times> mw_debugfs) option" where
  "trace_create pid fops t_mw1 ktime s =
    (let cur = g_mw_trace_cur s + 1 in
     map_option (\<lambda>tbi. (tbi, s\<lparr>g_mw_trace_cur := cur, g_mw_trace_buf := (g_mw_trace_buf s)[tbi := tb_zero\<lparr>tb_pid := pid, tb_index := of_nat tbi,
       tb_fops := fops, tb_t_mw1 := t_mw1, tb_t_mw2 := ktime\<rparr>]\<rparr>)) (trace_index cur))"

definition upd_trace :: "nat \<Rightarrow> (mwsocket_trace_buffer \<Rightarrow> mwsocket_trace_buffer) \<Rightarrow> mw_debugfs \<Rightarrow> mw_debugfs" where
  "upd_trace tb f s = s\<lparr>g_mw_trace_buf := (g_mw_trace_buf s)[tb := f (g_mw_trace_buf s ! tb)]\<rparr>"

definition trace_slot :: "nat \<Rightarrow> u64 \<Rightarrow> mw_debugfs \<Rightarrow> mw_debugfs" where
  "trace_slot tb ktime = upd_trace tb (\<lambda>e. e\<lparr>tb_t_mw3 := ktime\<rparr>)"

definition trace_sent :: "nat \<Rightarrow> u64 \<Rightarrow> u32 \<Rightarrow> mw_debugfs \<Rightarrow> mw_debugfs" where
  "trace_sent tb ktime typ = upd_trace tb (\<lambda>e. e\<lparr>tb_t_mw4 := ktime, tb_type := typ AND 0xff\<rparr>)"

definition trace_response :: "nat \<Rightarrow> u64 \<Rightarrow> mt_response_generic \<Rightarrow> mw_debugfs \<Rightarrow> mw_debugfs" where
  "trace_response tb ktime rsp = upd_trace tb (\<lambda>e. e\<lparr>tb_t_mw5 := ktime, tb_t_ins := rs_ts_ins (rs_base rsp)\<rparr>)"

definition trace_destroy :: "nat \<Rightarrow> u64 \<Rightarrow> mw_debugfs \<Rightarrow> mw_debugfs" where
  "trace_destroy tb ktime = upd_trace tb (\<lambda>e. e\<lparr>tb_t_mw6 := ktime\<rparr>)"

section \<open>Start and end\<close>

text \<open>The calls into debugfs; each returns an entry, or none. An entry that cannot be made ends the initialisation, and what was made stays.\<close>

datatype dfs_call =
    CreateDir string
  | CreateFile string nat "nat option" string
  | CreateU64 string nat "nat option"
  | RemoveRecursive "nat option"

fun create_all :: "(dfs_call \<Rightarrow> nat option) \<Rightarrow> dfs_call list \<Rightarrow> dfs_call list" where
  "create_all dfs [] = []"
| "create_all dfs (c # cs) = c # (if dfs c = None then [] else create_all dfs cs)"

definition DEVICE_NAME :: string where "DEVICE_NAME = ''mwcomms''"

definition mw_debugfs_init :: "(dfs_call \<Rightarrow> nat option) \<Rightarrow> mw_debugfs \<Rightarrow> dfs_call list \<times> mw_debugfs" where
  "mw_debugfs_init dfs s =
    (let dir = dfs (CreateDir DEVICE_NAME); s = s\<lparr>mw_debugfs_dir := dir\<rparr> in
     if dir = None then ([CreateDir DEVICE_NAME], s)
     else (CreateDir DEVICE_NAME # create_all dfs
       [CreateFile ''message_counts'' 0x1A4 dir ''mw_debugfs_message_counts_fops'',
        CreateFile ''reset'' 0xA4 dir ''mw_debugfs_reset_fops'',
        CreateU64 ''tracing_on'' 0x1A4 dir,
        CreateFile ''request_trace'' 0x124 dir ''mw_debugfs_rt_fops''], s))"

definition mw_debugfs_fini :: "mw_debugfs \<Rightarrow> dfs_call list" where
  "mw_debugfs_fini s = [RemoveRecursive (mw_debugfs_dir s)]"

section \<open>Counting\<close>

text \<open>The switch on the type of a message, the same for requests and responses.\<close>

fun count_type :: "mt_request_type option \<Rightarrow> mt_dbg_count \<Rightarrow> mt_dbg_count" where
  "count_type (Some MtRequestInvalid) c = c\<lparr>dc_invalid := dc_invalid c + 1, dc_total := dc_total c + 1\<rparr>"
| "count_type (Some MtRequestSocketCreate) c = c\<lparr>dc_create := dc_create c + 1, dc_total := dc_total c + 1\<rparr>"
| "count_type (Some MtRequestSocketShutdown) c = c\<lparr>dc_shutdown := dc_shutdown c + 1, dc_total := dc_total c + 1\<rparr>"
| "count_type (Some MtRequestSocketClose) c = c\<lparr>dc_close := dc_close c + 1, dc_total := dc_total c + 1\<rparr>"
| "count_type (Some MtRequestSocketConnect) c = c\<lparr>dc_connect := dc_connect c + 1, dc_total := dc_total c + 1\<rparr>"
| "count_type (Some MtRequestSocketBind) c = c\<lparr>dc_bind := dc_bind c + 1, dc_total := dc_total c + 1\<rparr>"
| "count_type (Some MtRequestSocketListen) c = c\<lparr>dc_listen := dc_listen c + 1, dc_total := dc_total c + 1\<rparr>"
| "count_type (Some MtRequestSocketAccept) c = c\<lparr>dc_accept := dc_accept c + 1, dc_total := dc_total c + 1\<rparr>"
| "count_type (Some MtRequestSocketSend) c = c\<lparr>dc_send := dc_send c + 1, dc_total := dc_total c + 1\<rparr>"
| "count_type (Some MtRequestSocketRecv) c = c\<lparr>dc_recv := dc_recv c + 1, dc_total := dc_total c + 1\<rparr>"
| "count_type (Some MtRequestSocketRecvFrom) c = c\<lparr>dc_recvfrom := dc_recvfrom c + 1, dc_total := dc_total c + 1\<rparr>"
| "count_type (Some MtRequestSocketGetName) c = c\<lparr>dc_getname := dc_getname c + 1, dc_total := dc_total c + 1\<rparr>"
| "count_type (Some MtRequestSocketGetPeer) c = c\<lparr>dc_getpeer := dc_getpeer c + 1, dc_total := dc_total c + 1\<rparr>"
| "count_type (Some MtRequestSocketAttrib) c = c\<lparr>dc_attrib := dc_attrib c + 1, dc_total := dc_total c + 1\<rparr>"
| "count_type (Some MtRequestPollsetQuery) c = c\<lparr>dc_pollsetquery := dc_pollsetquery c + 1, dc_total := dc_total c + 1\<rparr>"
| "count_type _ c = c\<lparr>dc_total := dc_total c + 1, dc_unknown := dc_unknown c + 1\<rparr>"

definition mt_response_of :: "u32 \<Rightarrow> mt_request_type option" where
  "mt_response_of t = List.find (\<lambda>r. mt_response_code r = t) mt_request_types"

definition mw_debugfs_request_count :: "mt_request_generic \<Rightarrow> mw_debugfs \<Rightarrow> mw_debugfs" where
  "mw_debugfs_request_count Request s =
    (if mw_debugfs_tracing_on s = 0 then s
     else s\<lparr>g_mw_debugfs_req_count := count_type (mt_request_of (rq_type (rq_base Request))) (g_mw_debugfs_req_count s)\<rparr>)"

definition mw_debugfs_response_count :: "mt_response_generic \<Rightarrow> mw_debugfs \<Rightarrow> mw_debugfs" where
  "mw_debugfs_response_count Response s =
    (if mw_debugfs_tracing_on s = 0 then s
     else s\<lparr>g_mw_debugfs_resp_count := count_type (mt_response_of (rs_type (rs_base Response))) (g_mw_debugfs_resp_count s)\<rparr>)"

section \<open>Lines in a buffer\<close>

definition plain :: "nat \<Rightarrow> string \<Rightarrow> bool" where
  "plain m str \<longleftrightarrow> NUL \<notin> set str \<and> length str \<le> m"

lemma strnlen_padded: "NUL \<notin> set str \<Longrightarrow> length str < n \<Longrightarrow> strnlen (padded n str) n = length str"
  using takeWhile_nul [of str "n - length str"] by (simp add: strnlen_def padded_def)

lemma strncat_padded:
  assumes "NUL \<notin> set str" and "NUL \<notin> set l" and "length str + length l < n" and "length l \<le> m"
  shows "strncat (padded n str) l m = Some (padded n (str @ l))"
proof -
  have tw: "takeWhile (\<lambda>c. c \<noteq> NUL) l = l" "takeWhile (\<lambda>c. c \<noteq> NUL) (padded n str) = str"
    using assms(1,2) by (auto simp: takeWhile_eq_all_conv padded_def takeWhile_nul)
  obtain k where k: "n = length str + length l + Suc k" using assms(3) less_iff_Suc_add by (metis add_Suc_right)
  have pad: "padded n str = str @ replicate (length l + Suc k) NUL" "padded n (str @ l) = str @ l @ NUL # replicate k NUL"
    by (simp_all add: padded_def k)
  show ?thesis unfolding strncat_def Let_def tw unfolding pad using assms(4) by simp
qed

lemma buff_append_padded:
  assumes "NUL \<notin> set str" and "plain (ls - 2) l" and "length str + length l < n" and "n < 2 ^ 64" and "2 < ls"
  shows "buff_append n ls l (padded n str) = Some (padded n (str @ l))"
proof -
  have "snprintf (ls - 1) l = l" using assms(2,5) by (simp add: snprintf_def plain_def numeral_2_eq_2)
  moreover have "int n - int (strnlen (padded n str) n) - 1 = int (n - length str - 1)" using assms(1,3) by (simp add: strnlen_padded of_nat_diff)
  moreover have "nat (int (n - length str - 1) mod 2 ^ 64) = n - length str - 1" using assms(4) by (simp add: nat_mod_as_int)
  moreover have "strncat (padded n str) l (n - length str - 1) = Some (padded n (str @ l))"
    using assms(2,3) by (intro strncat_padded [OF assms(1)]) (auto simp: plain_def)
  ultimately show ?thesis by (simp add: buff_append_def Let_def)
qed

lemma append_lines_padded:
  assumes "NUL \<notin> set str" and "\<forall>l \<in> set ls. plain 254 l" and "length str + length (concat ls) < MW_DEBUGFS_BUFF_SIZE"
    and "mw_debugfs_buffer s = padded MW_DEBUGFS_BUFF_SIZE str"
  shows "append_lines mw_debugfs_buff_append ls s = Some (s\<lparr>mw_debugfs_buffer := padded MW_DEBUGFS_BUFF_SIZE (str @ concat ls)\<rparr>)"
  using assms
proof (induction ls arbitrary: str s)
  case (Cons l ls)
  have "mw_debugfs_buff_append l s = Some (s\<lparr>mw_debugfs_buffer := padded MW_DEBUGFS_BUFF_SIZE (str @ l)\<rparr>)"
    using Cons.prems buff_append_padded [of str MW_DEBUGFS_LINE_SIZE l MW_DEBUGFS_BUFF_SIZE]
    by (simp add: mw_debugfs_buff_append_def mw_consts)
  then show ?case using Cons.prems Cons.IH [of "str @ l"] by (simp add: plain_def)
qed simp

section \<open>The table fits\<close>

lemma fmt_u_plain: "n < 10 ^ k \<Longrightarrow> 0 < k \<Longrightarrow> plain k (fmt_u n)"
  using fmt_u_chars [of n] fmt_length [of 10 n k] by (auto simp: plain_def NUL_def)

lemma u64_plain: "plain 20 (fmt_u (unat (v :: u64)))"
  using unsigned_less [of v, where ?'a = nat] by (intro fmt_u_plain) auto

lemma u32_plain: "plain 10 (fmt_u (unat (v :: u32)))"
  using unsigned_less [of v, where ?'a = nat] by (intro fmt_u_plain) auto

lemma plain_append: "plain a x \<Longrightarrow> plain b y \<Longrightarrow> plain (a + b) (x @ y)"
  by (auto simp: plain_def)

lemma plain_mono: "plain a x \<Longrightarrow> a \<le> b \<Longrightarrow> plain b x"
  by (simp add: plain_def)

lemma newline_plain: "plain 1 newline"
  by (simp add: plain_def newline_def NUL_def)

lemma fmt_left_plain: "plain 20 (fmt_left 15 v)"
  using u64_plain [of v] by (auto simp: plain_def fmt_left_def NUL_def)

lemma count_row_plain: "plain 31 name \<Longrightarrow> plain 72 (count_row name a b)"
  unfolding count_row_def
  using plain_append [OF _ plain_append [OF fmt_left_plain plain_append [OF fmt_left_plain newline_plain]]] plain_mono by fastforce

lemma count_lines_plain: "\<forall>l \<in> set (count_lines req resp). plain 72 l"
proof -
  have fixed: "plain 72 (newline @ newline)" "plain 72 rule_row" "plain 72 (''Message Type                   Request        Response'' @ newline)"
    by (simp_all add: plain_def newline_def rule_row_def NUL_def)
  have "plain 22 ''Cumulative total:     ''" by (simp add: plain_def NUL_def)
  then have sum: "plain 72 (''Cumulative total:     '' @ fmt_u (unat (dc_total req + dc_total req)) @ newline)"
    using plain_mono [OF plain_append [OF _ plain_append [OF u64_plain newline_plain]], of 22 _ 72] by fastforce
  have "list_all (plain 72) (count_lines req resp)"
    unfolding count_lines_def list.pred_inject
    by (intro conjI fixed sum TrueI count_row_plain) (simp_all add: plain_def NUL_def)
  then show ?thesis by (simp only: list_all_iff)
qed

lemma length_concat_le: "\<forall>l \<in> set ls. length l \<le> k \<Longrightarrow> length (concat ls) \<le> k * length ls"
  by (induction ls) auto

definition count_table :: "mt_dbg_count \<Rightarrow> mt_dbg_count \<Rightarrow> string" where
  "count_table req resp = concat (count_lines req resp)"

lemma count_table_fits: "length (count_table req resp) \<le> 1728"
proof -
  have "length (count_lines req resp) = 24" by (simp add: count_lines_def)
  then show ?thesis using length_concat_le [of "count_lines req resp" 72] count_lines_plain by (simp add: count_table_def plain_def)
qed

lemma make_count_buffer_eq:
  "mw_debugfs_make_count_buffer s =
    Some (s\<lparr>mw_debugfs_buffer := padded MW_DEBUGFS_BUFF_SIZE (count_table (g_mw_debugfs_req_count s) (g_mw_debugfs_resp_count s))\<rparr>)"
proof -
  let ?ls = "count_lines (g_mw_debugfs_req_count s) (g_mw_debugfs_resp_count s)"
  have "\<forall>l \<in> set ?ls. plain 254 l" using count_lines_plain plain_mono by fastforce
  moreover have "length (concat ?ls) < MW_DEBUGFS_BUFF_SIZE"
    using count_table_fits [of "g_mw_debugfs_req_count s" "g_mw_debugfs_resp_count s"] by (simp add: count_table_def mw_consts)
  ultimately show ?thesis
    using append_lines_padded [of "[]" ?ls "s\<lparr>mw_debugfs_buffer := replicate MW_DEBUGFS_BUFF_SIZE NUL\<rparr>"]
    by (simp add: mw_debugfs_make_count_buffer_def count_table_def padded_def)
qed

section \<open>What the counters mean\<close>

text \<open>
  The messages that pass while the statistics are read and reset, with writes to \<^verbatim>\<open>tracing_on\<close>. The specification keeps
  the types of the messages since the last reset that passed while tracing was on.
\<close>

datatype dbg_event =
    CountRequest mt_request_generic
  | CountResponse mt_response_generic
  | WriteReset nat
  | WriteTracing u64
  | ReadTable sread nat int

fun dbg_do :: "dbg_event \<Rightarrow> mw_debugfs \<Rightarrow> mw_debugfs" where
  "dbg_do (CountRequest q) s = mw_debugfs_request_count q s"
| "dbg_do (CountResponse p) s = mw_debugfs_response_count p s"
| "dbg_do (WriteReset n) s = snd (mw_debugfs_reset n s)"
| "dbg_do (WriteTracing v) s = s\<lparr>mw_debugfs_tracing_on := v\<rparr>"
| "dbg_do (ReadTable sread n pos) s = (case mw_debugfs_buffer_reader sread n pos s of None \<Rightarrow> s | Some (r, t) \<Rightarrow> t)"

type_synonym seen = "bool \<times> mt_request_type option list \<times> mt_request_type option list"

fun see :: "dbg_event \<Rightarrow> seen \<Rightarrow> seen" where
  "see (CountRequest q) (on, rq, rs) = (on, if on then mt_request_of (rq_type (rq_base q)) # rq else rq, rs)"
| "see (CountResponse p) (on, rq, rs) = (on, rq, if on then mt_response_of (rs_type (rs_base p)) # rs else rs)"
| "see (WriteReset n) (on, rq, rs) = (on, [], [])"
| "see (WriteTracing v) (on, rq, rs) = (v \<noteq> 0, rq, rs)"
| "see (ReadTable sread n pos) (on, rq, rs) = (on, rq, rs)"

text \<open>The number of messages of a type, modulo \<open>2 ^ 64\<close>.\<close>

definition many :: "mt_request_type \<Rightarrow> mt_request_type option list \<Rightarrow> u64" where
  "many t ts = of_nat (count_list ts (Some t))"

definition tally :: "mt_request_type option list \<Rightarrow> mt_dbg_count" where
  "tally ts = \<lparr>dc_invalid = many MtRequestInvalid ts, dc_create = many MtRequestSocketCreate ts, dc_shutdown = many MtRequestSocketShutdown ts,
     dc_close = many MtRequestSocketClose ts, dc_connect = many MtRequestSocketConnect ts, dc_bind = many MtRequestSocketBind ts,
     dc_listen = many MtRequestSocketListen ts, dc_accept = many MtRequestSocketAccept ts, dc_send = many MtRequestSocketSend ts,
     dc_recv = many MtRequestSocketRecv ts, dc_recvfrom = many MtRequestSocketRecvFrom ts, dc_getname = many MtRequestSocketGetName ts,
     dc_getpeer = many MtRequestSocketGetPeer ts, dc_attrib = many MtRequestSocketAttrib ts, dc_pollsetquery = many MtRequestPollsetQuery ts,
     dc_unknown = of_nat (count_list ts None) + many MtRequestAddrBlock ts, dc_total = of_nat (length ts)\<rparr>"

lemma many_simps [simp]: "many t [] = 0" "many t (x # ts) = (if x = Some t then many t ts + 1 else many t ts)"
  by (simp_all add: many_def)

lemma tally_Nil: "tally [] = count_zero"
  by (simp add: tally_def count_zero_def)

lemma count_type_tally: "count_type t (tally ts) = tally (t # ts)"
proof (cases t)
  case None
  then show ?thesis by (simp add: tally_def add.commute add.left_commute)
next
  case (Some x)
  then show ?thesis by (cases x) (simp_all add: tally_def add.commute add.left_commute)
qed

text \<open>The state refines the specification.\<close>

fun counts :: "mw_debugfs \<Rightarrow> seen \<Rightarrow> bool" where
  "counts s (on, rq, rs) \<longleftrightarrow> (on \<longleftrightarrow> mw_debugfs_tracing_on s \<noteq> 0) \<and> g_mw_debugfs_req_count s = tally rq \<and> g_mw_debugfs_resp_count s = tally rs"

lemma counts_step: "counts s v \<Longrightarrow> counts (dbg_do e s) (see e v)"
  by (cases v; cases e)
    (auto simp: mw_debugfs_request_count_def mw_debugfs_response_count_def mw_debugfs_reset_def mw_debugfs_reset_stats_def mw_debugfs_buffer_reader_def
      make_count_buffer_eq count_type_tally tally_Nil)

lemma counts_run: "counts s v \<Longrightarrow> counts (fold dbg_do es s) (fold see es v)"
  by (induction es arbitrary: s v) (simp_all add: counts_step)

text \<open>
  The specification of the table, from the types of the messages alone: names in 31 columns, numbers in 15 columns, modulo \<open>2 ^ 64\<close>. A type that has no row of its own, or an
  unknown code, is counted as unknown. It departs from the heading in two places, as the code does: the row of the send requests shows in the column of
  the responses those to accept requests, and the cumulative total is twice the number of requests.
\<close>

definition in_columns :: "nat \<Rightarrow> string \<Rightarrow> string" where
  "in_columns w str = str @ replicate (w - length str) (CHR '' '')"

definition table_row :: "string \<Rightarrow> nat \<Rightarrow> nat \<Rightarrow> string" where
  "table_row name a b = in_columns 31 name @ in_columns 15 (fmt_u (a mod 2 ^ 64)) @ in_columns 15 (fmt_u (b mod 2 ^ 64)) @ newline"

definition row_types :: "(string \<times> mt_request_type) list" where
  "row_types =
    [(''MtRequestSocketInvalid'', MtRequestInvalid), (''MtRequestSocketCreate'', MtRequestSocketCreate), (''MtRequestSocketShutdown'', MtRequestSocketShutdown),
     (''MtRequestSocketClose'', MtRequestSocketClose), (''MtRequestSocketConnect'', MtRequestSocketConnect), (''MtRequestSocketBind'', MtRequestSocketBind),
     (''MtRequestSocketListen'', MtRequestSocketListen), (''MtRequestSocketAccept'', MtRequestSocketAccept), (''MtRequestSocketSend'', MtRequestSocketSend),
     (''MtRequestSocketRecv'', MtRequestSocketRecv), (''MtRequestSocketRecvFrom'', MtRequestSocketRecvFrom), (''MtRequestSocketGetName'', MtRequestSocketGetName),
     (''MtRequestSocketGetPeer'', MtRequestSocketGetPeer), (''MtRequestSocketAttrib'', MtRequestSocketAttrib), (''MtRequestSocketPollSetQuery'', MtRequestPollsetQuery)]"

definition shown_response :: "mt_request_type \<Rightarrow> mt_request_type" where
  "shown_response t = (if t = MtRequestSocketSend then MtRequestSocketAccept else t)"

definition no_row :: "mt_request_type option list \<Rightarrow> nat" where
  "no_row ts = length (filter (\<lambda>t. t \<notin> set (map (Some \<circ> snd) row_types)) ts)"

definition message_table :: "mt_request_type option list \<Rightarrow> mt_request_type option list \<Rightarrow> string" where
  "message_table rq rs = newline @ newline @ in_columns 31 ''Message Type'' @ in_columns 15 ''Request'' @ ''Response'' @ newline
     @ concat (map (\<lambda>(name, t). table_row name (count_list rq (Some t)) (count_list rs (Some (shown_response t)))) row_types)
     @ table_row ''Unknown'' (no_row rq) (no_row rs) @ rule_row
     @ table_row ''Total'' (length rq) (length rs) @ rule_row @ rule_row
     @ in_columns 22 ''Cumulative total:'' @ fmt_u ((2 * length rq) mod 2 ^ 64) @ newline @ newline @ newline"

lemma count_row_table: "in_columns 31 name = str \<Longrightarrow> count_row str (of_nat a) (of_nat b) = table_row name a b"
  by (simp add: count_row_def table_row_def fmt_left_def in_columns_def unat_of_nat)

lemma row_name:
  "in_columns 31 ''MtRequestSocketInvalid'' = ''MtRequestSocketInvalid         ''"
  "in_columns 31 ''MtRequestSocketCreate'' = ''MtRequestSocketCreate          ''"
  "in_columns 31 ''MtRequestSocketShutdown'' = ''MtRequestSocketShutdown        ''"
  "in_columns 31 ''MtRequestSocketClose'' = ''MtRequestSocketClose           ''"
  "in_columns 31 ''MtRequestSocketConnect'' = ''MtRequestSocketConnect         ''"
  "in_columns 31 ''MtRequestSocketBind'' = ''MtRequestSocketBind            ''"
  "in_columns 31 ''MtRequestSocketListen'' = ''MtRequestSocketListen          ''"
  "in_columns 31 ''MtRequestSocketAccept'' = ''MtRequestSocketAccept          ''"
  "in_columns 31 ''MtRequestSocketSend'' = ''MtRequestSocketSend            ''"
  "in_columns 31 ''MtRequestSocketRecv'' = ''MtRequestSocketRecv            ''"
  "in_columns 31 ''MtRequestSocketRecvFrom'' = ''MtRequestSocketRecvFrom        ''"
  "in_columns 31 ''MtRequestSocketGetName'' = ''MtRequestSocketGetName         ''"
  "in_columns 31 ''MtRequestSocketGetPeer'' = ''MtRequestSocketGetPeer         ''"
  "in_columns 31 ''MtRequestSocketAttrib'' = ''MtRequestSocketAttrib          ''"
  "in_columns 31 ''MtRequestSocketPollSetQuery'' = ''MtRequestSocketPollSetQuery    ''"
  "in_columns 31 ''Unknown'' = ''Unknown                        ''"
  "in_columns 31 ''Total'' = ''Total                          ''"
  by code_simp+

lemmas row_names = row_name [THEN count_row_table]

lemma heading_names:
  "in_columns 31 ''Message Type'' @ in_columns 15 ''Request'' @ ''Response'' @ str = ''Message Type                   Request        Response'' @ str"
  "in_columns 22 ''Cumulative total:'' = ''Cumulative total:     ''"
proof -
  have "in_columns 31 ''Message Type'' @ in_columns 15 ''Request'' @ ''Response'' = ''Message Type                   Request        Response''" by code_simp
  then show "in_columns 31 ''Message Type'' @ in_columns 15 ''Request'' @ ''Response'' @ str = ''Message Type                   Request        Response'' @ str"
    by (metis append.assoc)
  show "in_columns 22 ''Cumulative total:'' = ''Cumulative total:     ''" by code_simp
qed

lemma no_row_eq: "no_row ts = count_list ts None + count_list ts (Some MtRequestAddrBlock)"
proof (induction ts)
  case Nil
  then show ?case by (simp add: no_row_def)
next
  case (Cons t ts)
  have "(t \<notin> set (map (Some \<circ> snd) row_types)) \<longleftrightarrow> t = None \<or> t = Some MtRequestAddrBlock"
    by (cases t; cases "the t") (simp_all add: row_types_def)
  then show ?case using Cons by (auto simp: no_row_def)
qed

lemma count_table_spec: "count_table (tally rq) (tally rs) = message_table rq rs"
proof -
  have unknown: "of_nat (count_list ts None) + of_nat (count_list ts (Some MtRequestAddrBlock)) = (of_nat (no_row ts) :: u64)" for ts by (simp add: no_row_eq)
  have total: "unat (of_nat (length rq) + of_nat (length rq) :: u64) = (2 * length rq) mod 2 ^ 64"
    by (simp only: of_nat_add [symmetric] unat_of_nat mult_2) simp
  show ?thesis
    unfolding count_table_def count_lines_def tally_def message_table_def row_types_def shown_response_def mt_dbg_count.simps total many_def unknown
    by (simp add: row_names heading_names del: append.simps)
qed

text \<open>What Linux promises of \<open>simple_read_from_buffer\<close>, for a user who can take the bytes and a position that is not negative.\<close>

definition reads_buffer :: "sread \<Rightarrow> bool" where
  "reads_buffer sread \<longleftrightarrow> (\<forall>n k a m. m \<le> length a \<longrightarrow>
     (let d = take n (drop k (take m a)) in sread n (int k) a m = (int (length d), d, int k + int (length d))))"

text \<open>
  C38 (refinement). What a read of \<^verbatim>\<open>message_counts\<close> returns after any sequence of messages, resets, reads and writes to
  \<^verbatim>\<open>tracing_on\<close>: the table \<open>message_table\<close> of the messages that have passed since the last reset while
  tracing was on, complete however large the numbers are, and filled up with null bytes to 2048 bytes. It never writes past the end of its buffer. A row has the numbers of
  requests and of responses of its type modulo \<open>2 ^ 64\<close>, but the row of the send requests has the number of the responses to accept requests, and the responses to send requests are not
  shown. A MtRequestAddrBlock and a message of an unknown type are in the row of the unknown ones. The cumulative total is twice the number of requests.
\<close>

theorem message_counts_exact:
  assumes "reads_buffer sread" and "fold see es (False, [], []) = (on, rq, rs)"
  shows "\<exists>t. mw_debugfs_buffer_reader sread n (int k) (fold dbg_do es debugfs_loaded) = Some (
      let d = take n (drop k (padded MW_DEBUGFS_BUFF_SIZE (message_table rq rs))) in (int (length d), d, int k + int (length d)), t)
    \<and> length (message_table rq rs) < MW_DEBUGFS_BUFF_SIZE"
proof -
  have "counts debugfs_loaded (False, [], [])" by (simp add: debugfs_loaded_def tally_Nil)
  from counts_run [OF this, of es] have c: "g_mw_debugfs_req_count (fold dbg_do es debugfs_loaded) = tally rq"
    "g_mw_debugfs_resp_count (fold dbg_do es debugfs_loaded) = tally rs" by (simp_all add: assms(2))
  have fits: "length (message_table rq rs) < MW_DEBUGFS_BUFF_SIZE"
    using count_table_fits [of "tally rq" "tally rs"] by (simp add: mw_consts count_table_spec)
  then have len: "length (padded MW_DEBUGFS_BUFF_SIZE (message_table rq rs)) = MW_DEBUGFS_BUFF_SIZE" by (simp add: length_padded)
  have "sread n (int k) (padded MW_DEBUGFS_BUFF_SIZE (message_table rq rs)) MW_DEBUGFS_BUFF_SIZE
      = (let d = take n (drop k (padded MW_DEBUGFS_BUFF_SIZE (message_table rq rs))) in (int (length d), d, int k + int (length d)))"
    using assms(1) len by (simp add: reads_buffer_def)
  then show ?thesis using fits by (simp add: mw_debugfs_buffer_reader_def make_count_buffer_eq c count_table_spec Let_def)
qed

text \<open>An example: one request of type 0 is counted; its number starts at byte 88 of the table.\<close>

definition sread_demo :: sread where
  "sread_demo n pos a m = (let d = take n (drop (nat pos) (take m a)) in (int (length d), d, pos + int (length d)))"

lemma sread_demo_reads: "reads_buffer sread_demo"
  by (simp add: reads_buffer_def sread_demo_def Let_def)

theorem message_counts_exact_witness:
  "\<exists>t. mw_debugfs_buffer_reader sread_demo 1 88 (fold dbg_do [CountRequest rq_zero, WriteTracing 1, CountRequest rq_zero] debugfs_loaded)
     = Some ((1, ''1'', 89), t)"
proof -
  have see: "fold see [CountRequest rq_zero, WriteTracing 1, CountRequest rq_zero] (False, [], []) = (True, [Some MtRequestInvalid], [])" by code_simp
  have "take 1 (drop 88 (padded MW_DEBUGFS_BUFF_SIZE (message_table [Some MtRequestInvalid] []))) = ''1''"
    unfolding count_table_spec [symmetric] by code_simp
  then show ?thesis using message_counts_exact [OF sread_demo_reads see, of 1 88] by simp
qed

section \<open>The trace as a queue\<close>

text \<open>The entries of the trace, the most recent first.\<close>

definition trace_entries :: "mw_debugfs \<Rightarrow> mwsocket_trace_buffer list" where
  "trace_entries s = (let c = unat (g_mw_trace_cur s) mod MW_DEBUGFS_TRACE_BUF_MAX in
     map (\<lambda>j. g_mw_trace_buf s ! ((c + MW_DEBUGFS_TRACE_BUF_MAX - j) mod MW_DEBUGFS_TRACE_BUF_MAX)) [0..<MW_DEBUGFS_TRACE_BUF_MAX])"

lemma trace_index_eq:
  assumes "unat c < 2 ^ 63"
  shows "trace_index c = Some (unat c mod MW_DEBUGFS_TRACE_BUF_MAX)"
proof -
  have "uint c < 2 ^ 63" using assms by (simp add: uint_nat)
  then have "sint c = int (unat c)" using signed_take_bit_int_eq_self [of 63 "uint c"] by (simp add: sint_uint uint_nat)
  then show ?thesis by (simp add: trace_index_def c_rem_def Let_def nat_mod_as_int mw_consts)
qed

lemma trace_line_plain: "plain 204 (trace_line tb)"
proof -
  have c: "plain 1 '':''" by (simp add: plain_def NUL_def)
  note u64 = plain_append [OF u64_plain plain_append [OF c]] and u32 = plain_append [OF u32_plain plain_append [OF c]]
  have "plain (20 + (1 + (10 + (1 + (10 + (1 + (10 + (1 + (20 + (1 + (20 + (1 + (20 + (1 + (20 + (1 + (20 + (1 + (20 + (1 + (20 + 1))))))))))))))))))))) (trace_line tb)"
    unfolding trace_line_def by (intro u64 u32 plain_append [OF u64_plain newline_plain])
  then show ?thesis by (rule plain_mono) simp
qed

lemma prev_index: "j < m \<Longrightarrow> cur < m \<Longrightarrow> (cur + m - Suc j) mod m = ((if cur = 0 then m - 1 else cur - 1) + m - j) mod (m :: nat)"
proof (cases "cur = 0")
  case True
  assume "j < m"
  then have "m - 1 + m - j = (m - Suc j) + m" by simp
  then have "(m - 1 + m - j) mod m = (m - Suc j) mod m" by (simp only: mod_add_self2)
  then show ?thesis using True by simp
qed simp

lemma rt_loop_eq:
  assumes "n \<le> MW_DEBUGFS_TRACE_BUF_MAX" and "cur < MW_DEBUGFS_TRACE_BUF_MAX" and "NUL \<notin> set str" and "length str + 204 * n < MW_DEBUGFS_RT_BUFF_SIZE"
    and "mw_debugfs_rt_buffer s = padded MW_DEBUGFS_RT_BUFF_SIZE str"
  shows "rt_loop n cur s = Some (s\<lparr>mw_debugfs_rt_buffer := padded MW_DEBUGFS_RT_BUFF_SIZE (str
    @ concat (map (\<lambda>j. trace_line (g_mw_trace_buf s ! ((cur + MW_DEBUGFS_TRACE_BUF_MAX - j) mod MW_DEBUGFS_TRACE_BUF_MAX))) [0..<n]))\<rparr>)"
  using assms
proof (induction n arbitrary: cur str s)
  case (Suc n)
  let ?l = "trace_line (g_mw_trace_buf s ! cur)" and ?prev = "if cur = 0 then MW_DEBUGFS_TRACE_BUF_MAX - 1 else cur - 1"
  have l: "NUL \<notin> set ?l" "length ?l \<le> 204" using trace_line_plain by (auto simp: plain_def)
  have "mw_debugfs_rt_buff_append ?l s = Some (s\<lparr>mw_debugfs_rt_buffer := padded MW_DEBUGFS_RT_BUFF_SIZE (str @ ?l)\<rparr>)"
    using Suc.prems l buff_append_padded [of str MW_DEBUGFS_RT_LINE_SIZE ?l MW_DEBUGFS_RT_BUFF_SIZE]
    by (simp add: mw_debugfs_rt_buff_append_def mw_consts plain_def)
  moreover have "(cur + MW_DEBUGFS_TRACE_BUF_MAX - Suc j) mod MW_DEBUGFS_TRACE_BUF_MAX = (?prev + MW_DEBUGFS_TRACE_BUF_MAX - j) mod MW_DEBUGFS_TRACE_BUF_MAX"
    if "j < n" for j
    using that Suc.prems(1,2) by (intro prev_index) simp_all
  then have "map (\<lambda>j. trace_line (g_mw_trace_buf s ! ((cur + MW_DEBUGFS_TRACE_BUF_MAX - j) mod MW_DEBUGFS_TRACE_BUF_MAX))) [0..<Suc n]
      = ?l # map (\<lambda>j. trace_line (g_mw_trace_buf s ! ((?prev + MW_DEBUGFS_TRACE_BUF_MAX - j) mod MW_DEBUGFS_TRACE_BUF_MAX))) [0..<n]"
    using Suc.prems(2) by (simp add: map_upt_Suc del: upt_Suc)
  moreover have "?prev < MW_DEBUGFS_TRACE_BUF_MAX" using Suc.prems(2) by (simp add: less_imp_diff_less)
  ultimately show ?case
    using Suc.IH [of ?prev "str @ ?l" "s\<lparr>mw_debugfs_rt_buffer := padded MW_DEBUGFS_RT_BUFF_SIZE (str @ ?l)\<rparr>"] Suc.prems l
    by (simp del: upt_Suc)
qed simp

lemma make_rt_buffer_eq:
  assumes "unat (g_mw_trace_cur s) < 2 ^ 63"
  shows "mw_debugfs_make_rt_buffer s = Some (s\<lparr>mw_debugfs_rt_buffer := padded MW_DEBUGFS_RT_BUFF_SIZE (concat (map trace_line (trace_entries s)))\<rparr>)"
proof -
  have "padded MW_DEBUGFS_RT_BUFF_SIZE [] = replicate MW_DEBUGFS_RT_BUFF_SIZE NUL" by (simp add: padded_def)
  then show ?thesis
    using rt_loop_eq [of MW_DEBUGFS_TRACE_BUF_MAX "unat (g_mw_trace_cur s) mod MW_DEBUGFS_TRACE_BUF_MAX" "[]"
        "s\<lparr>mw_debugfs_rt_buffer := replicate MW_DEBUGFS_RT_BUFF_SIZE NUL\<rparr>"]
    by (simp add: mw_debugfs_make_rt_buffer_def trace_index_eq [OF assms] trace_entries_def Let_def comp_def mw_consts del: upt_Suc)
qed

text \<open>The text of the trace: the entries, complete. The reader gives as many bytes as the text has.\<close>

definition trace_text :: "mw_debugfs \<Rightarrow> string" where
  "trace_text s = concat (map trace_line (trace_entries s))"

lemma trace_text_plain: "plain 102000 (trace_text s)"
proof -
  have "\<forall>l \<in> set (map trace_line (trace_entries s)). plain 204 l" using trace_line_plain by simp
  then show ?thesis
    using length_concat_le [of "map trace_line (trace_entries s)" 204] by (auto simp: plain_def trace_text_def trace_entries_def Let_def mw_consts)
qed

lemma rt_reader_eq:
  assumes "unat (g_mw_trace_cur s) < 2 ^ 63" and "reads_buffer sread"
  shows "\<exists>t. mw_debugfs_rt_reader sread n (int k) s
    = Some (let d = take n (drop k (trace_text s)) in (int (length d), d, int k + int (length d)), t)"
proof -
  let ?a = "padded MW_DEBUGFS_RT_BUFF_SIZE (trace_text s)"
  have len: "strnlen ?a MW_DEBUGFS_RT_BUFF_SIZE = length (trace_text s)" "length (trace_text s) \<le> length ?a"
    using trace_text_plain [of s] by (auto simp: plain_def mw_consts padded_def intro!: strnlen_padded [unfolded padded_def])
  have "take (length (trace_text s)) ?a = trace_text s" by (simp add: padded_def)
  then have "sread n (int k) ?a (length (trace_text s)) = (let d = take n (drop k (trace_text s)) in (int (length d), d, int k + int (length d)))"
    using assms(2) len(2) unfolding reads_buffer_def by metis
  then show ?thesis by (simp add: mw_debugfs_rt_reader_def make_rt_buffer_eq [OF assms(1)] trace_text_def [symmetric] len(1))
qed

lemma newest_differs:
  assumes "Suc i < m"
  shows "(c + (m - i)) mod m \<noteq> (c + 1) mod (m :: nat)"
proof
  assume "(c + (m - i)) mod m = (c + 1) mod m"
  then have "(c + (m - i) mod m) mod m = (c + 1) mod m" by (simp add: mod_add_right_eq)
  then have "(m - i) mod m = 1" using assms by (intro add_mod_inj [of _ m 1 c]) auto
  then show False using assms by (cases i) auto
qed

text \<open>A new request becomes the first entry, and the last one is forgotten.\<close>

lemma trace_create_queue:
  assumes "length (g_mw_trace_buf s) = MW_DEBUGFS_TRACE_BUF_MAX" and "unat (g_mw_trace_cur s) + 1 < 2 ^ 63"
  shows "\<exists>tb t. trace_create pid fops t1 ktime s = Some (tb, t) \<and> length (g_mw_trace_buf t) = MW_DEBUGFS_TRACE_BUF_MAX
    \<and> unat (g_mw_trace_cur t) = unat (g_mw_trace_cur s) + 1
    \<and> trace_entries t = tb_zero\<lparr>tb_pid := pid, tb_index := of_nat tb, tb_fops := fops, tb_t_mw1 := t1, tb_t_mw2 := ktime\<rparr> # butlast (trace_entries s)"
proof -
  let ?m = MW_DEBUGFS_TRACE_BUF_MAX and ?c = "unat (g_mw_trace_cur s)"
  have cur: "unat (g_mw_trace_cur s + 1) = ?c + 1" using assms(2) by (simp add: unat_word_ariths)
  let ?tb = "(?c + 1) mod ?m"
  let ?e = "tb_zero\<lparr>tb_pid := pid, tb_index := of_nat ?tb, tb_fops := fops, tb_t_mw1 := t1, tb_t_mw2 := ktime\<rparr>"
  let ?t = "s\<lparr>g_mw_trace_cur := g_mw_trace_cur s + 1, g_mw_trace_buf := (g_mw_trace_buf s)[?tb := ?e]\<rparr>"
  have m: "0 < ?m" by (simp add: mw_consts)
  have "trace_create pid fops t1 ktime s = Some (?tb, ?t)"
    using assms(2) cur by (simp add: trace_create_def Let_def trace_index_eq)
  moreover have "trace_entries ?t = ?e # butlast (trace_entries s)"
  proof (rule nth_equalityI)
    fix j
    assume "j < length (trace_entries ?t)"
    then have j: "j < ?m" by (simp add: trace_entries_def Let_def)
    have idx: "(x mod ?m + ?m - k) mod ?m = (x + (?m - k)) mod ?m" if "k < ?m" for x k
      using that mod_add_left_eq [of x ?m "?m - k"] by simp
    show "trace_entries ?t ! j = (?e # butlast (trace_entries s)) ! j"
    proof (cases j)
      case 0
      then show ?thesis using j assms(1) m by (simp add: trace_entries_def Let_def cur)
    next
      case (Suc i)
      then have "(?c + 1) + (?m - j) = ?c + (?m - i)" using j by simp
      then have "((?c + 1) mod ?m + ?m - j) mod ?m = (?c + (?m - i)) mod ?m" using idx [OF j, of "?c + 1"] by (simp only:)
      moreover have "(?c + (?m - i)) mod ?m \<noteq> (?c + 1) mod ?m" using Suc j by (intro newest_differs) simp_all
      ultimately show ?thesis
        using Suc j idx [of i ?c] by (simp add: trace_entries_def Let_def cur nth_butlast)
    qed
  qed (use m in \<open>simp add: trace_entries_def Let_def\<close>)
  ultimately show ?thesis using assms(1) cur by simp
qed

lemma trace_create_index: "trace_create pid fops t1 ktime s = Some (tb, t) \<Longrightarrow> unat (g_mw_trace_cur s) + 1 < 2 ^ 63
    \<Longrightarrow> tb = (unat (g_mw_trace_cur s) + 1) mod MW_DEBUGFS_TRACE_BUF_MAX"
  by (auto simp: trace_create_def Let_def trace_index_eq unat_word_ariths)

text \<open>A request writes into its entry, which is that of the request at this position of the trace.\<close>

lemma entry_inj:
  assumes "i < m" and "j < m" and "(c + (m - i)) mod m = (c + (m - j)) mod (m :: nat)"
  shows "i = j"
proof -
  have "(c + (m - i) mod m) mod m = (c + (m - j) mod m) mod m" using assms(3) by (simp add: mod_add_right_eq)
  then have "(m - i) mod m = (m - j) mod m" by (rule add_mod_inj [rotated 2]) (use assms(1) in simp_all)
  moreover have "(m - k) mod m = (if k = 0 then 0 else m - k)" if "k < m" for k using that by (cases k) simp_all
  ultimately show ?thesis using assms(1,2) by (auto split: if_split_asm)
qed

lemma upd_trace_entries:
  assumes "length (g_mw_trace_buf s) = MW_DEBUGFS_TRACE_BUF_MAX" and "j < MW_DEBUGFS_TRACE_BUF_MAX"
    and "tb = (unat (g_mw_trace_cur s) + (MW_DEBUGFS_TRACE_BUF_MAX - j)) mod MW_DEBUGFS_TRACE_BUF_MAX"
  shows "trace_entries (upd_trace tb f s) = (trace_entries s)[j := f (trace_entries s ! j)]"
proof (rule nth_equalityI)
  let ?m = MW_DEBUGFS_TRACE_BUF_MAX and ?c = "unat (g_mw_trace_cur s)"
  fix i
  assume "i < length (trace_entries (upd_trace tb f s))"
  then have i: "i < ?m" by (simp add: trace_entries_def Let_def)
  have idx: "(?c mod ?m + ?m - k) mod ?m = (?c + (?m - k)) mod ?m" if "k < ?m" for k
    using that mod_add_left_eq [of ?c ?m "?m - k"] by simp
  have "tb < length (g_mw_trace_buf s)" using assms i by simp
  then show "trace_entries (upd_trace tb f s) ! i = (trace_entries s)[j := f (trace_entries s ! j)] ! i"
    using entry_inj [OF i assms(2), of ?c] i assms(2,3) idx [OF i] idx [OF assms(2)]
    by (cases "i = j") (auto simp: trace_entries_def upd_trace_def Let_def nth_list_update)
qed (simp add: trace_entries_def upd_trace_def Let_def)

text \<open>
  The life of requests as the trace sees it. Requests are numbered from 0 in the order of their creation, and each keeps the entry that it took then, its \<open>tb\<close>, to write into it later.
\<close>

datatype trace_event =
    TraceCreate u32 u32 u64 u64
  | TraceSlot nat u64
  | TraceSent nat u64 u32
  | TraceResponse nat u64 mt_response_generic
  | TraceDestroy nat u64

definition with_tb :: "nat \<Rightarrow> (nat \<Rightarrow> mw_debugfs \<Rightarrow> mw_debugfs) \<Rightarrow> nat list \<times> mw_debugfs \<Rightarrow> (nat list \<times> mw_debugfs) option" where
  "with_tb r f = (\<lambda>(tbs, s). if r < length tbs then Some (tbs, f (tbs ! r) s) else None)"

fun trace_do :: "trace_event \<Rightarrow> nat list \<times> mw_debugfs \<Rightarrow> (nat list \<times> mw_debugfs) option" where
  "trace_do (TraceCreate pid fops t1 ktime) (tbs, s) = map_option (\<lambda>(tb, s). (tbs @ [tb], s)) (trace_create pid fops t1 ktime s)"
| "trace_do (TraceSlot r ktime) v = with_tb r (\<lambda>tb. trace_slot tb ktime) v"
| "trace_do (TraceSent r ktime typ) v = with_tb r (\<lambda>tb. trace_sent tb ktime typ) v"
| "trace_do (TraceResponse r ktime rsp) v = with_tb r (\<lambda>tb. trace_response tb ktime rsp) v"
| "trace_do (TraceDestroy r ktime) v = with_tb r (\<lambda>tb. trace_destroy tb ktime) v"

fun trace_run :: "trace_event list \<Rightarrow> nat list \<times> mw_debugfs \<Rightarrow> (nat list \<times> mw_debugfs) option" where
  "trace_run [] v = Some v"
| "trace_run (e # es) v = Option.bind (trace_do e v) (trace_run es)"

text \<open>
  The specification: a note for each request, the most recent first. What happens to a request changes its note, as long as it is one of the last 500. An older request
  has lost its entry, and changes the note of the request that has taken it over.
\<close>

definition change :: "nat \<Rightarrow> (mwsocket_trace_buffer \<Rightarrow> mwsocket_trace_buffer) \<Rightarrow> mwsocket_trace_buffer list \<Rightarrow> mwsocket_trace_buffer list" where
  "change r f ns = (let j = (length ns - 1 - r) mod 500 in ns[j := f (ns ! j)])"

fun trace_note :: "trace_event \<Rightarrow> mwsocket_trace_buffer list \<Rightarrow> mwsocket_trace_buffer list" where
  "trace_note (TraceCreate pid fops t1 ktime) ns =
     tb_zero\<lparr>tb_index := of_nat (Suc (length ns) mod 500), tb_pid := pid, tb_fops := fops, tb_t_mw1 := t1, tb_t_mw2 := ktime\<rparr> # ns"
| "trace_note (TraceSlot r ktime) ns = change r (\<lambda>e. e\<lparr>tb_t_mw3 := ktime\<rparr>) ns"
| "trace_note (TraceSent r ktime typ) ns = change r (\<lambda>e. e\<lparr>tb_t_mw4 := ktime, tb_type := typ AND 0xff\<rparr>) ns"
| "trace_note (TraceResponse r ktime rsp) ns = change r (\<lambda>e. e\<lparr>tb_t_mw5 := ktime, tb_t_ins := rs_ts_ins (rs_base rsp)\<rparr>) ns"
| "trace_note (TraceDestroy r ktime) ns = change r (\<lambda>e. e\<lparr>tb_t_mw6 := ktime\<rparr>) ns"

text \<open>Only requests that have been created do anything; \<open>n\<close> is their number.\<close>

fun created_first :: "trace_event list \<Rightarrow> nat \<Rightarrow> bool" where
  "created_first [] n \<longleftrightarrow> True"
| "created_first (TraceCreate pid fops t1 ktime # es) n \<longleftrightarrow> created_first es (n + 1)"
| "created_first (TraceSlot r ktime # es) n \<longleftrightarrow> r < n \<and> created_first es n"
| "created_first (TraceSent r ktime typ # es) n \<longleftrightarrow> r < n \<and> created_first es n"
| "created_first (TraceResponse r ktime rsp # es) n \<longleftrightarrow> r < n \<and> created_first es n"
| "created_first (TraceDestroy r ktime # es) n \<longleftrightarrow> r < n \<and> created_first es n"

fun trace_noted :: "nat list \<times> mw_debugfs \<Rightarrow> mwsocket_trace_buffer list \<Rightarrow> bool" where
  "trace_noted (tbs, s) ns \<longleftrightarrow> length (g_mw_trace_buf s) = 500 \<and> unat (g_mw_trace_cur s) = length ns \<and> tbs = map (\<lambda>r. Suc r mod 500) [0..<length ns]
     \<and> trace_entries s = take 500 (ns @ replicate 500 tb_zero)"

lemma length_change [simp]: "length (change r f ns) = length ns"
  by (simp add: change_def Let_def)

lemma entry_of_request:
  assumes "r < (n :: nat)" and "0 < m"
  shows "(n + (m - (n - 1 - r) mod m)) mod m = Suc r mod m"
proof -
  define q k where "q = (n - 1 - r) mod m" and "k = (n - 1 - r) div m"
  have "q \<le> m" using assms(2) by (simp add: q_def less_imp_le)
  moreover have "n - 1 - r = k * m + q" by (simp add: q_def k_def)
  then have "n = k * m + q + Suc r" using assms(1) by linarith
  ultimately have "n + (m - q) = Suc r + (k + 1) * m" by simp
  then show ?thesis unfolding q_def [symmetric] by (simp only: mod_mult_self1)
qed

lemma noted_change:
  assumes "trace_noted v ns" and "r < length ns"
  shows "\<exists>w. with_tb r (\<lambda>tb. upd_trace tb f) v = Some w \<and> trace_noted w (change r f ns)"
proof -
  obtain tbs s where v: "v = (tbs, s)" by (cases v)
  let ?j = "(length ns - 1 - r) mod 500"
  have j: "?j < length ns" "?j < 500" using assms(2) by (auto intro: le_less_trans [OF mod_less_eq_dividend])
  have tb: "tbs ! r = (unat (g_mw_trace_cur s) + (500 - ?j)) mod 500" "r < length tbs"
    using assms entry_of_request [OF assms(2), of 500] by (auto simp: v)
  have "trace_entries (upd_trace (tbs ! r) f s) = (take 500 (ns @ replicate 500 tb_zero))[?j := f (take 500 (ns @ replicate 500 tb_zero) ! ?j)]"
    using upd_trace_entries [of s ?j "tbs ! r" f] assms(1) j(2) tb(1) by (simp add: v mw_consts)
  also have "\<dots> = take 500 (change r f ns @ replicate 500 tb_zero)"
    using j by (simp add: change_def Let_def take_update_swap [symmetric] list_update_append nth_append)
  finally show ?thesis using assms(1) tb(2) by (simp add: v with_tb_def upd_trace_def)
qed

lemma noted_create:
  assumes "trace_noted v ns" and "Suc (length ns) < 2 ^ 63"
  shows "\<exists>w. trace_do (TraceCreate pid fops t1 ktime) v = Some w \<and> trace_noted w (trace_note (TraceCreate pid fops t1 ktime) ns)"
proof -
  obtain tbs s where v: "v = (tbs, s)" by (cases v)
  obtain tb t where t: "trace_create pid fops t1 ktime s = Some (tb, t)" "length (g_mw_trace_buf t) = 500" "unat (g_mw_trace_cur t) = unat (g_mw_trace_cur s) + 1"
    "trace_entries t = tb_zero\<lparr>tb_pid := pid, tb_index := of_nat tb, tb_fops := fops, tb_t_mw1 := t1, tb_t_mw2 := ktime\<rparr> # butlast (trace_entries s)"
    using trace_create_queue [of s pid fops t1 ktime] assms by (auto simp: v mw_consts)
  have tb: "tb = Suc (length ns) mod 500" using trace_create_index [OF t(1)] assms by (simp add: v mw_consts)
  have "butlast (take 500 (ns @ replicate 500 tb_zero)) = take 499 (ns @ replicate 500 tb_zero)"
    by (simp add: butlast_conv_take take_append [symmetric] del: take_append)
  moreover have "take 500 (e # es) = e # take 499 es" for e :: mwsocket_trace_buffer and es by (simp add: take_Cons')
  ultimately show ?thesis using t assms(1) tb by (simp add: v del: take_append)
qed

lemma trace_do_noted:
  assumes "trace_noted v ns" and "created_first (e # es) (length ns)" and "Suc (length ns) < 2 ^ 63"
  shows "\<exists>w. trace_do e v = Some w \<and> trace_noted w (trace_note e ns) \<and> created_first es (length (trace_note e ns))"
  using assms(2) noted_change [OF assms(1)] noted_create [OF assms(1,3)]
  by (cases e) (auto simp: trace_slot_def trace_sent_def trace_response_def trace_destroy_def)

lemma length_note: "length (trace_note e ns) \<le> Suc (length ns)"
  by (cases e) simp_all

lemma trace_run_noted:
  "trace_noted v ns \<Longrightarrow> created_first es (length ns) \<Longrightarrow> length ns + length es < 2 ^ 63 \<Longrightarrow>
    \<exists>w. trace_run es v = Some w \<and> trace_noted w (fold trace_note es ns) \<and> length (fold trace_note es ns) < 2 ^ 63"
proof (induction es arbitrary: v ns)
  case (Cons e es)
  then obtain w where w: "trace_do e v = Some w" "trace_noted w (trace_note e ns)" "created_first es (length (trace_note e ns))" using trace_do_noted [of v ns e es] by auto
  moreover have "length (trace_note e ns) + length es < 2 ^ 63" using Cons.prems(3) length_note [of e ns] by simp
  ultimately show ?case using Cons.IH [of w "trace_note e ns"] by simp
qed simp

text \<open>
  C39 (functional). After any life of requests since the module was loaded, creations, slots, sendings, responses and destructions in any order, one call of read on \<^verbatim>\<open>request_trace\<close>
  returns the asked bytes of this text: one complete line for each of the last 500 requests, the most recent first, with what has been noted of it, and after them lines of zeros if there
  were fewer than 500. A line has eleven fields. What happens to a request that is no longer among the last 500 is noted in the line of the request that has taken over its entry. The read never writes past the end of its buffer.
\<close>

theorem request_trace_recent_first:
  assumes "reads_buffer sread" and "created_first es 0" and "length es < 2 ^ 63"
  shows "\<exists>tbs s t. trace_run es ([], debugfs_loaded) = Some (tbs, s)
    \<and> mw_debugfs_rt_reader sread n (int k) s = Some (let d = take n (drop k (concat (map trace_line
         (take 500 (fold trace_note es [] @ replicate 500 tb_zero))))) in (int (length d), d, int k + int (length d)), t)"
proof -
  have "trace_entries debugfs_loaded = replicate MW_DEBUGFS_TRACE_BUF_MAX tb_zero"
    by (rule nth_equalityI) (simp_all add: trace_entries_def debugfs_loaded_def Let_def mw_consts del: upt_Suc replicate.simps)
  then have "trace_noted ([], debugfs_loaded) []" by (simp add: debugfs_loaded_def mw_consts)
  from trace_run_noted [OF this] assms(2,3) obtain tbs s where s: "trace_run es ([], debugfs_loaded) = Some (tbs, s)"
    "trace_noted (tbs, s) (fold trace_note es [])" "length (fold trace_note es []) < 2 ^ 63" by (metis add_0 list.size(3) surj_pair)
  then have e: "trace_entries s = take 500 (fold trace_note es [] @ replicate 500 tb_zero)" "unat (g_mw_trace_cur s) < 2 ^ 63" by simp_all
  show ?thesis using s(1) rt_reader_eq [OF e(2) assms(1), of n k] unfolding trace_text_def e(1) by blast
qed

text \<open>An example: two requests; the first one is sent while the second one is being created.\<close>

theorem request_trace_recent_first_witness:
  "\<exists>tbs s t. trace_run [TraceCreate 6 1 10 11, TraceSlot 0 12, TraceCreate 7 2 13 14, TraceSent 0 15 0x20] ([], debugfs_loaded) = Some (tbs, s)
     \<and> mw_debugfs_rt_reader sread_demo 27 24 s = Some ((27, ''1:6:1:32:10:11:12:15:0:0:0'' @ newline, 51), t)"
proof -
  let ?es = "[TraceCreate 6 1 10 11, TraceSlot 0 12, TraceCreate 7 2 13 14, TraceSent 0 15 0x20]"
  have ok: "created_first ?es 0" by simp
  define x y where "x = tb_zero\<lparr>tb_index := 2, tb_pid := 7, tb_fops := 2, tb_t_mw1 := 13, tb_t_mw2 := 14\<rparr>"
    and "y = tb_zero\<lparr>tb_index := 1, tb_pid := 6, tb_fops := 1, tb_type := 0x20, tb_t_mw1 := 10, tb_t_mw2 := 11, tb_t_mw3 := 12, tb_t_mw4 := 15\<rparr>"
  have "fold trace_note ?es [] = [x, y]" by (simp add: change_def x_def y_def)
  then have q: "take 500 (fold trace_note ?es [] @ replicate 500 tb_zero) = x # y # replicate 498 tb_zero" by (simp add: take_Cons')
  have "trace_line x = ''2:7:2:0:13:14:0:0:0:0:0'' @ newline" unfolding x_def by code_simp
  moreover have "trace_line y = ''1:6:1:32:10:11:12:15:0:0:0'' @ newline" unfolding y_def by code_simp
  ultimately have d: "take 27 (drop 24 (concat (map trace_line (x # y # zs)))) = ''1:6:1:32:10:11:12:15:0:0:0'' @ newline" for zs
    by (simp add: newline_def)
  then show ?thesis using request_trace_recent_first [OF sread_demo_reads ok, of 27 24] unfolding q d Let_def by (simp add: newline_def del: trace_run.simps)
qed

end
