(* ===== verification/NpfMem.thy ===== *)
theory NpfMem
  imports Prelude
begin

text \<open>
  The record of allocations that turns the program npfctl into a library of the INS, src/ins/ins-rump/apps/lib/npfctl/memintercept.c. A command of npfctl, such as the
  one for a MtRequestAddrBlock, runs between \<open>npf_mem_init\<close> and \<open>npf_mem_fini\<close>; its allocations are noted in an array and freed at the
  end. The allocation functions of libutil are an argument. An access outside an array, or to an entry that was never written, is \<open>None\<close>.
\<close>

section \<open>State and operations\<close>

datatype mcall =
    EMalloc nat
  | ECalloc nat nat
  | ERealloc "nat option" nat
  | MFree nat

text \<open>The functions of libutil and \<open>free\<close>: a pointer, none for NULL, and the next state of the world.\<close>

type_synonym 'w mem = "mcall \<Rightarrow> 'w \<Rightarrow> nat option \<times> 'w"

text \<open>An entry of the array; \<open>Uninit\<close> is one that \<open>erealloc\<close> has added.\<close>

datatype ptr_cell = Null | Ptr nat | Uninit

record 'w npf_mem =
  arr_elem :: nat
  malloc_count :: nat
  free_count :: nat
  ptr_array :: "(nat \<times> ptr_cell list) option"
  leak_reports :: nat
  mworld :: 'w
  mtrace :: "(mcall \<times> nat option) list"

definition npf_loaded :: "'w \<Rightarrow> 'w npf_mem" where
  "npf_loaded w = \<lparr>arr_elem = 256, malloc_count = 0, free_count = 0, ptr_array = None, leak_reports = 0, mworld = w, mtrace = []\<rparr>"

definition mdo :: "'w mem \<Rightarrow> mcall \<Rightarrow> 'w npf_mem \<Rightarrow> nat option \<times> 'w npf_mem" where
  "mdo mem c s = (let (r, w) = mem c (mworld s) in (r, s\<lparr>mworld := w, mtrace := mtrace s @ [(c, r)]\<rparr>))"

definition PTR_SIZE :: nat where "PTR_SIZE = 8"

definition npf_mem_init :: "'w mem \<Rightarrow> 'w npf_mem \<Rightarrow> 'w npf_mem" where
  "npf_mem_init mem s =
    (let (r, s) = mdo mem (ECalloc (arr_elem s) PTR_SIZE) s
     in s\<lparr>ptr_array := map_option (\<lambda>p. (p, replicate (arr_elem s) Null)) r\<rparr>)"

text \<open>An entry that is read: \<open>Some None\<close> is NULL.\<close>

definition read_cell :: "nat \<Rightarrow> 'w npf_mem \<Rightarrow> nat option option" where
  "read_cell i s = Option.bind (ptr_array s) (\<lambda>(p, arr). if i < length arr
     then (case arr ! i of Null \<Rightarrow> Some None | Ptr q \<Rightarrow> Some (Some q) | Uninit \<Rightarrow> None) else None)"

definition write_cell :: "nat \<Rightarrow> ptr_cell \<Rightarrow> 'w npf_mem \<Rightarrow> 'w npf_mem option" where
  "write_cell i v s = Option.bind (ptr_array s) (\<lambda>(p, arr). if i < length arr then Some (s\<lparr>ptr_array := Some (p, arr[i := v])\<rparr>) else None)"

fun swap_loop :: "nat \<Rightarrow> nat \<Rightarrow> nat option \<Rightarrow> nat \<Rightarrow> 'w npf_mem \<Rightarrow> 'w npf_mem option" where
  "swap_loop 0 i old_ptr new_ptr s = Some s"
| "swap_loop (Suc k) i old_ptr new_ptr s =
    Option.bind (read_cell i s) (\<lambda>e.
      if e = None then swap_loop k (i + 1) old_ptr new_ptr s
      else if e = old_ptr then write_cell i (Ptr new_ptr) s
      else swap_loop k (i + 1) old_ptr new_ptr s)"

definition realloc_swap :: "nat option \<Rightarrow> nat \<Rightarrow> 'w npf_mem \<Rightarrow> 'w npf_mem option" where
  "realloc_swap old_ptr new_ptr s = swap_loop (malloc_count s) 0 old_ptr new_ptr s"

text \<open>
  The array grows only when \<open>malloc_count\<close> is past its end. What is tested after \<open>erealloc\<close> is the old pointer, which is not NULL here, so that the branch that returns -1
  is taken only if there was no array.
\<close>

definition check_malloc :: "'w mem \<Rightarrow> 'w npf_mem \<Rightarrow> int \<times> 'w npf_mem" where
  "check_malloc mem s =
    (if malloc_count s > arr_elem s then
       let new_arr_elem = arr_elem s * 2;
           (r, s) = mdo mem (ERealloc (map_option fst (ptr_array s)) (new_arr_elem * PTR_SIZE)) s
       in if ptr_array s = None then (-1, s)
          else (0, s\<lparr>arr_elem := new_arr_elem,
                 ptr_array := map_option (\<lambda>p. (p, take new_arr_elem (snd (the (ptr_array s)) @ replicate new_arr_elem Uninit))) r\<rparr>)
     else (0, s))"

fun fini_loop :: "'w mem \<Rightarrow> nat \<Rightarrow> nat \<Rightarrow> 'w npf_mem \<Rightarrow> 'w npf_mem option" where
  "fini_loop mem 0 i s = Some s"
| "fini_loop mem (Suc k) i s =
    Option.bind (read_cell i s) (\<lambda>e. case e of
        None \<Rightarrow> fini_loop mem k (i + 1) s
      | Some p \<Rightarrow> Option.bind (write_cell i Null (snd (mdo mem (MFree p) s)))
          (\<lambda>s. fini_loop mem k (i + 1) (s\<lparr>free_count := free_count s + 1\<rparr>)))"

definition npf_mem_fini :: "'w mem \<Rightarrow> 'w npf_mem \<Rightarrow> 'w npf_mem option" where
  "npf_mem_fini mem s =
    map_option (\<lambda>s. if free_count s \<noteq> malloc_count s then s\<lparr>leak_reports := leak_reports s + 1\<rparr> else s)
      (fini_loop mem (malloc_count s + 1) 0 s)"

text \<open>The end of an allocation: the pointer is noted.\<close>

definition note_alloc :: "nat option \<times> 'w npf_mem \<Rightarrow> (nat option \<times> 'w npf_mem) option" where
  "note_alloc = (\<lambda>(r, s). case r of
       None \<Rightarrow> Some (None, s)
     | Some p \<Rightarrow> map_option (\<lambda>s. (Some p, s\<lparr>malloc_count := malloc_count s + 1\<rparr>)) (write_cell (malloc_count s) (Ptr p) s))"

definition npf_emalloc :: "'w mem \<Rightarrow> nat \<Rightarrow> 'w npf_mem \<Rightarrow> (nat option \<times> 'w npf_mem) option" where
  "npf_emalloc mem n s =
    (let (rc, s) = check_malloc mem s in if rc \<noteq> 0 then Some (None, s) else note_alloc (mdo mem (EMalloc n) s))"

definition npf_ecalloc :: "'w mem \<Rightarrow> nat \<Rightarrow> nat \<Rightarrow> 'w npf_mem \<Rightarrow> (nat option \<times> 'w npf_mem) option" where
  "npf_ecalloc mem n m s =
    (let (rc, s) = check_malloc mem s in if rc \<noteq> 0 then Some (None, s) else note_alloc (mdo mem (ECalloc n m) s))"

definition npf_erealloc :: "'w mem \<Rightarrow> nat option \<Rightarrow> nat \<Rightarrow> 'w npf_mem \<Rightarrow> (nat option \<times> 'w npf_mem) option" where
  "npf_erealloc mem cp nbytes s =
    (let (r, s) = mdo mem (ERealloc cp nbytes) s in
     case r of None \<Rightarrow> Some (None, s) | Some p \<Rightarrow> map_option (\<lambda>s. (Some p, s)) (realloc_swap cp p s))"

definition npf_free :: "nat option \<Rightarrow> 'w npf_mem \<Rightarrow> 'w npf_mem" where
  "npf_free cp s = s"

section \<open>The array as a list of pointers\<close>

text \<open>
  After \<open>c\<close> allocations of earlier commands, the pointers \<open>ps\<close> have been noted. The first \<open>c\<close> entries are NULL, because the array is a new one and the count is not.
\<close>

definition noted :: "nat \<Rightarrow> nat list \<Rightarrow> 'w npf_mem \<Rightarrow> bool" where
  "noted c ps s \<longleftrightarrow> malloc_count s = c + length ps \<and> c + length ps \<le> 256 \<and> arr_elem s = 256 \<and> free_count s = c
     \<and> (\<exists>p. ptr_array s = Some (p, replicate c Null @ map Ptr ps @ replicate (256 - c - length ps) Null))"

text \<open>What is freed in a trace.\<close>

definition freed :: "(mcall \<times> nat option) list \<Rightarrow> nat list" where
  "freed tr = concat (map (\<lambda>(c, r). case c of MFree p \<Rightarrow> [p] | _ \<Rightarrow> []) tr)"

lemma freed_simps [simp]: "freed [] = []" "freed (xs @ ys) = freed xs @ freed ys" "freed [(MFree p, r)] = [p]"
  "freed [(EMalloc n, r)] = []" "freed [(ECalloc n m, r)] = []" "freed [(ERealloc q n, r)] = []"
  by (simp_all add: freed_def)

lemma mdo_fields [simp]: "malloc_count (snd (mdo mem c s)) = malloc_count s" "arr_elem (snd (mdo mem c s)) = arr_elem s"
  "free_count (snd (mdo mem c s)) = free_count s" "ptr_array (snd (mdo mem c s)) = ptr_array s" "leak_reports (snd (mdo mem c s)) = leak_reports s"
  "freed (mtrace (snd (mdo mem c s))) = freed (mtrace s) @ (case c of MFree p \<Rightarrow> [p] | _ \<Rightarrow> [])"
  by (cases c; simp add: mdo_def split_beta freed_def)+

lemma check_malloc_noted: "noted c ps s \<Longrightarrow> check_malloc mem s = (0, s)"
  by (simp add: check_malloc_def noted_def)

text \<open>Room for one more pointer, or a write past the end of the array.\<close>

lemma note_alloc_noted:
  assumes "noted c ps s"
  shows "c + length ps < 256 \<Longrightarrow> \<exists>t. note_alloc (Some p, s) = Some (Some p, t) \<and> noted c (ps @ [p]) t \<and> mtrace t = mtrace s \<and> leak_reports t = leak_reports s
      \<and> mworld t = mworld s"
    and "c + length ps = 256 \<Longrightarrow> note_alloc (Some p, s) = None"
proof -
  assume room: "c + length ps < 256"
  then obtain k where k: "256 - c - length ps = Suc k" by (metis Suc_diff_Suc diff_diff_left)
  then have "256 - c - length (ps @ [p]) = k" by simp
  with assms room k show "\<exists>t. note_alloc (Some p, s) = Some (Some p, t) \<and> noted c (ps @ [p]) t \<and> mtrace t = mtrace s \<and> leak_reports t = leak_reports s \<and> mworld t = mworld s"
    by (auto simp: note_alloc_def write_cell_def noted_def list_update_append)
next
  assume "c + length ps = 256"
  with assms show "note_alloc (Some p, s) = None" by (auto simp: note_alloc_def write_cell_def noted_def)
qed

lemma noted_mdo: "noted c ps s \<Longrightarrow> noted c ps (snd (mdo mem k s))"
  by (simp add: noted_def)

text \<open>The loops over the array, on its entries.\<close>

fun swapped :: "nat option \<Rightarrow> nat \<Rightarrow> nat list \<Rightarrow> nat list" where
  "swapped old_ptr new_ptr [] = []"
| "swapped old_ptr new_ptr (p # ps) = (if old_ptr = Some p then new_ptr # ps else p # swapped old_ptr new_ptr ps)"

lemma length_swapped [simp]: "length (swapped a b ps) = length ps"
  by (induction ps) auto

lemma swap_loop_nulls:
  "ptr_array s = Some (p, xs @ replicate k Null @ ys) \<Longrightarrow> swap_loop (k + n) (length xs) a b s = swap_loop n (length xs + k) a b s"
proof (induction k arbitrary: xs)
  case (Suc k)
  then have "ptr_array s = Some (p, (xs @ [Null]) @ replicate k Null @ ys)" by simp
  from Suc.IH [OF this] Suc.prems show ?case by (simp add: read_cell_def nth_append)
qed simp

lemma swap_loop_ptrs:
  "ptr_array s = Some (p, xs @ map Ptr ps @ ys) \<Longrightarrow> swap_loop (length ps) (length xs) a b s = Some (s\<lparr>ptr_array := Some (p, xs @ map Ptr (swapped a b ps) @ ys)\<rparr>)"
proof (induction ps arbitrary: xs)
  case (Cons q ps)
  then have "ptr_array s = Some (p, (xs @ [Ptr q]) @ map Ptr ps @ ys)" by simp
  from Cons.IH [OF this] Cons.prems show ?case by (auto simp: read_cell_def write_cell_def nth_append)
qed simp

lemma realloc_swap_noted:
  assumes "noted c ps s"
  shows "\<exists>t. realloc_swap a b s = Some t \<and> noted c (swapped a b ps) t \<and> mtrace t = mtrace s \<and> leak_reports t = leak_reports s"
proof -
  obtain p where p: "ptr_array s = Some (p, replicate c Null @ map Ptr ps @ replicate (256 - c - length ps) Null)" and m: "malloc_count s = c + length ps"
    using assms by (auto simp: noted_def)
  have "realloc_swap a b s = swap_loop (length ps) c a b s"
    using swap_loop_nulls [of s p "[]" c "map Ptr ps @ replicate (256 - c - length ps) Null" "length ps"] p m by (simp add: realloc_swap_def)
  then show ?thesis using swap_loop_ptrs [OF p] assms p by (auto simp: noted_def)
qed

lemma fini_loop_nulls:
  "ptr_array s = Some (p, xs @ replicate k Null @ ys) \<Longrightarrow> fini_loop mem (k + n) (length xs) s = fini_loop mem n (length xs + k) s"
proof (induction k arbitrary: xs)
  case (Suc k)
  then have "ptr_array s = Some (p, (xs @ [Null]) @ replicate k Null @ ys)" by simp
  from Suc.IH [OF this] Suc.prems show ?case by (simp add: read_cell_def nth_append)
qed simp

lemma fini_loop_ptrs:
  "ptr_array s = Some (p, xs @ map Ptr ps @ ys) \<Longrightarrow> \<exists>t. fini_loop mem (length ps + n) (length xs) s = fini_loop mem n (length xs + length ps) t
     \<and> ptr_array t = Some (p, xs @ replicate (length ps) Null @ ys) \<and> freed (mtrace t) = freed (mtrace s) @ ps \<and> free_count t = free_count s + length ps
     \<and> malloc_count t = malloc_count s \<and> arr_elem t = arr_elem s \<and> leak_reports t = leak_reports s"
proof (induction ps arbitrary: xs s)
  case (Cons q ps)
  let ?u = "snd (mdo mem (MFree q) s)"
  let ?v = "?u\<lparr>ptr_array := Some (p, (xs @ [Null]) @ map Ptr ps @ ys), free_count := free_count s + 1\<rparr>"
  have v: "fini_loop mem (length (q # ps) + n) (length xs) s = fini_loop mem (length ps + n) (length (xs @ [Null])) ?v"
    using Cons.prems by (simp add: read_cell_def write_cell_def nth_append)
  obtain t where "fini_loop mem (length ps + n) (length (xs @ [Null])) ?v = fini_loop mem n (length (xs @ [Null]) + length ps) t"
    "ptr_array t = Some (p, (xs @ [Null]) @ replicate (length ps) Null @ ys)" "freed (mtrace t) = freed (mtrace ?v) @ ps"
    "free_count t = free_count ?v + length ps" "malloc_count t = malloc_count ?v" "arr_elem t = arr_elem ?v" "leak_reports t = leak_reports ?v"
    using Cons.IH [of ?v "xs @ [Null]"] by auto
  then show ?case using v by (intro exI [of _ t]) simp
qed auto

lemma fini_noted:
  assumes "noted c ps s"
  shows "c + length ps < 256 \<Longrightarrow> \<exists>t. npf_mem_fini mem s = Some t \<and> freed (mtrace t) = freed (mtrace s) @ ps \<and> malloc_count t = c + length ps
      \<and> free_count t = c + length ps \<and> arr_elem t = 256 \<and> leak_reports t = leak_reports s"
    and "c + length ps = 256 \<Longrightarrow> npf_mem_fini mem s = None"
proof -
  let ?r = "256 - c - length ps"
  obtain p where p: "ptr_array s = Some (p, replicate c Null @ map Ptr ps @ replicate ?r Null)" and m: "malloc_count s = c + length ps" "free_count s = c" "arr_elem s = 256"
    using assms by (auto simp: noted_def)
  have "fini_loop mem (malloc_count s + 1) 0 s = fini_loop mem (length ps + 1) c s"
    using fini_loop_nulls [of s p "[]" c "map Ptr ps @ replicate ?r Null" mem "length ps + 1"] p m(1) by (simp add: add.assoc)
  moreover obtain t where t: "fini_loop mem (length ps + 1) c s = fini_loop mem 1 (c + length ps) t"
    "ptr_array t = Some (p, replicate c Null @ replicate (length ps) Null @ replicate ?r Null)" "freed (mtrace t) = freed (mtrace s) @ ps"
    "free_count t = c + length ps" "malloc_count t = c + length ps" "arr_elem t = 256" "leak_reports t = leak_reports s"
    using fini_loop_ptrs [OF p, of mem 1] m by auto
  ultimately have loop: "fini_loop mem (malloc_count s + 1) 0 s = fini_loop mem 1 (c + length ps) t" by simp
  show "npf_mem_fini mem s = None" if "c + length ps = 256" using loop t(2) that by (simp add: npf_mem_fini_def read_cell_def)
  show "\<exists>t. npf_mem_fini mem s = Some t \<and> freed (mtrace t) = freed (mtrace s) @ ps \<and> malloc_count t = c + length ps
      \<and> free_count t = c + length ps \<and> arr_elem t = 256 \<and> leak_reports t = leak_reports s" if "c + length ps < 256"
  proof -
    have "ptr_array t = Some (p, replicate 256 Null)" using t(2) that by (simp add: replicate_add [symmetric])
    then have "read_cell (c + length ps) t = Some None" using that by (simp add: read_cell_def)
    then have "npf_mem_fini mem s = Some t" using loop t by (simp add: npf_mem_fini_def)
    then show ?thesis using t by auto
  qed
qed

section \<open>Commands\<close>

text \<open>What a command of npfctl asks for, and the results it gets.\<close>

datatype npf_op =
    AMalloc nat
  | ACalloc nat nat
  | ARealloc "nat option" nat
  | AFree "nat option"

fun npf_do :: "'w mem \<Rightarrow> npf_op \<Rightarrow> 'w npf_mem \<Rightarrow> (nat option \<times> 'w npf_mem) option" where
  "npf_do mem (AMalloc n) s = npf_emalloc mem n s"
| "npf_do mem (ACalloc n m) s = npf_ecalloc mem n m s"
| "npf_do mem (ARealloc cp n) s = npf_erealloc mem cp n s"
| "npf_do mem (AFree cp) s = Some (None, npf_free cp s)"

fun npf_ops :: "'w mem \<Rightarrow> npf_op list \<Rightarrow> 'w npf_mem \<Rightarrow> (nat option list \<times> 'w npf_mem) option" where
  "npf_ops mem [] s = Some ([], s)"
| "npf_ops mem (c # cs) s = Option.bind (npf_do mem c s) (\<lambda>(r, s). map_option (\<lambda>(rs, s). (r # rs, s)) (npf_ops mem cs s))"

definition npf_command :: "'w mem \<Rightarrow> npf_op list \<Rightarrow> 'w npf_mem \<Rightarrow> (nat option list \<times> 'w npf_mem) option" where
  "npf_command mem ops s = Option.bind (npf_ops mem ops (npf_mem_init mem s)) (\<lambda>(rs, s). map_option (\<lambda>s. (rs, s)) (npf_mem_fini mem s))"

fun npf_commands :: "'w mem \<Rightarrow> npf_op list list \<Rightarrow> 'w npf_mem \<Rightarrow> (nat option list list \<times> 'w npf_mem) option" where
  "npf_commands mem [] s = Some ([], s)"
| "npf_commands mem (c # cs) s = Option.bind (npf_command mem c s) (\<lambda>(r, s). map_option (\<lambda>(rs, s). (r # rs, s)) (npf_commands mem cs s))"

text \<open>
  The specification, from the calls of a command and their results alone. The blocks that are allocated: a block that is reallocated is replaced by the new one, and a
  reallocation of NULL gives a new block. A block given to \<open>npf_free\<close> stays allocated until the end of the command.
\<close>

fun alloc1 :: "npf_op \<Rightarrow> nat option \<Rightarrow> nat set \<Rightarrow> nat set" where
  "alloc1 (AFree q) r B = B"
| "alloc1 (ARealloc (Some q) n) (Some p) B = insert p (B - {q})"
| "alloc1 c (Some p) B = insert p B"
| "alloc1 c None B = B"

fun allocated :: "npf_op list \<Rightarrow> nat option list \<Rightarrow> nat set \<Rightarrow> nat set" where
  "allocated (c # cs) (r # rs) B = allocated cs rs (alloc1 c r B)"
| "allocated _ _ B = B"

text \<open>The blocks that come from a reallocation of NULL, under their last address.\<close>

fun from_null :: "npf_op list \<Rightarrow> nat option list \<Rightarrow> nat set \<Rightarrow> nat set" where
  "from_null (ARealloc None n # cs) (Some p # rs) L = from_null cs rs (insert p L)"
| "from_null (ARealloc (Some q) n # cs) (Some p # rs) L = from_null cs rs (if q \<in> L then insert p (L - {q}) else L)"
| "from_null (c # cs) (r # rs) L = from_null cs rs L"
| "from_null _ _ L = L"

text \<open>
  A command and the allocator keep to the rules: what is reallocated is a block of the command, and a new block is not one that is still allocated. A block may stay
  where it is when it is reallocated.
\<close>

fun orderly :: "npf_op list \<Rightarrow> nat option list \<Rightarrow> nat set \<Rightarrow> bool" where
  "orderly (AFree q # cs) (r # rs) B \<longleftrightarrow> orderly cs rs B"
| "orderly (ARealloc (Some q) n # cs) (Some p # rs) B \<longleftrightarrow> q \<in> B \<and> p \<notin> B - {q} \<and> orderly cs rs (insert p (B - {q}))"
| "orderly (c # cs) (Some p # rs) B \<longleftrightarrow> p \<notin> B \<and> orderly cs rs (insert p B)"
| "orderly (c # cs) (None # rs) B \<longleftrightarrow> orderly cs rs B"
| "orderly _ _ B \<longleftrightarrow> True"

text \<open>What the array of pointers holds at the end of a command.\<close>

fun kept :: "npf_op list \<Rightarrow> nat option list \<Rightarrow> nat list \<Rightarrow> nat list" where
  "kept (AMalloc n # cs) (Some p # rs) ps = kept cs rs (ps @ [p])"
| "kept (ACalloc n m # cs) (Some p # rs) ps = kept cs rs (ps @ [p])"
| "kept (ARealloc cp n # cs) (Some p # rs) ps = kept cs rs (swapped cp p ps)"
| "kept (c # cs) (r # rs) ps = kept cs rs ps"
| "kept _ _ ps = ps"

lemma swapped_None [simp]: "swapped None p ps = ps"
  by (induction ps) auto

lemma swapped_absent: "q \<notin> set ps \<Longrightarrow> swapped (Some q) p ps = ps"
  by (induction ps) auto

lemma set_swapped: "distinct ps \<Longrightarrow> q \<in> set ps \<Longrightarrow> set (swapped (Some q) p ps) = insert p (set ps - {q})"
  by (induction ps) auto

lemma distinct_swapped: "distinct ps \<Longrightarrow> p \<notin> set ps - {q} \<Longrightarrow> distinct (swapped (Some q) p ps)"
proof (induction ps)
  case (Cons x ps)
  then show ?case by (cases "q \<in> set ps") (auto simp: set_swapped swapped_absent)
qed simp

lemma no_result: "orderly (c # cs) (None # rs) B = orderly cs rs B" "from_null (c # cs) (None # rs) L = from_null cs rs L" "alloc1 c None B = B"
  by (cases c; cases "case c of ARealloc q n \<Rightarrow> q | _ \<Rightarrow> None"; simp)+

text \<open>The array holds the allocated blocks, each once, but for those that come from a reallocation of NULL.\<close>

lemma kept_allocated:
  "orderly ops rs (set ps \<union> L) \<Longrightarrow> distinct ps \<Longrightarrow> set ps \<inter> L = {} \<Longrightarrow>
    distinct (kept ops rs ps) \<and> set (kept ops rs ps) \<inter> from_null ops rs L = {} \<and> set (kept ops rs ps) \<union> from_null ops rs L = allocated ops rs (set ps \<union> L)"
proof (induction ops rs ps arbitrary: L rule: kept.induct)
  case (3 cp n cs p rs ps)
  show ?case
  proof (cases cp)
    case None
    then show ?thesis using "3.prems" "3.IH" [of "insert p L"] by simp
  next
    case (Some q)
    with "3.prems"(1) have q: "q \<in> set ps \<union> L" "p \<notin> set ps \<union> L - {q}" "orderly cs rs (insert p (set ps \<union> L - {q}))" by simp_all
    show ?thesis
    proof (cases "q \<in> set ps")
      case True
      then have "q \<notin> L" using "3.prems"(3) by blast
      then have B: "set (swapped cp p ps) \<union> L = insert p (set ps \<union> L - {q})" using True "3.prems"(2) Some by (auto simp: set_swapped)
      moreover have "set (swapped cp p ps) \<inter> L = {}" using True q(2) "3.prems"(2,3) Some by (auto simp: set_swapped)
      moreover have "distinct (swapped cp p ps)" using Some q(2) "3.prems"(2) by (auto intro!: distinct_swapped)
      ultimately show ?thesis using "3.IH" [of L] q(3) \<open>q \<notin> L\<close> Some by simp
    next
      case False
      then have "q \<in> L" using q(1) by blast
      moreover have "set ps \<union> insert p (L - {q}) = insert p (set ps \<union> L - {q})" using False by blast
      moreover have "set ps \<inter> insert p (L - {q}) = {}" using q(2) False "3.prems"(3) by auto
      ultimately show ?thesis using "3.IH" [of "insert p (L - {q})"] q(3) "3.prems"(2) False Some by (simp add: swapped_absent)
    qed
  qed
qed (auto simp: insert_commute no_result)

lemma from_null_none: "(\<And>n. ARealloc None n \<notin> set ops) \<Longrightarrow> from_null ops rs {} = {}"
proof (induction ops arbitrary: rs)
  case (Cons c ops)
  then have "from_null ops (tl rs) {} = {}" "\<And>n. c \<noteq> ARealloc None n" by (auto simp: image_iff)
  then show ?case by (cases "(c # ops, rs, {} :: nat set)" rule: from_null.cases) auto
qed simp

fun allocates :: "npf_op \<Rightarrow> bool" where
  "allocates (AMalloc n) = True" | "allocates (ACalloc n m) = True" | "allocates _ = False"

definition allocs :: "npf_op list \<Rightarrow> nat" where
  "allocs ops = length (filter allocates ops)"

text \<open>The functions of libutil do not return NULL: they end the program instead.\<close>

definition never_null :: "'w mem \<Rightarrow> bool" where
  "never_null mem \<longleftrightarrow> (\<forall>c w. (\<forall>p. c \<noteq> MFree p) \<longrightarrow> fst (mem c w) \<noteq> None)"

lemma mdo_never_null:
  assumes "never_null mem" and "\<forall>p. c \<noteq> MFree p"
  shows "\<exists>p. mdo mem c s = (Some p, snd (mdo mem c s))"
proof -
  obtain p where "fst (mem c (mworld s)) = Some p" using assms unfolding never_null_def by blast
  then show ?thesis by (simp add: mdo_def split_beta)
qed

lemma alloc_noted:
  assumes s: "noted c ps s" and mem: "never_null mem" and k: "\<forall>p. k \<noteq> MFree p"
  shows "c + length ps < 256 \<Longrightarrow> \<exists>p t. note_alloc (mdo mem k s) = Some (Some p, t) \<and> noted c (ps @ [p]) t \<and> freed (mtrace t) = freed (mtrace s) \<and> leak_reports t = leak_reports s"
    and "c + length ps = 256 \<Longrightarrow> note_alloc (mdo mem k s) = None"
proof -
  obtain p where p: "mdo mem k s = (Some p, snd (mdo mem k s))" using mdo_never_null [OF mem k] by blast
  note n = note_alloc_noted [OF noted_mdo [OF s, of mem k], of p]
  have "freed (mtrace (snd (mdo mem k s))) = freed (mtrace s)" using k by (cases k) simp_all
  then show "c + length ps < 256 \<Longrightarrow> \<exists>p t. note_alloc (mdo mem k s) = Some (Some p, t) \<and> noted c (ps @ [p]) t \<and> freed (mtrace t) = freed (mtrace s) \<and> leak_reports t = leak_reports s"
    using n(1) p by (metis mdo_fields(5))
  show "c + length ps = 256 \<Longrightarrow> note_alloc (mdo mem k s) = None" using n(2) p by metis
qed

definition ops_spec :: "'w mem \<Rightarrow> nat \<Rightarrow> npf_op list \<Rightarrow> nat list \<Rightarrow> 'w npf_mem \<Rightarrow> bool" where
  "ops_spec mem c ops ps s \<longleftrightarrow> (if c + length ps + allocs ops \<le> 256
     then \<exists>rs t. npf_ops mem ops s = Some (rs, t) \<and> noted c (kept ops rs ps) t
       \<and> length (kept ops rs ps) = length ps + allocs ops \<and> freed (mtrace t) = freed (mtrace s) \<and> leak_reports t = leak_reports s
     else npf_ops mem ops s = None)"

lemma ops_spec_Cons:
  assumes "npf_do mem k s = Some (r, u)" and "\<And>rs. kept (k # ops) (r # rs) ps = kept ops rs qs" and "length qs = length ps + of_bool (allocates k)"
    and "freed (mtrace u) = freed (mtrace s)" and "leak_reports u = leak_reports s" and "ops_spec mem c ops qs u"
  shows "ops_spec mem c (k # ops) ps s"
proof -
  have n: "c + length ps + allocs (k # ops) = c + length qs + allocs ops" using assms(3) by (simp add: allocs_def)
  show ?thesis
  proof (cases "c + length qs + allocs ops \<le> 256")
    case True
    then obtain rs t where "npf_ops mem ops u = Some (rs, t)" "noted c (kept ops rs qs) t" "length (kept ops rs qs) = length qs + allocs ops"
      "freed (mtrace t) = freed (mtrace u)" "leak_reports t = leak_reports u" using assms(6) by (auto simp: ops_spec_def)
    then have "npf_ops mem (k # ops) s = Some (r # rs, t)" "noted c (kept (k # ops) (r # rs) ps) t"
      "length (kept (k # ops) (r # rs) ps) = length ps + allocs (k # ops)" "freed (mtrace t) = freed (mtrace s)" "leak_reports t = leak_reports s"
      using assms(1-5) n by simp_all
    then show ?thesis unfolding ops_spec_def n using True by auto
  next
    case False
    then show ?thesis using assms(1,6) n by (simp add: ops_spec_def)
  qed
qed

lemma ops_noted:
  assumes "noted c ps s" and mem: "never_null mem"
  shows "ops_spec mem c ops ps s"
  using assms(1)
proof (induction ops arbitrary: ps s)
  case Nil
  then show ?case by (simp add: ops_spec_def allocs_def noted_def)
next
  case (Cons k ops)
  note s = Cons.prems and chk = check_malloc_noted [OF Cons.prems, of mem]
  have le: "c + length ps \<le> 256" using s by (simp add: noted_def)
  consider (alloc) m where "npf_do mem k s = note_alloc (mdo mem m s)" "\<forall>p. m \<noteq> MFree p" "allocates k" "\<And>p rs. kept (k # ops) (Some p # rs) ps = kept ops rs (ps @ [p])"
    | (realloc) cp n where "k = ARealloc cp n" | (free) cp where "k = AFree cp"
    by (cases k) (auto simp: npf_emalloc_def npf_ecalloc_def chk)
  then show ?case
  proof cases
    case alloc
    show ?thesis
    proof (cases "c + length ps < 256")
      case True
      obtain p u where u: "note_alloc (mdo mem m s) = Some (Some p, u)" "noted c (ps @ [p]) u" "freed (mtrace u) = freed (mtrace s)" "leak_reports u = leak_reports s"
        using alloc_noted(1) [OF s mem alloc(2) True] by blast
      show ?thesis by (rule ops_spec_Cons [OF _ alloc(4) _ u(3,4) Cons.IH [OF u(2)]]) (use u(1) alloc in simp_all)
    next
      case False
      then show ?thesis using alloc_noted(2) [OF s mem alloc(2)] alloc(1,3) le by (simp add: ops_spec_def allocs_def)
    qed
  next
    case realloc
    obtain p where p: "mdo mem (ERealloc cp n) s = (Some p, snd (mdo mem (ERealloc cp n) s))" using mdo_never_null [OF mem] by blast
    obtain u where u: "realloc_swap cp p (snd (mdo mem (ERealloc cp n) s)) = Some u" "noted c (swapped cp p ps) u" "freed (mtrace u) = freed (mtrace s)"
      "leak_reports u = leak_reports s" using realloc_swap_noted [OF noted_mdo [OF s], of cp p mem "ERealloc cp n"] by auto
    have "npf_do mem k s = Some (Some p, u)" using realloc u(1) by (simp add: npf_erealloc_def) (subst p, simp)
    then show ?thesis by (rule ops_spec_Cons [OF _ _ _ u(3,4) Cons.IH [OF u(2)]]) (use realloc in simp_all)
  next
    case free
    then have "npf_do mem k s = Some (None, s)" by (simp add: npf_free_def)
    then show ?thesis by (rule ops_spec_Cons [OF _ _ _ refl refl Cons.IH [OF s]]) (use free in simp_all)
  qed
qed

text \<open>A command after \<open>c\<close> allocations of earlier commands.\<close>

definition idle :: "nat \<Rightarrow> 'w npf_mem \<Rightarrow> bool" where
  "idle c s \<longleftrightarrow> c \<le> 255 \<and> malloc_count s = c \<and> free_count s = c \<and> arr_elem s = 256"

lemma init_noted:
  assumes "idle c s" and "never_null mem"
  shows "noted c [] (npf_mem_init mem s)" "freed (mtrace (npf_mem_init mem s)) = freed (mtrace s)" "leak_reports (npf_mem_init mem s) = leak_reports s"
proof -
  obtain p where "mdo mem (ECalloc (arr_elem s) PTR_SIZE) s = (Some p, snd (mdo mem (ECalloc (arr_elem s) PTR_SIZE) s))" using mdo_never_null [OF assms(2)] by blast
  then have "fst (mdo mem (ECalloc (arr_elem s) PTR_SIZE) s) = Some p" by (metis fst_conv)
  then have i: "npf_mem_init mem s = (snd (mdo mem (ECalloc (arr_elem s) PTR_SIZE) s))\<lparr>ptr_array := Some (p, replicate (arr_elem s) Null)\<rparr>"
    by (simp add: npf_mem_init_def split_beta)
  show "noted c [] (npf_mem_init mem s)" "freed (mtrace (npf_mem_init mem s)) = freed (mtrace s)" "leak_reports (npf_mem_init mem s) = leak_reports s"
    unfolding i using assms(1) by (simp_all add: noted_def idle_def replicate_add [symmetric])
qed

lemma command_idle:
  assumes "idle c s" and "never_null mem"
  shows "c + allocs ops \<le> 255 \<Longrightarrow> \<exists>rs t. npf_command mem ops s = Some (rs, t) \<and> idle (c + allocs ops) t
      \<and> freed (mtrace t) = freed (mtrace s) @ kept ops rs [] \<and> leak_reports t = leak_reports s"
    and "255 < c + allocs ops \<Longrightarrow> npf_command mem ops s = None"
proof -
  note i = init_noted [OF assms] and spec = ops_noted [OF init_noted(1) [OF assms] assms(2), of ops]
  have ran: "\<exists>rs t. npf_ops mem ops (npf_mem_init mem s) = Some (rs, t) \<and> noted c (kept ops rs []) t \<and> length (kept ops rs []) = allocs ops
      \<and> freed (mtrace t) = freed (mtrace s) \<and> leak_reports t = leak_reports s" if "c + allocs ops \<le> 256"
    using spec i(2,3) that by (simp add: ops_spec_def)
  show "\<exists>rs t. npf_command mem ops s = Some (rs, t) \<and> idle (c + allocs ops) t
      \<and> freed (mtrace t) = freed (mtrace s) @ kept ops rs [] \<and> leak_reports t = leak_reports s" if "c + allocs ops \<le> 255"
  proof -
    have "c + allocs ops \<le> 256" using that by simp
    from ran [OF this] obtain rs t where t: "npf_ops mem ops (npf_mem_init mem s) = Some (rs, t)" "noted c (kept ops rs []) t"
      "length (kept ops rs []) = allocs ops" "freed (mtrace t) = freed (mtrace s)" "leak_reports t = leak_reports s" by blast
    from fini_noted(1) [OF t(2), of mem] t that show ?thesis by (auto simp: npf_command_def idle_def)
  qed
  show "npf_command mem ops s = None" if "255 < c + allocs ops"
  proof (cases "c + allocs ops = 256")
    case True
    then show ?thesis using ran fini_noted(2) [of c _ _ mem] by (fastforce simp: npf_command_def)
  next
    case False
    then show ?thesis using spec that by (simp add: ops_spec_def npf_command_def)
  qed
qed

lemma commands_idle:
  assumes "idle c s" and "never_null mem"
  shows "if c + sum_list (map allocs cmds) \<le> 255
    then \<exists>rs t. npf_commands mem cmds s = Some (rs, t) \<and> length rs = length cmds
      \<and> freed (mtrace t) = freed (mtrace s) @ concat (map (\<lambda>(ops, r). kept ops r []) (zip cmds rs)) \<and> leak_reports t = leak_reports s
    else npf_commands mem cmds s = None"
  using assms(1)
proof (induction cmds arbitrary: c s)
  case Nil
  then show ?case by (simp add: idle_def)
next
  case (Cons ops cmds)
  show ?case
  proof (cases "c + allocs ops \<le> 255")
    case True
    then obtain r u where u: "npf_command mem ops s = Some (r, u)" "idle (c + allocs ops) u" "freed (mtrace u) = freed (mtrace s) @ kept ops r []"
      "leak_reports u = leak_reports s" using command_idle(1) [OF Cons.prems assms(2)] by blast
    have n: "c + sum_list (map allocs (ops # cmds)) = c + allocs ops + sum_list (map allocs cmds)" by simp
    show ?thesis
    proof (cases "c + allocs ops + sum_list (map allocs cmds) \<le> 255")
      case True
      with Cons.IH [OF u(2)] obtain rs t where "npf_commands mem cmds u = Some (rs, t)" "length rs = length cmds"
        "freed (mtrace t) = freed (mtrace u) @ concat (map (\<lambda>(ops, r). kept ops r []) (zip cmds rs))" "leak_reports t = leak_reports u" by auto
      then have "npf_commands mem (ops # cmds) s = Some (r # rs, t)" "length (r # rs) = length (ops # cmds)" "leak_reports t = leak_reports s"
        "freed (mtrace t) = freed (mtrace s) @ concat (map (\<lambda>(ops, r). kept ops r []) (zip (ops # cmds) (r # rs)))" using u by simp_all
      then show ?thesis unfolding n using True by auto
    next
      case False
      then show ?thesis using Cons.IH [OF u(2)] u(1) unfolding n by simp
    qed
  next
    case False
    then show ?thesis using command_idle(2) [OF Cons.prems assms(2), of ops] by simp
  qed
qed

lemma kept_released:
  assumes "orderly ops r {}"
  shows "distinct (kept ops r [])" "set (kept ops r []) = allocated ops r {} - from_null ops r {}"
    "\<forall>n. ARealloc None n \<notin> set ops \<Longrightarrow> set (kept ops r []) = allocated ops r {}"
  using kept_allocated [of ops r "[]" "{}"] assms from_null_none [of ops r] by auto

text \<open>
  C37 (safety). Commands of npfctl run one after the other in the INS, such as the one that loads the configuration and those that block addresses. If
  all of them together ask for at most 255 blocks with \<open>npf_emalloc\<close> and \<open>npf_ecalloc\<close>, each command frees at its end every block that it has allocated, each once and under its last address,
  but for the blocks that it got by a reallocation of NULL: these are not in the array and are never freed. A command with no reallocation of NULL frees all its blocks. No leak is reported, even if there is one. With the
  256th block since the INS was started, a command reads, and with the next one writes, past the end of the array of pointers: the
  array grows only when it has already overflowed, and the count of allocations is not reset.
\<close>

theorem npf_memory_released:
  assumes "never_null mem"
  shows "(npf_commands mem cmds (npf_loaded w) \<noteq> None \<longleftrightarrow> sum_list (map allocs cmds) \<le> 255)
    \<and> (\<forall>rs t. npf_commands mem cmds (npf_loaded w) = Some (rs, t) \<longrightarrow> length rs = length cmds \<and> leak_reports t = 0
        \<and> (\<exists>fs. freed (mtrace t) = concat fs \<and> length fs = length cmds \<and> (\<forall>i < length cmds. orderly (cmds ! i) (rs ! i) {} \<longrightarrow>
            distinct (fs ! i) \<and> set (fs ! i) = allocated (cmds ! i) (rs ! i) {} - from_null (cmds ! i) (rs ! i) {}
            \<and> ((\<forall>n. ARealloc None n \<notin> set (cmds ! i)) \<longrightarrow> set (fs ! i) = allocated (cmds ! i) (rs ! i) {}))))"
    (is "_ \<and> (\<forall>rs t. _ \<longrightarrow> ?ok rs t)")
proof -
  have "idle 0 (npf_loaded w)" by (simp add: idle_def npf_loaded_def)
  note run = commands_idle [OF this assms, of cmds]
  have "npf_commands mem cmds (npf_loaded w) \<noteq> None \<longleftrightarrow> sum_list (map allocs cmds) \<le> 255" using run by (auto split: if_split_asm)
  moreover have "?ok rs t" if ran: "npf_commands mem cmds (npf_loaded w) = Some (rs, t)" for rs t
  proof -
    let ?fs = "map (\<lambda>i. kept (cmds ! i) (rs ! i) []) [0..<length cmds]"
    have "length rs = length cmds" "leak_reports t = 0" "freed (mtrace t) = concat (map (\<lambda>(ops, r). kept ops r []) (zip cmds rs))"
      using run ran by (auto simp: npf_loaded_def split: if_split_asm)
    moreover from this(1) have "map (\<lambda>(ops, r). kept ops r []) (zip cmds rs) = ?fs" by (intro nth_equalityI) auto
    ultimately show ?thesis by (intro conjI exI [of _ ?fs] allI impI) (simp_all add: kept_released from_null_none)
  qed
  ultimately show ?thesis by blast
qed

text \<open>An example with two commands; the allocator counts up. The block 3, from a reallocation of NULL, is not freed.\<close>

fun mem_demo :: "nat mem" where
  "mem_demo (MFree p) w = (None, w)" | "mem_demo c w = (Some w, w + 1)"

lemma mem_demo_never_null: "never_null mem_demo"
proof -
  have "fst (mem_demo c w) \<noteq> None" if "\<forall>p. c \<noteq> MFree p" for c w using that by (cases c) auto
  then show ?thesis by (simp add: never_null_def)
qed

theorem npf_memory_released_witness:
  "\<exists>rs t f g. npf_commands mem_demo [[ACalloc 1 64, ARealloc (Some 1) 128, ARealloc None 32, AFree (Some 2), AMalloc 8], [AMalloc 16]] (npf_loaded 0) = Some (rs, t)
     \<and> freed (mtrace t) = f @ g \<and> distinct f \<and> set f = {2, 4} \<and> distinct g \<and> set g = {6} \<and> leak_reports t = 0"
proof -
  let ?cmds = "[[ACalloc 1 64, ARealloc (Some 1) 128, ARealloc None 32, AFree (Some 2), AMalloc 8], [AMalloc 16]]"
  let ?rs = "[[Some 1, Some 2, Some 3, None, Some 4], [Some 6]]"
  note law = npf_memory_released [OF mem_demo_never_null, of ?cmds 0]
  have "sum_list (map allocs ?cmds) \<le> 255" by (simp add: allocs_def)
  then obtain rs t where t: "npf_commands mem_demo ?cmds (npf_loaded 0) = Some (rs, t)" using law by (metis not_None_eq surj_pair)
  moreover have "map_option fst (npf_commands mem_demo ?cmds (npf_loaded 0)) = Some ?rs" by code_simp
  ultimately have rs: "rs = ?rs" by simp
  obtain fs where leak: "leak_reports t = 0" and fs: "freed (mtrace t) = concat fs" "length fs = length ?cmds"
    and each: "\<And>i. i < length ?cmds \<Longrightarrow> orderly (?cmds ! i) (rs ! i) {} \<Longrightarrow> distinct (fs ! i)
      \<and> set (fs ! i) = allocated (?cmds ! i) (rs ! i) {} - from_null (?cmds ! i) (rs ! i) {}"
    using conjunct2 [OF law, THEN spec, THEN spec, THEN mp, OF t] by (elim conjE exE) meson
  have "length fs = Suc (Suc 0)" using fs(2) by simp
  then obtain f g where fg: "fs = [f, g]" by (auto simp: length_Suc_conv)
  have "orderly (?cmds ! 0) (?rs ! 0) {}" "allocated (?cmds ! 0) (?rs ! 0) {} - from_null (?cmds ! 0) (?rs ! 0) {} = {2, 4}" by auto
  then have "distinct f \<and> set f = {2, 4}" using each [of 0] fs(2) by (simp add: rs fg del: allocated.simps from_null.simps orderly.simps)
  moreover have "distinct g \<and> set g = {6}" using each [of 1] unfolding rs fg by simp
  ultimately show ?thesis using t fs(1) fg leak by auto
qed

end
