(* ===== verification/Logging.thy ===== *)
theory Logging
  imports Format "HOL-Library.Monad_Syntax"
begin

text \<open>
  The log of the INS application and of the shim library, src/common/logging.c: the choice of the file, the level, writing and closing. The functions of stdio are an
  argument. The three names are kept in arrays of characters; an array without a terminator that is read as text is \<open>None\<close>.
\<close>

section \<open>State and operations\<close>

text \<open>\<open>log_level\<close>\<close>

datatype log_level = LOG_FORCE | LOG_FATAL | LOG_ERROR | LOG_WARN | LOG_NOTICE | LOG_INFO | LOG_DEBUG | LOG_VERBOSE

primrec log_level_val :: "log_level \<Rightarrow> nat" where
  "log_level_val LOG_FORCE = 0"
| "log_level_val LOG_FATAL = 10"
| "log_level_val LOG_ERROR = 20"
| "log_level_val LOG_WARN = 30"
| "log_level_val LOG_NOTICE = 40"
| "log_level_val LOG_INFO = 50"
| "log_level_val LOG_DEBUG = 60"
| "log_level_val LOG_VERBOSE = 70"

definition MAX_PATH_LENGTH :: nat where [mw_consts]: "MAX_PATH_LENGTH = 512"
definition MAX_FILENAME :: nat where [mw_consts]: "MAX_FILENAME = 256"
definition MAX_FILE_EXTN :: nat where [mw_consts]: "MAX_FILE_EXTN = 20"

text \<open>A stream is stderr or a file that \<open>fopen\<close> has returned.\<close>

datatype log_stream = StdErr | LogFile nat

datatype log_call =
    FOpen string string
  | FClose log_stream
  | FPrint log_stream string
  | FFlush log_stream

text \<open>\<open>fopen\<close> returns a stream or none; the results of the other functions are not looked at.\<close>

type_synonym 'w stdio = "log_call \<Rightarrow> 'w \<Rightarrow> nat option \<times> 'w"

record 'w logger =
  loglevel :: log_level
  logpath :: string
  log_filename :: string
  file_extn :: string
  fp :: "log_stream option"
  lworld :: 'w
  ltrace :: "log_call list"

definition log_loaded :: "'w \<Rightarrow> 'w logger" where
  "log_loaded w = \<lparr>loglevel = LOG_WARN, logpath = padded MAX_PATH_LENGTH '''', log_filename = padded MAX_FILENAME ''program'',
     file_extn = padded MAX_FILE_EXTN ''log'', fp = None, lworld = w, ltrace = []\<rparr>"

definition ldo :: "'w stdio \<Rightarrow> log_call \<Rightarrow> 'w logger \<Rightarrow> nat option \<times> 'w logger" where
  "ldo io c s = (let (r, w) = io c (lworld s) in (r, s\<lparr>lworld := w, ltrace := ltrace s @ [c]\<rparr>))"

text \<open>\<open>strncpy\<close> into an array of \<open>n\<close> characters: it fills up with null bytes, and there is no terminator if the text has \<open>n\<close> characters or more.\<close>

definition strncpy :: "nat \<Rightarrow> string \<Rightarrow> string" where
  "strncpy n src = padded n (take n src)"

definition c_text :: "string \<Rightarrow> string option" where
  "c_text a = (if NUL \<in> set a then Some (takeWhile (\<lambda>c. c \<noteq> NUL) a) else None)"

text \<open>A name that is given, that is a pointer that is not NULL to a text that is not empty.\<close>

definition given :: "string option \<Rightarrow> bool" where
  "given x \<longleftrightarrow> x \<noteq> None \<and> x \<noteq> Some ''''"

definition set_log_filename :: "string option \<Rightarrow> 'w logger \<Rightarrow> 'w logger" where
  "set_log_filename Name s = (if given Name then s\<lparr>log_filename := strncpy MAX_FILENAME (the Name)\<rparr> else s)"

definition set_path :: "string option \<Rightarrow> 'w logger \<Rightarrow> 'w logger" where
  "set_path Path s = (if given Path then s\<lparr>logpath := strncpy MAX_PATH_LENGTH (the Path)\<rparr> else s)"

definition set_log_filename_extension :: "string option \<Rightarrow> 'w logger \<Rightarrow> 'w logger" where
  "set_log_filename_extension Name s = (if given Name then s\<lparr>file_extn := strncpy MAX_FILE_EXTN (the Name)\<rparr> else s)"

definition get_path :: "'w logger \<Rightarrow> 'w logger" where
  "get_path s = (if logpath s ! 0 = NUL then s\<lparr>logpath := ''./'' @ NUL # drop 3 (logpath s)\<rparr> else s)"

definition construct_full_path :: "'w logger \<Rightarrow> (string \<times> 'w logger) option" where
  "construct_full_path s =
    (let s = get_path s in do {
       p \<leftarrow> c_text (logpath s);
       f \<leftarrow> c_text (log_filename s);
       e \<leftarrow> c_text (file_extn s);
       Some (snprintf MAX_PATH_LENGTH (p @ ''/'' @ f @ ''.'' @ e), s)
     })"

definition log_set_level :: "log_level \<Rightarrow> 'w logger \<Rightarrow> 'w logger" where
  "log_set_level Level s = s\<lparr>loglevel := Level\<rparr>"

definition log_init :: "'w stdio \<Rightarrow> string option \<Rightarrow> string option \<Rightarrow> string option \<Rightarrow> log_level \<Rightarrow> 'w logger \<Rightarrow> (int \<times> 'w logger) option" where
  "log_init io Path Filename FileExtension Level s =
    (if given Path \<and> given Filename then
       let s = set_log_filename_extension FileExtension (set_log_filename Filename (set_path Path s)) in do {
         (fullpath, s) \<leftarrow> construct_full_path s;
         let s = snd (ldo io (FPrint StdErr (''Logging to file: '' @ fullpath @ [CHR 0x0A])) s);
         let (r, s) = ldo io (FOpen fullpath ''a'') s;
         let s = s\<lparr>fp := map_option LogFile r\<rparr>;
         if r = None then Some (-1, snd (ldo io (FPrint StdErr (''Failed to open logging target.'' @ [CHR 0x0A])) s))
         else Some (0, log_set_level Level s)
       }
     else
       let s = (case fp s of Some (LogFile f) \<Rightarrow> snd (ldo io (FClose (LogFile f)) s) | _ \<Rightarrow> s);
           s = snd (ldo io (FPrint StdErr (''Logging to stderr'' @ [CHR 0x0A])) s)
       in Some (0, log_set_level Level (s\<lparr>fp := Some StdErr\<rparr>)))"

text \<open>
  The time: \<open>strftime\<close> gives a text \<open>hms\<close> of 9 characters, after which the microseconds are written with at least three digits into what is left of 50 characters.
\<close>

definition get_timestamp :: "string \<Rightarrow> nat \<Rightarrow> string" where
  "get_timestamp hms usec = hms @ snprintf (50 - length hms) (replicate (3 - length (fmt_u usec)) (CHR ''0'') @ fmt_u usec)"

definition log_write :: "'w stdio \<Rightarrow> nat \<Rightarrow> string \<Rightarrow> nat \<Rightarrow> log_level \<Rightarrow> string \<Rightarrow> 'w logger \<Rightarrow> 'w logger" where
  "log_write io pid hms usec Level msg s =
    (case fp s of
       None \<Rightarrow> s
     | Some f \<Rightarrow>
         if log_level_val Level \<le> log_level_val (loglevel s) then
           let s = snd (ldo io (FPrint f (fmt_u pid @ ''  ['' @ get_timestamp hms usec @ '']  <'' @ fmt_u (log_level_val Level) @ ''>'')) s)
           in snd (ldo io (FPrint f msg) s)
         else s)"

definition log_flush :: "'w stdio \<Rightarrow> 'w logger \<Rightarrow> 'w logger" where
  "log_flush io s = (case fp s of None \<Rightarrow> s | Some f \<Rightarrow> snd (ldo io (FFlush f) s))"

definition log_close :: "'w stdio \<Rightarrow> 'w logger \<Rightarrow> 'w logger" where
  "log_close io s =
    (case fp s of
       None \<Rightarrow> s
     | Some StdErr \<Rightarrow> s\<lparr>fp := None\<rparr>
     | Some f \<Rightarrow> (snd (ldo io (FClose f) s))\<lparr>fp := None\<rparr>)"

section \<open>The file and what is written to it\<close>

lemma ldo_sels [simp]: "loglevel (snd (ldo io c s)) = loglevel s" "fp (snd (ldo io c s)) = fp s" "ltrace (snd (ldo io c s)) = ltrace s @ [c]"
  by (simp_all add: ldo_def split_beta)

text \<open>A name that leaves room for the terminator is kept, a longer one cannot be read any more.\<close>

lemma strncpy_text: "NUL \<notin> set str \<Longrightarrow> c_text (strncpy n str) = (if length str < n then Some str else None)"
proof (cases "length str < n")
  case True
  assume "NUL \<notin> set str"
  moreover obtain k where "n - length str = Suc k" using True by (metis Suc_diff_Suc)
  ultimately show ?thesis using True takeWhile_nul [of str "Suc k"] by (simp add: c_text_def strncpy_def padded_def)
next
  case False
  assume "NUL \<notin> set str"
  then show ?thesis using False by (auto simp: c_text_def strncpy_def padded_def dest: in_set_takeD)
qed

text \<open>The path of a log file whose three names have been set.\<close>

definition names_fit :: "string \<Rightarrow> string \<Rightarrow> string \<Rightarrow> bool" where
  "names_fit p f e \<longleftrightarrow> length p < MAX_PATH_LENGTH \<and> length f < MAX_FILENAME \<and> length e < MAX_FILE_EXTN"

definition names_ok :: "string \<Rightarrow> string \<Rightarrow> string \<Rightarrow> bool" where
  "names_ok p f e \<longleftrightarrow> p \<noteq> '''' \<and> f \<noteq> '''' \<and> e \<noteq> '''' \<and> NUL \<notin> set p \<and> NUL \<notin> set f \<and> NUL \<notin> set e"

lemma full_path_eq:
  assumes "names_ok p f e"
  shows "construct_full_path (set_log_filename_extension (Some e) (set_log_filename (Some f) (set_path (Some p) s)))
    = (if names_fit p f e then Some (snprintf MAX_PATH_LENGTH (p @ ''/'' @ f @ ''.'' @ e),
         set_log_filename_extension (Some e) (set_log_filename (Some f) (set_path (Some p) s))) else None)"
proof -
  obtain c q where p: "p = c # q" "c \<noteq> NUL" using assms by (cases p) (auto simp: names_ok_def)
  then have "strncpy MAX_PATH_LENGTH p ! 0 \<noteq> NUL" by (simp add: strncpy_def padded_def mw_consts)
  then show ?thesis
    using assms by (simp add: construct_full_path_def get_path_def set_path_def set_log_filename_def set_log_filename_extension_def given_def names_ok_def
        strncpy_text names_fit_def)
qed

text \<open>
  Opening the log appends to the file that is named, and the level is set, or the error is reported and the level stays. A name that is as long as its array or
  longer is read past the end of the array.
\<close>

lemma log_init_file:
  assumes "names_ok p f e" and "length (p @ ''/'' @ f @ ''.'' @ e) < MAX_PATH_LENGTH" and "names_fit p f e"
  shows "\<exists>rc t. log_init io (Some p) (Some f) (Some e) Level s = Some (rc, t) \<and> FOpen (p @ ''/'' @ f @ ''.'' @ e) ''a'' \<in> set (ltrace t)
    \<and> (if rc = 0 then loglevel t = Level \<and> (\<exists>n. fp t = Some (LogFile n)) else loglevel t = loglevel s \<and> fp t = None)"
proof -
  let ?u = "set_log_filename_extension (Some e) (set_log_filename (Some f) (set_path (Some p) s))"
  have "construct_full_path ?u = Some (p @ ''/'' @ f @ ''.'' @ e, ?u)" using assms full_path_eq [OF assms(1), of s] by simp
  moreover have "loglevel ?u = loglevel s" by (simp add: set_path_def set_log_filename_def set_log_filename_extension_def)
  moreover have "given (Some p)" "given (Some f)" using assms(1) by (simp_all add: given_def names_ok_def)
  ultimately show ?thesis
    by (cases "fst (ldo io (FOpen (p @ ''/'' @ f @ ''.'' @ e) ''a'') (snd (ldo io (FPrint StdErr (''Logging to file: '' @ (p @ ''/'' @ f @ ''.'' @ e) @ [CHR 0x0A])) ?u)))")
      (simp_all add: log_init_def Let_def split_beta log_set_level_def)
qed

lemma log_init_overrun: "names_ok p f e \<Longrightarrow> \<not> names_fit p f e \<Longrightarrow> log_init io (Some p) (Some f) (Some e) Level s = None"
  by (simp add: log_init_def Let_def full_path_eq) (simp add: given_def names_ok_def)

text \<open>An open log gets the messages up to its level, in order and each with its prefix; a log that is not open gets none.\<close>

type_synonym log_message = "nat \<times> string \<times> nat \<times> log_level \<times> string"

fun log_writes :: "'w stdio \<Rightarrow> log_message list \<Rightarrow> 'w logger \<Rightarrow> 'w logger" where
  "log_writes io [] s = s"
| "log_writes io ((pid, hms, usec, Level, msg) # ms) s = log_writes io ms (log_write io pid hms usec Level msg s)"

fun log_record :: "log_stream \<Rightarrow> log_message \<Rightarrow> log_call list" where
  "log_record f (pid, hms, usec, Level, msg)
    = [FPrint f (fmt_u pid @ ''  ['' @ get_timestamp hms usec @ '']  <'' @ fmt_u (log_level_val Level) @ ''>''), FPrint f msg]"

definition shown :: "log_level \<Rightarrow> log_message \<Rightarrow> bool" where
  "shown lv m \<longleftrightarrow> log_level_val (fst (snd (snd (snd m)))) \<le> log_level_val lv"

lemma log_write_eq:
  "ltrace (log_write io pid hms usec Level msg s) = ltrace s @ (case fp s of None \<Rightarrow> []
     | Some f \<Rightarrow> if shown (loglevel s) (pid, hms, usec, Level, msg) then log_record f (pid, hms, usec, Level, msg) else [])"
  "fp (log_write io pid hms usec Level msg s) = fp s" "loglevel (log_write io pid hms usec Level msg s) = loglevel s"
  by (auto simp: log_write_def shown_def Let_def split: option.split)

lemma log_messages:
  "ltrace (log_writes io ms s) = ltrace s @ (case fp s of None \<Rightarrow> [] | Some f \<Rightarrow> concat (map (log_record f) (filter (shown (loglevel s)) ms)))"
  by (induction io ms s rule: log_writes.induct) (auto simp: log_write_eq simp del: log_record.simps split: option.split)

lemma log_closed: "fp (log_close io s) = None"
  by (simp add: log_close_def split: option.split log_stream.split)

text \<open>
  The time is printed with three digits only if fewer than 1000 microseconds have passed in the second: the number after the point is not a fraction of a second.
\<close>

lemma timestamp_digits:
  assumes "length hms = 9" and "usec < 1000000"
  shows "get_timestamp hms usec = hms @ (if usec < 1000 then replicate (3 - length (fmt_u usec)) (CHR ''0'') else []) @ fmt_u usec"
proof -
  have "length (fmt_u usec) \<le> 6" using assms(2) by (intro fmt_length) simp_all
  moreover have "length (fmt_u usec) \<le> 3 \<longleftrightarrow> usec < 1000" using fmt_length_iff [of 10 3 usec] by simp
  ultimately show ?thesis using assms(1) by (auto simp: get_timestamp_def snprintf_def)
qed

end
