(* ===== verification/Spec2Isabelle.thy ===== *)
theory Spec2Isabelle
  imports Ports PvmRead ShimTypes ShimErrors RingSystem NetflowInfo PvmBase Debugfs NpfMem Logging
begin

text \<open>
  A verification development for the MagicWand communications backbone.

  \<^bold>\<open>The program.\<close> MagicWand moves the TCP/IP stack of a protected VM (PVM) into isolated
  network stacks (INS), unikernels on the same Xen host. In the PVM a shim library
  (src/protvm/user/wrapper) replaces the socket functions of libc and writes requests to the files of a
  kernel module (src/protvm/kernel/mwcomms), which puts them on a Xen ring shared with an INS and
  hands the responses back. In the INS a driver (libxenevent in the NetBSD tree) takes requests off
  the ring for the application src/ins/ins-rump/apps/ins-app, which performs them on native NetBSD
  sockets and writes one response per request. Both sides share the protocol of src/common.

  \<^bold>\<open>How the parts interact.\<close>

  \<^item> INS application: one dispatcher thread reserves a buffer, reads a request into it and finds the
    worker thread of its socket; there is one worker per open socket. Some requests are processed by
    the dispatcher itself; the others go into the worker's queue of buffer indices, and a semaphore
    wakes the worker. Processing calls the handler of the request type, writes the response,
    releases the buffer and, for a close or a failed create, the worker. A heartbeat thread reports
    statistics.

  \<^item> PVM kernel module: the Xen interface discovers INSs through XenStore, hands each the grant
    references of a ring and an event channel, and drops an INS whose heartbeat stops. The socket
    layer keeps a socket instance per file and an active request per request in flight. Writing to a
    file sends a request; a consumer thread takes responses off the rings and gives each to the active
    request with its id; reading from the file returns it. A monitor thread polls the INSs. The base
    device creates sockets and starts and stops all parts. An analytics engine connects to the netflow
    channel, a TCP server of the module, and requests features of sockets to be read or changed.

  \<^item> INS driver: it registers with the PVM through XenStore (domain id, grant references, event
    channel), offers the ring as a character device from which the application reads requests and to
    which it writes responses, and publishes heartbeats, statistics and listening ports.

  \<^item> Shim library: each function asks the device whether a descriptor belongs to it, and otherwise
    calls the original function. A send is split into a batch of requests.

  \<^bold>\<open>Conventions.\<close> A C structure is a record with the C field names (with a prefix where
  needed), an enum a datatype or named constants, an integer whose width matters a word; the
  status of a response and a native descriptor are \<open>int\<close>. Operations pass their state
  explicitly: \<open>'w ins_state\<close> for the INS application, \<open>'w mw_xen\<close> for the Xen interface and its
  extension \<open>'w pvm\<close> for the socket layer, \<open>'v netflow\<close> for the netflow channel, \<open>kmod\<close> for the whole
  module, \<open>'w xe_state\<close> for the INS driver, \<open>'w shim\<close> for the library. What is outside the code is a
  parameter of the operations, a function from a call and a state of the world to a result: \<open>os\<close>
  (NetBSD), \<open>ker\<close> (Linux, XenStore and the macros of Xen's ring), \<open>lc\<close> (libc and the device files), \<open>drv\<close> (the kernel below the INS
  driver), \<open>net\<close> (the network of Linux), \<open>lin\<close> (device registration and user memory).
  Nothing is assumed of it except where a theorem names a contract (\<open>send_contract\<close>,
  \<open>send_patience\<close>, \<open>recv_contract\<close>, \<open>intr_patience\<close>, \<open>poll_contract\<close>, \<open>write_ok\<close>, \<open>device_ok\<close>,
  \<open>unreadable\<close>, \<open>xs_serves\<close>, \<open>setup_ok\<close>, \<open>ring_holds\<close>, \<open>net_queue\<close>, \<open>pvm_handles\<close>, \<open>front_ring\<close>, \<open>back_ring\<close> and others defined beside their theorems), and then a witness gives an environment
  that meets it. Each state records all calls in a trace, from which the theorems read what was sent
  and written. Fallible C functions return their return code; a result None is a call that does
  not return (a loop that the environment keeps alive, a semaphore that blocks) or undefined
  behaviour (a null or dangling pointer, an index out of range). No fuel is used: loops are
  structural, have a termination proof, or are partial functions into option whose termination is
  proved from a contract.

  \<^bold>\<open>Theories: shared.\<close>

  \<^item> \<open>Prelude\<close>: integer types, collections of rewrite rules, searching an array, lists updated by
    index, circular indices. \<open>Native\<close>: the constants of NetBSD's headers. \<open>Format\<close>: numbers as text
    and \<open>bmk_strtoul\<close> (libbmk\_core/strtoul.c).

  \<^item> \<open>MwSocket\<close> (mwsocket.h): encoding of a socket descriptor (\<open>mwsocket_roundtrip\<close>).
    \<open>Messages\<close> (message\_types.h, mw\_netflow\_iface.h, common\_config.h.template): types, headers
    and sizes of messages. \<open>Errno\<close> (xe\_get\_mwerrno of xenevent.c, mwerrno.h): error
    numbers. \<open>Translate\<close> (translate.h): address families and socket addresses (a \<open>sockaddr_in\<close>, also for IPv6). \<open>Logging\<close> (logging.c): the log file and the
    messages that it gets.

  \<^bold>\<open>Theories: INS application.\<close>

  \<^item> \<open>WorkQueue\<close> (workqueue.c): the circular array of a worker's queue. The locale
    \<open>bounded_fifo\<close> is the contract of a bounded queue; the array is an interpretation, so any
    run of operations refines a list.

  \<^item> \<open>InsState\<close> (config.h, threadpool.h, bufferpool.h, xenevent\_app\_common.h, and the pool
    functions of xenevent.c): the global state, system calls, reserving and releasing buffers,
    finding the worker of a descriptor.

  \<^item> \<open>Networking\<close> (networking.c and the single poll of pollset.c): all request handlers.
    \<open>Handlers\<close>: the locale \<open>net_handler\<close>, what the dispatcher relies on from every handler (it
    works on its own worker only, keeps pools, queues and locks, writes nothing to the ring, keeps
    descriptors well-formed, and answers the request when it succeeds), interpreted for each of
    the thirteen handlers.

  \<^item> \<open>SendRecv\<close>: the data path. send delivers a prefix of the payload in order, and all of it
    unless it reports an error; recv returns, its response fits its buffer and
    tells a remote close from an idle connection.

  \<^item> \<open>Pollset\<close> (pollset.c): the poll over all sockets reports each ready socket once.

  \<^item> \<open>Pools\<close>: the locale \<open>slot_pool\<close>, interpreted for buffers and worker threads;
    \<open>release_worker_thread\<close>; the lookup of a descriptor is exact.

  \<^item> \<open>Dispatcher\<close> (xenevent.c): definitions of post-processing, \<open>process_buffer_item\<close>,
    \<open>assign_work_to_thread\<close>, the loops of dispatcher, workers and heartbeat, start-up,
    shutdown and main. \<open>Processing\<close>: exactly one response per processed request. \<open>Assignment\<close>: error
    responses of the dispatcher, and two defects: the early release of the oplock and
    the thread that an address block request uses up.

  \<^item> \<open>Scheduler\<close>: the step relation \<open>ins_step\<close> of dispatcher, fifty workers and heartbeat, its
    invariant from a successful start and the unreachable internal errors. \<open>Ports\<close>: the published
    list holds the bound ports and can be read back.

  \<^item> \<open>NpfMem\<close> (memintercept.c of the npfctl library): the record of the allocations of a filter command, what it frees, the blocks from a
    reallocation of NULL that it never frees, and the number of allocations beyond which it leaves its array.

  \<^bold>\<open>Theories: PVM kernel module.\<close>

  \<^item> \<open>Kernel\<close>: the calls of Linux and Xen and the state of the Xen interface. \<open>GrantRefs\<close>
    (mwcomms-xen-iface.c and xenevent\_comms.c): how the grant references are written to XenStore and
    read by the INS driver. \<open>XenIface\<close> (mwcomms-xen-iface.c): XenStore keys, handshake, heartbeats,
    choice of an INS, request slots and responses. \<open>InsTable\<close>: when an INS counts as dead, the
    entry that a failed handshake leaks, the rotation of new sockets until its index overflows, and that every ring with
    responses is served.

  \<^item> \<open>PvmState\<close>, \<open>PvmRequests\<close>, \<open>PvmSocket\<close>, \<open>PvmFile\<close>, \<open>PvmMonitor\<close> (mwcomms-socket.c): the
    operations of the socket layer on explicit stores of socket instances and active requests.
    While a task waits for a response, the response consumer runs.

  \<^item> \<open>PvmStore\<close>: the locale \<open>pvm_store\<close>, a predicate that the primitive operations on the stores
    keep and therefore all operations above them. \<open>PvmInv\<close>: the step relation \<open>pvm_step\<close> and the
    interpretation \<open>refs\<close> for reference counts, and that the search for a request id ends. \<open>PvmErrors\<close>: the interpretation
    \<open>quiet\<close> for pending errors, and the results of sending and of attribute queries. \<open>PvmProps\<close>: a
    response completes its own request only. \<open>PvmRead\<close>: a read returns the response once.

  \<^item> \<open>Netflow\<close> (mwcomms-netflow.c): connections, feature requests, monitor thread. \<open>NetflowProps\<close>: every
    feature request is answered once, and the count of connections. \<open>NetflowInfo\<close> (mwcomms-socket.c): the
    notifications, and why their descriptor cannot be used in a feature request. \<open>PvmBase\<close> (mwcomms-base.c): the device,
    start and end of the module. \<open>Debugfs\<close> (mwcomms-debugfs.c): the counters of messages and the trace of requests; the table of counts equals one specified from
    the messages alone, with its misplaced column and total, and the trace shows the last 500 requests, the most recent first. It has a state of its own, \<open>mw_debugfs\<close>, because no other part reads it.

  \<^bold>\<open>Theories: INS driver.\<close>

  \<^item> \<open>InsDriver\<close> (xenevent\_comms.c, xenevent\_device.c, xenevent\_minios.c, xenevent\_netbsd.c): XenStore
    access, registration, ring and character device. \<open>Handshake\<close>: after the start of the PVM and its
    handling of a new INS, the registration of the INS succeeds with exactly the pages and the port of
    the PVM; it composes \<open>XenIface\<close> and \<open>InsDriver\<close>. \<open>DriverProps\<close>: a heartbeat reaches the entry of its INS in the
    table of the PVM; the device delivers the requests of the ring in order. \<open>InsSystem\<close>: the application of
    the INS on top of the driver; refused requests of the ring are answered in order, a malformed one ends
    the dispatcher.

  \<^item> \<open>RingSystem\<close>: the ring between \<open>XenIface\<close> and \<open>InsDriver\<close>, with the operations of both sides interleaved in any order. The
    macros of Xen are given by the contracts \<open>front_ring\<close> and \<open>back_ring\<close>, with indices of 32 bits that wrap around and slots that requests and
    responses share. Requests and responses pass the ring as two queues.

  \<^bold>\<open>Theories: shim library.\<close>

  \<^item> \<open>Shim\<close> (tcp\_ip\_wrapper.c): the socket functions. \<open>ShimSend\<close>: a batch send writes a
    reference chunking of its buffer, and the count it returns, composed with the summing up of the
    driver. \<open>ShimTypes\<close>: the locale \<open>shim_client\<close> carries a predicate through all
    functions; its interpretation shows that requests are well-formed. \<open>ShimErrors\<close>: results taken
    from the wrong place.

  \<^bold>\<open>Bounds.\<close> The sizes are those of the source: 50 threads, 100 buffers, queues of 100 entries,
  messages of at most 2048 bytes, 3 INSs, 256 pages per ring; no theorem uses smaller ones.

  \<^bold>\<open>Granularity.\<close> A step of \<open>ins_step\<close> is one iteration of a loop body, a step of \<open>pvm_step\<close> one
  operation. Interleavings inside a body, for example two threads between the compare-and-swap and
  the clearing of \<open>assigned_thread\<close> in \<open>release_buffer_item\<close>, are not represented. \<open>pvm_step\<close> leaves
  out accept with what rests on it (replication, siblings) and the work of the monitor on sockets of
  a dead INS; these operations are defined, but not part of the invariant.

  \<^bold>\<open>Not modelled.\<close> The messages that the other parts write to the log, debug builds and asserts (they expand to nothing in the default
  build), resource limits, the disabled network parameters of \<open>xe_net_init\<close>, the time that
  the INS measures under MW\_DEBUGFS, the count of transactions \<open>t_cnt\<close>, with which the trace does not compile, the registration of file systems with Linux, the
  packet filter behind npfctl, whose library is the program of NetBSD except for its record of allocations. Of the repository: the Python
  tools, the prototypes, mini-os and the NetBSD tree outside libxenevent.

  \<^bold>\<open>Open.\<close> Accept and siblings in the invariant of \<open>pvm_step\<close>, and the ring of \<open>RingSystem\<close> as the environment of \<open>pvm_step\<close> and of \<open>ins_step\<close>,
  which would carry a request of a process through both sides to its response.
\<close>

end
